(* ===== verification/Prelude.thy ===== *)
theory Prelude
  imports Main "HOL-Library.Word" "HOL-Library.List_Lexorder" "HOL-Library.Product_Lexorder"
begin

text \<open>
  Shared material of the development: the C integer types as words, byte-level access to
  network-order fields, \<open>memcmp\<close>, the \<open>named_theorems\<close> collections, and the facts about
  them that the component theories use.

  The daemon is built for 32-bit targets (the code copies four bytes of an
  \<open>unsigned long\<close> and reads \<open>long\<close> objects through \<open>ntohl\<close>), so \<open>unsigned long\<close>,
  \<open>unsigned int\<close> and \<open>int\<close> are 32 bits wide.
\<close>

unbundle bit_operations_syntax

type_synonym u8 = "8 word"
type_synonym u16 = "16 word"
type_synonym u32 = "32 word"

named_theorems be_simps \<open>big-endian field access\<close>
named_theorems vec_simps \<open>definitions of the vector comparison\<close>

lemma length_le_1:
  assumes "distinct xs" and eq: "\<And>x y. x \<in> set xs \<Longrightarrow> y \<in> set xs \<Longrightarrow> x = y"
  shows "length xs \<le> 1"
proof (cases xs rule: remdups_adj.cases)
  case (3 x y zs)
  then show ?thesis using \<open>distinct xs\<close> eq [of x y] by simp
qed simp_all

subsection \<open>memcmp\<close>

text \<open>Only the sign of the result of \<open>memcmp\<close> is used by the code.\<close>

fun memcmp :: "nat \<Rightarrow> u8 list \<Rightarrow> u8 list \<Rightarrow> int" where
  "memcmp (Suc n) (x # xs) (y # ys) =
     (if x < y then - 1 else if y < x then 1 else memcmp n xs ys)"
| "memcmp _ _ _ = 0"

lemma memcmp_antisym: "memcmp n xs ys = - memcmp n ys xs"
  by (induction n xs ys rule: memcmp.induct) auto

lemma memcmp_refl [simp]: "memcmp n xs xs = 0"
  using memcmp_antisym [of n xs xs] by simp

lemma memcmp_range: "memcmp n xs ys \<in> {- 1, 0, 1}"
  by (induction n xs ys rule: memcmp.induct) auto

lemma memcmp_less_iff:
  "length xs = n \<Longrightarrow> length ys = n \<Longrightarrow> memcmp n xs ys < 0 \<longleftrightarrow> xs < ys"
  by (induction n xs ys rule: memcmp.induct) auto

lemma memcmp_zero_iff:
  "length xs = n \<Longrightarrow> length ys = n \<Longrightarrow> memcmp n xs ys = 0 \<longleftrightarrow> xs = ys"
  by (induction n xs ys rule: memcmp.induct) auto

subsection \<open>Network byte order\<close>

definition be16 :: "u8 \<Rightarrow> u8 \<Rightarrow> u16" where
  "be16 a b = push_bit 8 (ucast a) OR ucast b"

definition be32 :: "u8 \<Rightarrow> u8 \<Rightarrow> u8 \<Rightarrow> u8 \<Rightarrow> u32" where
  "be32 a b c d = push_bit 16 (ucast (be16 a b)) OR ucast (be16 c d)"

text \<open>\<open>ntohs\<close> and \<open>ntohl\<close> of the bytes at an address; \<open>htons\<close> and \<open>htonl\<close> stored there.\<close>

definition ntohs :: "u8 list \<Rightarrow> u16" where
  "ntohs f = be16 (f ! 0) (f ! 1)"

definition ntohl :: "u8 list \<Rightarrow> u32" where
  "ntohl f = be32 (f ! 0) (f ! 1) (f ! 2) (f ! 3)"

definition htons :: "u16 \<Rightarrow> u8 list" where
  "htons w = [ucast (drop_bit 8 w), ucast w]"

definition htonl :: "u32 \<Rightarrow> u8 list" where
  "htonl w = htons (ucast (drop_bit 16 w)) @ htons (ucast w)"

lemma length_htons [simp]: "length (htons w) = 2"
  by (simp add: htons_def)

lemma length_htonl [simp]: "length (htonl w) = 4"
  by (simp add: htonl_def)

lemma ntohs_htons [simp, be_simps]: "ntohs (htons w @ xs) = w"
  by (rule bit_word_eqI) (auto simp: ntohs_def htons_def be16_def bit_simps)

lemma ntohl_htonl [simp, be_simps]: "ntohl (htonl w @ xs) = w"
proof -
  have be: "be16 (ucast (drop_bit 8 v)) (ucast v) = v" for v :: u16
    using ntohs_htons [of v "[]"] by (simp add: ntohs_def htons_def)
  have "push_bit 16 (ucast (ucast (drop_bit 16 w) :: u16)) OR ucast (ucast w :: u16) = w"
    by (rule bit_word_eqI) (auto simp: bit_simps)
  then show ?thesis
    by (simp add: ntohl_def htonl_def htons_def be32_def be)
qed

lemma ntohs_htons' [simp, be_simps]: "ntohs (htons w) = w"
  using ntohs_htons [of w "[]"] by simp

lemma ntohl_htonl' [simp, be_simps]: "ntohl (htonl w) = w"
  using ntohl_htonl [of w "[]"] by simp


end
