(* ===== verification/StpBpdu.thy ===== *)
theory StpBpdu
  imports Prelude
begin

text \<open>
  The BPDU formats of \<open>stp_bpdu.h\<close>. Every member of the C structures is an array of
  \<open>unsigned char\<close>, so a structure has no padding and its memory image is the
  concatenation of its members. A \<open>_bytes\<close> function is that image and a \<open>_view\<close> function
  is the pointer cast the code uses to read a received frame: it reads the members at
  their offsets. The receive buffer is cleared before every packet
  (\<open>stp_uid_read_socket\<close>), so bytes past the received ones read as zero.
\<close>

definition slice :: "nat \<Rightarrow> nat \<Rightarrow> u8 list \<Rightarrow> u8 list" where
  "slice off n f = take n (drop off f @ replicate n 0)"

definition byte_at :: "nat \<Rightarrow> u8 list \<Rightarrow> u8" where
  "byte_at i f = (if i < length f then f ! i else 0)"

lemma length_slice [simp]: "length (slice off n f) = n"
  by (simp add: slice_def)

lemma slice_append_right:
  "length xs \<le> off \<Longrightarrow> slice off n (xs @ ys) = slice (off - length xs) n ys"
  by (simp add: slice_def)

lemma slice_append_left: "length xs = n \<Longrightarrow> slice 0 n (xs @ ys) = xs"
  by (simp add: slice_def)

lemma slice_all: "length xs = n \<Longrightarrow> slice 0 n xs = xs"
  by (simp add: slice_def)

lemma byte_at_append_right:
  "length xs \<le> i \<Longrightarrow> byte_at i (xs @ ys) = byte_at (i - length xs) ys"
  by (auto simp: byte_at_def nth_append)

lemma byte_at_append_left: "i < length xs \<Longrightarrow> byte_at i (xs @ ys) = xs ! i"
  by (simp add: byte_at_def nth_append)

lemma byte_at_Cons: "byte_at i (x # xs) = (if i = 0 then x else byte_at (i - 1) xs)"
  by (auto simp: byte_at_def nth_Cons')

lemma slice_Cons: "0 < off \<Longrightarrow> slice off n (x # xs) = slice (off - 1) n xs"
  by (cases off) (auto simp: slice_def)

lemmas layout_simps = slice_append_right slice_append_left slice_all
  byte_at_append_right byte_at_append_left byte_at_Cons slice_Cons

subsection \<open>Constants\<close>

abbreviation (input) MIN_BPDU :: nat where "MIN_BPDU \<equiv> 7"
abbreviation (input) BPDU_L_SAP :: u8 where "BPDU_L_SAP \<equiv> 0x42"
abbreviation (input) LLC_UI :: u8 where "LLC_UI \<equiv> 0x03"
abbreviation (input) BPDU_VERSION_ID :: u8 where "BPDU_VERSION_ID \<equiv> 0x00"
abbreviation (input) BPDU_VERSION_RAPID_ID :: u8 where "BPDU_VERSION_RAPID_ID \<equiv> 0x02"
abbreviation (input) BPDU_VERSION_MULTI_ID :: u8 where "BPDU_VERSION_MULTI_ID \<equiv> 0x03"
abbreviation (input) BPDU_TOPO_CHANGE_TYPE :: u8 where "BPDU_TOPO_CHANGE_TYPE \<equiv> 0x80"
abbreviation (input) BPDU_CONFIG_TYPE :: u8 where "BPDU_CONFIG_TYPE \<equiv> 0x00"
abbreviation (input) BPDU_RSTP :: u8 where "BPDU_RSTP \<equiv> 0x02"
abbreviation (input) BPDU_MSTP :: u8 where "BPDU_MSTP \<equiv> 0x03"
abbreviation (input) TOLPLOGY_CHANGE_BIT :: u8 where "TOLPLOGY_CHANGE_BIT \<equiv> 0x01"
abbreviation (input) PROPOSAL_BIT :: u8 where "PROPOSAL_BIT \<equiv> 0x02"
abbreviation (input) PORT_ROLE_OFFS :: nat where "PORT_ROLE_OFFS \<equiv> 2"
abbreviation (input) PORT_ROLE_MASK :: u8 where "PORT_ROLE_MASK \<equiv> 0x0c"
abbreviation (input) LEARN_BIT :: u8 where "LEARN_BIT \<equiv> 0x10"
abbreviation (input) FORWARD_BIT :: u8 where "FORWARD_BIT \<equiv> 0x20"
abbreviation (input) AGREEMENT_BIT :: u8 where "AGREEMENT_BIT \<equiv> 0x40"
abbreviation (input) TOLPLOGY_CHANGE_ACK_BIT :: u8 where "TOLPLOGY_CHANGE_ACK_BIT \<equiv> 0x80"
abbreviation (input) MASTER_BIT :: u8 where "MASTER_BIT \<equiv> 0x80"
abbreviation (input) RSTP_PORT_ROLE_UNKN :: u8 where "RSTP_PORT_ROLE_UNKN \<equiv> 0x00"
abbreviation (input) MSTP_PORT_ROLE_MASTER :: u8 where "MSTP_PORT_ROLE_MASTER \<equiv> 0x00"
abbreviation (input) RSTP_PORT_ROLE_ALTBACK :: u8 where "RSTP_PORT_ROLE_ALTBACK \<equiv> 0x01"
abbreviation (input) RSTP_PORT_ROLE_ROOT :: u8 where "RSTP_PORT_ROLE_ROOT \<equiv> 0x02"
abbreviation (input) RSTP_PORT_ROLE_DESGN :: u8 where "RSTP_PORT_ROLE_DESGN \<equiv> 0x03"

subsection \<open>Headers and the configuration body\<close>

record MAC_HEADER_T =
  dst_mac :: "u8 list"
  src_mac :: "u8 list"

record ETH_HEADER_T =
  len8023 :: "u8 list"
  dsap :: u8
  ssap :: u8
  llc :: u8

record BPDU_HEADER_T =
  protocol :: "u8 list"
  version :: u8
  bpdu_type :: u8

record BPDU_BODY_T =
  b_flags :: u8
  b_root_id :: "u8 list"
  b_root_path_cost :: "u8 list"
  b_bridge_id :: "u8 list"
  b_port_id :: "u8 list"
  b_message_age :: "u8 list"
  b_max_age :: "u8 list"
  b_hello_time :: "u8 list"
  b_forward_delay :: "u8 list"

definition mac_bytes :: "MAC_HEADER_T \<Rightarrow> u8 list" where
  "mac_bytes m = dst_mac m @ src_mac m"

definition eth_bytes :: "ETH_HEADER_T \<Rightarrow> u8 list" where
  "eth_bytes e = len8023 e @ [dsap e, ssap e, llc e]"

definition hdr_bytes :: "BPDU_HEADER_T \<Rightarrow> u8 list" where
  "hdr_bytes h = protocol h @ [version h, bpdu_type h]"

definition body_bytes :: "BPDU_BODY_T \<Rightarrow> u8 list" where
  "body_bytes b = b_flags b # b_root_id b @ b_root_path_cost b @ b_bridge_id b @ b_port_id b
     @ b_message_age b @ b_max_age b @ b_hello_time b @ b_forward_delay b"

definition mac_view :: "u8 list \<Rightarrow> MAC_HEADER_T" where
  "mac_view f = \<lparr>dst_mac = slice 0 6 f, src_mac = slice 6 6 f\<rparr>"

definition eth_view :: "u8 list \<Rightarrow> ETH_HEADER_T" where
  "eth_view f = \<lparr>len8023 = slice 12 2 f, dsap = byte_at 14 f, ssap = byte_at 15 f, llc = byte_at 16 f\<rparr>"

definition hdr_view :: "u8 list \<Rightarrow> BPDU_HEADER_T" where
  "hdr_view f = \<lparr>protocol = slice 17 2 f, version = byte_at 19 f, bpdu_type = byte_at 20 f\<rparr>"

definition body_view :: "u8 list \<Rightarrow> BPDU_BODY_T" where
  "body_view f =
     \<lparr>b_flags = byte_at 21 f, b_root_id = slice 22 8 f, b_root_path_cost = slice 30 4 f,
      b_bridge_id = slice 34 8 f, b_port_id = slice 42 2 f, b_message_age = slice 44 2 f,
      b_max_age = slice 46 2 f, b_hello_time = slice 48 2 f, b_forward_delay = slice 50 2 f\<rparr>"

definition mac_ok :: "MAC_HEADER_T \<Rightarrow> bool" where
  "mac_ok m \<longleftrightarrow> length (dst_mac m) = 6 \<and> length (src_mac m) = 6"

definition eth_ok :: "ETH_HEADER_T \<Rightarrow> bool" where
  "eth_ok e \<longleftrightarrow> length (len8023 e) = 2"

definition hdr_ok :: "BPDU_HEADER_T \<Rightarrow> bool" where
  "hdr_ok h \<longleftrightarrow> length (protocol h) = 2"

definition body_ok :: "BPDU_BODY_T \<Rightarrow> bool" where
  "body_ok b \<longleftrightarrow> length (b_root_id b) = 8 \<and> length (b_root_path_cost b) = 4 \<and>
     length (b_bridge_id b) = 8 \<and> length (b_port_id b) = 2 \<and> length (b_message_age b) = 2 \<and>
     length (b_max_age b) = 2 \<and> length (b_hello_time b) = 2 \<and> length (b_forward_delay b) = 2"

lemma length_mac_bytes: "mac_ok m \<Longrightarrow> length (mac_bytes m) = 12"
  by (simp add: mac_ok_def mac_bytes_def)

lemma length_eth_bytes: "eth_ok e \<Longrightarrow> length (eth_bytes e) = 5"
  by (simp add: eth_ok_def eth_bytes_def)

lemma length_hdr_bytes: "hdr_ok h \<Longrightarrow> length (hdr_bytes h) = 4"
  by (simp add: hdr_ok_def hdr_bytes_def)

lemma length_body_bytes: "body_ok b \<Longrightarrow> length (body_bytes b) = 31"
  by (simp add: body_ok_def body_bytes_def)

lemmas header_lengths = length_mac_bytes length_eth_bytes length_hdr_bytes length_body_bytes

definition frame_head :: "MAC_HEADER_T \<Rightarrow> ETH_HEADER_T \<Rightarrow> BPDU_HEADER_T \<Rightarrow> BPDU_BODY_T \<Rightarrow> u8 list" where
  "frame_head m e h b = mac_bytes m @ eth_bytes e @ hdr_bytes h @ body_bytes b"

lemma length_frame_head:
  "mac_ok m \<Longrightarrow> eth_ok e \<Longrightarrow> hdr_ok h \<Longrightarrow> body_ok b \<Longrightarrow> length (frame_head m e h b) = 52"
  by (simp add: frame_head_def header_lengths)

lemma mac_view_head: "mac_ok m \<Longrightarrow> mac_view (frame_head m e h b @ xs) = m"
  by (simp add: mac_view_def frame_head_def mac_bytes_def mac_ok_def layout_simps)

lemma eth_view_head: "mac_ok m \<Longrightarrow> eth_ok e \<Longrightarrow> eth_view (frame_head m e h b @ xs) = e"
  by (simp add: eth_view_def frame_head_def length_mac_bytes eth_bytes_def eth_ok_def layout_simps)

lemma hdr_view_head:
  "mac_ok m \<Longrightarrow> eth_ok e \<Longrightarrow> hdr_ok h \<Longrightarrow> hdr_view (frame_head m e h b @ xs) = h"
  by (simp add: hdr_view_def frame_head_def length_mac_bytes length_eth_bytes hdr_bytes_def
      hdr_ok_def layout_simps)

lemma body_view_head:
  "mac_ok m \<Longrightarrow> eth_ok e \<Longrightarrow> hdr_ok h \<Longrightarrow> body_ok b \<Longrightarrow> body_view (frame_head m e h b @ xs) = b"
  by (simp add: body_view_def frame_head_def length_mac_bytes length_eth_bytes length_hdr_bytes
      body_bytes_def body_ok_def layout_simps)

lemmas head_views = mac_view_head eth_view_head hdr_view_head body_view_head

subsection \<open>The MST BPDU\<close>

record MSTI_CFG_MSG_T =
  msti_flags :: u8
  msti_region_root_id :: "u8 list"
  msti_internal_root_path_cost :: "u8 list"
  msti_bridge_priority :: u8
  msti_port_priority :: u8
  msti_remaining_hops :: u8

record MST_CFG_ID_S =
  FormatSelector :: u8
  ConfigurationName :: "u8 list"
  RevisionLevel :: "u8 list"
  ConfigurationDigest :: "u8 list"

record MSTP_BPDU_T =
  mac :: MAC_HEADER_T
  eth :: ETH_HEADER_T
  hdr :: BPDU_HEADER_T
  body :: BPDU_BODY_T
  ver_1_len :: u8
  version_3_length :: "u8 list"
  MSTCID :: MST_CFG_ID_S
  cist_inter_path_cost :: "u8 list"
  cist_bridge_id :: "u8 list"
  cist_remaining_hops :: u8
  MCfgMsg :: "MSTI_CFG_MSG_T list"

definition msti_bytes :: "MSTI_CFG_MSG_T \<Rightarrow> u8 list" where
  "msti_bytes m = msti_flags m # msti_region_root_id m @ msti_internal_root_path_cost m
     @ [msti_bridge_priority m, msti_port_priority m, msti_remaining_hops m]"

definition mstcid_bytes :: "MST_CFG_ID_S \<Rightarrow> u8 list" where
  "mstcid_bytes c = FormatSelector c # ConfigurationName c @ RevisionLevel c @ ConfigurationDigest c"

definition mstp_bytes :: "MSTP_BPDU_T \<Rightarrow> u8 list" where
  "mstp_bytes p = frame_head (mac p) (eth p) (hdr p) (body p)
     @ ver_1_len p # version_3_length p @ mstcid_bytes (MSTCID p) @ cist_inter_path_cost p
     @ cist_bridge_id p @ cist_remaining_hops p # concat (map msti_bytes (MCfgMsg p))"

definition msti_of :: "u8 list \<Rightarrow> MSTI_CFG_MSG_T" where
  "msti_of f =
     \<lparr>msti_flags = byte_at 0 f, msti_region_root_id = slice 1 8 f,
      msti_internal_root_path_cost = slice 9 4 f, msti_bridge_priority = byte_at 13 f,
      msti_port_priority = byte_at 14 f, msti_remaining_hops = byte_at 15 f\<rparr>"

text \<open>\<open>&b->MCfgMsg[i]\<close> of a received frame.\<close>

definition msti_view :: "nat \<Rightarrow> u8 list \<Rightarrow> MSTI_CFG_MSG_T" where
  "msti_view i f = msti_of (drop (119 + 16 * i) f)"

definition mstcid_view :: "u8 list \<Rightarrow> MST_CFG_ID_S" where
  "mstcid_view f =
     \<lparr>FormatSelector = byte_at 55 f, ConfigurationName = slice 56 32 f,
      RevisionLevel = slice 88 2 f, ConfigurationDigest = slice 90 16 f\<rparr>"

definition mstp_view :: "u8 list \<Rightarrow> MSTP_BPDU_T" where
  "mstp_view f =
     \<lparr>mac = mac_view f, eth = eth_view f, hdr = hdr_view f, body = body_view f,
      ver_1_len = byte_at 52 f, version_3_length = slice 53 2 f, MSTCID = mstcid_view f,
      cist_inter_path_cost = slice 106 4 f, cist_bridge_id = slice 110 8 f,
      cist_remaining_hops = byte_at 118 f, MCfgMsg = map (\<lambda>i. msti_view i f) [0..<64]\<rparr>"

definition msti_ok :: "MSTI_CFG_MSG_T \<Rightarrow> bool" where
  "msti_ok m \<longleftrightarrow> length (msti_region_root_id m) = 8 \<and> length (msti_internal_root_path_cost m) = 4"

definition mstcid_ok :: "MST_CFG_ID_S \<Rightarrow> bool" where
  "mstcid_ok c \<longleftrightarrow> length (ConfigurationName c) = 32 \<and> length (RevisionLevel c) = 2 \<and>
     length (ConfigurationDigest c) = 16"

definition mstp_ok :: "MSTP_BPDU_T \<Rightarrow> bool" where
  "mstp_ok p \<longleftrightarrow> mac_ok (mac p) \<and> eth_ok (eth p) \<and> hdr_ok (hdr p) \<and> body_ok (body p) \<and>
     length (version_3_length p) = 2 \<and> mstcid_ok (MSTCID p) \<and> length (cist_inter_path_cost p) = 4 \<and>
     length (cist_bridge_id p) = 8 \<and> length (MCfgMsg p) = 64 \<and> (\<forall>m \<in> set (MCfgMsg p). msti_ok m)"

lemma length_msti_bytes: "msti_ok m \<Longrightarrow> length (msti_bytes m) = 16"
  by (simp add: msti_ok_def msti_bytes_def)

lemma length_mstcid_bytes: "mstcid_ok c \<Longrightarrow> length (mstcid_bytes c) = 51"
  by (simp add: mstcid_ok_def mstcid_bytes_def)

lemma length_concat_const:
  "(\<And>x. x \<in> set xs \<Longrightarrow> length (f x) = n) \<Longrightarrow> length (concat (map f xs)) = n * length xs"
  by (induction xs) auto

lemma drop_concat_const:
  assumes "\<And>x. x \<in> set xs \<Longrightarrow> length (f x) = n" and "i < length xs"
  shows "drop (n * i) (concat (map f xs)) = f (xs ! i) @ concat (map f (drop (Suc i) xs))"
  using assms
proof (induction xs arbitrary: i)
  case Nil
  then show ?case by simp
next
  case (Cons x xs)
  then show ?case by (cases i) (auto simp: add.commute)
qed

lemma msti_of_bytes: "msti_ok m \<Longrightarrow> msti_of (msti_bytes m @ xs) = m"
  by (simp add: msti_of_def msti_bytes_def msti_ok_def layout_simps)

lemma msti_view_bytes:
  assumes ok: "\<forall>m \<in> set ms. msti_ok m" and i: "i < length ms" and pre: "length pre = 119"
  shows "msti_view i (pre @ concat (map msti_bytes ms)) = ms ! i"
  using drop_concat_const [of ms msti_bytes 16 i] assms
  by (simp add: msti_view_def length_msti_bytes msti_of_bytes)

definition mstp_prefix :: "MSTP_BPDU_T \<Rightarrow> u8 list" where
  "mstp_prefix p = ver_1_len p # version_3_length p @ mstcid_bytes (MSTCID p)
     @ cist_inter_path_cost p @ cist_bridge_id p @ [cist_remaining_hops p]"

lemma mstp_bytes_alt:
  "mstp_bytes p = frame_head (mac p) (eth p) (hdr p) (body p) @ mstp_prefix p
     @ concat (map msti_bytes (MCfgMsg p))"
  by (simp add: mstp_bytes_def mstp_prefix_def)

lemma length_mstp_prefix: "mstp_ok p \<Longrightarrow> length (mstp_prefix p) = 67"
  by (simp add: mstp_prefix_def mstp_ok_def length_mstcid_bytes)

lemma length_mstp_bytes: "mstp_ok p \<Longrightarrow> length (mstp_bytes p) = 1143"
  by (simp add: mstp_bytes_alt length_mstp_prefix)
    (simp add: mstp_ok_def length_frame_head length_concat_const [of _ msti_bytes 16] length_msti_bytes)

lemma mstcid_view_prefix:
  assumes "mstp_ok p" and "length pre = 52"
  shows "mstcid_view (pre @ mstp_prefix p @ xs) = MSTCID p"
  using assms
  by (simp add: mstcid_view_def mstp_ok_def mstp_prefix_def mstcid_ok_def mstcid_bytes_def layout_simps)

lemma mstp_fields_prefix:
  assumes "mstp_ok p" and "length pre = 52"
  shows "byte_at 52 (pre @ mstp_prefix p @ xs) = ver_1_len p"
    and "slice 53 2 (pre @ mstp_prefix p @ xs) = version_3_length p"
    and "slice 106 4 (pre @ mstp_prefix p @ xs) = cist_inter_path_cost p"
    and "slice 110 8 (pre @ mstp_prefix p @ xs) = cist_bridge_id p"
    and "byte_at 118 (pre @ mstp_prefix p @ xs) = cist_remaining_hops p"
  using assms
  by (simp_all add: mstp_ok_def mstp_prefix_def length_mstcid_bytes layout_simps)

lemma msti_view_mstp:
  assumes "mstp_ok p" and "i < 64"
  shows "msti_view i (mstp_bytes p) = MCfgMsg p ! i"
  using assms msti_view_bytes [of "MCfgMsg p" i "frame_head (mac p) (eth p) (hdr p) (body p) @ mstp_prefix p"]
    length_mstp_prefix [of p]
  by (simp add: mstp_bytes_alt) (simp add: mstp_ok_def length_frame_head)

lemma mstp_view_bytes: "mstp_ok p \<Longrightarrow> mstp_view (mstp_bytes p) = p"
proof -
  assume ok: "mstp_ok p"
  let ?h = "frame_head (mac p) (eth p) (hdr p) (body p)"
  have h: "length ?h = 52" using ok by (simp add: mstp_ok_def length_frame_head)
  have head: "mac_view (mstp_bytes p) = mac p" "eth_view (mstp_bytes p) = eth p"
      "hdr_view (mstp_bytes p) = hdr p" "body_view (mstp_bytes p) = body p"
    using ok by (simp_all add: mstp_bytes_alt mstp_ok_def head_views)
  have "map (\<lambda>i. msti_view i (mstp_bytes p)) [0..<64] = MCfgMsg p"
    using ok by (intro nth_equalityI) (simp_all add: msti_view_mstp, simp add: mstp_ok_def)
  then show ?thesis
    using head mstp_fields_prefix [OF ok h] mstcid_view_prefix [OF ok h]
    by (simp add: mstp_view_def) (simp add: mstp_bytes_alt)
qed

subsection \<open>The Cisco MST BPDU\<close>

record MSTI_Cisco_CFG_MST_T =
  mc_msti_id :: u8
  mc_msti_flags :: u8
  mc_msti_region_root_id :: "u8 list"
  mc_msti_internal_root_path_cost :: "u8 list"
  mc_msti_bridge_priority :: "u8 list"
  mc_msti_port_priority :: "u8 list"
  mc_msti_remaining_hops :: u8
  mc_rsvd :: u8

record MST_Cisco_CFG_ID_S =
  c_ConfigurationName :: "u8 list"
  c_RevisionLevel :: "u8 list"
  c_ConfigurationDigest :: "u8 list"

record MSTP_Cisco_BPDU_T =
  c_mac :: MAC_HEADER_T
  c_eth :: ETH_HEADER_T
  c_hdr :: BPDU_HEADER_T
  c_body :: BPDU_BODY_T
  c_ver_1_len :: u8
  c_rsvd1 :: u8
  c_version_3_length :: "u8 list"
  ciscoMSTID :: MST_Cisco_CFG_ID_S
  cist_region_root_id :: "u8 list"
  c_cist_inter_path_cost :: "u8 list"
  c_cist_remaining_hops :: u8
  c_rsvd2 :: u8
  c_MCfgMsg :: "MSTI_Cisco_CFG_MST_T list"

definition mc_bytes :: "MSTI_Cisco_CFG_MST_T \<Rightarrow> u8 list" where
  "mc_bytes m = mc_msti_id m # mc_msti_flags m # mc_msti_region_root_id m
     @ mc_msti_internal_root_path_cost m @ mc_msti_bridge_priority m @ mc_msti_port_priority m
     @ [mc_msti_remaining_hops m, mc_rsvd m]"

definition cisco_prefix :: "MSTP_Cisco_BPDU_T \<Rightarrow> u8 list" where
  "cisco_prefix p = c_ver_1_len p # c_rsvd1 p # c_version_3_length p
     @ c_ConfigurationName (ciscoMSTID p) @ c_RevisionLevel (ciscoMSTID p)
     @ c_ConfigurationDigest (ciscoMSTID p) @ cist_region_root_id p
     @ c_cist_inter_path_cost p @ [c_cist_remaining_hops p, c_rsvd2 p]"

definition cisco_bytes :: "MSTP_Cisco_BPDU_T \<Rightarrow> u8 list" where
  "cisco_bytes p = frame_head (c_mac p) (c_eth p) (c_hdr p) (c_body p) @ cisco_prefix p
     @ concat (map mc_bytes (c_MCfgMsg p))"

definition mc_of :: "u8 list \<Rightarrow> MSTI_Cisco_CFG_MST_T" where
  "mc_of f =
     \<lparr>mc_msti_id = byte_at 0 f, mc_msti_flags = byte_at 1 f, mc_msti_region_root_id = slice 2 8 f,
      mc_msti_internal_root_path_cost = slice 10 4 f, mc_msti_bridge_priority = slice 14 8 f,
      mc_msti_port_priority = slice 22 2 f, mc_msti_remaining_hops = byte_at 24 f,
      mc_rsvd = byte_at 25 f\<rparr>"

definition mc_view :: "nat \<Rightarrow> u8 list \<Rightarrow> MSTI_Cisco_CFG_MST_T" where
  "mc_view i f = mc_of (drop (120 + 26 * i) f)"

definition cisco_view :: "u8 list \<Rightarrow> MSTP_Cisco_BPDU_T" where
  "cisco_view f =
     \<lparr>c_mac = mac_view f, c_eth = eth_view f, c_hdr = hdr_view f, c_body = body_view f,
      c_ver_1_len = byte_at 52 f, c_rsvd1 = byte_at 53 f, c_version_3_length = slice 54 2 f,
      ciscoMSTID = \<lparr>c_ConfigurationName = slice 56 32 f, c_RevisionLevel = slice 88 2 f,
                    c_ConfigurationDigest = slice 90 16 f\<rparr>,
      cist_region_root_id = slice 106 8 f, c_cist_inter_path_cost = slice 114 4 f,
      c_cist_remaining_hops = byte_at 118 f, c_rsvd2 = byte_at 119 f,
      c_MCfgMsg = map (\<lambda>i. mc_view i f) [0..<64]\<rparr>"

definition mc_ok :: "MSTI_Cisco_CFG_MST_T \<Rightarrow> bool" where
  "mc_ok m \<longleftrightarrow> length (mc_msti_region_root_id m) = 8 \<and>
     length (mc_msti_internal_root_path_cost m) = 4 \<and> length (mc_msti_bridge_priority m) = 8 \<and>
     length (mc_msti_port_priority m) = 2"

definition cisco_ok :: "MSTP_Cisco_BPDU_T \<Rightarrow> bool" where
  "cisco_ok p \<longleftrightarrow> mac_ok (c_mac p) \<and> eth_ok (c_eth p) \<and> hdr_ok (c_hdr p) \<and> body_ok (c_body p) \<and>
     length (c_version_3_length p) = 2 \<and> length (c_ConfigurationName (ciscoMSTID p)) = 32 \<and>
     length (c_RevisionLevel (ciscoMSTID p)) = 2 \<and>
     length (c_ConfigurationDigest (ciscoMSTID p)) = 16 \<and> length (cist_region_root_id p) = 8 \<and>
     length (c_cist_inter_path_cost p) = 4 \<and> length (c_MCfgMsg p) = 64 \<and>
     (\<forall>m \<in> set (c_MCfgMsg p). mc_ok m)"

lemma length_mc_bytes: "mc_ok m \<Longrightarrow> length (mc_bytes m) = 26"
  by (simp add: mc_ok_def mc_bytes_def)

lemma mc_of_bytes: "mc_ok m \<Longrightarrow> mc_of (mc_bytes m @ xs) = m"
  by (simp add: mc_of_def mc_bytes_def mc_ok_def layout_simps)

lemma length_cisco_prefix: "cisco_ok p \<Longrightarrow> length (cisco_prefix p) = 68"
  by (simp add: cisco_prefix_def cisco_ok_def)

lemma mc_view_cisco:
  assumes "cisco_ok p" and "i < 64"
  shows "mc_view i (cisco_bytes p) = c_MCfgMsg p ! i"
  using assms drop_concat_const [of "c_MCfgMsg p" mc_bytes 26 i] length_cisco_prefix [of p]
  by (simp add: cisco_bytes_def mc_view_def)
    (simp add: cisco_ok_def length_frame_head length_mc_bytes mc_of_bytes)

lemma cisco_fields_prefix:
  assumes "cisco_ok p" and "length pre = 52"
  shows "byte_at 52 (pre @ cisco_prefix p @ xs) = c_ver_1_len p"
    and "byte_at 53 (pre @ cisco_prefix p @ xs) = c_rsvd1 p"
    and "slice 54 2 (pre @ cisco_prefix p @ xs) = c_version_3_length p"
    and "slice 56 32 (pre @ cisco_prefix p @ xs) = c_ConfigurationName (ciscoMSTID p)"
    and "slice 88 2 (pre @ cisco_prefix p @ xs) = c_RevisionLevel (ciscoMSTID p)"
    and "slice 90 16 (pre @ cisco_prefix p @ xs) = c_ConfigurationDigest (ciscoMSTID p)"
    and "slice 106 8 (pre @ cisco_prefix p @ xs) = cist_region_root_id p"
    and "slice 114 4 (pre @ cisco_prefix p @ xs) = c_cist_inter_path_cost p"
    and "byte_at 118 (pre @ cisco_prefix p @ xs) = c_cist_remaining_hops p"
    and "byte_at 119 (pre @ cisco_prefix p @ xs) = c_rsvd2 p"
  using assms by (simp_all add: cisco_ok_def cisco_prefix_def layout_simps)

lemma cisco_view_bytes: "cisco_ok p \<Longrightarrow> cisco_view (cisco_bytes p) = p"
proof -
  assume ok: "cisco_ok p"
  let ?h = "frame_head (c_mac p) (c_eth p) (c_hdr p) (c_body p)"
  have h: "length ?h = 52" using ok by (simp add: cisco_ok_def length_frame_head)
  have head: "mac_view (cisco_bytes p) = c_mac p" "eth_view (cisco_bytes p) = c_eth p"
      "hdr_view (cisco_bytes p) = c_hdr p" "body_view (cisco_bytes p) = c_body p"
    using ok by (simp_all add: cisco_bytes_def cisco_ok_def head_views)
  have "map (\<lambda>i. mc_view i (cisco_bytes p)) [0..<64] = c_MCfgMsg p"
    using ok by (intro nth_equalityI) (simp_all add: mc_view_cisco, simp add: cisco_ok_def)
  then show ?thesis
    using head cisco_fields_prefix [OF ok h]
    by (simp add: cisco_view_def) (simp add: cisco_bytes_def)
qed

end
