(* ===== verification/StpVector.thy ===== *)
theory StpVector
  imports StpBpdu
begin

text \<open>
  Priority vectors (\<open>stp_vector.c\<close>, \<open>stp_vector.h\<close>) and times (\<open>stp_times.c\<close>,
  \<open>stp_times.h\<close>): the comparison functions, the encoding into a BPDU body and the decoding
  from it. The functions of \<open>stp_vector.c\<close> that read a port are with the transmit machine.

  The interface the role selection relies on is the locale \<open>priority_order\<close>: a C-style
  comparison function that is a total order. It is interpreted on the bridge identifier,
  vector and times comparisons.
\<close>

subsection \<open>Data\<close>

record BRIDGE_ID =
  prio :: u16
  addr :: "u8 list"

type_synonym PORT_ID = u16

record PRIO_VECTOR_T =
  root_bridge :: BRIDGE_ID
  root_path_cost :: u32
  region_root_bridge :: BRIDGE_ID
  region_root_path_cost :: u32
  design_bridge :: BRIDGE_ID
  design_port :: PORT_ID
  bridge_port :: PORT_ID

record TIMEVALUES_T =
  MessageAge :: u16
  MaxAge :: u16
  ForwardDelay :: u16
  HelloTime :: u16
  RemainingHops :: u8

subsection \<open>Comparison\<close>

definition stp_vector_compare_bridge_id :: "BRIDGE_ID \<Rightarrow> BRIDGE_ID \<Rightarrow> int" where
  "stp_vector_compare_bridge_id b1 b2 =
     (if prio b1 < prio b2 then - 1
      else if prio b2 < prio b1 then 1
      else memcmp 6 (addr b1) (addr b2))"

text \<open>\<open>bridcmp = v1->root_path_cost - v2->root_path_cost\<close>: the unsigned difference stored in
  an \<open>int\<close>.\<close>

definition cost_diff :: "u32 \<Rightarrow> u32 \<Rightarrow> int" where
  "cost_diff c1 c2 = sint (c1 - c2)"

text \<open>Port identifiers are promoted to \<open>int\<close> before the subtraction.\<close>

definition port_diff :: "PORT_ID \<Rightarrow> PORT_ID \<Rightarrow> int" where
  "port_diff p1 p2 = uint p1 - uint p2"

definition stp_vector_compare :: "PRIO_VECTOR_T \<Rightarrow> PRIO_VECTOR_T \<Rightarrow> int" where
  "stp_vector_compare v1 v2 =
     (let c = stp_vector_compare_bridge_id (root_bridge v1) (root_bridge v2) in
      if c < 0 then - 1 else if c > 0 then 1 else
      let c = cost_diff (root_path_cost v1) (root_path_cost v2) in
      if c < 0 then - 2 else if c > 0 then 2 else
      let c = stp_vector_compare_bridge_id (region_root_bridge v1) (region_root_bridge v2) in
      if c < 0 then - 3 else if c > 0 then 3 else
      let c = cost_diff (region_root_path_cost v1) (region_root_path_cost v2) in
      if c < 0 then - 4 else if c > 0 then 4 else
      let c = stp_vector_compare_bridge_id (design_bridge v1) (design_bridge v2) in
      if c < 0 then - 5 else if c > 0 then 5 else
      let c = port_diff (design_port v1) (design_port v2) in
      if c < 0 then - 6 else if c > 0 then 6 else
      let c = port_diff (bridge_port v1) (bridge_port v2) in
      if c < 0 then - 7 else if c > 0 then 7 else c)"

definition stp_times_compare :: "TIMEVALUES_T \<Rightarrow> TIMEVALUES_T \<Rightarrow> int" where
  "stp_times_compare t1 t2 =
     (if MessageAge t1 < MessageAge t2 then - 1
      else if MessageAge t1 > MessageAge t2 then 1
      else if MaxAge t1 < MaxAge t2 then - 2
      else if MaxAge t1 > MaxAge t2 then 2
      else if ForwardDelay t1 < ForwardDelay t2 then - 3
      else if ForwardDelay t1 > ForwardDelay t2 then 3
      else if HelloTime t1 < HelloTime t2 then - 4
      else if HelloTime t1 > HelloTime t2 then 4
      else if RemainingHops t1 < RemainingHops t2 then - 5
      else if RemainingHops t1 > RemainingHops t2 then 5
      else 0)"

subsection \<open>Construction, encoding and decoding\<close>

definition stp_vector_create ::
  "BRIDGE_ID \<Rightarrow> u32 \<Rightarrow> BRIDGE_ID \<Rightarrow> u32 \<Rightarrow> BRIDGE_ID \<Rightarrow> PORT_ID \<Rightarrow> PORT_ID \<Rightarrow> PRIO_VECTOR_T" where
  "stp_vector_create root_br rpc region_br rrpc design dport bport =
     \<lparr>root_bridge = root_br, root_path_cost = rpc, region_root_bridge = region_br,
      region_root_path_cost = rrpc, design_bridge = design, design_port = dport,
      bridge_port = bport\<rparr>"

definition stp_vector_get_short :: "u8 list \<Rightarrow> u16" where
  "stp_vector_get_short f = ntohs f"

definition stp_vector_set_short :: "u16 \<Rightarrow> u8 list" where
  "stp_vector_set_short f = htons f"

definition stp_vector_get_bridge_id :: "u8 list \<Rightarrow> BRIDGE_ID" where
  "stp_vector_get_bridge_id c_br = \<lparr>prio = stp_vector_get_short c_br, addr = take 6 (drop 2 c_br)\<rparr>"

definition stp_vector_set_bridge_id :: "BRIDGE_ID \<Rightarrow> u8 list" where
  "stp_vector_set_bridge_id b = stp_vector_set_short (prio b) @ take 6 (addr b)"

text \<open>The decoder writes four members of its result and leaves the others as they were.\<close>

definition stp_vector_get_vector :: "BPDU_BODY_T \<Rightarrow> PRIO_VECTOR_T \<Rightarrow> PRIO_VECTOR_T" where
  "stp_vector_get_vector b v =
     v\<lparr>root_bridge := stp_vector_get_bridge_id (b_root_id b),
       root_path_cost := ntohl (b_root_path_cost b),
       design_bridge := stp_vector_get_bridge_id (b_bridge_id b),
       design_port := stp_vector_get_short (b_port_id b)\<rparr>"

definition stp_vector_set_vector :: "PRIO_VECTOR_T \<Rightarrow> BPDU_BODY_T \<Rightarrow> BPDU_BODY_T" where
  "stp_vector_set_vector v b =
     b\<lparr>b_root_id := stp_vector_set_bridge_id (root_bridge v),
       b_root_path_cost := htonl (root_path_cost v),
       b_bridge_id := stp_vector_set_bridge_id (design_bridge v),
       b_port_id := stp_vector_set_short (design_port v)\<rparr>"

text \<open>\<open>memcpy\<close> of two network-order bytes into an \<open>unsigned short\<close>: the value depends on the
  byte order of the host.\<close>

definition host_short :: "bool \<Rightarrow> u8 list \<Rightarrow> u16" where
  "host_short big_endian f = (if big_endian then be16 (f ! 0) (f ! 1) else be16 (f ! 1) (f ! 0))"

definition stp_vector_get_mst_vector ::
  "bool \<Rightarrow> u8 list \<Rightarrow> nat \<Rightarrow> bool \<Rightarrow> PRIO_VECTOR_T \<Rightarrow> PRIO_VECTOR_T" where
  "stp_vector_get_mst_vector big_endian f index vendorCisco v =
     (if vendorCisco
      then let mc = mc_view index f in
        v\<lparr>region_root_bridge := stp_vector_get_bridge_id (mc_msti_region_root_id mc),
          region_root_path_cost := ntohl (mc_msti_internal_root_path_cost mc),
          design_bridge := \<lparr>prio = host_short big_endian (mc_msti_bridge_priority mc),
                            addr = drop 2 (mc_msti_bridge_priority mc)\<rparr>,
          design_port := host_short big_endian (mc_msti_port_priority mc)\<rparr>
      else let m = msti_view index f;
               d = stp_vector_get_bridge_id (slice 110 8 f) in
        v\<lparr>region_root_bridge := stp_vector_get_bridge_id (msti_region_root_id m),
          region_root_path_cost := ntohl (msti_internal_root_path_cost m),
          design_bridge := d\<lparr>prio := 0xf000 AND push_bit 8 (ucast (msti_bridge_priority m AND 0xf0))\<rparr>,
          design_port := (ntohs (b_port_id (body_view f)) AND 0x0fff)
                         + (0xf000 AND push_bit 8 (ucast (msti_port_priority m AND 0xf0)))\<rparr>)"

definition stp_vector_get_mst_timers :: "u8 list \<Rightarrow> nat \<Rightarrow> TIMEVALUES_T" where
  "stp_vector_get_mst_timers f msti_id =
     \<lparr>MessageAge = 0, MaxAge = 0, ForwardDelay = 0, HelloTime = 0,
      RemainingHops = msti_remaining_hops (msti_view msti_id f)\<rparr>"

definition stp_times_get :: "BPDU_BODY_T \<Rightarrow> TIMEVALUES_T \<Rightarrow> TIMEVALUES_T" where
  "stp_times_get b v =
     v\<lparr>MessageAge := drop_bit 8 (ntohs (b_message_age b)),
       MaxAge := drop_bit 8 (ntohs (b_max_age b)),
       ForwardDelay := drop_bit 8 (ntohs (b_forward_delay b)),
       HelloTime := drop_bit 8 (ntohs (b_hello_time b))\<rparr>"

definition stp_times_set :: "TIMEVALUES_T \<Rightarrow> BPDU_BODY_T \<Rightarrow> BPDU_BODY_T" where
  "stp_times_set v b =
     b\<lparr>b_message_age := htons (push_bit 8 (MessageAge v)),
       b_max_age := htons (push_bit 8 (MaxAge v)),
       b_forward_delay := htons (push_bit 8 (ForwardDelay v)),
       b_hello_time := htons (push_bit 8 (HelloTime v))\<rparr>"

definition stp_times_copy :: "TIMEVALUES_T \<Rightarrow> TIMEVALUES_T" where
  "stp_times_copy f =
     \<lparr>MessageAge = MessageAge f, MaxAge = MaxAge f, ForwardDelay = ForwardDelay f,
      HelloTime = HelloTime f, RemainingHops = RemainingHops f\<rparr>"

subsection \<open>The comparison functions are total orders\<close>

text \<open>What the role selection relies on: on the admissible values the sign of the comparison
  is a total order, and equal values compare as zero only.\<close>

locale priority_order =
  fixes cmp :: "'a \<Rightarrow> 'a \<Rightarrow> int" and admissible :: "'a \<Rightarrow> bool"
  assumes cmp_swap: "admissible a \<Longrightarrow> admissible b \<Longrightarrow> cmp a b < 0 \<longleftrightarrow> cmp b a > 0"
    and cmp_trans: "admissible a \<Longrightarrow> admissible b \<Longrightarrow> admissible c \<Longrightarrow>
      cmp a b \<le> 0 \<Longrightarrow> cmp b c \<le> 0 \<Longrightarrow> cmp a c \<le> 0"
    and cmp_zero: "admissible a \<Longrightarrow> admissible b \<Longrightarrow> cmp a b = 0 \<longleftrightarrow> a = b"
begin

lemma cmp_linear: "admissible a \<Longrightarrow> admissible b \<Longrightarrow> cmp a b \<le> 0 \<or> cmp b a \<le> 0"
  using cmp_swap [of a b] by linarith

lemma cmp_antisym:
  "admissible a \<Longrightarrow> admissible b \<Longrightarrow> cmp a b \<le> 0 \<Longrightarrow> cmp b a \<le> 0 \<Longrightarrow> a = b"
  using cmp_swap [of a b] cmp_zero [of a b] by (cases "cmp a b = 0") auto

text \<open>The running minimum a loop keeps when it replaces the best value by every strictly
  better one.\<close>

definition better :: "'a \<Rightarrow> 'a \<Rightarrow> 'a" where
  "better best x = (if cmp x best < 0 then x else best)"

lemma better_le:
  assumes "admissible best" and "admissible x"
  shows "cmp (better best x) best \<le> 0" and "cmp (better best x) x \<le> 0"
    and "admissible (better best x)"
  using assms cmp_swap [of x best] cmp_swap [of best x] cmp_zero [of best best] cmp_zero [of x x]
  by (auto simp: better_def)

lemma foldl_better_in: "foldl better best xs \<in> insert best (set xs)"
  by (induction xs arbitrary: best) (force simp: better_def)+

lemma foldl_better_le:
  assumes "admissible best" and "\<forall>x \<in> set xs. admissible x"
  shows "admissible (foldl better best xs) \<and> (\<forall>y \<in> insert best (set xs). cmp (foldl better best xs) y \<le> 0)"
  using assms
proof (induction xs arbitrary: best)
  case Nil
  then show ?case using cmp_zero [of best best] by simp
next
  case (Cons x xs)
  let ?b = "better best x"
  have adm: "admissible best" "admissible x" using Cons.prems by auto
  have b: "cmp ?b best \<le> 0" "cmp ?b x \<le> 0" "admissible ?b"
    using better_le [OF adm] by auto
  have IH: "admissible (foldl better ?b xs)"
      "\<forall>y \<in> insert ?b (set xs). cmp (foldl better ?b xs) y \<le> 0"
    using Cons.IH [of ?b] Cons.prems b by auto
  then have "cmp (foldl better ?b xs) best \<le> 0" "cmp (foldl better ?b xs) x \<le> 0"
    using cmp_trans [of "foldl better ?b xs" ?b] b adm by auto
  then show ?case using IH by simp
qed

end

text \<open>A comparison that agrees with a strict order on keys.\<close>

locale keyed_compare =
  fixes cmp :: "'a \<Rightarrow> 'a \<Rightarrow> int" and admissible :: "'a \<Rightarrow> bool" and key :: "'a \<Rightarrow> 'k :: linorder"
  assumes cmp_less: "admissible a \<Longrightarrow> admissible b \<Longrightarrow> cmp a b < 0 \<longleftrightarrow> key a < key b"
    and cmp_greater: "admissible a \<Longrightarrow> admissible b \<Longrightarrow> cmp a b > 0 \<longleftrightarrow> key b < key a"
    and key_inj: "admissible a \<Longrightarrow> admissible b \<Longrightarrow> key a = key b \<Longrightarrow> a = b"
begin

lemma cmp_le: "admissible a \<Longrightarrow> admissible b \<Longrightarrow> cmp a b \<le> 0 \<longleftrightarrow> key a \<le> key b"
  using cmp_greater [of a b] by auto

lemma cmp_eq: "admissible a \<Longrightarrow> admissible b \<Longrightarrow> cmp a b = 0 \<longleftrightarrow> a = b"
  using cmp_less [of a b] cmp_greater [of a b] key_inj [of a b] by fastforce

end

sublocale keyed_compare \<subseteq> priority_order cmp admissible
  using cmp_eq by unfold_locales (auto simp: cmp_less cmp_greater cmp_le)

subsubsection \<open>Bridge identifiers\<close>

definition bridge_ok :: "BRIDGE_ID \<Rightarrow> bool" where
  "bridge_ok b \<longleftrightarrow> length (addr b) = 6"

definition bridge_key :: "BRIDGE_ID \<Rightarrow> u16 \<times> u8 list" where
  "bridge_key b = (prio b, addr b)"

lemma memcmp_greater_iff:
  "length xs = n \<Longrightarrow> length ys = n \<Longrightarrow> memcmp n xs ys > 0 \<longleftrightarrow> ys < xs"
  using memcmp_antisym [of n xs ys] memcmp_less_iff [of ys n xs] by simp

interpretation bid: keyed_compare stp_vector_compare_bridge_id bridge_ok bridge_key
  by unfold_locales
    (auto simp: stp_vector_compare_bridge_id_def bridge_ok_def bridge_key_def memcmp_less_iff
      memcmp_greater_iff less_prod_def)

subsubsection \<open>Priority vectors\<close>

text \<open>The order of clause 13.9 holds when the path costs are below \<open>2^31\<close>: their unsigned
  difference is stored in an \<open>int\<close>.\<close>

definition vec_ok :: "PRIO_VECTOR_T \<Rightarrow> bool" where
  "vec_ok v \<longleftrightarrow> bridge_ok (root_bridge v) \<and> bridge_ok (region_root_bridge v) \<and>
     bridge_ok (design_bridge v) \<and> root_path_cost v < 2 ^ 31 \<and> region_root_path_cost v < 2 ^ 31"

definition vec_key ::
  "PRIO_VECTOR_T \<Rightarrow> (u16 \<times> u8 list) \<times> u32 \<times> (u16 \<times> u8 list) \<times> u32 \<times> (u16 \<times> u8 list) \<times> u16 \<times> u16" where
  "vec_key v = (bridge_key (root_bridge v), root_path_cost v, bridge_key (region_root_bridge v),
     region_root_path_cost v, bridge_key (design_bridge v), design_port v, bridge_port v)"

lemma cost_diff_uint:
  assumes "c1 < 2 ^ 31" and "c2 < 2 ^ 31"
  shows "cost_diff c1 c2 = uint c1 - uint c2"
proof -
  have b: "uint c1 < 2 ^ 31" "uint c2 < 2 ^ 31"
    using assms by (simp_all add: word_less_def)
  have "sint (c1 - c2) = signed_take_bit 31 (take_bit 32 (uint c1 - uint c2))"
    by (simp add: sint_uint uint_word_ariths take_bit_eq_mod)
  also have "\<dots> = signed_take_bit 31 (uint c1 - uint c2)"
    by (simp add: signed_take_bit_take_bit)
  also have "\<dots> = uint c1 - uint c2"
  proof (rule signed_take_bit_int_eq_self)
    show "- (2 ^ 31) \<le> uint c1 - uint c2" and "uint c1 - uint c2 < 2 ^ 31"
      using b uint_ge_0 [of c1] uint_ge_0 [of c2] by linarith+
  qed
  finally show ?thesis by (simp add: cost_diff_def)
qed

lemma cost_diff_sign:
  assumes "c1 < 2 ^ 31" and "c2 < 2 ^ 31"
  shows "cost_diff c1 c2 < 0 \<longleftrightarrow> c1 < c2" and "cost_diff c1 c2 > 0 \<longleftrightarrow> c2 < c1"
  using cost_diff_uint [OF assms] by (auto simp: word_less_def)

lemma port_diff_sign:
  "port_diff p1 p2 < 0 \<longleftrightarrow> p1 < p2" "port_diff p1 p2 > 0 \<longleftrightarrow> p2 < p1"
  by (auto simp: port_diff_def word_less_def)

lemma bridge_key_eq: "bridge_key a = bridge_key b \<longleftrightarrow> a = b"
  by (cases a; cases b) (simp add: bridge_key_def)

text \<open>One level of a comparison chain against one component of the lexicographic order.\<close>

lemma chain_neg:
  "0 < k \<Longrightarrow> (if c < 0 then - k else if c > 0 then k else r) < (0 :: int) \<longleftrightarrow>
     c < 0 \<or> \<not> c < 0 \<and> \<not> c > (0 :: int) \<and> r < 0"
  by auto

lemma chain_pos:
  "0 < k \<Longrightarrow> (if c < 0 then - k else if c > 0 then k else r) > (0 :: int) \<longleftrightarrow>
     c > 0 \<or> \<not> c < 0 \<and> \<not> c > (0 :: int) \<and> r > 0"
  by auto

lemma less_pair:
  "(a, b) < (c, d) \<longleftrightarrow> a < c \<or> \<not> a < c \<and> \<not> c < a \<and> b < (d :: 'b :: linorder)"
  for a :: "'a :: linorder"
  by (auto simp: less_prod_def)

lemma vec_chain_signs:
  "(0 :: int) < 1" "(0 :: int) < 2" "(0 :: int) < 3" "(0 :: int) < 4" "(0 :: int) < 5"
  "(0 :: int) < 6" "(0 :: int) < 7"
  by simp_all

interpretation vec: keyed_compare stp_vector_compare vec_ok vec_key
proof
  fix a b assume ok: "vec_ok a" "vec_ok b"
  then have br: "bridge_ok (root_bridge a)" "bridge_ok (root_bridge b)"
      "bridge_ok (region_root_bridge a)" "bridge_ok (region_root_bridge b)"
      "bridge_ok (design_bridge a)" "bridge_ok (design_bridge b)"
    and co: "root_path_cost a < 2 ^ 31" "root_path_cost b < 2 ^ 31"
      "region_root_path_cost a < 2 ^ 31" "region_root_path_cost b < 2 ^ 31"
    by (auto simp: vec_ok_def)
  note facts = bid.cmp_less [OF br(1,2)] bid.cmp_greater [OF br(1,2)]
    bid.cmp_less [OF br(3,4)] bid.cmp_greater [OF br(3,4)]
    bid.cmp_less [OF br(5,6)] bid.cmp_greater [OF br(5,6)]
    cost_diff_sign [OF co(1,2)] cost_diff_sign [OF co(3,4)]
    port_diff_sign [of "design_port a" "design_port b"] port_diff_sign [of "bridge_port a" "bridge_port b"]
  show "stp_vector_compare a b < 0 \<longleftrightarrow> vec_key a < vec_key b"
    unfolding stp_vector_compare_def Let_def vec_key_def less_pair facts [symmetric]
    by (simp only: chain_neg vec_chain_signs) auto
  show "stp_vector_compare a b > 0 \<longleftrightarrow> vec_key b < vec_key a"
    unfolding stp_vector_compare_def Let_def vec_key_def less_pair facts [symmetric]
    by (simp only: chain_pos vec_chain_signs) auto
  show "vec_key a = vec_key b \<Longrightarrow> a = b"
    by (cases a; cases b) (simp add: vec_key_def bridge_key_eq)
qed

subsubsection \<open>Times\<close>

definition times_key :: "TIMEVALUES_T \<Rightarrow> u16 \<times> u16 \<times> u16 \<times> u16 \<times> u8" where
  "times_key t = (MessageAge t, MaxAge t, ForwardDelay t, HelloTime t, RemainingHops t)"

interpretation tms: keyed_compare stp_times_compare "\<lambda>_. True" times_key
proof
  fix a b :: TIMEVALUES_T
  show "stp_times_compare a b < 0 \<longleftrightarrow> times_key a < times_key b"
    unfolding stp_times_compare_def times_key_def less_pair by auto
  show "stp_times_compare a b > 0 \<longleftrightarrow> times_key b < times_key a"
    unfolding stp_times_compare_def times_key_def less_pair by auto
  show "times_key a = times_key b \<Longrightarrow> a = b"
    by (cases a; cases b) (simp add: times_key_def)
qed

subsection \<open>Round trips of the encodings\<close>

lemma stp_vector_get_set_bridge_id [simp]:
  "bridge_ok b \<Longrightarrow> stp_vector_get_bridge_id (stp_vector_set_bridge_id b) = b"
  by (simp add: stp_vector_get_bridge_id_def stp_vector_set_bridge_id_def bridge_ok_def
      stp_vector_get_short_def stp_vector_set_short_def)

lemma length_stp_vector_set_bridge_id [simp]:
  "bridge_ok b \<Longrightarrow> length (stp_vector_set_bridge_id b) = 8"
  by (simp add: stp_vector_set_bridge_id_def stp_vector_set_short_def bridge_ok_def)

lemma bridge_ok_get [simp]: "length c = 8 \<Longrightarrow> bridge_ok (stp_vector_get_bridge_id c)"
  by (simp add: bridge_ok_def stp_vector_get_bridge_id_def)

lemma drop_push_16: "drop_bit 8 (push_bit 8 (w :: u16)) = take_bit 8 w"
  by (rule bit_word_eqI) (auto simp: bit_simps)

lemma take_bit_8_small: "w < 256 \<Longrightarrow> take_bit 8 (w :: u16) = w"
  by (simp add: take_bit_eq_mod word_less_nat_alt unat_mod word_unat_eq_iff)

end
