(* ===== verification/StpBitmap.thy ===== *)
theory StpBitmap
  imports Prelude
begin

text \<open>
  Port bitmaps (\<open>stp_bitmap.c\<close>, \<open>stp_bitmap.h\<close>): nine bytes, and a product-dependent position
  for each port index. The globals the functions read (\<open>productId\<close>, \<open>stp_is_distributed\<close>,
  \<open>stp_slot_id\<close>) are the record \<open>platform_t\<close>.
\<close>

subsection \<open>Data\<close>

datatype product_id =
    PRODUCT_ID_AX7K | PRODUCT_ID_AX5K | PRODUCT_ID_AX5K_I | PRODUCT_ID_AX5K_E | PRODUCT_ID_AX5608
  | PRODUCT_ID_AU4K | PRODUCT_ID_AU3K | PRODUCT_ID_AU3K_BCM | PRODUCT_ID_AU3K_BCAT
  | PRODUCT_ID_AU2K_TCAT | PRODUCT_ID_NONE

record platform_t =
  productId :: product_id
  stp_is_distributed :: bool
  stp_slot_id :: nat

type_synonym BITMAP_T = "u8 list"

abbreviation (input) NUMBER_OF_BYTES :: nat where "NUMBER_OF_BYTES \<equiv> 9"
abbreviation (input) NUMBER_OF_PORTS :: nat where "NUMBER_OF_PORTS \<equiv> 51"

definition au3k_family :: "product_id \<Rightarrow> bool" where
  "au3k_family p \<longleftrightarrow> p = PRODUCT_ID_AU3K \<or> p = PRODUCT_ID_AU3K_BCM \<or> p = PRODUCT_ID_AU3K_BCAT \<or>
     p = PRODUCT_ID_AU2K_TCAT"

definition ax5k_family :: "product_id \<Rightarrow> bool" where
  "ax5k_family p \<longleftrightarrow> p = PRODUCT_ID_AX5K \<or> p = PRODUCT_ID_AU4K \<or> p = PRODUCT_ID_AX5K_I \<or>
     p = PRODUCT_ID_AX5K_E \<or> p = PRODUCT_ID_AX5608"

subsection \<open>Operations\<close>

definition stp_bitmap_clear :: "BITMAP_T \<Rightarrow> BITMAP_T" where
  "stp_bitmap_clear b = replicate NUMBER_OF_BYTES 0"

definition stp_bitmap_set_allbits :: "BITMAP_T \<Rightarrow> BITMAP_T" where
  "stp_bitmap_set_allbits b = replicate NUMBER_OF_BYTES 0xff"

text \<open>The pair \<open>(index, byte)\<close> that the three bit operations compute from \<open>Bit\<close> in the same
  way; a product that none of the cases names leaves both at zero.\<close>

definition bitmap_position :: "platform_t \<Rightarrow> nat \<Rightarrow> nat \<times> nat" where
  "bitmap_position pf Bit =
     (if stp_is_distributed pf then (let Bit = Bit mod 64 in (Bit div 8 + 1, Bit mod 8))
      else if productId pf = PRODUCT_ID_AX7K then (Bit div 64, Bit mod 64 + 1)
      else if au3k_family (productId pf) then (Bit div 8 + 1, Bit mod 8)
      else if ax5k_family (productId pf)
        then (if Bit \<ge> 64 then (let Bit = Bit - 64 in (Bit div 8 + 1, Bit mod 8))
              else (Bit div 8 + 1, Bit mod 8))
      else (0, 0))"

definition stp_bitmap_set_bit :: "platform_t \<Rightarrow> BITMAP_T \<Rightarrow> nat \<Rightarrow> BITMAP_T" where
  "stp_bitmap_set_bit pf b Bit =
     (let (index, byte) = bitmap_position pf Bit in
      if byte \<le> 7 then b[index := b ! index OR push_bit byte 1] else b)"

definition stp_bitmap_clear_bit :: "platform_t \<Rightarrow> BITMAP_T \<Rightarrow> nat \<Rightarrow> BITMAP_T" where
  "stp_bitmap_clear_bit pf b Bit =
     (let (index, byte) = bitmap_position pf Bit in
      if byte \<le> 7 then b[index := b ! index AND NOT (push_bit byte 1)] else b)"

definition stp_bitmap_get_bit :: "platform_t \<Rightarrow> BITMAP_T \<Rightarrow> nat \<Rightarrow> int" where
  "stp_bitmap_get_bit pf b Bit =
     (let (index, byte) = bitmap_position pf Bit in
      if byte \<le> 7 then uint (b ! index AND push_bit byte 1) else - 1)"

definition stp_bitmap_portbmp_add :: "BITMAP_T \<Rightarrow> BITMAP_T \<Rightarrow> BITMAP_T" where
  "stp_bitmap_portbmp_add des sou = map (\<lambda>(x, y). x OR y) (zip des sou)"

definition stp_bitmap_get_portindex_from_bmp :: "platform_t \<Rightarrow> BITMAP_T \<Rightarrow> nat \<Rightarrow> nat \<Rightarrow> int" where
  "stp_bitmap_get_portindex_from_bmp pf b Bytes Bit =
     (if b ! Bytes = 0 then - 2
      else if b ! Bytes AND push_bit Bit 1 \<noteq> 0 then
        (if stp_is_distributed pf
         then 64 * (int (stp_slot_id pf) - 1) + 8 * (int Bytes - 1) + int Bit
         else if au3k_family (productId pf)
           then (if Bytes > 0 then 8 * (int Bytes - 1) + (int Bit - 1) else - 2)
         else if productId pf = PRODUCT_ID_AX5K_E \<or> productId pf = PRODUCT_ID_AX5608
           then (if Bytes > 0 then 8 * (int Bytes - 1) + int Bit else - 2)
         else if productId pf = PRODUCT_ID_AX5K_I
           then (if Bytes > 0 then 56 + 8 * (int Bytes - 1) + int Bit else - 2)
         else if productId pf = PRODUCT_ID_AU4K \<or> productId pf = PRODUCT_ID_AX5K
           then (if Bytes > 0 then 64 + 8 * (int Bytes - 1) + (int Bit - 1) else - 2)
         else if productId pf = PRODUCT_ID_AX7K then 64 * int Bytes + int Bit - 1
         else - 2)
      else - 1)"

text \<open>\<open>Inl\<close> is \<open>STP_ERR\<close>; the slot and port numbers are stored in \<open>unsigned char\<close>. A product
  without a case leaves the outputs as they were.\<close>

definition stp_bitmap_get_panelport_from_portindex ::
  "platform_t \<Rightarrow> u32 \<Rightarrow> u8 \<times> u8 \<Rightarrow> bool \<times> u8 \<times> u8" where
  "stp_bitmap_get_panelport_from_portindex pf g old =
     (let slot_index = ucast (drop_bit 6 (g AND 0x7C0)) :: u8;
          port_index = ucast (g AND 0x3F) :: u8 in
      if stp_is_distributed pf then (True, slot_index + 1, port_index + 1)
      else if productId pf = PRODUCT_ID_AX7K
        then (\<not> (slot_index > 5 \<or> port_index + 1 > 6), slot_index, port_index + 1)
      else if productId pf = PRODUCT_ID_AX5K \<or> productId pf = PRODUCT_ID_AX5K_I \<or>
              productId pf = PRODUCT_ID_AU4K
        then (\<not> (slot_index > 1 \<or> port_index + 1 > 28), slot_index, port_index + 1)
      else if au3k_family (productId pf) then (True, slot_index + 1, port_index + 1)
      else (True, fst old, snd old))"

subsection \<open>Ports a bitmap can hold\<close>

text \<open>The port indices a product uses, and those of them with a bit of their own.\<close>

definition has_bit :: "platform_t \<Rightarrow> nat \<Rightarrow> bool" where
  "has_bit pf Bit \<longleftrightarrow>
     (if stp_is_distributed pf then Bit < 640
      else if productId pf = PRODUCT_ID_AX7K then Bit < 576 \<and> Bit mod 64 < 7
      else if au3k_family (productId pf) then Bit < 64
      else if ax5k_family (productId pf) then Bit < 128
      else False)"

lemma bitmap_position_bounds:
  assumes "has_bit pf Bit"
  shows "fst (bitmap_position pf Bit) < 9" and "snd (bitmap_position pf Bit) \<le> 7"
  using assms by (auto simp: has_bit_def bitmap_position_def Let_def split: if_splits)

lemma bit_push1: "bit (2 ^ n :: u8) i \<longleftrightarrow> i = n \<and> n < 8"
  by (auto simp: bit_exp_iff)

lemma and_push1_nonzero: "n \<le> 7 \<Longrightarrow> ((w :: u8) AND push_bit n 1 \<noteq> 0) = bit w n"
proof
  assume "n \<le> 7" and "w AND push_bit n 1 \<noteq> 0"
  then obtain i where "bit (w AND push_bit n 1) i"
    by (metis bit_0_eq bit_eq_iff bot_apply bot_bool_def)
  then show "bit w n" by (auto simp: bit_and_iff bit_push1)
next
  assume n: "n \<le> 7" and "bit w n"
  then have "bit (w AND push_bit n 1) n" by (simp add: bit_and_iff bit_push1)
  then show "w AND push_bit n 1 \<noteq> 0" by auto
qed

text \<open>What a bitmap holds, as a function from port indices.\<close>

definition member_bit :: "platform_t \<Rightarrow> BITMAP_T \<Rightarrow> nat \<Rightarrow> bool" where
  "member_bit pf b Bit = bit (b ! fst (bitmap_position pf Bit)) (snd (bitmap_position pf Bit))"

lemma get_bit_member:
  assumes "has_bit pf Bit"
  shows "stp_bitmap_get_bit pf b Bit \<noteq> 0 \<longleftrightarrow> member_bit pf b Bit"
  using bitmap_position_bounds [OF assms] and_push1_nonzero
  by (auto simp: stp_bitmap_get_bit_def member_bit_def Let_def split_beta uint_0_iff)

lemma set_bit_member:
  assumes "length b = 9" and "has_bit pf Bit" and "has_bit pf Bit'"
  shows "member_bit pf (stp_bitmap_set_bit pf b Bit) Bit' \<longleftrightarrow>
    member_bit pf b Bit' \<or> bitmap_position pf Bit' = bitmap_position pf Bit"
  using bitmap_position_bounds [OF assms(2)] bitmap_position_bounds [OF assms(3)] assms(1)
  by (auto simp: stp_bitmap_set_bit_def member_bit_def Let_def split_beta nth_list_update
      bit_or_iff bit_push1 prod_eq_iff)

lemma clear_bit_member:
  assumes "length b = 9" and "has_bit pf Bit" and "has_bit pf Bit'"
  shows "member_bit pf (stp_bitmap_clear_bit pf b Bit) Bit' \<longleftrightarrow>
    member_bit pf b Bit' \<and> bitmap_position pf Bit' \<noteq> bitmap_position pf Bit"
  using bitmap_position_bounds [OF assms(2)] bitmap_position_bounds [OF assms(3)] assms(1)
  by (auto simp: stp_bitmap_clear_bit_def member_bit_def Let_def split_beta nth_list_update
      bit_and_iff bit_not_iff bit_push1 prod_eq_iff)

lemma length_set_bit [simp]: "length (stp_bitmap_set_bit pf b n) = length b"
  by (simp add: stp_bitmap_set_bit_def Let_def split_beta)

lemma length_clear_bit [simp]: "length (stp_bitmap_clear_bit pf b n) = length b"
  by (simp add: stp_bitmap_clear_bit_def Let_def split_beta)

text \<open>The ports of one chassis have positions of their own.\<close>

definition same_chassis :: "platform_t \<Rightarrow> nat \<Rightarrow> nat \<Rightarrow> bool" where
  "same_chassis pf m n \<longleftrightarrow>
     (if stp_is_distributed pf then m div 64 = n div 64
      else if ax5k_family (productId pf) then (m \<ge> 64 \<longleftrightarrow> n \<ge> 64) else True)"

lemma divmod8_inj: "m div 8 = n div 8 \<Longrightarrow> m mod 8 = n mod 8 \<Longrightarrow> m = (n :: nat)"
  by (metis div_mult_mod_eq)

lemma divmod64_inj: "m div 64 = n div 64 \<Longrightarrow> m mod 64 = n mod 64 \<Longrightarrow> m = (n :: nat)"
  by (metis div_mult_mod_eq)

lemma bitmap_position_inj:
  assumes "has_bit pf m" and "has_bit pf n" and "same_chassis pf m n"
    and "bitmap_position pf m = bitmap_position pf n"
  shows "m = n"
  using assms divmod8_inj [of m n] divmod64_inj [of m n] divmod8_inj [of "m mod 64" "n mod 64"]
    divmod8_inj [of "m - 64" "n - 64"]
  by (auto simp: has_bit_def same_chassis_def bitmap_position_def Let_def split: if_splits)

end
