(* ===== verification/StpStatmch.thy ===== *)
theory StpStatmch
  imports Prelude
begin

text \<open>
  The generic state machine (\<open>stp_statmch.c\<close>, \<open>stp_statmch.h\<close>). A machine object is its state
  and its \<open>changeState\<close> flag; its function pointers, bound to the owner, are a record of
  functions on the state of the daemon. The loop of \<open>stp_statmch_change_state\<close> may run
  forever, so it is a partial function and not returning is \<open>None\<close>.

  The locale \<open>progressing_machine\<close> is what a concrete machine has to provide for the loop to
  return: an invariant and a rank that decreases with every further transition.
\<close>

record 's STATE_MACH_T =
  changeState :: bool
  State :: 's

definition stp_statmch_create :: "'s \<Rightarrow> 's STATE_MACH_T" where
  "stp_statmch_create begin_state = \<lparr>changeState = False, State = begin_state\<rparr>"

definition stp_statmch_hop_2_state :: "'s \<Rightarrow> 's STATE_MACH_T \<Rightarrow> 's STATE_MACH_T" where
  "stp_statmch_hop_2_state new_state m = m\<lparr>State := new_state, changeState := True\<rparr>"

lemma hop_2_state_simps [simp]:
  "State (stp_statmch_hop_2_state s m) = s" "changeState (stp_statmch_hop_2_state s m) = True"
  by (simp_all add: stp_statmch_hop_2_state_def)

text \<open>The operations of a machine whose owner is fixed; \<open>set_begin\<close> is the assignment
  \<open>this->State = BEGIN\<close>.\<close>

record 'w machine_ops =
  get_changeState :: "'w \<Rightarrow> bool"
  set_changeState :: "bool \<Rightarrow> 'w \<Rightarrow> 'w"
  set_begin :: "'w \<Rightarrow> 'w"
  concreteEnterState :: "'w \<Rightarrow> 'w"
  concreteCheckCondition :: "'w \<Rightarrow> 'w \<times> bool"

definition stp_statmch_check_condition :: "'w machine_ops \<Rightarrow> 'w \<Rightarrow> 'w \<times> bool" where
  "stp_statmch_check_condition this w =
     (let (w, bret) = concreteCheckCondition this w in
      if bret then (set_changeState this True w, bret) else (w, bret))"

partial_function (option) stp_statmch_change_state ::
  "'w machine_ops \<Rightarrow> nat \<Rightarrow> 'w \<Rightarrow> ('w \<times> nat) option" where
  "stp_statmch_change_state this number_of_loops w =
     (if \<not> get_changeState this w then Some (w, number_of_loops)
      else stp_statmch_change_state this (number_of_loops + 1)
        (fst (stp_statmch_check_condition this
          (set_changeState this False (concreteEnterState this w)))))"

text \<open>The body of the loop.\<close>

definition statmch_step :: "'w machine_ops \<Rightarrow> 'w \<Rightarrow> 'w" where
  "statmch_step this w = fst (stp_statmch_check_condition this
     (set_changeState this False (concreteEnterState this w)))"

lemma change_state_done:
  "\<not> get_changeState m w \<Longrightarrow> stp_statmch_change_state m k w = Some (w, k)"
  by (subst stp_statmch_change_state.simps) simp

lemma change_state_unfold:
  "get_changeState m w \<Longrightarrow>
     stp_statmch_change_state m k w = stp_statmch_change_state m (k + 1) (statmch_step m w)"
  by (subst stp_statmch_change_state.simps) (simp add: statmch_step_def)

text \<open>What every step keeps, a run that returns keeps, and it returns with the flag clear.\<close>

lemma change_state_invariant:
  assumes run: "stp_statmch_change_state m k w = Some (w', n)" and "I w"
    and step: "\<And>w. I w \<Longrightarrow> get_changeState m w \<Longrightarrow> I (statmch_step m w)"
  shows "I w' \<and> \<not> get_changeState m w'"
proof -
  define P where "P m' k w r \<longleftrightarrow> m' = m \<longrightarrow> I w \<longrightarrow> I (fst r) \<and> \<not> get_changeState m (fst r)"
    for m' :: "'a machine_ops" and k :: nat and w and r :: "'a \<times> nat"
  have "P m k w (w', n)"
  proof (rule stp_statmch_change_state.raw_induct [OF _ run, of P])
    fix f m' k w r
    assume IH: "\<And>m' k w r. f m' k w = Some r \<Longrightarrow> P m' k w r"
      and eq: "(if \<not> get_changeState m' w then Some (w, k)
         else f m' (k + 1) (fst (stp_statmch_check_condition m'
           (set_changeState m' False (concreteEnterState m' w))))) = Some r"
    show "P m' k w r"
    proof (cases "get_changeState m' w")
      case True
      then have "P m' (k + 1) (statmch_step m' w) r"
        using eq IH by (simp add: statmch_step_def)
      then show ?thesis using True step [of w] by (auto simp: P_def)
    qed (use eq in \<open>auto simp: P_def\<close>)
  qed
  then show ?thesis using \<open>I w\<close> by (simp add: P_def)
qed

text \<open>A set of pending states that the steps do not leave is a run without end.\<close>

lemma change_state_diverges:
  assumes "I w" and "\<And>w. I w \<Longrightarrow> get_changeState m w" and "\<And>w. I w \<Longrightarrow> I (statmch_step m w)"
  shows "stp_statmch_change_state m k w = None"
proof (cases "stp_statmch_change_state m k w")
  case (Some r)
  then have "stp_statmch_change_state m k w = Some (fst r, snd r)" by simp
  from change_state_invariant [OF this, of I] assms have "I (fst r) \<and> \<not> get_changeState m (fst r)" by blast
  then show ?thesis using assms(2) by blast
qed

locale progressing_machine =
  fixes m :: "'w machine_ops" and inv :: "'w \<Rightarrow> bool" and rank :: "'w \<Rightarrow> nat"
  assumes inv_step: "inv w \<Longrightarrow> get_changeState m w \<Longrightarrow> inv (statmch_step m w)"
    and rank_step: "inv w \<Longrightarrow> get_changeState m w \<Longrightarrow> get_changeState m (statmch_step m w) \<Longrightarrow>
      rank (statmch_step m w) < rank w"
begin

lemma change_state_returns:
  assumes "inv w"
  shows "\<exists>w' n. stp_statmch_change_state m k w = Some (w', n) \<and> inv w' \<and>
    \<not> get_changeState m w' \<and> k \<le> n \<and> n \<le> k + rank w + 1"
  using assms
proof (induction "rank w" arbitrary: w k rule: less_induct)
  case less
  show ?case
  proof (cases "get_changeState m w")
    case False
    then show ?thesis using less.prems by (simp add: change_state_done)
  next
    case True
    let ?w = "statmch_step m w"
    have inv: "inv ?w" using less.prems True by (rule inv_step)
    show ?thesis
    proof (cases "get_changeState m ?w")
      case False
      then show ?thesis using inv by (simp add: change_state_unfold True change_state_done)
    next
      case again: True
      have r: "rank ?w < rank w" using less.prems True again by (rule rank_step)
      from less.hyps [OF r inv, of "k + 1"] obtain w' n where
        "stp_statmch_change_state m (k + 1) ?w = Some (w', n)" "inv w'"
        "\<not> get_changeState m w'" "k + 1 \<le> n" "n \<le> k + 1 + rank ?w + 1"
        by blast
      then show ?thesis using r by (intro exI [of _ w'] exI [of _ n])
          (simp add: change_state_unfold True)
    qed
  qed
qed

text \<open>A run keeps what every step keeps, and ends in what holds after a step that asks for no
  further transition.\<close>

lemma change_state_settles:
  assumes "inv w" and pending: "get_changeState m w" and "I w"
    and keep: "\<And>v. inv v \<Longrightarrow> I v \<Longrightarrow> get_changeState m v \<Longrightarrow> I (statmch_step m v)"
    and last: "\<And>v. inv v \<Longrightarrow> I v \<Longrightarrow> get_changeState m v \<Longrightarrow>
      \<not> get_changeState m (statmch_step m v) \<Longrightarrow> S (statmch_step m v)"
  shows "\<exists>w' n. stp_statmch_change_state m k w = Some (w', n) \<and> inv w' \<and> I w' \<and> S w' \<and>
    \<not> get_changeState m w' \<and> n \<le> k + rank w + 1"
proof -
  obtain w' n where run: "stp_statmch_change_state m k w = Some (w', n)"
    and n: "n \<le> k + rank w + 1"
    using change_state_returns [OF \<open>inv w\<close>] by blast
  have "(inv w' \<and> I w' \<and> (get_changeState m w' \<or> S w')) \<and> \<not> get_changeState m w'"
    by (rule change_state_invariant [OF run]) (use assms inv_step in \<open>auto\<close>)
  then show ?thesis using run n by blast
qed

end

end
