(* ===== verification/StpWorld.thy ===== *)
theory StpWorld
  imports StpVector StpBitmap StpStatmch
begin

text \<open>
  The data of the daemon: \<open>PORT_T\<close> (\<open>stp_port.h\<close>), \<open>STPM_T\<close> (\<open>stp_stpm.h\<close>), and one record
  \<open>world\<close> with the objects the code allocates and its global variables.

  A pointer to a port or to a bridge instance is a natural number, the key of the object in
  the heaps \<open>pheap\<close> and \<open>bheap\<close>. The singly linked lists are HOL lists of such pointers: the
  ports of an instance (\<open>stpm->ports\<close>, linked by \<open>next\<close>), the MSTI ports hanging off a CIST port
  (linked by \<open>nextMst\<close>, kept at the CIST port) and the instances (\<open>bridges\<close>). What the daemon
  sends to the switch chip, to the kernel or on the wire is appended to the trace \<open>out\<close>.
\<close>

type_synonym pref = nat
type_synonym bref = nat

subsection \<open>Enumerations\<close>

datatype INFO_IS_T = Mine | Aged | Received | Disabled
datatype RCVD_MSG_T = SuperiorDesignateMsg | RepeatedDesignateMsg | ConfirmedRootMsg | OtherMsg
datatype PORT_ROLE_T =
  DisabledPort | AlternatePort | BackupPort | RootPort | DesignatedPort | MasterPort | NonStpPort
datatype PROTOCOL_VERSION_T = FORCE_STP_COMPAT | NORMAL_RSTP | NORMAL_MSTP
datatype UID_STP_MODE_T = STP_DISABLED | STP_ENABLED
datatype ADMIN_P2P_T = P2P_FORCE_FALSE_E | P2P_FORCE_TRUE_E | P2P_AUTO_E
datatype NAM_RSTP_PORT_STATE_E =
    NAM_STP_PORT_STATE_DISABLE_E | NAM_STP_PORT_STATE_DISCARD_E | NAM_STP_PORT_STATE_LEARN_E
  | NAM_STP_PORT_STATE_FORWARD_E
datatype STP_PORT_SPEED_ENT =
    STP_PORT_SPEED_10_E | STP_PORT_SPEED_100_E | STP_PORT_SPEED_1000_E | STP_PORT_SPEED_10000_E
  | STP_PORT_SPEED_12000_E | STP_PORT_SPEED_2500_E | STP_PORT_SPEED_5000_E
datatype port_duplex_mode_t = DUPLEX_FULL | DUPLEX_HALF

text \<open>The numeric value of \<open>ForceVersion\<close>, which the code compares with 2.\<close>

fun version_num :: "PROTOCOL_VERSION_T \<Rightarrow> nat" where
  "version_num FORCE_STP_COMPAT = 0"
| "version_num NORMAL_RSTP = 2"
| "version_num NORMAL_MSTP = 3"

text \<open>The states of each machine; every machine also has the generic \<open>BEGIN\<close>.\<close>

datatype migrate_state = MIG_BEGIN | MIG_INIT | SEND_RSTP | SENDING_RSTP | SEND_STP | SENDING_STP
datatype edge_state = EDGE_BEGIN | EDGE_DISABLED | EDGE_DETECTED | DELEAYED | RESOLVED
datatype p2p_state = P2P_BEGIN | P2P_INIT | RECOMPUTE | P2P_STABLE
datatype pcost_state = PC_BEGIN | AUTO | FORSE | PC_STABLE
datatype sttrans_state = ST_BEGIN | DISCARDING | LEARNING | FORWARDING
datatype topoch_state =
    TC_BEGIN | TC_INIT | INACTIVE | ACTIVE | TC_DETECTED | NOTIFIED_TC | PROPAGATING
  | ACKNOWLEDGED | NOTIFIED_TCN
datatype info_state =
    INFO_BEGIN | INFO_DISABLED | INFO_ENABLED | AGED | UPDATE | CURRENT | INFO_RECEIVE
  | SUPERIOR_DESIGNATED | REPEATED_DESIGNATED | INFO_ROOT | INFO_OTHER
datatype roletrns_state =
    RT_BEGIN | INIT_PORT | BLOCK_PORT | BLOCKED_PORT | BACKUP_PORT | PROPOSED | PROPOSING | AGREES
  | SYNCED | REROOT | ACTIVE_PORT | FORWARD | LEARN | LISTEN | REROOTED | RT_ROOT | NON_STP
datatype rolesel_state = RS_BEGIN | INIT_BRIDGE | RS_RECEIVE
datatype receive_state = RX_BEGIN | RX_INIT | DISCARD | RX_RECEIVE
datatype transmit_state =
    TX_BEGIN | TRANSMIT_INIT | TRANSMIT_PERIODIC | IDLE | TRANSMIT_CONFIG | TRANSMIT_TCN | TRANSMIT_RSTP

subsection \<open>Ports\<close>

record VLAN_MAP_T =
  bmp :: "u8 list"
  ulcount :: u32

record PORT_T =
  nextMst :: "pref list"
  p_vlan_map :: VLAN_MAP_T
  info :: "info_state STATE_MACH_T"
  roletrns :: "roletrns_state STATE_MACH_T"
  sttrans :: "sttrans_state STATE_MACH_T"
  topoch :: "topoch_state STATE_MACH_T"
  migrate :: "migrate_state STATE_MACH_T"
  transmit :: "transmit_state STATE_MACH_T"
  p2p :: "p2p_state STATE_MACH_T"
  edge :: "edge_state STATE_MACH_T"
  pcost :: "pcost_state STATE_MACH_T"
  receive :: "receive_state STATE_MACH_T"
  owner :: bref
  fdWhile :: u32
  helloWhen :: u32
  mdelayWhile :: u32
  rbWhile :: u32
  rcvdInfoWhile :: u32
  rrWhile :: u32
  tcWhile :: u32
  txCount :: u32
  lnkWhile :: u32
  agreed :: bool
  designPrio :: PRIO_VECTOR_T
  designTimes :: TIMEVALUES_T
  forward :: bool
  forwarding :: bool
  infoIs :: INFO_IS_T
  initPm :: bool
  learn :: bool
  learning :: bool
  mcheck :: bool
  msgPrio :: PRIO_VECTOR_T
  msgTimes :: TIMEVALUES_T
  newInfo :: bool
  operEdge :: bool
  adminEdge :: bool
  portEnabled :: bool
  port_id :: PORT_ID
  portPrio :: PRIO_VECTOR_T
  portTimes :: TIMEVALUES_T
  proposed :: bool
  proposing :: bool
  rcvdBpdu :: bool
  rcvdInfo :: RCVD_MSG_T
  rcvdRSTP :: bool
  rcvdSTP :: bool
  rcvdTc :: bool
  rcvdTcAck :: bool
  rcvdTcn :: bool
  reRoot :: bool
  reselect :: bool
  role :: PORT_ROLE_T
  selected :: bool
  selectedRole :: PORT_ROLE_T
  sendRSTP :: bool
  sync :: bool
  synced :: bool
  tc :: bool
  tcAck :: bool
  tcProp :: bool
  updtInfo :: bool
  agree :: bool
  changedMaster :: bool
  infoInternal :: bool
  mstiMaster :: bool
  mstiMastered :: bool
  newInfoCist :: bool
  newInfoMsti :: bool
  rcvdInternal :: bool
  rcvdMsg :: bool
  msgBpduVersion :: u8
  msgBpduType :: u8
  msgPortRole :: u8
  msgFlags :: u8
  adminPCost :: u32
  operPCost :: u32
  operSpeed :: u32
  usedSpeed :: u32
  LinkDelay :: u32
  adminEnable :: bool
  isWAN :: bool
  slot_no :: nat
  port_no :: nat
  port_ifindex :: nat
  br_ifindex :: nat
  wasInitBpdu :: bool
  admin_non_stp :: bool
  p2p_recompute :: bool
  operPointToPointMac :: bool
  adminPointToPointMac :: ADMIN_P2P_T
  rx_cfg_bpdu_cnt :: u32
  rx_rstp_bpdu_cnt :: u32
  rx_tcn_bpdu_cnt :: u32
  uptime :: u32
  port_index :: nat
  p_vlan_id :: nat
  skip_rx :: u32
  skip_tx :: u32
  configDigestSnp :: bool
  p_digest :: "u8 list"

subsection \<open>Bridge instances\<close>

record STPM_T =
  ports :: "pref list"
  rolesel :: "rolesel_state STATE_MACH_T"
  ForceVersion :: PROTOCOL_VERSION_T
  BrId :: BRIDGE_ID
  BrTimes :: TIMEVALUES_T
  rootPortId :: PORT_ID
  rootPrio :: PRIO_VECTOR_T
  rootTimes :: TIMEVALUES_T
  MstConfigId :: MST_CFG_ID_S
  br_vlan_id :: nat
  br_name :: "u8 list"
  br_vlan_map :: VLAN_MAP_T
  admin_state :: UID_STP_MODE_T
  timeSince_Topo_Change :: u32
  Topo_Change_Count :: u32
  Topo_Change :: bool
  br_digest :: "u8 list"

abbreviation (input) STP_CIST_ID :: nat where "STP_CIST_ID \<equiv> 0"
abbreviation (input) STP_MSTI_MAX :: nat where "STP_MSTI_MAX \<equiv> 64"
abbreviation (input) STP_MAX_VID :: nat where "STP_MAX_VID \<equiv> 4094"
abbreviation (input) TxHoldCount :: u32 where "TxHoldCount \<equiv> 3"
abbreviation (input) MAX_PORT_NUM :: nat where "MAX_PORT_NUM \<equiv> 51"
abbreviation (input) PORT_INDEX_MAX :: nat where "PORT_INDEX_MAX \<equiv> 640"
abbreviation (input) ADMIN_PORT_PATH_COST_AUTO :: u32 where "ADMIN_PORT_PATH_COST_AUTO \<equiv> 200000000"

subsection \<open>Globals, heaps and outputs\<close>

datatype out_event =
    Npd_stp_info nat nat nat NAM_RSTP_PORT_STATE_E  \<comment> \<open>\<open>stp_npd_cmd_send_stp_info (mstid, vid, port_index, state)\<close>\<close>
  | Npd_wan_state nat nat NAM_RSTP_PORT_STATE_E     \<comment> \<open>\<open>stp_npd_set_wan_state (br, port, state)\<close>\<close>
  | Npd_tcn nat nat nat                             \<comment> \<open>\<open>stp_npd_cmd_notify_tcn (mstid, vid, port_index)\<close>\<close>
  | Tx_bpdu nat nat "u8 list" nat bool nat nat
      \<comment> \<open>\<open>stp_to_tx_bpdu (port_index, vlan_id, bpdu, bpdu_len, isWAN, slot_no, port_no)\<close>: the object at
        \<open>bpdu\<close> and the number of bytes sent from its address\<close>

record BPDU_RECORD_T =
  cur_bpdu :: "u8 list option"
  cur_bpdu_type :: u8
  cur_digestSnp :: bool

record port_speed_node =
  psn_port_index :: nat
  psn_port_speed :: STP_PORT_SPEED_ENT

text \<open>What the management remembers of a switch port, per instance number where it depends on the instance.\<close>

record stp_admin_infos =
  sai_stpEnable :: bool
  sai_mstid :: "u32 list"
  sai_pathcost :: "u32 list"
  sai_prio :: "u32 list"
  sai_p2p :: u32
  sai_edge :: bool
  sai_nonstp :: bool

datatype RUNNING_MODE = STP_MODE | MST_MODE | NOT_MODE

record world =
  pheap :: "pref \<Rightarrow> PORT_T"
  bheap :: "bref \<Rightarrow> STPM_T"
  next_pref :: pref
  next_bref :: bref
  bridges :: "bref list"
  g_CISTBRIDGE :: "bref option"
  g_CISTPORT :: "nat \<Rightarrow> pref option"
  g_curBPDU :: BPDU_RECORD_T
  g_VID2MSTID :: "nat \<Rightarrow> nat"
  g_VlanPBMP :: "nat \<Rightarrow> BITMAP_T"
  g_stp_state :: UID_STP_MODE_T
  g_flag :: bool
  current_mode :: RUNNING_MODE
  sttrans_count :: nat
  enabled_ports :: BITMAP_T
  port_speed_s :: "(nat \<Rightarrow> port_speed_node option) option"
  port_duplex_mode_nodes :: "(nat \<Rightarrow> port_duplex_mode_t option) option"
  stp_ports :: "(nat \<Rightarrow> stp_admin_infos option) option"
  sysMac :: "u8 list"
  platform :: platform_t
  big_endian :: bool
  pkt_mstid :: u32
  max_port :: nat
  fault :: bool
  out :: "out_event list"

text \<open>Assignments to a port, to an instance, and the output trace.\<close>

definition upd :: "pref \<Rightarrow> (PORT_T \<Rightarrow> PORT_T) \<Rightarrow> world \<Rightarrow> world" where
  "upd p f w = w\<lparr>pheap := (pheap w)(p := f (pheap w p))\<rparr>"

definition updb :: "bref \<Rightarrow> (STPM_T \<Rightarrow> STPM_T) \<Rightarrow> world \<Rightarrow> world" where
  "updb b f w = w\<lparr>bheap := (bheap w)(b := f (bheap w b))\<rparr>"

definition emit :: "out_event \<Rightarrow> world \<Rightarrow> world" where
  "emit e w = w\<lparr>out := out w @ [e]\<rparr>"

text \<open>The code follows a null pointer: \<open>fault\<close> records it, and nothing else changes.\<close>

definition null_deref :: "world \<Rightarrow> world" where
  "null_deref w = w\<lparr>fault := True\<rparr>"

text \<open>A loop over a list of ports that assigns to each of them.\<close>

primrec upds :: "pref list \<Rightarrow> (PORT_T \<Rightarrow> PORT_T) \<Rightarrow> world \<Rightarrow> world" where
  "upds [] f w = w"
| "upds (p # ps) f w = upds ps f (upd p f w)"

abbreviation owner_of :: "world \<Rightarrow> pref \<Rightarrow> STPM_T" where
  "owner_of w p \<equiv> bheap w (owner (pheap w p))"

lemma pheap_upd [simp]: "pheap (upd p f w) q = (if q = p then f (pheap w p) else pheap w q)"
  by (simp add: upd_def)

lemma bheap_upd [simp]: "bheap (upd p f w) = bheap w"
  by (simp add: upd_def)

lemma pheap_updb [simp]: "pheap (updb b f w) = pheap w"
  by (simp add: updb_def)

lemma bheap_updb [simp]: "bheap (updb b f w) c = (if c = b then f (bheap w b) else bheap w c)"
  by (simp add: updb_def)

lemma emit_simps [simp]:
  "pheap (emit e w) = pheap w" "bheap (emit e w) = bheap w" "out (emit e w) = out w @ [e]"
  "sttrans_count (emit e w) = sttrans_count w" "g_CISTPORT (emit e w) = g_CISTPORT w"
  "platform (emit e w) = platform w" "g_curBPDU (emit e w) = g_curBPDU w"
  "g_CISTBRIDGE (emit e w) = g_CISTBRIDGE w" "bridges (emit e w) = bridges w"
  "g_flag (emit e w) = g_flag w" "fault (emit e w) = fault w"
  by (simp_all add: emit_def)

lemma null_deref_simps [simp]:
  "pheap (null_deref w) = pheap w" "bheap (null_deref w) = bheap w" "out (null_deref w) = out w"
  "sttrans_count (null_deref w) = sttrans_count w" "g_CISTPORT (null_deref w) = g_CISTPORT w"
  "platform (null_deref w) = platform w" "g_curBPDU (null_deref w) = g_curBPDU w"
  "g_CISTBRIDGE (null_deref w) = g_CISTBRIDGE w" "bridges (null_deref w) = bridges w"
  "g_flag (null_deref w) = g_flag w" "fault (null_deref w)"
  by (simp_all add: null_deref_def)

lemma upd_frame [simp]:
  "out (upd p f w) = out w" "sttrans_count (upd p f w) = sttrans_count w"
  "g_CISTPORT (upd p f w) = g_CISTPORT w" "platform (upd p f w) = platform w"
  "g_curBPDU (upd p f w) = g_curBPDU w" "port_speed_s (upd p f w) = port_speed_s w"
  "port_duplex_mode_nodes (upd p f w) = port_duplex_mode_nodes w"
  "g_CISTBRIDGE (upd p f w) = g_CISTBRIDGE w" "bridges (upd p f w) = bridges w"
  "big_endian (upd p f w) = big_endian w" "g_flag (upd p f w) = g_flag w"
  "fault (upd p f w) = fault w"
  by (simp_all add: upd_def)

lemma updb_frame [simp]:
  "out (updb p f w) = out w" "sttrans_count (updb p f w) = sttrans_count w"
  "g_CISTPORT (updb p f w) = g_CISTPORT w" "platform (updb p f w) = platform w"
  "g_curBPDU (updb p f w) = g_curBPDU w" "port_speed_s (updb p f w) = port_speed_s w"
  "port_duplex_mode_nodes (updb p f w) = port_duplex_mode_nodes w"
  "g_CISTBRIDGE (updb p f w) = g_CISTBRIDGE w" "bridges (updb p f w) = bridges w"
  "big_endian (updb p f w) = big_endian w" "g_flag (updb p f w) = g_flag w"
  "fault (updb p f w) = fault w"
  by (simp_all add: updb_def)

lemma pheap_upds_other [simp]: "q \<notin> set ps \<Longrightarrow> pheap (upds ps f w) q = pheap w q"
  by (induction ps arbitrary: w) auto

lemma pheap_upds_in:
  "q \<in> set ps \<Longrightarrow> distinct ps \<Longrightarrow> pheap (upds ps f w) q = f (pheap w q)"
  by (induction ps arbitrary: w) auto

lemma pheap_upds_idem:
  "(\<And>t. f (f t) = f t) \<Longrightarrow> q \<in> set ps \<Longrightarrow> pheap (upds ps f w) q = f (pheap w q)"
proof (induction ps arbitrary: w)
  case (Cons a ps)
  then show ?case by (cases "q \<in> set ps") auto
qed simp

lemma bheap_upds [simp]: "bheap (upds ps f w) = bheap w"
  by (induction ps arbitrary: w) auto

lemma upds_frame [simp]:
  "out (upds ps f w) = out w" "sttrans_count (upds ps f w) = sttrans_count w"
  "g_CISTPORT (upds ps f w) = g_CISTPORT w" "platform (upds ps f w) = platform w"
  "g_curBPDU (upds ps f w) = g_curBPDU w" "port_speed_s (upds ps f w) = port_speed_s w"
  "port_duplex_mode_nodes (upds ps f w) = port_duplex_mode_nodes w"
  "g_CISTBRIDGE (upds ps f w) = g_CISTBRIDGE w" "bridges (upds ps f w) = bridges w"
  "big_endian (upds ps f w) = big_endian w" "g_flag (upds ps f w) = g_flag w"
  "fault (upds ps f w) = fault w"
  by (induction ps arbitrary: w) auto

text \<open>A field that an assignment leaves alone keeps its value in every port of a loop.\<close>

lemma upds_field:
  "(\<And>t. g (f t) = g t) \<Longrightarrow> g (pheap (upds ps f w) q) = g (pheap w q)"
  by (induction ps arbitrary: w) auto

text \<open>A loop over a list of ports with a body that also touches other objects.\<close>

primrec for_ports :: "(pref \<Rightarrow> world \<Rightarrow> world) \<Rightarrow> pref list \<Rightarrow> world \<Rightarrow> world" where
  "for_ports bd [] w = w"
| "for_ports bd (p # ps) w = for_ports bd ps (bd p w)"

lemma for_ports_inv:
  assumes "\<And>p w. p \<in> set ps \<Longrightarrow> I w \<Longrightarrow> I (bd p w)" and "I w"
  shows "I (for_ports bd ps w)"
  using assms by (induction ps arbitrary: w) auto

lemma for_ports_field:
  assumes "\<And>p w. g (bd p w) = g w"
  shows "g (for_ports bd ps w) = g w"
  using assms by (induction ps arbitrary: w) auto

subsection \<open>Zeroed objects\<close>

text \<open>The contents of an object that \<open>STP_MALLOC\<close> returns (\<open>calloc\<close>).\<close>

definition zero_bridge_id :: BRIDGE_ID where
  "zero_bridge_id = \<lparr>prio = 0, addr = replicate 6 0\<rparr>"

definition zero_vector :: PRIO_VECTOR_T where
  "zero_vector = stp_vector_create zero_bridge_id 0 zero_bridge_id 0 zero_bridge_id 0 0"

definition zero_times :: TIMEVALUES_T where
  "zero_times = \<lparr>MessageAge = 0, MaxAge = 0, ForwardDelay = 0, HelloTime = 0, RemainingHops = 0\<rparr>"

definition zero_vlan_map :: VLAN_MAP_T where
  "zero_vlan_map = \<lparr>bmp = replicate 512 0, ulcount = 0\<rparr>"

definition zero_port :: PORT_T where
  "zero_port =
     \<lparr>nextMst = [], p_vlan_map = zero_vlan_map,
      info = stp_statmch_create INFO_BEGIN, roletrns = stp_statmch_create RT_BEGIN,
      sttrans = stp_statmch_create ST_BEGIN, topoch = stp_statmch_create TC_BEGIN,
      migrate = stp_statmch_create MIG_BEGIN, transmit = stp_statmch_create TX_BEGIN,
      p2p = stp_statmch_create P2P_BEGIN, edge = stp_statmch_create EDGE_BEGIN,
      pcost = stp_statmch_create PC_BEGIN, receive = stp_statmch_create RX_BEGIN,
      owner = 0,
      fdWhile = 0, helloWhen = 0, mdelayWhile = 0, rbWhile = 0, rcvdInfoWhile = 0, rrWhile = 0,
      tcWhile = 0, txCount = 0, lnkWhile = 0,
      agreed = False, designPrio = zero_vector, designTimes = zero_times, forward = False,
      forwarding = False, infoIs = Mine, initPm = False, learn = False, learning = False,
      mcheck = False, msgPrio = zero_vector, msgTimes = zero_times, newInfo = False,
      operEdge = False, adminEdge = False, portEnabled = False, port_id = 0,
      portPrio = zero_vector, portTimes = zero_times, proposed = False, proposing = False,
      rcvdBpdu = False, rcvdInfo = SuperiorDesignateMsg, rcvdRSTP = False, rcvdSTP = False,
      rcvdTc = False, rcvdTcAck = False, rcvdTcn = False, reRoot = False, reselect = False,
      role = DisabledPort, selected = False, selectedRole = DisabledPort, sendRSTP = False,
      sync = False, synced = False, tc = False, tcAck = False, tcProp = False,
      updtInfo = False, agree = False, changedMaster = False, infoInternal = False,
      mstiMaster = False, mstiMastered = False, newInfoCist = False, newInfoMsti = False,
      rcvdInternal = False, rcvdMsg = False, msgBpduVersion = 0, msgBpduType = 0,
      msgPortRole = 0, msgFlags = 0, adminPCost = 0, operPCost = 0, operSpeed = 0,
      usedSpeed = 0, LinkDelay = 0, adminEnable = False, isWAN = False, slot_no = 0,
      port_no = 0, port_ifindex = 0, br_ifindex = 0, wasInitBpdu = False,
      admin_non_stp = False, p2p_recompute = False, operPointToPointMac = False,
      adminPointToPointMac = P2P_FORCE_FALSE_E, rx_cfg_bpdu_cnt = 0, rx_rstp_bpdu_cnt = 0,
      rx_tcn_bpdu_cnt = 0, uptime = 0, port_index = 0, p_vlan_id = 0, skip_rx = 0, skip_tx = 0,
      configDigestSnp = False, p_digest = replicate 16 0\<rparr>"

definition zero_stpm :: STPM_T where
  "zero_stpm =
     \<lparr>ports = [], rolesel = stp_statmch_create RS_BEGIN, ForceVersion = FORCE_STP_COMPAT,
      BrId = zero_bridge_id, BrTimes = zero_times, rootPortId = 0, rootPrio = zero_vector,
      rootTimes = zero_times,
      MstConfigId = \<lparr>FormatSelector = 0, ConfigurationName = replicate 32 0,
        RevisionLevel = replicate 2 0, ConfigurationDigest = replicate 16 0\<rparr>,
      br_vlan_id = 0, br_name = replicate 32 0, br_vlan_map = zero_vlan_map,
      admin_state = STP_DISABLED, timeSince_Topo_Change = 0, Topo_Change_Count = 0,
      Topo_Change = False, br_digest = replicate 17 0\<rparr>"

text \<open>The globals as the program starts with them, and no objects.\<close>

definition init_world :: world where
  "init_world =
     \<lparr>pheap = (\<lambda>_. zero_port), bheap = (\<lambda>_. zero_stpm), next_pref = 0, next_bref = 0,
      bridges = [], g_CISTBRIDGE = None, g_CISTPORT = (\<lambda>_. None),
      g_curBPDU = \<lparr>cur_bpdu = None, cur_bpdu_type = 0, cur_digestSnp = False\<rparr>,
      g_VID2MSTID = (\<lambda>_. 0), g_VlanPBMP = (\<lambda>_. replicate 9 0), g_stp_state = STP_DISABLED,
      g_flag = False, current_mode = NOT_MODE, sttrans_count = 0, enabled_ports = replicate 9 0, port_speed_s = None,
      port_duplex_mode_nodes = None, stp_ports = None, sysMac = replicate 6 0,
      platform = \<lparr>productId = PRODUCT_ID_NONE, stp_is_distributed = False, stp_slot_id = 0\<rparr>,
      big_endian = True, pkt_mstid = 0, max_port = 0, fault = False, out = []\<rparr>"

subsection \<open>Looking a port up\<close>

text \<open>\<open>stp_port_global_index_parse\<close>; \<open>None\<close> is the result \<open>-1\<close>. The range check in the source
  (\<open>port_index < 0 && ...\<close> on an unsigned value) never rejects. For the AX7K the subtraction
  wraps below 64.\<close>

definition stp_port_global_index_parse :: "platform_t \<Rightarrow> nat \<Rightarrow> nat option" where
  "stp_port_global_index_parse pf pidx =
     (if stp_is_distributed pf then Some (pidx mod 64)
      else if productId pf = PRODUCT_ID_AX7K
        then (let byte = unat ((of_nat pidx - 64 :: u32) div 64); bit = pidx mod 64 in
              Some (byte * 6 + bit))
      else if au3k_family (productId pf) \<or> productId pf = PRODUCT_ID_AX5K_E \<or>
              productId pf = PRODUCT_ID_AX5608
        then Some pidx
      else if productId pf = PRODUCT_ID_AX5K_I
        then Some (if pidx \<ge> 56 then pidx - 56 else pidx)
      else if productId pf = PRODUCT_ID_AX5K \<or> productId pf = PRODUCT_ID_AU4K
        then Some (if pidx \<ge> 64 then pidx - 64 else pidx)
      else None)"

definition stp_port_mst_findport :: "nat \<Rightarrow> nat \<Rightarrow> world \<Rightarrow> pref option" where
  "stp_port_mst_findport MSTID pidx w =
     (case stp_port_global_index_parse (platform w) pidx of
        None \<Rightarrow> None
      | Some index \<Rightarrow>
          if index > MAX_PORT_NUM then None
          else case g_CISTPORT w index of
            None \<Rightarrow> None
          | Some port \<Rightarrow>
              if MSTID = STP_CIST_ID then Some port
              else find (\<lambda>q. br_vlan_id (owner_of w q) = MSTID) (nextMst (pheap w port)))"

definition stp_stpm_get_instance :: "nat \<Rightarrow> world \<Rightarrow> bref option" where
  "stp_stpm_get_instance mstid w = find (\<lambda>b. br_vlan_id (bheap w b) = mstid) (bridges w)"

text \<open>The CIST port of an index depends on the port table only.\<close>

lemma findport_cist:
  "stp_port_mst_findport 0 i w =
     (case stp_port_global_index_parse (platform w) i of
        None \<Rightarrow> None | Some index \<Rightarrow> if index > 51 then None else g_CISTPORT w index)"
  by (auto simp: stp_port_mst_findport_def split: option.split)

lemma findport_cist_cong:
  "platform w = platform w' \<Longrightarrow> g_CISTPORT w = g_CISTPORT w' \<Longrightarrow>
     stp_port_mst_findport 0 i w = stp_port_mst_findport 0 i w'"
  by (simp add: findport_cist split: option.split)

lemma findport_frame [simp]:
  "stp_port_mst_findport 0 i (upd p f w) = stp_port_mst_findport 0 i w"
  "stp_port_mst_findport 0 i (updb b g w) = stp_port_mst_findport 0 i w"
  "stp_port_mst_findport 0 i (upds ps f w) = stp_port_mst_findport 0 i w"
  "stp_port_mst_findport 0 i (emit e w) = stp_port_mst_findport 0 i w"
  "stp_port_mst_findport 0 i (null_deref w) = stp_port_mst_findport 0 i w"
  by (rule findport_cist_cong; simp)+

subsection \<open>Port machines\<close>

text \<open>The machine object of a port that is stored in the member with the given accessors, with
  the function pointers \<open>STP_STATE_MACH_IN_LIST\<close> installs.\<close>

definition port_machine ::
  "(PORT_T \<Rightarrow> 's STATE_MACH_T) \<Rightarrow> (('s STATE_MACH_T \<Rightarrow> 's STATE_MACH_T) \<Rightarrow> PORT_T \<Rightarrow> PORT_T) \<Rightarrow> 's \<Rightarrow>
   (pref \<Rightarrow> world \<Rightarrow> world) \<Rightarrow> (pref \<Rightarrow> world \<Rightarrow> world \<times> bool) \<Rightarrow> pref \<Rightarrow> world machine_ops" where
  "port_machine get set_mach begin_state enter check p =
     \<lparr>get_changeState = (\<lambda>w. changeState (get (pheap w p))),
      set_changeState = (\<lambda>c. upd p (set_mach (\<lambda>m. m\<lparr>changeState := c\<rparr>))),
      set_begin = upd p (set_mach (\<lambda>m. m\<lparr>State := begin_state\<rparr>)),
      concreteEnterState = enter p, concreteCheckCondition = check p\<rparr>"

text \<open>\<open>return stp_statmch_hop_2_state (this, new_state)\<close> in a condition function.\<close>

definition hop ::
  "(('s STATE_MACH_T \<Rightarrow> 's STATE_MACH_T) \<Rightarrow> PORT_T \<Rightarrow> PORT_T) \<Rightarrow> pref \<Rightarrow> 's \<Rightarrow> world \<Rightarrow> world \<times> bool" where
  "hop set_mach p s w = (upd p (set_mach (stp_statmch_hop_2_state s)) w, True)"

text \<open>The same for the one machine of a bridge instance.\<close>

definition bridge_machine ::
  "(STPM_T \<Rightarrow> 's STATE_MACH_T) \<Rightarrow> (('s STATE_MACH_T \<Rightarrow> 's STATE_MACH_T) \<Rightarrow> STPM_T \<Rightarrow> STPM_T) \<Rightarrow> 's \<Rightarrow>
   (bref \<Rightarrow> world \<Rightarrow> world) \<Rightarrow> (bref \<Rightarrow> world \<Rightarrow> world \<times> bool) \<Rightarrow> bref \<Rightarrow> world machine_ops" where
  "bridge_machine get set_mach begin_state enter check b =
     \<lparr>get_changeState = (\<lambda>w. changeState (get (bheap w b))),
      set_changeState = (\<lambda>c. updb b (set_mach (\<lambda>m. m\<lparr>changeState := c\<rparr>))),
      set_begin = updb b (set_mach (\<lambda>m. m\<lparr>State := begin_state\<rparr>)),
      concreteEnterState = enter b, concreteCheckCondition = check b\<rparr>"

definition hopb ::
  "(('s STATE_MACH_T \<Rightarrow> 's STATE_MACH_T) \<Rightarrow> STPM_T \<Rightarrow> STPM_T) \<Rightarrow> bref \<Rightarrow> 's \<Rightarrow> world \<Rightarrow> world \<times> bool" where
  "hopb set_mach b s w = (updb b (set_mach (stp_statmch_hop_2_state s)) w, True)"

lemmas machine_simps = port_machine_def hop_def statmch_step_def stp_statmch_check_condition_def
  Let_def split_beta

end
