(* ===== verification/StpTo.thy ===== *)
theory StpTo
  imports StpWorld
begin

text \<open>
  The system-dependent functions of \<open>stp_to.c\<close>. In the configuration the Makefile selects
  (\<open>STRONGLY_SPEC_802_1W\<close>) the learning, forwarding and flush calls only return \<open>STP_OK\<close>.
\<close>

definition stp_to_get_port_mac :: "world \<Rightarrow> u8 list" where
  "stp_to_get_port_mac w = take 6 (sysMac w)"

definition stp_to_get_port_link_status :: "nat \<Rightarrow> world \<Rightarrow> bool" where
  "stp_to_get_port_link_status pidx w \<longleftrightarrow>
     stp_bitmap_get_bit (platform w) (enabled_ports w) pidx \<noteq> 0"

fun speed_value :: "STP_PORT_SPEED_ENT \<Rightarrow> u32" where
  "speed_value STP_PORT_SPEED_10_E = 10"
| "speed_value STP_PORT_SPEED_100_E = 100"
| "speed_value STP_PORT_SPEED_1000_E = 1000"
| "speed_value STP_PORT_SPEED_10000_E = 10000"
| "speed_value STP_PORT_SPEED_12000_E = 12000"
| "speed_value STP_PORT_SPEED_2500_E = 2500"
| "speed_value STP_PORT_SPEED_5000_E = 5000"

text \<open>\<open>STP_ERROR\<close> (the value 1) for an index out of range, the configured speed when the port is
  up, and a default otherwise.\<close>

definition stp_to_get_port_oper_speed :: "PORT_T \<Rightarrow> world \<Rightarrow> u32" where
  "stp_to_get_port_oper_speed port w =
     (let portNo = port_index port in
      if portNo > PORT_INDEX_MAX then 1
      else case Option.bind (port_speed_s w) (\<lambda>nodes. nodes portNo) of
        Some node \<Rightarrow>
          if portNo = psn_port_index node \<and> adminEnable port then speed_value (psn_port_speed node)
          else if portNo \<ge> PORT_INDEX_MAX then 1000000 else 1
      | None \<Rightarrow> if portNo \<ge> PORT_INDEX_MAX then 1000000 else 1)"

definition stp_to_get_duplex :: "PORT_T \<Rightarrow> world \<Rightarrow> bool" where
  "stp_to_get_duplex port w =
     (if port_index port > PORT_INDEX_MAX then True
      else case Option.bind (port_duplex_mode_nodes w) (\<lambda>nodes. nodes (port_index port)) of
        Some mode \<Rightarrow> if adminEnable port then mode = DUPLEX_FULL else False
      | None \<Rightarrow> False)"

definition stp_to_tx_bpdu ::
  "nat \<Rightarrow> nat \<Rightarrow> u8 list \<Rightarrow> nat \<Rightarrow> bool \<Rightarrow> nat \<Rightarrow> nat \<Rightarrow> world \<Rightarrow> int \<times> world" where
  "stp_to_tx_bpdu pidx vlan bpdu bpdu_len wan slot pno w =
     (0, emit (Tx_bpdu pidx vlan bpdu bpdu_len wan slot pno) w)"

text \<open>Management defaults.\<close>

abbreviation (input) DEF_BR_PRIO :: u16 where "DEF_BR_PRIO \<equiv> 32768"
abbreviation (input) DEF_BR_HELLOT :: u16 where "DEF_BR_HELLOT \<equiv> 2"
abbreviation (input) DEF_BR_MAXAGE :: u16 where "DEF_BR_MAXAGE \<equiv> 20"
abbreviation (input) DEF_BR_FWDELAY :: u16 where "DEF_BR_FWDELAY \<equiv> 15"
abbreviation (input) DEF_REMAINING_HOPS :: u8 where "DEF_REMAINING_HOPS \<equiv> 20"
abbreviation (input) DEF_PORT_PRIO :: u16 where "DEF_PORT_PRIO \<equiv> 128"
abbreviation (input) DEF_LINK_DELAY :: u32 where "DEF_LINK_DELAY \<equiv> 3"

definition stp_to_get_init_port_cfg :: "PORT_T \<Rightarrow> PORT_T" where
  "stp_to_get_init_port_cfg t =
     t\<lparr>admin_non_stp := False, adminEdge := True, adminPCost := ADMIN_PORT_PATH_COST_AUTO,
       adminPointToPointMac := P2P_AUTO_E\<rparr>"

end
