(* ===== verification/StpMigrate.thy ===== *)
theory StpMigrate
  imports StpTo
begin

text \<open>The Port Protocol Migration machine (\<open>stp_migrate.c\<close>).\<close>

abbreviation (input) MigrateTime :: u32 where "MigrateTime \<equiv> 3"

definition MSTP_migrate_enter_state :: "pref \<Rightarrow> world \<Rightarrow> world" where
  "MSTP_migrate_enter_state p w =
     (case State (migrate (pheap w p)) of
        MIG_BEGIN \<Rightarrow> upd p (\<lambda>t. t\<lparr>initPm := True, mcheck := False\<rparr>) w
      | MIG_INIT \<Rightarrow> upd p (\<lambda>t. t\<lparr>initPm := True, mcheck := False\<rparr>) w
      | SEND_RSTP \<Rightarrow>
          upd p (\<lambda>t. t\<lparr>mdelayWhile := MigrateTime, initPm := False, mcheck := False, sendRSTP := True\<rparr>) w
      | SENDING_RSTP \<Rightarrow> upd p (\<lambda>t. t\<lparr>rcvdSTP := False, rcvdRSTP := False\<rparr>) w
      | SEND_STP \<Rightarrow> upd p (\<lambda>t. t\<lparr>mdelayWhile := MigrateTime, sendRSTP := False, initPm := False\<rparr>) w
      | SENDING_STP \<Rightarrow> upd p (\<lambda>t. t\<lparr>rcvdSTP := False, rcvdRSTP := False\<rparr>) w)"

definition MSTP_migrate_check_conditions :: "pref \<Rightarrow> world \<Rightarrow> world \<times> bool" where
  "MSTP_migrate_check_conditions p w =
     (let port = pheap w p; hop_2_state = hop migrate_update p in
      if (\<not> portEnabled port \<and> \<not> initPm port) \<or> State (migrate port) = MIG_BEGIN
      then hop_2_state MIG_INIT w
      else case State (migrate port) of
        MIG_BEGIN \<Rightarrow> (w, False)
      | MIG_INIT \<Rightarrow>
          if portEnabled port
          then hop_2_state (if version_num (ForceVersion (owner_of w p)) \<ge> 2 then SEND_RSTP else SEND_STP) w
          else (w, False)
      | SEND_RSTP \<Rightarrow> hop_2_state SENDING_RSTP w
      | SENDING_RSTP \<Rightarrow>
          if mcheck port then hop_2_state SEND_RSTP w
          else if mdelayWhile port \<noteq> 0 \<and> (rcvdSTP port \<or> rcvdRSTP port) then hop_2_state SENDING_RSTP w
          else if mdelayWhile port = 0 \<and> rcvdSTP port then hop_2_state SEND_STP w
          else if version_num (ForceVersion (owner_of w p)) < 2 then hop_2_state SEND_STP w
          else (w, False)
      | SEND_STP \<Rightarrow> hop_2_state SENDING_STP w
      | SENDING_STP \<Rightarrow>
          if mcheck port then hop_2_state SEND_RSTP w
          else if mdelayWhile port \<noteq> 0 \<and> (rcvdSTP port \<or> rcvdRSTP port) then hop_2_state SENDING_STP w
          else if mdelayWhile port = 0 \<and> rcvdRSTP port then hop_2_state SEND_RSTP w
          else (w, False))"

definition migrate_machine :: "pref \<Rightarrow> world machine_ops" where
  "migrate_machine =
     port_machine migrate migrate_update MIG_BEGIN MSTP_migrate_enter_state MSTP_migrate_check_conditions"

subsection \<open>The machine comes to rest\<close>

definition migrate_rank :: "pref \<Rightarrow> world \<Rightarrow> nat" where
  "migrate_rank p w =
     (let t = pheap w p in
      if portEnabled t
      then (case State (migrate t) of
          MIG_BEGIN \<Rightarrow> 5 | MIG_INIT \<Rightarrow> 4 | SEND_RSTP \<Rightarrow> 3
        | SENDING_RSTP \<Rightarrow> if mcheck t then 4 else 2
        | SEND_STP \<Rightarrow> if mcheck t then 5 else 1
        | SENDING_STP \<Rightarrow> if mcheck t then 4 else 0)
      else (case State (migrate t) of
          MIG_BEGIN \<Rightarrow> 3 | MIG_INIT \<Rightarrow> 0 | SEND_RSTP \<Rightarrow> 1 | SENDING_RSTP \<Rightarrow> 2 | SEND_STP \<Rightarrow> 1
        | SENDING_STP \<Rightarrow> 2))"

lemmas migrate_defs = migrate_machine_def MSTP_migrate_enter_state_def
  MSTP_migrate_check_conditions_def machine_simps

interpretation mig: progressing_machine "migrate_machine p" "\<lambda>_. True" "migrate_rank p" for p
proof
  fix w
  assume "get_changeState (migrate_machine p) (statmch_step (migrate_machine p) w)"
  then show "migrate_rank p (statmch_step (migrate_machine p) w) < migrate_rank p w"
    by (cases "State (migrate (pheap w p))"; cases "portEnabled (pheap w p)"; cases "mcheck (pheap w p)")
      (auto simp: migrate_defs migrate_rank_def split: if_splits)
qed simp_all

end
