(* ===== verification/StpEdge.thy ===== *)
theory StpEdge
  imports StpTo
begin

text \<open>The edge port machine (\<open>stp_edge.c\<close>): from link up to an operational edge decision.\<close>

definition MSTP_edge_enter_state :: "pref \<Rightarrow> world \<Rightarrow> world" where
  "MSTP_edge_enter_state p w =
     (let mst = nextMst (pheap w p) in
      case State (edge (pheap w p)) of
        EDGE_BEGIN \<Rightarrow> w
      | EDGE_DISABLED \<Rightarrow>
          upds mst (\<lambda>t. t\<lparr>operEdge := adminEdge t, portEnabled := False\<rparr>)
            (upd p (\<lambda>t. t\<lparr>operEdge := adminEdge t, wasInitBpdu := False, lnkWhile := 0,
                          portEnabled := False\<rparr>) w)
      | EDGE_DETECTED \<Rightarrow>
          upds mst (\<lambda>t. t\<lparr>operEdge := False, portEnabled := True\<rparr>)
            (upd p (\<lambda>t. t\<lparr>portEnabled := True, lnkWhile := LinkDelay t, operEdge := False\<rparr>) w)
      | DELEAYED \<Rightarrow> w
      | RESOLVED \<Rightarrow>
          if \<not> wasInitBpdu (pheap w p)
          then let w = upd p (\<lambda>t. t\<lparr>operEdge := adminEdge t\<rparr>) w in
               upds mst (\<lambda>t. t\<lparr>operEdge := operEdge (pheap w p)\<rparr>) w
          else w)"

definition MSTP_edge_check_conditions :: "pref \<Rightarrow> world \<Rightarrow> world \<times> bool" where
  "MSTP_edge_check_conditions p w =
     (let port = pheap w p; hop_2_state = hop edge_update p in
      case State (edge port) of
        EDGE_BEGIN \<Rightarrow> hop_2_state EDGE_DISABLED w
      | EDGE_DISABLED \<Rightarrow> if adminEnable port then hop_2_state EDGE_DETECTED w else (w, False)
      | EDGE_DETECTED \<Rightarrow> hop_2_state DELEAYED w
      | DELEAYED \<Rightarrow>
          if wasInitBpdu port then hop_2_state RESOLVED w
          else if lnkWhile port = 0 then hop_2_state RESOLVED w
          else if \<not> adminEnable port then hop_2_state EDGE_DISABLED w
          else (w, False)
      | RESOLVED \<Rightarrow> if \<not> adminEnable port then hop_2_state EDGE_DISABLED w else (w, False))"

definition edge_machine :: "pref \<Rightarrow> world machine_ops" where
  "edge_machine =
     port_machine edge edge_update EDGE_BEGIN MSTP_edge_enter_state MSTP_edge_check_conditions"

subsection \<open>The machine comes to rest\<close>

definition edge_rank :: "pref \<Rightarrow> world \<Rightarrow> nat" where
  "edge_rank p w =
     (if adminEnable (pheap w p)
      then (case State (edge (pheap w p)) of
          EDGE_BEGIN \<Rightarrow> 4 | EDGE_DISABLED \<Rightarrow> 3 | EDGE_DETECTED \<Rightarrow> 2 | DELEAYED \<Rightarrow> 1 | RESOLVED \<Rightarrow> 0)
      else (case State (edge (pheap w p)) of
          EDGE_BEGIN \<Rightarrow> 4 | EDGE_DISABLED \<Rightarrow> 0 | EDGE_DETECTED \<Rightarrow> 3 | DELEAYED \<Rightarrow> 2 | RESOLVED \<Rightarrow> 1))"

lemmas edge_defs = edge_machine_def MSTP_edge_enter_state_def MSTP_edge_check_conditions_def
  machine_simps

lemma edge_enter_frame [simp]:
  "edge (pheap (MSTP_edge_enter_state p w) q) = edge (pheap w q)"
  "adminEnable (pheap (MSTP_edge_enter_state p w) q) = adminEnable (pheap w q)"
  "nextMst (pheap (MSTP_edge_enter_state p w) q) = nextMst (pheap w q)"
  by (auto simp: MSTP_edge_enter_state_def Let_def upds_field split: edge_state.split)

interpretation edg: progressing_machine "edge_machine p" "\<lambda>_. True" "edge_rank p" for p
proof
  fix w
  assume "get_changeState (edge_machine p) (statmch_step (edge_machine p) w)"
  then show "edge_rank p (statmch_step (edge_machine p) w) < edge_rank p w"
    by (cases "State (edge (pheap w p))"; cases "adminEnable (pheap w p)")
      (auto simp: edge_machine_def MSTP_edge_check_conditions_def machine_simps edge_rank_def
        split: if_splits)
qed simp_all

end
