(* ===== verification/StpP2p.thy ===== *)
theory StpP2p
  imports StpTo
begin

text \<open>The point-to-point machine (\<open>stp_p2p.c\<close>).\<close>

definition stp_p2p_port_check :: "PORT_T \<Rightarrow> world \<Rightarrow> bool" where
  "stp_p2p_port_check port w =
     (case adminPointToPointMac port of
        P2P_FORCE_TRUE_E \<Rightarrow> True
      | P2P_FORCE_FALSE_E \<Rightarrow> False
      | P2P_AUTO_E \<Rightarrow> stp_to_get_duplex port w)"

definition MSTP_p2p_enter_state :: "pref \<Rightarrow> world \<Rightarrow> world" where
  "MSTP_p2p_enter_state p w =
     (case State (p2p (pheap w p)) of
        P2P_BEGIN \<Rightarrow> upd p (\<lambda>t. t\<lparr>p2p_recompute := True\<rparr>) w
      | P2P_INIT \<Rightarrow> upd p (\<lambda>t. t\<lparr>p2p_recompute := True\<rparr>) w
      | RECOMPUTE \<Rightarrow>
          (let w = upd p (\<lambda>t. t\<lparr>operPointToPointMac := stp_p2p_port_check t w,
                                p2p_recompute := False\<rparr>) w in
           upds (nextMst (pheap w p))
             (\<lambda>t. t\<lparr>operPointToPointMac := operPointToPointMac (pheap w p)\<rparr>) w)
      | P2P_STABLE \<Rightarrow> w)"

definition MSTP_p2p_check_conditions :: "pref \<Rightarrow> world \<Rightarrow> world \<times> bool" where
  "MSTP_p2p_check_conditions p w =
     (let hop_2_state = hop p2p_update p in
      case State (p2p (pheap w p)) of
        P2P_BEGIN \<Rightarrow> hop_2_state P2P_STABLE w
      | P2P_INIT \<Rightarrow> hop_2_state P2P_STABLE w
      | RECOMPUTE \<Rightarrow> hop_2_state P2P_STABLE w
      | P2P_STABLE \<Rightarrow> if p2p_recompute (pheap w p) then hop_2_state RECOMPUTE w else (w, False))"

definition p2p_machine :: "pref \<Rightarrow> world machine_ops" where
  "p2p_machine = port_machine p2p p2p_update P2P_BEGIN MSTP_p2p_enter_state MSTP_p2p_check_conditions"

subsection \<open>The machine comes to rest\<close>

definition p2p_rank :: "pref \<Rightarrow> world \<Rightarrow> nat" where
  "p2p_rank p w =
     (case State (p2p (pheap w p)) of
        P2P_BEGIN \<Rightarrow> 4 | P2P_INIT \<Rightarrow> 4 | RECOMPUTE \<Rightarrow> 2
      | P2P_STABLE \<Rightarrow> if p2p_recompute (pheap w p) then 3 else 0)"

lemma p2p_enter_frame [simp]:
  "p2p (pheap (MSTP_p2p_enter_state p w) q) = p2p (pheap w q)"
  "nextMst (pheap (MSTP_p2p_enter_state p w) q) = nextMst (pheap w q)"
  by (auto simp: MSTP_p2p_enter_state_def Let_def upds_field split: p2p_state.split)

lemma p2p_enter_recompute:
  "State (p2p (pheap w p)) = RECOMPUTE \<Longrightarrow> \<not> p2p_recompute (pheap (MSTP_p2p_enter_state p w) p)"
  "State (p2p (pheap w p)) = P2P_STABLE \<Longrightarrow> MSTP_p2p_enter_state p w = w"
  by (auto simp: MSTP_p2p_enter_state_def Let_def upds_field)

interpretation pp: progressing_machine "p2p_machine p" "\<lambda>_. True" "p2p_rank p" for p
proof
  fix w
  assume "get_changeState (p2p_machine p) (statmch_step (p2p_machine p) w)"
  then show "p2p_rank p (statmch_step (p2p_machine p) w) < p2p_rank p w"
    using p2p_enter_recompute [of w p]
    by (cases "State (p2p (pheap w p))")
      (auto simp: p2p_machine_def MSTP_p2p_check_conditions_def machine_simps p2p_rank_def
        split: if_splits)
qed simp_all

end
