(* ===== verification/StpPcost.thy ===== *)
theory StpPcost
  imports StpTo
begin

text \<open>The path cost machine (\<open>stp_pcost.c\<close>).\<close>

definition stp_pcost_compute_auto_pcost :: "u32 \<Rightarrow> u32" where
  "stp_pcost_compute_auto_pcost speed =
     (if speed < 10 then 20000000
      else if speed \<le> 10 then 2000000
      else if speed \<le> 100 then 200000
      else if speed \<le> 1000 then 20000
      else if speed \<le> 10000 then 2000
      else if speed \<le> 100000 then 200
      else if speed \<le> 1000000 then 20
      else if speed \<le> 10000000 then 2
      else 1)"

definition stp_pcost_updport_pcost :: "pref \<Rightarrow> world \<Rightarrow> world" where
  "stp_pcost_updport_pcost p w = upd p (\<lambda>t. t\<lparr>reselect := True, selected := False\<rparr>) w"

definition MSTP_pcost_enter_state :: "pref \<Rightarrow> world \<Rightarrow> world" where
  "MSTP_pcost_enter_state p w =
     (case State (pcost (pheap w p)) of
        PC_BEGIN \<Rightarrow> w
      | AUTO \<Rightarrow>
          (let speed = stp_to_get_port_oper_speed (pheap w p) w in
           upd p (\<lambda>t. t\<lparr>operSpeed := speed, usedSpeed := speed,
                        operPCost := stp_pcost_compute_auto_pcost speed\<rparr>) w)
      | FORSE \<Rightarrow> upd p (\<lambda>t. t\<lparr>operPCost := adminPCost t, usedSpeed := - 1\<rparr>) w
      | PC_STABLE \<Rightarrow> stp_pcost_updport_pcost p w)"

definition MSTP_pcost_check_conditions :: "pref \<Rightarrow> world \<Rightarrow> world \<times> bool" where
  "MSTP_pcost_check_conditions p w =
     (let port = pheap w p; hop_2_state = hop pcost_update p in
      case State (pcost port) of
        PC_BEGIN \<Rightarrow> hop_2_state AUTO w
      | AUTO \<Rightarrow> hop_2_state PC_STABLE w
      | FORSE \<Rightarrow> hop_2_state PC_STABLE w
      | PC_STABLE \<Rightarrow>
          if ADMIN_PORT_PATH_COST_AUTO = adminPCost port \<and> operSpeed port \<noteq> usedSpeed port
          then hop_2_state AUTO w
          else if ADMIN_PORT_PATH_COST_AUTO \<noteq> adminPCost port \<and> operPCost port \<noteq> adminPCost port
          then hop_2_state FORSE w
          else (w, False))"

definition pcost_machine :: "pref \<Rightarrow> world machine_ops" where
  "pcost_machine =
     port_machine pcost pcost_update PC_BEGIN MSTP_pcost_enter_state MSTP_pcost_check_conditions"

subsection \<open>The machine comes to rest\<close>

definition pcost_rank :: "pref \<Rightarrow> world \<Rightarrow> nat" where
  "pcost_rank p w =
     (let t = pheap w p; auto_cost = (adminPCost t = ADMIN_PORT_PATH_COST_AUTO) in
      case State (pcost t) of
        PC_BEGIN \<Rightarrow> 5
      | AUTO \<Rightarrow> if auto_cost then 1 else 4
      | FORSE \<Rightarrow> if auto_cost then 4 else 1
      | PC_STABLE \<Rightarrow> if (if auto_cost then operSpeed t \<noteq> usedSpeed t else operPCost t \<noteq> adminPCost t)
                     then 3 else 0)"

lemmas pcost_defs = pcost_machine_def MSTP_pcost_enter_state_def MSTP_pcost_check_conditions_def
  stp_pcost_updport_pcost_def machine_simps

interpretation pc: progressing_machine "pcost_machine p" "\<lambda>_. True" "pcost_rank p" for p
proof
  fix w
  assume "get_changeState (pcost_machine p) (statmch_step (pcost_machine p) w)"
  then show "pcost_rank p (statmch_step (pcost_machine p) w) < pcost_rank p w"
    by (cases "State (pcost (pheap w p))"; cases "adminPCost (pheap w p) = ADMIN_PORT_PATH_COST_AUTO")
      (auto simp: pcost_defs pcost_rank_def split: if_splits)
qed simp_all

end
