(* ===== verification/StpSttrans.thy ===== *)
theory StpSttrans
  imports StpTo
begin

text \<open>The Port State Transition machine (\<open>stp_sttrans.c\<close>). It carries the \<open>learn\<close> and \<open>forward\<close>
  orders of the role transitions out, and reports the port state to the switch driver. The
  learning and forwarding switches themselves only return in this configuration.\<close>

definition nam_state :: "sttrans_state \<Rightarrow> NAM_RSTP_PORT_STATE_E" where
  "nam_state s =
     (case s of
        ST_BEGIN \<Rightarrow> NAM_STP_PORT_STATE_DISABLE_E
      | DISCARDING \<Rightarrow> NAM_STP_PORT_STATE_DISCARD_E
      | LEARNING \<Rightarrow> NAM_STP_PORT_STATE_LEARN_E
      | FORWARDING \<Rightarrow> NAM_STP_PORT_STATE_FORWARD_E)"

definition stp_sttrans_sendStpStatetoNpd :: "pref \<Rightarrow> world \<Rightarrow> world" where
  "stp_sttrans_sendStpStatetoNpd p w =
     (let port = pheap w p; state = nam_state (State (sttrans port)) in
      if isWAN port then emit (Npd_wan_state (br_ifindex port) (port_ifindex port) state) w
      else emit (Npd_stp_info (p_vlan_id port) 0 (port_index port) state) w)"

definition MSTP_sttrans_enter_state :: "pref \<Rightarrow> world \<Rightarrow> world" where
  "MSTP_sttrans_enter_state p w =
     (let discard = (\<lambda>w. let w = upd p (\<lambda>t. t\<lparr>learning := False, forwarding := False\<rparr>) w in
                         if portEnabled (pheap w p) then stp_sttrans_sendStpStatetoNpd p w else w) in
      case State (sttrans (pheap w p)) of
        ST_BEGIN \<Rightarrow> discard w
      | DISCARDING \<Rightarrow> discard w
      | LEARNING \<Rightarrow> stp_sttrans_sendStpStatetoNpd p (upd p (\<lambda>t. t\<lparr>learning := True\<rparr>) w)
      | FORWARDING \<Rightarrow>
          stp_sttrans_sendStpStatetoNpd p
            (upd p (\<lambda>t. t\<lparr>tc := \<not> operEdge t, forwarding := True, synced := False,
                          proposing := False, agreed := False\<rparr>) w))"

definition MSTP_sttrans_check_conditions :: "pref \<Rightarrow> world \<Rightarrow> world \<times> bool" where
  "MSTP_sttrans_check_conditions p w =
     (let port = pheap w p; hop_2_state = hop sttrans_update p in
      case State (sttrans port) of
        ST_BEGIN \<Rightarrow> hop_2_state DISCARDING w
      | DISCARDING \<Rightarrow>
          (let w = (if portEnabled port \<and> sttrans_count w < 1 \<and> \<not> learn port
                    then (let w = stp_sttrans_sendStpStatetoNpd p w in
                          w\<lparr>sttrans_count := sttrans_count w + 1\<rparr>)
                    else w) in
           if learn port then hop_2_state LEARNING w else (w, False))
      | LEARNING \<Rightarrow>
          if forward port then hop_2_state FORWARDING w
          else if \<not> learn port then hop_2_state DISCARDING w
          else (w, False)
      | FORWARDING \<Rightarrow> if \<not> forward port then hop_2_state DISCARDING w else (w, False))"

definition sttrans_machine :: "pref \<Rightarrow> world machine_ops" where
  "sttrans_machine =
     port_machine sttrans sttrans_update ST_BEGIN MSTP_sttrans_enter_state MSTP_sttrans_check_conditions"

subsection \<open>The machine comes to rest\<close>

definition sttrans_rank :: "pref \<Rightarrow> world \<Rightarrow> nat" where
  "sttrans_rank p w =
     (let t = pheap w p in
      case State (sttrans t) of
        ST_BEGIN \<Rightarrow> 4
      | DISCARDING \<Rightarrow> if learn t then 2 else 0
      | LEARNING \<Rightarrow> 1
      | FORWARDING \<Rightarrow> if forward t then 0 else 3)"

lemma sendStpStatetoNpd_frame [simp]:
  "pheap (stp_sttrans_sendStpStatetoNpd p w) = pheap w"
  "bheap (stp_sttrans_sendStpStatetoNpd p w) = bheap w"
  "sttrans_count (stp_sttrans_sendStpStatetoNpd p w) = sttrans_count w"
  by (simp_all add: stp_sttrans_sendStpStatetoNpd_def Let_def)

lemma sttrans_changing [simp]:
  "get_changeState (sttrans_machine p) w = changeState (sttrans (pheap w p))"
  by (simp add: sttrans_machine_def port_machine_def)

lemmas sttrans_defs = sttrans_machine_def MSTP_sttrans_enter_state_def
  MSTP_sttrans_check_conditions_def machine_simps

text \<open>What the flags say in each state; \<open>learning\<close> and \<open>forwarding\<close> are the flags the other
  machines and the BPDUs read.\<close>

definition sttrans_ok :: "PORT_T \<Rightarrow> bool" where
  "sttrans_ok t \<longleftrightarrow>
     (case State (sttrans t) of
        ST_BEGIN \<Rightarrow> True
      | DISCARDING \<Rightarrow> \<not> changeState (sttrans t) \<longrightarrow> \<not> learning t \<and> \<not> forwarding t
      | LEARNING \<Rightarrow> \<not> forwarding t \<and> (\<not> changeState (sttrans t) \<longrightarrow> learning t)
      | FORWARDING \<Rightarrow> learning t \<and> (\<not> changeState (sttrans t) \<longrightarrow> forwarding t))"

lemma sttrans_ok_step:
  "sttrans_ok (pheap w p) \<Longrightarrow> get_changeState (sttrans_machine p) w \<Longrightarrow>
    sttrans_ok (pheap (statmch_step (sttrans_machine p) w) p)"
  by (cases "State (sttrans (pheap w p))") (auto simp: sttrans_defs sttrans_ok_def)

interpretation st: progressing_machine "sttrans_machine p" "\<lambda>w. sttrans_ok (pheap w p)" "sttrans_rank p" for p
proof
  fix w
  assume "get_changeState (sttrans_machine p) (statmch_step (sttrans_machine p) w)"
  then show "sttrans_rank p (statmch_step (sttrans_machine p) w) < sttrans_rank p w"
    by (cases "State (sttrans (pheap w p))")
      (auto simp: sttrans_defs sttrans_rank_def split: if_splits)
qed (rule sttrans_ok_step)

subsection \<open>Where it comes to rest\<close>

text \<open>The state that the orders ask for.\<close>

definition ordered_state :: "bool \<Rightarrow> bool \<Rightarrow> sttrans_state" where
  "ordered_state lrn fwd = (if fwd then FORWARDING else if lrn then LEARNING else DISCARDING)"

definition sttrans_settled :: "PORT_T \<Rightarrow> bool" where
  "sttrans_settled t \<longleftrightarrow>
     (case State (sttrans t) of
        ST_BEGIN \<Rightarrow> False
      | DISCARDING \<Rightarrow> \<not> learn t
      | LEARNING \<Rightarrow> \<not> forward t \<and> learn t
      | FORWARDING \<Rightarrow> forward t)"

lemma sttrans_settled_step:
  "\<not> changeState (sttrans (pheap (statmch_step (sttrans_machine p) w) p)) \<Longrightarrow>
     sttrans_settled (pheap (statmch_step (sttrans_machine p) w) p)"
  by (cases "State (sttrans (pheap w p))")
    (auto simp: sttrans_defs sttrans_settled_def split: if_splits)

lemma sttrans_orders_step [simp]:
  "learn (pheap (statmch_step (sttrans_machine p) w) p) = learn (pheap w p)"
  "forward (pheap (statmch_step (sttrans_machine p) w) p) = forward (pheap w p)"
  by (auto simp: sttrans_defs split: sttrans_state.split)

text \<open>C12: a pending Port State Transition machine whose flags agree with its state
  runs at most five rounds and then rests in exactly the state the orders \<open>learn\<close> and \<open>forward\<close>
  ask for, with \<open>learning\<close> and \<open>forwarding\<close> set accordingly.\<close>

theorem sttrans_settles:
  assumes ok: "sttrans_ok (pheap w p)" and pending: "changeState (sttrans (pheap w p))"
    and orders: "forward (pheap w p) \<longrightarrow> learn (pheap w p)"
  shows "\<exists>w' n. stp_statmch_change_state (sttrans_machine p) 0 w = Some (w', n) \<and> n \<le> 5 \<and>
    State (sttrans (pheap w' p)) = ordered_state (learn (pheap w p)) (forward (pheap w p)) \<and>
    learning (pheap w' p) = learn (pheap w p) \<and> forwarding (pheap w' p) = forward (pheap w p)"
proof -
  let ?I = "\<lambda>v. learn (pheap v p) = learn (pheap w p) \<and> forward (pheap v p) = forward (pheap w p)"
  have "\<exists>w' n. stp_statmch_change_state (sttrans_machine p) 0 w = Some (w', n) \<and>
    sttrans_ok (pheap w' p) \<and> ?I w' \<and> sttrans_settled (pheap w' p) \<and>
    \<not> get_changeState (sttrans_machine p) w' \<and> n \<le> 0 + sttrans_rank p w + 1"
    by (rule st.change_state_settles) (use assms sttrans_settled_step [of p] in simp_all)
  then obtain w' n where run: "stp_statmch_change_state (sttrans_machine p) 0 w = Some (w', n)"
    and fin: "sttrans_ok (pheap w' p)" "?I w'" "sttrans_settled (pheap w' p)"
      "\<not> changeState (sttrans (pheap w' p))" "n \<le> sttrans_rank p w + 1"
    by auto
  moreover have "sttrans_rank p w \<le> 4"
    by (auto simp: sttrans_rank_def Let_def split: sttrans_state.split)
  ultimately show ?thesis
    using orders
    by (intro exI [of _ w'] exI [of _ n], cases "State (sttrans (pheap w' p))")
      (auto simp: sttrans_ok_def sttrans_settled_def ordered_state_def)
qed

end
