(* ===== verification/StpRoletrns.thy ===== *)
theory StpRoletrns
  imports StpTo
begin

text \<open>
  The Port Role Transitions machine (\<open>stp_roletrns.c\<close>). Its \<open>ACTIVE_PORT\<close> conditions are a
  function of the port, of the two conditions over the other ports of the tree
  (\<open>allSynced\<close>, \<open>reRooted\<close>), of the protocol version and of the CIST forward delay.
\<close>

subsection \<open>Procedures\<close>

definition stp_roletrns_setSyncTree :: "pref \<Rightarrow> world \<Rightarrow> world" where
  "stp_roletrns_setSyncTree p w = upds (ports (owner_of w p)) (\<lambda>t. t\<lparr>sync := True\<rparr>) w"

definition stp_roletrns_setReRootTree :: "pref \<Rightarrow> world \<Rightarrow> world" where
  "stp_roletrns_setReRootTree p w = upds (ports (owner_of w p)) (\<lambda>t. t\<lparr>reRoot := True\<rparr>) w"

definition stp_roletrns_compute_all_synced :: "pref \<Rightarrow> world \<Rightarrow> bool" where
  "stp_roletrns_compute_all_synced this w \<longleftrightarrow>
     list_all (\<lambda>q. port_index (pheap w q) = port_index (pheap w this) \<or> admin_non_stp (pheap w q) \<or>
                   synced (pheap w q)) (ports (owner_of w this))"

definition stp_roletrns_compute_re_rooted :: "pref \<Rightarrow> world \<Rightarrow> bool" where
  "stp_roletrns_compute_re_rooted this w \<longleftrightarrow>
     list_all (\<lambda>q. port_index (pheap w q) = port_index (pheap w this) \<or> admin_non_stp (pheap w q) \<or>
                   rrWhile (pheap w q) = 0) (ports (owner_of w this))"

definition stp_roletrns_setnewinfoCist :: "pref \<Rightarrow> world \<Rightarrow> world" where
  "stp_roletrns_setnewinfoCist p w = upd p (\<lambda>t. t\<lparr>newInfoCist := True\<rparr>) w"

definition stp_roletrns_setnewinfoMsti :: "pref \<Rightarrow> world \<Rightarrow> world" where
  "stp_roletrns_setnewinfoMsti p w =
     (case stp_port_mst_findport STP_CIST_ID (port_index (pheap w p)) w of
        None \<Rightarrow> w
      | Some cistport \<Rightarrow> upd cistport (\<lambda>t. t\<lparr>newInfoMsti := True\<rparr>) w)"

definition stp_roletrns_setnewinfoXst :: "pref \<Rightarrow> world \<Rightarrow> world" where
  "stp_roletrns_setnewinfoXst p w =
     (if p_vlan_id (pheap w p) = STP_CIST_ID then stp_roletrns_setnewinfoCist p w
      else stp_roletrns_setnewinfoMsti p w)"

subsection \<open>State entry\<close>

definition MSTP_roletrns_enter_state :: "pref \<Rightarrow> world \<Rightarrow> world" where
  "MSTP_roletrns_enter_state p w =
     (case g_CISTBRIDGE w of
        None \<Rightarrow> w
      | Some cist \<Rightarrow>
        let fd = ucast (ForwardDelay (rootTimes (bheap w cist))) :: u32;
            ht = ucast (HelloTime (rootTimes (bheap w cist))) :: u32;
            init = upd p (\<lambda>t. t\<lparr>selectedRole := DisabledPort, role := DisabledPort, reselect := True,
              synced := False, sync := True, reRoot := True, rrWhile := fd, fdWhile := fd, rbWhile := 0\<rparr>) in
        case State (roletrns (pheap w p)) of
          RT_BEGIN \<Rightarrow> init w
        | INIT_PORT \<Rightarrow> init w
        | BLOCK_PORT \<Rightarrow> upd p (\<lambda>t. t\<lparr>role := selectedRole t, forward := False, learn := False\<rparr>) w
        | BLOCKED_PORT \<Rightarrow>
            upd p (\<lambda>t. t\<lparr>fdWhile := fd, synced := True, rrWhile := 0, reRoot := False, sync := False\<rparr>) w
        | BACKUP_PORT \<Rightarrow> upd p (\<lambda>t. t\<lparr>rbWhile := 2 * ht\<rparr>) w
        | PROPOSED \<Rightarrow> upd p (\<lambda>t. t\<lparr>proposed := False\<rparr>) (stp_roletrns_setSyncTree p w)
        | PROPOSING \<Rightarrow> stp_roletrns_setnewinfoXst p (upd p (\<lambda>t. t\<lparr>proposing := True\<rparr>) w)
        | AGREES \<Rightarrow>
            stp_roletrns_setnewinfoXst p (upd p (\<lambda>t. t\<lparr>proposed := False, agree := True\<rparr>) w)
        | SYNCED \<Rightarrow>
            upd p (\<lambda>t. (if role t \<noteq> RootPort then t\<lparr>rrWhile := 0\<rparr> else t)\<lparr>synced := True, sync := False\<rparr>) w
        | REROOT \<Rightarrow> stp_roletrns_setReRootTree p w
        | FORWARD \<Rightarrow> upd p (\<lambda>t. t\<lparr>fdWhile := 0, forward := True\<rparr>) w
        | LISTEN \<Rightarrow> upd p (\<lambda>t. t\<lparr>forward := False, learn := False, fdWhile := fd\<rparr>) w
        | LEARN \<Rightarrow> upd p (\<lambda>t. t\<lparr>learn := True, fdWhile := fd\<rparr>) w
        | REROOTED \<Rightarrow> upd p (\<lambda>t. t\<lparr>reRoot := False\<rparr>) w
        | RT_ROOT \<Rightarrow> upd p (\<lambda>t. t\<lparr>rrWhile := fd\<rparr>) w
        | NON_STP \<Rightarrow> upd p (\<lambda>t. t\<lparr>role := NonStpPort\<rparr>) w
        | ACTIVE_PORT \<Rightarrow> upd p (\<lambda>t. t\<lparr>role := selectedRole t\<rparr>) w)"

subsection \<open>Conditions\<close>

text \<open>The condition that both \<open>LEARN\<close> and \<open>FORWARD\<close> wait for.\<close>

definition may_advance :: "PORT_T \<Rightarrow> bool \<Rightarrow> bool \<Rightarrow> bool \<Rightarrow> bool" where
  "may_advance port allSynced reRooted v2 \<longleftrightarrow>
     fdWhile port = 0 \<or>
     role port = RootPort \<and> reRooted \<and> rbWhile port = 0 \<and> v2 \<or>
     role port = DesignatedPort \<and> (agreed port \<or> operEdge port) \<and>
       (rrWhile port = 0 \<or> \<not> reRoot port) \<and> \<not> sync port \<or>
     role port = MasterPort \<and> allSynced"

text \<open>The transition out of \<open>ACTIVE_PORT\<close>, the conditions in the order of the source.\<close>

definition active_port_next :: "PORT_T \<Rightarrow> bool \<Rightarrow> bool \<Rightarrow> bool \<Rightarrow> u32 \<Rightarrow> roletrns_state option" where
  "active_port_next port allSynced reRooted v2 fd =
     (if \<not> selected port \<or> updtInfo port then None
      else if (\<not> learning port \<and> \<not> forwarding port \<and> \<not> synced port \<and> role port \<noteq> RootPort) \<or>
              (agreed port \<and> \<not> synced port) \<or> (operEdge port \<and> \<not> synced port) \<or>
              (sync port \<and> synced port)
        then Some SYNCED
      else if allSynced \<and> (proposed port \<or> \<not> agree port) then Some AGREES
      else if \<not> forward port \<and> \<not> agreed port \<and> \<not> proposing port \<and> \<not> operEdge port \<and>
              role port = DesignatedPort
        then Some PROPOSING
      else if proposed port \<and> \<not> agree port then Some PROPOSED
      else if learn port \<and> \<not> forward port \<and> may_advance port allSynced reRooted v2 then Some FORWARD
      else if rrWhile port \<noteq> fd \<and> role port = RootPort then Some RT_ROOT
      else if \<not> forward port \<and> \<not> reRoot port \<and> role port = RootPort then Some REROOT
      else if reRoot port \<and> (role port = RootPort \<and> forward port \<or> rrWhile port = 0) then Some REROOTED
      else if \<not> learn port \<and> may_advance port allSynced reRooted v2 then Some LEARN
      else if (learn port \<or> forward port) \<and> \<not> operEdge port \<and>
              (role port \<noteq> RootPort \<and> role port \<noteq> MasterPort) \<and>
              (sync port \<and> \<not> synced port \<or> reRoot port \<and> rrWhile port \<noteq> 0)
        then Some LISTEN
      else None)"

text \<open>The conditions of \<open>MSTP_roletrns_check_conditions\<close>: the state to hop to, if any. \<open>fd\<close> and \<open>ht\<close>
  are the forward delay and the hello time of the CIST root times.\<close>

definition roletrns_next ::
  "PORT_T \<Rightarrow> bool \<Rightarrow> bool \<Rightarrow> bool \<Rightarrow> u32 \<Rightarrow> u32 \<Rightarrow> roletrns_state option" where
  "roletrns_next port allSynced reRooted v2 fd ht =
     (if State (roletrns port) = RT_BEGIN then Some INIT_PORT
      else if role port \<noteq> selectedRole port \<and> selected port \<and> \<not> updtInfo port
      then (case selectedRole port of
          DisabledPort \<Rightarrow> Some BLOCK_PORT
        | AlternatePort \<Rightarrow> Some BLOCK_PORT
        | BackupPort \<Rightarrow> Some BLOCK_PORT
        | RootPort \<Rightarrow> Some ACTIVE_PORT
        | DesignatedPort \<Rightarrow> Some ACTIVE_PORT
        | MasterPort \<Rightarrow> Some ACTIVE_PORT
        | NonStpPort \<Rightarrow> Some NON_STP)
      else (case State (roletrns port) of
          RT_BEGIN \<Rightarrow> None
        | INIT_PORT \<Rightarrow> Some BLOCK_PORT
        | BLOCK_PORT \<Rightarrow>
            if \<not> selected port \<or> updtInfo port then None
            else if \<not> learning port \<and> \<not> forwarding port then Some BLOCKED_PORT
            else None
        | BLOCKED_PORT \<Rightarrow>
            if \<not> selected port \<or> updtInfo port then None
            else if fdWhile port \<noteq> fd \<or> sync port \<or> reRoot port \<or> \<not> synced port
              then Some BLOCKED_PORT
            else if rbWhile port \<noteq> 2 * ht \<and> role port = BackupPort then Some BACKUP_PORT
            else None
        | BACKUP_PORT \<Rightarrow> Some BLOCKED_PORT
        | PROPOSED \<Rightarrow> Some ACTIVE_PORT
        | PROPOSING \<Rightarrow> Some ACTIVE_PORT
        | AGREES \<Rightarrow> Some ACTIVE_PORT
        | SYNCED \<Rightarrow> Some ACTIVE_PORT
        | REROOT \<Rightarrow> Some ACTIVE_PORT
        | FORWARD \<Rightarrow> Some ACTIVE_PORT
        | LISTEN \<Rightarrow> Some ACTIVE_PORT
        | LEARN \<Rightarrow> Some ACTIVE_PORT
        | REROOTED \<Rightarrow> Some ACTIVE_PORT
        | RT_ROOT \<Rightarrow> Some ACTIVE_PORT
        | ACTIVE_PORT \<Rightarrow> active_port_next port allSynced reRooted v2 fd
        | NON_STP \<Rightarrow> None))"

definition MSTP_roletrns_check_conditions :: "pref \<Rightarrow> world \<Rightarrow> world \<times> bool" where
  "MSTP_roletrns_check_conditions p w =
     (case g_CISTBRIDGE w of
        None \<Rightarrow> (w, False)
      | Some cist \<Rightarrow>
        case roletrns_next (pheap w p) (stp_roletrns_compute_all_synced p w)
               (stp_roletrns_compute_re_rooted p w)
               (version_num (ForceVersion (owner_of w p)) \<ge> 2)
               (ucast (ForwardDelay (rootTimes (bheap w cist))))
               (ucast (HelloTime (rootTimes (bheap w cist)))) of
          Some s \<Rightarrow> hop roletrns_update p s w
        | None \<Rightarrow> (w, False))"

definition roletrns_machine :: "pref \<Rightarrow> world machine_ops" where
  "roletrns_machine =
     port_machine roletrns roletrns_update RT_BEGIN MSTP_roletrns_enter_state MSTP_roletrns_check_conditions"

lemma roletrns_changing [simp]:
  "get_changeState (roletrns_machine p) w = changeState (roletrns (pheap w p))"
  by (simp add: roletrns_machine_def port_machine_def)

subsection \<open>The machine comes to rest\<close>

text \<open>The effect of an \<open>ACTIVE_PORT\<close> action on the port itself; \<open>intree\<close> says whether the port is
  on the port list of its instance.\<close>

definition act :: "bool \<Rightarrow> u32 \<Rightarrow> roletrns_state \<Rightarrow> PORT_T \<Rightarrow> PORT_T" where
  "act intree fd s t =
     (case s of
        PROPOSED \<Rightarrow> (if intree then t\<lparr>sync := True, proposed := False\<rparr> else t\<lparr>proposed := False\<rparr>)
      | PROPOSING \<Rightarrow> t\<lparr>proposing := True\<rparr>
      | AGREES \<Rightarrow> t\<lparr>proposed := False, agree := True\<rparr>
      | SYNCED \<Rightarrow> (if role t \<noteq> RootPort then t\<lparr>rrWhile := 0\<rparr> else t)\<lparr>synced := True, sync := False\<rparr>
      | REROOT \<Rightarrow> (if intree then t\<lparr>reRoot := True\<rparr> else t)
      | FORWARD \<Rightarrow> t\<lparr>fdWhile := 0, forward := True\<rparr>
      | LISTEN \<Rightarrow> t\<lparr>forward := False, learn := False, fdWhile := fd\<rparr>
      | LEARN \<Rightarrow> t\<lparr>learn := True, fdWhile := fd\<rparr>
      | REROOTED \<Rightarrow> t\<lparr>reRoot := False\<rparr>
      | RT_ROOT \<Rightarrow> t\<lparr>rrWhile := fd\<rparr>
      | _ \<Rightarrow> t)"

text \<open>What is left to do in \<open>ACTIVE_PORT\<close>: agreement before synchronisation before proposal before
  the progress of the port state.\<close>

definition held_back :: "PORT_T \<Rightarrow> bool" where
  "held_back t \<longleftrightarrow> \<not> operEdge t \<and> role t \<noteq> RootPort \<and> role t \<noteq> MasterPort \<and>
     (sync t \<and> \<not> synced t \<or> reRoot t \<and> rrWhile t \<noteq> 0)"

definition progress_left :: "u32 \<Rightarrow> PORT_T \<Rightarrow> nat" where
  "progress_left fd t =
     (if role t = RootPort
      then 8 * of_bool (\<not> forward t) + 4 * of_bool (\<not> learn t) + 2 * of_bool (rrWhile t \<noteq> fd)
           + of_bool (reRoot t = forward t)
      else 8 * of_bool (reRoot t \<and> rrWhile t = 0)
           + (if held_back t
              then (if fdWhile t \<noteq> 0 then of_bool (learn t \<or> forward t)
                    else if \<not> learn t then 4 else if \<not> forward t then 3 else 2)
              else 2 * of_bool (\<not> learn t) + of_bool (\<not> forward t)))"

definition active_left :: "u32 \<Rightarrow> PORT_T \<Rightarrow> nat" where
  "active_left fd t =
     128 * (of_bool (proposed t) + of_bool (\<not> agree t)) + 64 * of_bool (sync t \<or> \<not> synced t)
     + 32 * of_bool (\<not> proposing t) + progress_left fd t"

lemma active_left_bound: "active_left fd t \<le> 400"
  by (auto simp: active_left_def progress_left_def)

text \<open>The guard of every transition, as far as the measure needs it.\<close>

lemma active_port_next_guards:
  assumes "active_port_next t allSynced reRooted v2 fd = Some s"
  shows "s = SYNCED \<Longrightarrow> sync t \<or> \<not> synced t"
    and "s = AGREES \<Longrightarrow> proposed t \<or> \<not> agree t"
    and "s = PROPOSING \<Longrightarrow> \<not> proposing t"
    and "s = PROPOSED \<Longrightarrow> proposed t"
    and "s = FORWARD \<Longrightarrow> learn t \<and> \<not> forward t \<and> may_advance t allSynced reRooted v2"
    and "s = RT_ROOT \<Longrightarrow> rrWhile t \<noteq> fd \<and> role t = RootPort"
    and "s = REROOT \<Longrightarrow> \<not> forward t \<and> \<not> reRoot t \<and> role t = RootPort"
    and "s = REROOTED \<Longrightarrow> reRoot t \<and> (role t = RootPort \<and> forward t \<or> rrWhile t = 0) \<and>
           (role t = RootPort \<longrightarrow> rrWhile t = fd)"
    and "s = LEARN \<Longrightarrow> \<not> learn t \<and> may_advance t allSynced reRooted v2"
    and "s = LISTEN \<Longrightarrow> (learn t \<or> forward t) \<and> held_back t"
    and "s \<in> {SYNCED, AGREES, PROPOSING, PROPOSED, FORWARD, RT_ROOT, REROOT, REROOTED, LEARN, LISTEN}"
    and "selected t" and "\<not> updtInfo t"
  using assms unfolding active_port_next_def held_back_def
  by (simp_all split: if_split_asm) blast+

lemmas left_defs = act_def active_left_def progress_left_def held_back_def may_advance_def

lemma act_decreases:
  assumes nxt: "active_port_next t allSynced reRooted v2 fd = Some s" and "fd \<noteq> 0" and "intree"
  shows "active_left fd (act intree fd s t) < active_left fd t"
proof -
  note g = active_port_next_guards [OF nxt]
  from g(11) consider "s = SYNCED" | "s = AGREES" | "s = PROPOSING" | "s = PROPOSED" | "s = FORWARD"
    | "s = RT_ROOT" | "s = REROOT" | "s = REROOTED" | "s = LEARN" | "s = LISTEN" by auto
  then show ?thesis
  proof cases
    case 1 then show ?thesis using g(1) by (auto simp: left_defs)
  next
    case 2 then show ?thesis using g(2) by (auto simp: left_defs)
  next
    case 3 then show ?thesis using g(3) by (auto simp: left_defs)
  next
    case 4 then show ?thesis using g(4) by (auto simp: left_defs)
  next
    case 5 then show ?thesis using g(5) by (auto simp: left_defs)
  next
    case 6 then show ?thesis using g(6) by (auto simp: left_defs)
  next
    case 7 then show ?thesis using g(7) \<open>intree\<close> by (auto simp: left_defs)
  next
    case 8 then show ?thesis using g(8) \<open>fd \<noteq> 0\<close> by (auto simp: left_defs)
  next
    case 9 then show ?thesis using g(9) \<open>fd \<noteq> 0\<close> by (auto simp: left_defs)
  next
    case 10 then show ?thesis using g(10) \<open>fd \<noteq> 0\<close> by (auto simp: left_defs)
  qed
qed

text \<open>The measure and the conditions do not read the machine objects or the transmit requests.\<close>

lemma held_back_indep [simp]:
  "held_back (roletrns_update f t) = held_back t"
  "held_back (newInfoCist_update g t) = held_back t"
  "held_back (newInfoMsti_update g t) = held_back t"
  by (simp_all add: held_back_def)

lemma progress_left_indep [simp]:
  "progress_left fd (roletrns_update f t) = progress_left fd t"
  "progress_left fd (newInfoCist_update g t) = progress_left fd t"
  "progress_left fd (newInfoMsti_update g t) = progress_left fd t"
  by (simp_all add: progress_left_def)

lemma active_left_indep [simp]:
  "active_left fd (roletrns_update f t) = active_left fd t"
  "active_left fd (newInfoCist_update g t) = active_left fd t"
  "active_left fd (newInfoMsti_update g t) = active_left fd t"
  by (simp_all add: active_left_def)

lemma act_roletrns [simp]: "act i fd s (roletrns_update f t) = roletrns_update f (act i fd s t)"
  by (cases s; cases "role t = RootPort"; cases i) (simp_all add: act_def)

lemma roletrns_fields:
  "selected (roletrns_update f t) = selected t" "updtInfo (roletrns_update f t) = updtInfo t"
  "learning (roletrns_update f t) = learning t" "forwarding (roletrns_update f t) = forwarding t"
  "synced (roletrns_update f t) = synced t" "sync (roletrns_update f t) = sync t"
  "role (roletrns_update f t) = role t" "agreed (roletrns_update f t) = agreed t"
  "operEdge (roletrns_update f t) = operEdge t" "proposed (roletrns_update f t) = proposed t"
  "agree (roletrns_update f t) = agree t" "forward (roletrns_update f t) = forward t"
  "learn (roletrns_update f t) = learn t" "proposing (roletrns_update f t) = proposing t"
  "fdWhile (roletrns_update f t) = fdWhile t" "rrWhile (roletrns_update f t) = rrWhile t"
  "rbWhile (roletrns_update f t) = rbWhile t" "reRoot (roletrns_update f t) = reRoot t"
  by simp_all

lemma active_port_next_indep [simp]:
  "active_port_next (roletrns_update f t) a r v fd = active_port_next t a r v fd"
  unfolding active_port_next_def may_advance_def roletrns_fields by (rule refl)

definition action_state :: "roletrns_state \<Rightarrow> bool" where
  "action_state s \<longleftrightarrow> s \<in> {SYNCED, AGREES, PROPOSING, PROPOSED, FORWARD, RT_ROOT, REROOT, REROOTED, LEARN, LISTEN}"

definition roletrns_fd :: "bref \<Rightarrow> world \<Rightarrow> u32" where
  "roletrns_fd cist w = ucast (ForwardDelay (rootTimes (bheap w cist)))"

text \<open>A mismatch of the roles is resolved on entry to \<open>BLOCK_PORT\<close>, \<open>ACTIVE_PORT\<close> or \<open>NON_STP\<close>.\<close>

definition rank_of :: "u32 \<Rightarrow> u32 \<Rightarrow> roletrns_state \<Rightarrow> PORT_T \<Rightarrow> nat" where
  "rank_of fd ht s t =
     (if action_state s
      then 9 + 2 * active_left fd (act True fd s t) + 1000 * of_bool (role t \<noteq> selectedRole t)
      else if s = ACTIVE_PORT then 8 + 2 * active_left fd (t\<lparr>role := selectedRole t\<rparr>)
      else if s = RT_BEGIN then 6
      else if s = INIT_PORT then 5
      else if s = BLOCK_PORT then 4
      else if s = BLOCKED_PORT
        then (if role t = BackupPort \<and> rbWhile t \<noteq> 2 * ht then 3 else 1)
             + 1000 * of_bool (role t \<noteq> selectedRole t)
      else if s = BACKUP_PORT then 2 + 1000 * of_bool (role t \<noteq> selectedRole t)
      else 1000 * of_bool (selectedRole t \<noteq> NonStpPort))"

definition roletrns_rank :: "pref \<Rightarrow> world \<Rightarrow> nat" where
  "roletrns_rank p w =
     (case g_CISTBRIDGE w of
        None \<Rightarrow> 0
      | Some cist \<Rightarrow> rank_of (roletrns_fd cist w) (ucast (HelloTime (rootTimes (bheap w cist))))
          (State (roletrns (pheap w p))) (pheap w p))"

lemma rank_of_roletrns [simp]: "rank_of fd ht s (roletrns_update f t) = rank_of fd ht s t"
proof -
  have "(roletrns_update f t)\<lparr>role := x\<rparr> = roletrns_update f (t\<lparr>role := x\<rparr>)" for x by simp
  then have "active_left fd ((roletrns_update f t)\<lparr>role := x\<rparr>) = active_left fd (t\<lparr>role := x\<rparr>)" for x
    by (simp only: active_left_indep)
  then show ?thesis unfolding rank_of_def by simp
qed

lemma rank_of_simps:
  "rank_of fd ht RT_BEGIN t = 6" "rank_of fd ht INIT_PORT t = 5" "rank_of fd ht BLOCK_PORT t = 4"
  "rank_of fd ht ACTIVE_PORT t = 8 + 2 * active_left fd (t\<lparr>role := selectedRole t\<rparr>)"
  "rank_of fd ht BLOCKED_PORT t = (if role t = BackupPort \<and> rbWhile t \<noteq> 2 * ht then 3 else 1)
     + 1000 * of_bool (role t \<noteq> selectedRole t)"
  "rank_of fd ht BACKUP_PORT t = 2 + 1000 * of_bool (role t \<noteq> selectedRole t)"
  "rank_of fd ht NON_STP t = 1000 * of_bool (selectedRole t \<noteq> NonStpPort)"
  by (simp_all add: rank_of_def action_state_def)

lemma rank_of_action:
  "action_state s \<Longrightarrow> rank_of fd ht s t =
     9 + 2 * active_left fd (act True fd s t) + 1000 * of_bool (role t \<noteq> selectedRole t)"
  by (simp add: rank_of_def)

definition roletrns_ok :: "pref \<Rightarrow> world \<Rightarrow> bool" where
  "roletrns_ok p w \<longleftrightarrow> p \<in> set (ports (owner_of w p)) \<and>
     (\<forall>cist. g_CISTBRIDGE w = Some cist \<longrightarrow> roletrns_fd cist w \<noteq> 0)"

lemma setnewinfoXst_frame [simp]:
  "bheap (stp_roletrns_setnewinfoXst p w) = bheap w"
  "g_CISTBRIDGE (stp_roletrns_setnewinfoXst p w) = g_CISTBRIDGE w"
  "out (stp_roletrns_setnewinfoXst p w) = out w"
  "platform (stp_roletrns_setnewinfoXst p w) = platform w"
  "g_CISTPORT (stp_roletrns_setnewinfoXst p w) = g_CISTPORT w"
  by (auto simp: stp_roletrns_setnewinfoXst_def stp_roletrns_setnewinfoCist_def
      stp_roletrns_setnewinfoMsti_def split: option.split)

lemma setnewinfoXst_field:
  assumes "\<And>t x. g (newInfoCist_update x t) = g t" and "\<And>t x. g (newInfoMsti_update x t) = g t"
  shows "g (pheap (stp_roletrns_setnewinfoXst p w) q) = g (pheap w q)"
  using assms by (auto simp: stp_roletrns_setnewinfoXst_def stp_roletrns_setnewinfoCist_def
      stp_roletrns_setnewinfoMsti_def split: option.split)

lemma setnewinfoXst_left [simp]:
  "active_left fd (pheap (stp_roletrns_setnewinfoXst p w) q) = active_left fd (pheap w q)"
  "role (pheap (stp_roletrns_setnewinfoXst p w) q) = role (pheap w q)"
  "selectedRole (pheap (stp_roletrns_setnewinfoXst p w) q) = selectedRole (pheap w q)"
  "roletrns (pheap (stp_roletrns_setnewinfoXst p w) q) = roletrns (pheap w q)"
  "owner (pheap (stp_roletrns_setnewinfoXst p w) q) = owner (pheap w q)"
  by (rule setnewinfoXst_field; simp)+

lemma act_roles [simp]:
  "role (act i fd s t) = role t" "selectedRole (act i fd s t) = selectedRole t"
  "roletrns (act i fd s t) = roletrns t"
  by (cases s; simp add: act_def)+

text \<open>Entering an action state does to the port what \<open>act\<close> says.\<close>

lemma enter_action:
  assumes "g_CISTBRIDGE w = Some cist" and "p \<in> set (ports (owner_of w p))"
    and "State (roletrns (pheap w p)) = s" and "action_state s"
  shows "active_left fd (pheap (MSTP_roletrns_enter_state p w) p) =
      active_left fd (act True (roletrns_fd cist w) s (pheap w p))"
    and "role (pheap (MSTP_roletrns_enter_state p w) p) = role (pheap w p)"
    and "selectedRole (pheap (MSTP_roletrns_enter_state p w) p) = selectedRole (pheap w p)"
    and "roletrns (pheap (MSTP_roletrns_enter_state p w) p) = roletrns (pheap w p)"
proof -
  from assms(4) consider "s = SYNCED" | "s = AGREES" | "s = PROPOSING" | "s = PROPOSED" | "s = FORWARD"
    | "s = RT_ROOT" | "s = REROOT" | "s = REROOTED" | "s = LEARN" | "s = LISTEN"
    by (auto simp: action_state_def)
  note c = this
  note e = MSTP_roletrns_enter_state_def Let_def act_def roletrns_fd_def
    stp_roletrns_setSyncTree_def stp_roletrns_setReRootTree_def pheap_upds_idem
  show "active_left fd (pheap (MSTP_roletrns_enter_state p w) p) =
      active_left fd (act True (roletrns_fd cist w) s (pheap w p))"
    using c assms(1-3) by cases (simp_all add: e)
  show "role (pheap (MSTP_roletrns_enter_state p w) p) = role (pheap w p)"
    using c assms(1-3) by cases (simp_all add: e)
  show "selectedRole (pheap (MSTP_roletrns_enter_state p w) p) = selectedRole (pheap w p)"
    using c assms(1-3) by cases (simp_all add: e)
  show "roletrns (pheap (MSTP_roletrns_enter_state p w) p) = roletrns (pheap w p)"
    using c assms(1-3) by cases (simp_all add: e)
qed

lemma enter_frame [simp]:
  "bheap (MSTP_roletrns_enter_state p w) = bheap w"
  "g_CISTBRIDGE (MSTP_roletrns_enter_state p w) = g_CISTBRIDGE w"
  "owner (pheap (MSTP_roletrns_enter_state p w) q) = owner (pheap w q)"
  by (auto simp: MSTP_roletrns_enter_state_def Let_def stp_roletrns_setSyncTree_def
      stp_roletrns_setReRootTree_def upds_field split: option.split roletrns_state.split)

lemma roletrns_step_frame [simp]:
  "bheap (statmch_step (roletrns_machine p) w) = bheap w"
  "g_CISTBRIDGE (statmch_step (roletrns_machine p) w) = g_CISTBRIDGE w"
  "owner (pheap (statmch_step (roletrns_machine p) w) q) = owner (pheap w q)"
  by (auto simp: roletrns_machine_def machine_simps MSTP_roletrns_check_conditions_def
      split: option.split)

lemma roletrns_ok_step:
  "roletrns_ok p w \<Longrightarrow> roletrns_ok p (statmch_step (roletrns_machine p) w)"
  by (simp add: roletrns_ok_def roletrns_fd_def)

text \<open>The effect of state entry on what the measure reads, for the other states.\<close>

lemma enter_other:
  fixes p :: pref and w :: world
  assumes "g_CISTBRIDGE w = Some cist"
  defines "t \<equiv> pheap w p" and "t' \<equiv> pheap (MSTP_roletrns_enter_state p w) p"
  shows "State (roletrns t) \<in> {RT_BEGIN, INIT_PORT} \<Longrightarrow> role t' = selectedRole t'"
    and "State (roletrns t) = BLOCK_PORT \<Longrightarrow> role t' = selectedRole t'"
    and "State (roletrns t) = ACTIVE_PORT \<Longrightarrow> t' = t\<lparr>role := selectedRole t\<rparr>"
    and "State (roletrns t) = NON_STP \<Longrightarrow> role t' = NonStpPort \<and> selectedRole t' = selectedRole t"
    and "State (roletrns t) = BLOCKED_PORT \<Longrightarrow> role t' = role t \<and> selectedRole t' = selectedRole t \<and>
      rbWhile t' = rbWhile t \<and> fdWhile t' = roletrns_fd cist w \<and> \<not> sync t' \<and> \<not> reRoot t' \<and> synced t'"
    and "State (roletrns t) = BACKUP_PORT \<Longrightarrow> role t' = role t \<and> selectedRole t' = selectedRole t \<and>
      rbWhile t' = 2 * ucast (HelloTime (rootTimes (bheap w cist)))"
    and "roletrns t' = roletrns t"
  unfolding t_def t'_def MSTP_roletrns_enter_state_def assms(1) Let_def
  by (auto simp: roletrns_fd_def stp_roletrns_setSyncTree_def stp_roletrns_setReRootTree_def upds_field
      split: roletrns_state.split)

lemma roletrns_next_flag [simp]:
  "roletrns_next (roletrns_update (changeState_update c) t) a r v fd ht = roletrns_next t a r v fd ht"
  unfolding roletrns_next_def by (simp add: roletrns_fields cong: if_cong roletrns_state.case_cong)

lemma rank_active_bound: "rank_of fd ht ACTIVE_PORT t \<le> 808"
  using active_left_bound [of fd "t\<lparr>role := selectedRole t\<rparr>"] by (simp add: rank_of_simps)

lemma rank_resolved:
  assumes "roletrns_next t a r v fd ht = Some s" and "State (roletrns t) \<noteq> RT_BEGIN"
    and "role t \<noteq> selectedRole t" and "selected t" and "\<not> updtInfo t"
  shows "rank_of fd ht s t \<le> 808"
  using assms rank_active_bound [of fd ht t]
  by (cases "selectedRole t") (auto simp: roletrns_next_def rank_of_def action_state_def)

lemma rank_after_action:
  assumes "roletrns_next t' a r v fd ht = Some s" and st: "action_state (State (roletrns t'))"
    and "active_left fd t' = active_left fd (act True fd (State (roletrns t')) t)"
    and "role t' = role t" and "selectedRole t' = selectedRole t"
  shows "rank_of fd ht s t' < rank_of fd ht (State (roletrns t')) t"
proof (cases "role t' = selectedRole t'")
  case True
  then have "s = ACTIVE_PORT"
    using assms(1) st by (auto simp: roletrns_next_def action_state_def)
  moreover have "t'\<lparr>role := selectedRole t'\<rparr> = t'" using True [symmetric] by simp
  ultimately show ?thesis using assms(3-5) st True
    by (simp only: rank_of_action rank_of_simps)
next
  case False
  have "rank_of fd ht s t' \<le> 808"
  proof (cases "selected t' \<and> \<not> updtInfo t'")
    case True
    then show ?thesis using rank_resolved [OF assms(1)] False st by (auto simp: action_state_def)
  next
    case no: False
    then have "s = ACTIVE_PORT"
      using assms(1) st by (auto simp: roletrns_next_def action_state_def split: if_splits)
    then show ?thesis using rank_active_bound by simp
  qed
  then show ?thesis using assms(3-5) False st by (simp add: rank_of_action)
qed

lemma rank_after_active:
  assumes nxt: "roletrns_next t' a r v fd ht = Some s" and st: "State (roletrns t') = ACTIVE_PORT"
    and t': "t' = t\<lparr>role := selectedRole t\<rparr>" and "fd \<noteq> 0"
  shows "rank_of fd ht s t' < rank_of fd ht ACTIVE_PORT t"
proof -
  have eq: "role t' = selectedRole t'" using t' by simp
  then have nxt': "active_port_next t' a r v fd = Some s"
    using nxt st by (simp add: roletrns_next_def)
  have "action_state s" using active_port_next_guards(11) [OF nxt'] by (simp add: action_state_def)
  moreover have "active_left fd (act True fd s t') < active_left fd t'"
    using act_decreases [OF nxt' \<open>fd \<noteq> 0\<close>] by simp
  ultimately show ?thesis using eq t' by (simp add: rank_of_action rank_of_simps)
qed

lemma rank_after_other:
  assumes "g_CISTBRIDGE w = Some cist"
    and nxt: "roletrns_next (pheap (MSTP_roletrns_enter_state p w) p) a r v (roletrns_fd cist w)
      (ucast (HelloTime (rootTimes (bheap w cist)))) = Some s"
    and st: "State (roletrns (pheap w p)) \<in> {RT_BEGIN, INIT_PORT, BLOCK_PORT, NON_STP, BLOCKED_PORT, BACKUP_PORT}"
  shows "rank_of (roletrns_fd cist w) (ucast (HelloTime (rootTimes (bheap w cist)))) s
      (pheap (MSTP_roletrns_enter_state p w) p) < roletrns_rank p w"
proof -
  let ?t = "pheap (MSTP_roletrns_enter_state p w) p"
  note e = enter_other [OF assms(1), of p]
  note d = roletrns_rank_def assms(1) rank_of_simps
  have rs: "role ?t \<noteq> selectedRole ?t \<Longrightarrow> selected ?t \<Longrightarrow> \<not> updtInfo ?t \<Longrightarrow>
      State (roletrns ?t) \<noteq> RT_BEGIN \<Longrightarrow>
      rank_of (roletrns_fd cist w) (ucast (HelloTime (rootTimes (bheap w cist)))) s ?t \<le> 808"
    using rank_resolved [OF nxt] by blast
  from st consider "State (roletrns (pheap w p)) = RT_BEGIN" | "State (roletrns (pheap w p)) = INIT_PORT"
    | "State (roletrns (pheap w p)) = BLOCK_PORT" | "State (roletrns (pheap w p)) = NON_STP"
    | "State (roletrns (pheap w p)) = BLOCKED_PORT" | "State (roletrns (pheap w p)) = BACKUP_PORT" by auto
  then show ?thesis
  proof cases
    case 1
    then have "s = INIT_PORT" using nxt e(7) by (simp add: roletrns_next_def)
    then show ?thesis using 1 by (simp add: d)
  next
    case 2
    then have "s = BLOCK_PORT" using nxt e(1,7) by (simp add: roletrns_next_def)
    then show ?thesis using 2 by (simp add: d)
  next
    case 3
    then have "s = BLOCKED_PORT" and "role ?t = selectedRole ?t"
      using nxt e(2,7) by (auto simp: roletrns_next_def split: if_splits)
    then show ?thesis using 3 by (simp add: d)
  next
    case 4
    then have "role ?t \<noteq> selectedRole ?t \<and> selected ?t \<and> \<not> updtInfo ?t"
      using nxt e(4,7) by (auto simp: roletrns_next_def split: if_splits)
    then show ?thesis using 4 rs e(4,7) by (auto simp: d)
  next
    case 5
    show ?thesis
    proof (cases "role ?t \<noteq> selectedRole ?t \<and> selected ?t \<and> \<not> updtInfo ?t")
      case True
      then show ?thesis using 5 rs e(5,7)
        by (simp add: d)
    next
      case False
      then have "s = BACKUP_PORT" and "role ?t = BackupPort"
          "rbWhile ?t \<noteq> 2 * ucast (HelloTime (rootTimes (bheap w cist)))"
        using 5 nxt e(5,7) by (auto simp: roletrns_next_def split: if_splits)
      then show ?thesis using 5 e(5) by (simp add: d)
    qed
  next
    case 6
    show ?thesis
    proof (cases "role ?t \<noteq> selectedRole ?t \<and> selected ?t \<and> \<not> updtInfo ?t")
      case True
      then show ?thesis using 6 rs e(6,7)
        by (simp add: d)
    next
      case False
      then have "s = BLOCKED_PORT"
        using 6 nxt e(6,7) by (auto simp: roletrns_next_def split: if_splits)
      then show ?thesis using 6 e(6) by (simp add: d)
    qed
  qed
qed

interpretation rt: progressing_machine "roletrns_machine p" "roletrns_ok p" "roletrns_rank p" for p
proof
  fix w
  assume ok: "roletrns_ok p w" and "get_changeState (roletrns_machine p) w"
    and again: "get_changeState (roletrns_machine p) (statmch_step (roletrns_machine p) w)"
  let ?w = "statmch_step (roletrns_machine p) w" and ?t = "pheap (MSTP_roletrns_enter_state p w) p"
  let ?v = "upd p (roletrns_update (\<lambda>m. m\<lparr>changeState := False\<rparr>)) (MSTP_roletrns_enter_state p w)"
  have step: "?w = fst (stp_statmch_check_condition (roletrns_machine p) ?v)"
    by (simp add: statmch_step_def roletrns_machine_def port_machine_def)
  show "roletrns_rank p ?w < roletrns_rank p w"
  proof (cases "g_CISTBRIDGE w")
    case None
    then show ?thesis using again step
      by (simp add: stp_statmch_check_condition_def roletrns_machine_def port_machine_def
          MSTP_roletrns_check_conditions_def)
  next
    case (Some cist)
    let ?fd = "roletrns_fd cist w" and ?ht = "ucast (HelloTime (rootTimes (bheap w cist))) :: u32"
    have fd: "?fd \<noteq> 0" and tree: "p \<in> set (ports (owner_of w p))"
      using ok Some by (auto simp: roletrns_ok_def)
    obtain a r v s where nxt: "roletrns_next ?t a r v ?fd ?ht = Some s"
      and rank': "roletrns_rank p ?w = rank_of ?fd ?ht s ?t"
      using again step Some
      by (auto simp: stp_statmch_check_condition_def roletrns_machine_def port_machine_def
          MSTP_roletrns_check_conditions_def hop_def roletrns_rank_def roletrns_next_flag
          roletrns_fd_def split: option.splits)
    consider "action_state (State (roletrns (pheap w p)))" | "State (roletrns (pheap w p)) = ACTIVE_PORT"
      | "State (roletrns (pheap w p)) \<in> {RT_BEGIN, INIT_PORT, BLOCK_PORT, NON_STP, BLOCKED_PORT, BACKUP_PORT}"
      by (cases "State (roletrns (pheap w p))") (auto simp: action_state_def)
    then show ?thesis
    proof cases
      case 1
      note e = enter_action [OF Some tree refl 1]
      show ?thesis
        using rank_after_action [OF nxt, of "pheap w p"] e 1 Some rank' by (simp add: roletrns_rank_def)
    next
      case 2
      note e = enter_other(3,7) [OF Some, of p]
      show ?thesis
        using rank_after_active [OF nxt, of "pheap w p"] e 2 Some rank' fd by (simp add: roletrns_rank_def)
    next
      case 3
      show ?thesis using rank_after_other [OF Some nxt 3] rank' by simp
    qed
  qed
qed (rule roletrns_ok_step)

subsection \<open>What the machine does to a port\<close>

text \<open>One round: state entry, then the transition its conditions ask for.\<close>

lemma roletrns_step_port:
  assumes "g_CISTBRIDGE w = Some cist"
  shows "\<exists>a r v. pheap (statmch_step (roletrns_machine p) w) p =
    (let t = pheap (MSTP_roletrns_enter_state p w) p in
     case roletrns_next t a r v (roletrns_fd cist w) (ucast (HelloTime (rootTimes (bheap w cist)))) of
       Some s \<Rightarrow> roletrns_update (\<lambda>m. m\<lparr>State := s, changeState := True\<rparr>) t
     | None \<Rightarrow> roletrns_update (\<lambda>m. m\<lparr>changeState := False\<rparr>) t)"
proof -
  let ?v = "upd p (roletrns_update (\<lambda>m. m\<lparr>changeState := False\<rparr>)) (MSTP_roletrns_enter_state p w)"
  show ?thesis
    using assms
    by (intro exI [of _ "stp_roletrns_compute_all_synced p ?v"] exI [of _ "stp_roletrns_compute_re_rooted p ?v"]
        exI [of _ "2 \<le> version_num (ForceVersion (owner_of w p))"])
      (auto simp: statmch_step_def stp_statmch_check_condition_def roletrns_machine_def
        port_machine_def MSTP_roletrns_check_conditions_def hop_def roletrns_fd_def Let_def
        stp_statmch_hop_2_state_def comp_def split: option.split)
qed

lemmas tree_fields =
  upds_field [of learn] upds_field [of forward] upds_field [of selected] upds_field [of updtInfo]
  upds_field [of selectedRole] setnewinfoXst_field [of learn] setnewinfoXst_field [of forward]
  setnewinfoXst_field [of selected] setnewinfoXst_field [of updtInfo] setnewinfoXst_field [of selectedRole]

lemma enter_orders:
  fixes p :: pref and w :: world
  assumes "g_CISTBRIDGE w = Some cist"
  defines "t \<equiv> pheap w p" and "t' \<equiv> pheap (MSTP_roletrns_enter_state p w) p"
  shows "learn t' = (if State (roletrns t) \<in> {BLOCK_PORT, LISTEN} then False
                     else if State (roletrns t) = LEARN then True else learn t)"
    and "forward t' = (if State (roletrns t) \<in> {BLOCK_PORT, LISTEN} then False
                       else if State (roletrns t) = FORWARD then True else forward t)"
    and "selected t' = selected t" and "updtInfo t' = updtInfo t"
    and "State (roletrns t) \<notin> {RT_BEGIN, INIT_PORT} \<Longrightarrow> selectedRole t' = selectedRole t"
  unfolding t_def t'_def MSTP_roletrns_enter_state_def assms(1) Let_def
  by (cases "State (roletrns (pheap w p))"; simp add: stp_roletrns_setSyncTree_def
      stp_roletrns_setReRootTree_def tree_fields)+

text \<open>\<open>forward\<close> is only ordered for a port that may learn, and never together with a discarding role.\<close>

definition orders_ok :: "PORT_T \<Rightarrow> bool" where
  "orders_ok t \<longleftrightarrow> (forward t \<longrightarrow> learn t) \<and> (State (roletrns t) = FORWARD \<longrightarrow> learn t)"

lemma next_forward:
  "roletrns_next t a r v fd ht = Some FORWARD \<Longrightarrow> learn t"
  using active_port_next_guards(5) [of t a r v fd FORWARD]
  by (auto simp: roletrns_next_def split: if_splits PORT_ROLE_T.splits roletrns_state.splits)

lemma orders_ok_step:
  assumes "orders_ok (pheap w p)"
  shows "orders_ok (pheap (statmch_step (roletrns_machine p) w) p)"
proof (cases "g_CISTBRIDGE w")
  case None
  then show ?thesis using assms
    by (simp add: statmch_step_def stp_statmch_check_condition_def roletrns_machine_def
        port_machine_def MSTP_roletrns_check_conditions_def MSTP_roletrns_enter_state_def orders_ok_def)
next
  case (Some cist)
  note e = enter_orders(1,2) [OF Some, of p] enter_other(7) [OF Some, of p]
  obtain a r v where step: "pheap (statmch_step (roletrns_machine p) w) p =
    (let t = pheap (MSTP_roletrns_enter_state p w) p in
     case roletrns_next t a r v (roletrns_fd cist w) (ucast (HelloTime (rootTimes (bheap w cist)))) of
       Some s \<Rightarrow> roletrns_update (\<lambda>m. m\<lparr>State := s, changeState := True\<rparr>) t
     | None \<Rightarrow> roletrns_update (\<lambda>m. m\<lparr>changeState := False\<rparr>) t)"
    using roletrns_step_port [OF Some] by blast
  show ?thesis
    using assms e
      next_forward [of "pheap (MSTP_roletrns_enter_state p w) p" a r v "roletrns_fd cist w"]
    unfolding step Let_def by (auto simp: orders_ok_def split: option.split if_splits)
qed

subsection \<open>Properties\<close>

lemma rank_of_bound: "rank_of fd ht s t \<le> 1809"
  using active_left_bound [of fd "act True fd s t"] active_left_bound [of fd "t\<lparr>role := selectedRole t\<rparr>"]
  by (auto simp: rank_of_def)

text \<open>C10: while the CIST forward delay is not zero, every pending Port Role Transitions
  machine of a port on its instance's list comes to rest, and it never leaves \<open>forward\<close> ordered for
  a port that is not ordered to learn.\<close>

theorem roletrns_returns:
  assumes "roletrns_ok p w" and "orders_ok (pheap w p)"
  shows "\<exists>w' n. stp_statmch_change_state (roletrns_machine p) 0 w = Some (w', n) \<and> n \<le> 1810 \<and>
    \<not> changeState (roletrns (pheap w' p)) \<and> (forward (pheap w' p) \<longrightarrow> learn (pheap w' p))"
proof -
  obtain w' n where run: "stp_statmch_change_state (roletrns_machine p) 0 w = Some (w', n)"
    and "n \<le> 0 + roletrns_rank p w + 1"
    using rt.change_state_returns [OF assms(1)] by blast
  moreover have "roletrns_rank p w \<le> 1809"
    using rank_of_bound by (auto simp: roletrns_rank_def split: option.split)
  moreover have "orders_ok (pheap w' p) \<and> \<not> get_changeState (roletrns_machine p) w'"
    by (rule change_state_invariant [OF run]) (use assms(2) orders_ok_step in auto)
  ultimately show ?thesis
    by (intro exI [of _ w'] exI [of _ n]) (auto simp: orders_ok_def)
qed

text \<open>The states of a port whose role is a discarding one, once the machine has reacted.\<close>

definition blocking :: "PORT_ROLE_T \<Rightarrow> PORT_T \<Rightarrow> bool" where
  "blocking r t \<longleftrightarrow> selected t \<and> \<not> updtInfo t \<and> selectedRole t = r \<and>
     State (roletrns t) \<in> {BLOCK_PORT, BLOCKED_PORT, BACKUP_PORT} \<and>
     (State (roletrns t) = BLOCK_PORT \<and> changeState (roletrns t) \<or>
      role t = r \<and> \<not> learn t \<and> \<not> forward t)"

lemma blocking_next:
  assumes "role t = selectedRole t" and "State (roletrns t) \<in> {BLOCK_PORT, BLOCKED_PORT, BACKUP_PORT}"
    and "roletrns_next t a r v fd ht = Some s"
  shows "s \<in> {BLOCKED_PORT, BACKUP_PORT}"
  using assms by (auto simp: roletrns_next_def split: if_splits)

lemma blocking_step:
  assumes "g_CISTBRIDGE w = Some cist" and b: "blocking r (pheap w p)"
  shows "blocking r (pheap (statmch_step (roletrns_machine p) w) p)"
proof -
  let ?t = "pheap (MSTP_roletrns_enter_state p w) p"
  note e = enter_orders [OF assms(1), of p] enter_other [OF assms(1), of p]
  have t: "role ?t = selectedRole ?t \<and> selectedRole ?t = r \<and> \<not> learn ?t \<and> \<not> forward ?t \<and> selected ?t \<and>
      \<not> updtInfo ?t \<and> State (roletrns ?t) \<in> {BLOCK_PORT, BLOCKED_PORT, BACKUP_PORT}"
    using b e by (auto simp: blocking_def)
  obtain a r' v where step: "pheap (statmch_step (roletrns_machine p) w) p =
    (let t = ?t in
     case roletrns_next t a r' v (roletrns_fd cist w) (ucast (HelloTime (rootTimes (bheap w cist)))) of
       Some s \<Rightarrow> roletrns_update (\<lambda>m. m\<lparr>State := s, changeState := True\<rparr>) t
     | None \<Rightarrow> roletrns_update (\<lambda>m. m\<lparr>changeState := False\<rparr>) t)"
    using roletrns_step_port [OF assms(1)] by blast
  show ?thesis
    using t blocking_next [of ?t a r' v "roletrns_fd cist w"] unfolding step Let_def
    by (auto simp: blocking_def split: option.split)
qed

text \<open>C11: when role selection gives a port the role Disabled, Alternate or Backup, the
  next run of the machine adopts the role and withdraws both \<open>learn\<close> and \<open>forward\<close>.\<close>

theorem roletrns_blocks:
  assumes ok: "roletrns_ok p w" and cist: "g_CISTBRIDGE w = Some cist"
    and "role (pheap w p) \<noteq> selectedRole (pheap w p)" and "selected (pheap w p)" and "\<not> updtInfo (pheap w p)"
    and "selectedRole (pheap w p) \<in> {DisabledPort, AlternatePort, BackupPort}"
    and "State (roletrns (pheap w p)) \<noteq> RT_BEGIN"
  shows "\<exists>w' n. stp_statmch_change_state (roletrns_machine p) 0
      (fst (stp_statmch_check_condition (roletrns_machine p) w)) = Some (w', n) \<and>
    role (pheap w' p) = selectedRole (pheap w p) \<and> \<not> learn (pheap w' p) \<and> \<not> forward (pheap w' p)"
proof -
  let ?v = "fst (stp_statmch_check_condition (roletrns_machine p) w)" and ?r = "selectedRole (pheap w p)"
  have v: "?v = upd p (roletrns_update (changeState_update (\<lambda>_. True)))
      (upd p (roletrns_update (stp_statmch_hop_2_state BLOCK_PORT)) w)"
    using assms by (auto simp: stp_statmch_check_condition_def roletrns_machine_def port_machine_def
        MSTP_roletrns_check_conditions_def roletrns_next_def hop_def)
  have ok': "roletrns_ok p ?v" using ok by (simp add: v roletrns_ok_def roletrns_fd_def)
  have start: "g_CISTBRIDGE ?v = Some cist \<and> blocking ?r (pheap ?v p)"
    using assms by (simp add: v blocking_def)
  obtain w' n where run: "stp_statmch_change_state (roletrns_machine p) 0 ?v = Some (w', n)"
    using rt.change_state_returns [OF ok'] by blast
  have "(g_CISTBRIDGE w' = Some cist \<and> blocking ?r (pheap w' p)) \<and> \<not> get_changeState (roletrns_machine p) w'"
    by (rule change_state_invariant [OF run]) (use start in \<open>auto intro: blocking_step\<close>)
  then show ?thesis using run by (auto simp: blocking_def)
qed

text \<open>The rounds that never end when the CIST forward delay is zero.\<close>

definition reroot_loop :: "pref \<Rightarrow> world \<Rightarrow> bool" where
  "reroot_loop p w \<longleftrightarrow>
     (\<exists>cist. g_CISTBRIDGE w = Some cist \<and> roletrns_fd cist w = 0) \<and>
     p \<in> set (ports (owner_of w p)) \<and>
     (let t = pheap w p in
      changeState (roletrns t) \<and> State (roletrns t) \<in> {ACTIVE_PORT, REROOT, REROOTED} \<and>
      role t = RootPort \<and> selectedRole t = RootPort \<and> selected t \<and> \<not> updtInfo t \<and>
      synced t \<and> \<not> sync t \<and> agree t \<and> \<not> proposed t \<and> \<not> learn t \<and> \<not> forward t \<and> rrWhile t = 0)"

lemma reroot_loop_step: "reroot_loop p w \<Longrightarrow> reroot_loop p (statmch_step (roletrns_machine p) w)"
proof -
  assume l: "reroot_loop p w"
  then obtain cist where c: "g_CISTBRIDGE w = Some cist" "roletrns_fd cist w = 0"
    by (auto simp: reroot_loop_def)
  let ?t = "pheap (MSTP_roletrns_enter_state p w) p"
  have t: "State (roletrns ?t) \<in> {ACTIVE_PORT, REROOT, REROOTED} \<and> role ?t = RootPort \<and>
      selectedRole ?t = RootPort \<and> selected ?t \<and> \<not> updtInfo ?t \<and> synced ?t \<and> \<not> sync ?t \<and> agree ?t \<and>
      \<not> proposed ?t \<and> \<not> learn ?t \<and> \<not> forward ?t \<and> rrWhile ?t = 0"
    using l c unfolding reroot_loop_def Let_def
    by (auto simp: MSTP_roletrns_enter_state_def stp_roletrns_setReRootTree_def pheap_upds_idem)
  obtain a r' v where step: "pheap (statmch_step (roletrns_machine p) w) p =
    (let t = ?t in
     case roletrns_next t a r' v (roletrns_fd cist w) (ucast (HelloTime (rootTimes (bheap w cist)))) of
       Some s \<Rightarrow> roletrns_update (\<lambda>m. m\<lparr>State := s, changeState := True\<rparr>) t
     | None \<Rightarrow> roletrns_update (\<lambda>m. m\<lparr>changeState := False\<rparr>) t)"
    using roletrns_step_port [OF c(1)] by blast
  have nxt: "\<exists>s. roletrns_next ?t a r' v (roletrns_fd cist w) ht = Some s \<and>
      s \<in> {ACTIVE_PORT, REROOT, REROOTED}" for ht
    using t c(2) by (auto simp: roletrns_next_def active_port_next_def)
  have "p \<in> set (ports (owner_of w p))" using l by (simp add: reroot_loop_def)
  then show ?thesis
    using t c nxt [of "ucast (HelloTime (rootTimes (bheap w cist)))"]
    unfolding reroot_loop_def step Let_def by (auto simp: roletrns_fd_def)
qed

text \<open>with a CIST forward delay of zero a root port that is not yet learning sends
  \<open>stp_statmch_change_state\<close> into an endless \<open>REROOT\<close>/\<open>REROOTED\<close> loop.\<close>

theorem roletrns_livelock:
  assumes "reroot_loop p w"
  shows "stp_statmch_change_state (roletrns_machine p) k w = None"
  by (rule change_state_diverges [of "reroot_loop p"])
    (use assms reroot_loop_step in \<open>auto simp: reroot_loop_def Let_def\<close>)

end
