(* ===== verification/StpTopoch.thy ===== *)
theory StpTopoch
  imports StpRoletrns
begin

text \<open>The Topology Change machine (\<open>stp_topoch.c\<close>). The flush of the learning table only returns
  in this configuration and changes no state of the daemon.\<close>

definition stp_topoch_setTcPropTree :: "pref \<Rightarrow> world \<Rightarrow> world" where
  "stp_topoch_setTcPropTree p w =
     upds (filter (\<lambda>q. port_index (pheap w q) \<noteq> port_index (pheap w p)) (ports (owner_of w p)))
       (\<lambda>t. t\<lparr>tcProp := True\<rparr>) w"

text \<open>\<open>None\<close> when the CIST port of the port cannot be found: the source then follows a null pointer.\<close>

definition stp_topoch_newTcWhile :: "pref \<Rightarrow> world \<Rightarrow> u32 option" where
  "stp_topoch_newTcWhile p w =
     (let port = pheap w p in
      case stp_port_mst_findport STP_CIST_ID (port_index port) w of
        None \<Rightarrow> None
      | Some cistport \<Rightarrow>
          let times = rootTimes (owner_of w cistport) in
          Some (if tcWhile port = 0 \<and> sendRSTP port \<and> operPointToPointMac port
                then 2 * ucast (HelloTime times)
                else ucast (MaxAge times) + ucast (ForwardDelay times)))"

definition set_tcWhile :: "pref \<Rightarrow> world \<Rightarrow> world" where
  "set_tcWhile p w =
     (case stp_topoch_newTcWhile p w of
        None \<Rightarrow> null_deref w
      | Some v \<Rightarrow> upd p (\<lambda>t. t\<lparr>tcWhile := v\<rparr>) w)"

definition MSTP_topoch_enter_state :: "pref \<Rightarrow> world \<Rightarrow> world" where
  "MSTP_topoch_enter_state p w =
     (let cist = (br_vlan_id (owner_of w p) = STP_CIST_ID);
          init = upd p (\<lambda>t. (if cist then t\<lparr>tcAck := False\<rparr> else t)\<lparr>tcWhile := 0\<rparr>) in
      case State (topoch (pheap w p)) of
        TC_BEGIN \<Rightarrow> init w
      | TC_INIT \<Rightarrow> init w
      | INACTIVE \<Rightarrow>
          upd p (\<lambda>t. (if cist then t\<lparr>rcvdTc := False, rcvdTcn := False, rcvdTcAck := False\<rparr> else t)
                     \<lparr>rcvdTc := False, tcProp := False\<rparr>) w
      | ACTIVE \<Rightarrow> w
      | TC_DETECTED \<Rightarrow> stp_roletrns_setnewinfoXst p (stp_topoch_setTcPropTree p (set_tcWhile p w))
      | NOTIFIED_TC \<Rightarrow>
          stp_topoch_setTcPropTree p
            (upd p (\<lambda>t. let t = (if cist then t\<lparr>rcvdTcn := False\<rparr> else t)\<lparr>rcvdTc := False\<rparr> in
                        if cist \<and> role t = DesignatedPort then t\<lparr>tcAck := True\<rparr> else t) w)
      | PROPAGATING \<Rightarrow> upd p (\<lambda>t. t\<lparr>tcProp := False\<rparr>) (set_tcWhile p w)
      | ACKNOWLEDGED \<Rightarrow> upd p (\<lambda>t. t\<lparr>tcWhile := 0, rcvdTcAck := False\<rparr>) w
      | NOTIFIED_TCN \<Rightarrow> set_tcWhile p w)"

definition tc_active_role :: "PORT_T \<Rightarrow> bool" where
  "tc_active_role port \<longleftrightarrow> role port = RootPort \<or> role port = DesignatedPort \<or> role port = MasterPort"

definition MSTP_topoch_check_conditions :: "pref \<Rightarrow> world \<Rightarrow> world \<times> bool" where
  "MSTP_topoch_check_conditions p w =
     (let port = pheap w p; hop_2_state = hop topoch_update p in
      case State (topoch port) of
        TC_BEGIN \<Rightarrow> hop_2_state TC_INIT w
      | TC_INIT \<Rightarrow> hop_2_state INACTIVE w
      | INACTIVE \<Rightarrow>
          if rcvdTc port \<or> rcvdTcn port \<or> rcvdTcAck port \<or> tcProp port then hop_2_state INACTIVE w
          else if tc_active_role port \<and> forward port \<and> \<not> operEdge port then hop_2_state TC_DETECTED w
          else (w, False)
      | TC_DETECTED \<Rightarrow> hop_2_state ACTIVE w
      | ACTIVE \<Rightarrow>
          if \<not> tc_active_role port then hop_2_state TC_INIT w
          else if rcvdTcn port then hop_2_state NOTIFIED_TCN w
          else if rcvdTc port then hop_2_state NOTIFIED_TC w
          else if tcProp port then hop_2_state PROPAGATING w
          else if rcvdTcAck port then hop_2_state ACKNOWLEDGED w
          else (w, False)
      | NOTIFIED_TC \<Rightarrow> hop_2_state ACTIVE w
      | PROPAGATING \<Rightarrow> hop_2_state ACTIVE w
      | ACKNOWLEDGED \<Rightarrow> hop_2_state ACTIVE w
      | NOTIFIED_TCN \<Rightarrow> hop_2_state NOTIFIED_TC w)"

definition topoch_machine :: "pref \<Rightarrow> world machine_ops" where
  "topoch_machine =
     port_machine topoch topoch_update TC_BEGIN MSTP_topoch_enter_state MSTP_topoch_check_conditions"

lemma topoch_changing [simp]:
  "get_changeState (topoch_machine p) w = changeState (topoch (pheap w p))"
  by (simp add: topoch_machine_def port_machine_def)

subsection \<open>The machine comes to rest\<close>

definition tc_pending :: "PORT_T \<Rightarrow> nat" where
  "tc_pending t = 4 * of_bool (rcvdTcn t) + 2 * of_bool (rcvdTc t) + 2 * of_bool (tcProp t)
     + 2 * of_bool (rcvdTcAck t)"

definition topoch_rank :: "pref \<Rightarrow> world \<Rightarrow> nat" where
  "topoch_rank p w =
     (let t = pheap w p; idle = 10 * of_bool (\<not> tc_active_role t);
          noted = tc_pending (t\<lparr>rcvdTcn := False, rcvdTc := False\<rparr>) in
      case State (topoch t) of
        TC_BEGIN \<Rightarrow> 5 | TC_INIT \<Rightarrow> 4 | INACTIVE \<Rightarrow> 3
      | ACTIVE \<Rightarrow> 1 + tc_pending t + idle
      | TC_DETECTED \<Rightarrow> 2 + tc_pending t + idle
      | NOTIFIED_TC \<Rightarrow> 2 + noted + idle
      | PROPAGATING \<Rightarrow> 2 + tc_pending (t\<lparr>tcProp := False\<rparr>) + idle
      | ACKNOWLEDGED \<Rightarrow> 2 + tc_pending (t\<lparr>rcvdTcAck := False\<rparr>) + idle
      | NOTIFIED_TCN \<Rightarrow> 3 + noted + idle)"

text \<open>An MSTI port never has the flags that only the CIST machine clears.\<close>

definition topoch_ok :: "pref \<Rightarrow> world \<Rightarrow> bool" where
  "topoch_ok p w \<longleftrightarrow> br_vlan_id (owner_of w p) = STP_CIST_ID \<or>
     \<not> rcvdTcn (pheap w p) \<and> \<not> rcvdTcAck (pheap w p)"

text \<open>What state entry does to the flags of the port the machine belongs to.\<close>

definition tc_view :: "PORT_T \<Rightarrow> bool \<times> bool \<times> bool \<times> bool \<times> bool \<times> bool \<times> PORT_ROLE_T \<times> topoch_state STATE_MACH_T" where
  "tc_view t = (rcvdTcn t, rcvdTc t, tcProp t, rcvdTcAck t, forward t, operEdge t, role t, topoch t)"

lemma setTcPropTree_own [simp]: "pheap (stp_topoch_setTcPropTree p w) p = pheap w p"
  by (simp add: stp_topoch_setTcPropTree_def)

lemma setTcPropTree_frame [simp]:
  "bheap (stp_topoch_setTcPropTree p w) = bheap w" "out (stp_topoch_setTcPropTree p w) = out w"
  "g_CISTPORT (stp_topoch_setTcPropTree p w) = g_CISTPORT w"
  "platform (stp_topoch_setTcPropTree p w) = platform w"
  "owner (pheap (stp_topoch_setTcPropTree p w) q) = owner (pheap w q)"
  by (simp_all add: stp_topoch_setTcPropTree_def upds_field [of owner])

lemma set_tcWhile_frame [simp]:
  "bheap (set_tcWhile p w) = bheap w" "tc_view (pheap (set_tcWhile p w) q) = tc_view (pheap w q)"
  "owner (pheap (set_tcWhile p w) q) = owner (pheap w q)"
  "topoch (pheap (set_tcWhile p w) q) = topoch (pheap w q)"
  by (auto simp: set_tcWhile_def tc_view_def split: option.split)

lemma tc_view_setnewinfo [simp]:
  "tc_view (pheap (stp_roletrns_setnewinfoXst p w) q) = tc_view (pheap w q)"
  by (rule setnewinfoXst_field) (simp_all add: tc_view_def)

definition tc_effect :: "bool \<Rightarrow> PORT_T \<Rightarrow> PORT_T" where
  "tc_effect cist t =
     (case State (topoch t) of
        INACTIVE \<Rightarrow> (if cist then t\<lparr>rcvdTcn := False, rcvdTcAck := False, rcvdTc := False, tcProp := False\<rparr>
                     else t\<lparr>rcvdTc := False, tcProp := False\<rparr>)
      | NOTIFIED_TC \<Rightarrow> (if cist then t\<lparr>rcvdTcn := False, rcvdTc := False\<rparr> else t\<lparr>rcvdTc := False\<rparr>)
      | PROPAGATING \<Rightarrow> t\<lparr>tcProp := False\<rparr>
      | ACKNOWLEDGED \<Rightarrow> t\<lparr>rcvdTcAck := False\<rparr>
      | _ \<Rightarrow> t)"

lemma tc_view_enter:
  "tc_view (pheap (MSTP_topoch_enter_state p w) p) =
     tc_view (tc_effect (br_vlan_id (owner_of w p) = STP_CIST_ID) (pheap w p))"
proof -
  have "tc_view (pheap (set_tcWhile p w) p) = tc_view (pheap w p)" by simp
  note v = this [unfolded tc_view_def prod.inject]
  show ?thesis
    by (cases "State (topoch (pheap w p))")
      (simp_all add: MSTP_topoch_enter_state_def tc_effect_def Let_def, simp_all add: tc_view_def v)
qed

lemma topoch_enter_frame [simp]:
  "bheap (MSTP_topoch_enter_state p w) = bheap w"
  "owner (pheap (MSTP_topoch_enter_state p w) q) = owner (pheap w q)"
  by (cases "State (topoch (pheap w p))"; simp add: MSTP_topoch_enter_state_def Let_def
      setnewinfoXst_field [of owner])+

text \<open>The flags after one round of the machine, and the transition it asks for.\<close>

lemma topoch_step_cases:
  fixes p :: pref and w :: world
  defines "w' \<equiv> statmch_step (topoch_machine p) w"
    and "t \<equiv> tc_effect (br_vlan_id (owner_of w p) = STP_CIST_ID) (pheap w p)"
  shows "(rcvdTcn (pheap w' p), rcvdTc (pheap w' p), tcProp (pheap w' p), rcvdTcAck (pheap w' p),
      forward (pheap w' p), operEdge (pheap w' p), role (pheap w' p)) =
      (rcvdTcn t, rcvdTc t, tcProp t, rcvdTcAck t, forward t, operEdge t, role t)"
    and "changeState (topoch (pheap w' p)) \<Longrightarrow>
      State (topoch (pheap w' p)) =
        (case State (topoch (pheap w p)) of
           TC_BEGIN \<Rightarrow> TC_INIT | TC_INIT \<Rightarrow> INACTIVE
         | INACTIVE \<Rightarrow> if rcvdTc t \<or> rcvdTcn t \<or> rcvdTcAck t \<or> tcProp t then INACTIVE else TC_DETECTED
         | TC_DETECTED \<Rightarrow> ACTIVE
         | ACTIVE \<Rightarrow> if \<not> tc_active_role t then TC_INIT else if rcvdTcn t then NOTIFIED_TCN
             else if rcvdTc t then NOTIFIED_TC else if tcProp t then PROPAGATING else ACKNOWLEDGED
         | NOTIFIED_TC \<Rightarrow> ACTIVE | PROPAGATING \<Rightarrow> ACTIVE | ACKNOWLEDGED \<Rightarrow> ACTIVE
         | NOTIFIED_TCN \<Rightarrow> NOTIFIED_TC)"
    and "changeState (topoch (pheap w' p)) \<Longrightarrow> State (topoch (pheap w p)) = INACTIVE \<Longrightarrow>
      rcvdTc t \<or> rcvdTcn t \<or> rcvdTcAck t \<or> tcProp t \<or> tc_active_role t"
    and "changeState (topoch (pheap w' p)) \<Longrightarrow> State (topoch (pheap w p)) = ACTIVE \<Longrightarrow>
      \<not> tc_active_role t \<or> rcvdTcn t \<or> rcvdTc t \<or> tcProp t \<or> rcvdTcAck t"
    and "owner (pheap w' p) = owner (pheap w p)" and "bheap w' = bheap w"
proof -
  have "State (topoch t) = State (topoch (pheap w p))"
    by (simp add: t_def tc_effect_def split: topoch_state.split)
  note v = tc_view_enter [of p w, folded t_def, unfolded tc_view_def prod.inject]
  note d = w'_def topoch_machine_def machine_simps MSTP_topoch_check_conditions_def tc_active_role_def v
    \<open>State (topoch t) = _\<close>
  show "(rcvdTcn (pheap w' p), rcvdTc (pheap w' p), tcProp (pheap w' p), rcvdTcAck (pheap w' p),
      forward (pheap w' p), operEdge (pheap w' p), role (pheap w' p)) =
      (rcvdTcn t, rcvdTc t, tcProp t, rcvdTcAck t, forward t, operEdge t, role t)"
    by (cases "State (topoch (pheap w p))") (simp_all add: d)
  show "owner (pheap w' p) = owner (pheap w p)" "bheap w' = bheap w"
    by (cases "State (topoch (pheap w p))"; simp add: d)+
  assume "changeState (topoch (pheap w' p))"
  then show "State (topoch (pheap w' p)) =
        (case State (topoch (pheap w p)) of
           TC_BEGIN \<Rightarrow> TC_INIT | TC_INIT \<Rightarrow> INACTIVE
         | INACTIVE \<Rightarrow> if rcvdTc t \<or> rcvdTcn t \<or> rcvdTcAck t \<or> tcProp t then INACTIVE else TC_DETECTED
         | TC_DETECTED \<Rightarrow> ACTIVE
         | ACTIVE \<Rightarrow> if \<not> tc_active_role t then TC_INIT else if rcvdTcn t then NOTIFIED_TCN
             else if rcvdTc t then NOTIFIED_TC else if tcProp t then PROPAGATING else ACKNOWLEDGED
         | NOTIFIED_TC \<Rightarrow> ACTIVE | PROPAGATING \<Rightarrow> ACTIVE | ACKNOWLEDGED \<Rightarrow> ACTIVE
         | NOTIFIED_TCN \<Rightarrow> NOTIFIED_TC)"
    by (cases "State (topoch (pheap w p))") (auto simp: d split: if_splits)
  assume "changeState (topoch (pheap w' p))"
  then show "State (topoch (pheap w p)) = INACTIVE \<Longrightarrow>
      rcvdTc t \<or> rcvdTcn t \<or> rcvdTcAck t \<or> tcProp t \<or> tc_active_role t"
    and "State (topoch (pheap w p)) = ACTIVE \<Longrightarrow>
      \<not> tc_active_role t \<or> rcvdTcn t \<or> rcvdTc t \<or> tcProp t \<or> rcvdTcAck t"
    by (auto simp: d split: if_splits)
qed

lemma topoch_ok_step: "topoch_ok p w \<Longrightarrow> topoch_ok p (statmch_step (topoch_machine p) w)"
  using topoch_step_cases(1,5,6) [of p w]
  by (auto simp: topoch_ok_def tc_effect_def split: topoch_state.splits)

interpretation tch: progressing_machine "topoch_machine p" "topoch_ok p" "topoch_rank p" for p
proof
  fix w
  assume ok: "topoch_ok p w"
    and again: "get_changeState (topoch_machine p) (statmch_step (topoch_machine p) w)"
  note c = topoch_step_cases [of p w]
  show "topoch_rank p (statmch_step (topoch_machine p) w) < topoch_rank p w"
    using ok again c(1) c(2) c(3) c(4)
    by (cases "State (topoch (pheap w p))")
      (auto simp: topoch_rank_def tc_pending_def tc_active_role_def topoch_ok_def tc_effect_def Let_def
        split: if_splits)
qed (rule topoch_ok_step)

end
