(* ===== verification/StpRolesel.thy ===== *)
theory StpRolesel
  imports StpRoletrns
begin

text \<open>
  The Port Role Selection machine (\<open>stp_rolesel.c\<close>), the one machine of a bridge instance: it
  computes the root priority vector of the instance from what its ports have received, the
  designated vectors of the ports and from these the selected role of every port.
\<close>

subsection \<open>Procedures\<close>

definition stp_rolesel_is_backup_port :: "PORT_T \<Rightarrow> STPM_T \<Rightarrow> bool" where
  "stp_rolesel_is_backup_port port this \<longleftrightarrow>
     stp_vector_compare_bridge_id (design_bridge (portPrio port)) (BrId this) = 0"

definition stp_rolesel_setRoleSelected :: "PORT_ROLE_T \<Rightarrow> PORT_T \<Rightarrow> PORT_T" where
  "stp_rolesel_setRoleSelected newRole port =
     (let port = port\<lparr>selectedRole := newRole\<rparr> in
      if newRole = role port then port
      else (if newRole = NonStpPort then port\<lparr>role := newRole\<rparr> else port)
        \<lparr>proposed := False, proposing := False, agreed := False, agree := False,
         synced := False, sync := False\<rparr>)"

definition stp_rolesel_updtRoleDisableTree :: "bref \<Rightarrow> world \<Rightarrow> world" where
  "stp_rolesel_updtRoleDisableTree b w = upds (ports (bheap w b)) (\<lambda>t. t\<lparr>selectedRole := DisabledPort\<rparr>) w"

definition stp_rolesel_clearReselectTree :: "bref \<Rightarrow> world \<Rightarrow> world" where
  "stp_rolesel_clearReselectTree b w = upds (ports (bheap w b)) (\<lambda>t. t\<lparr>reselect := False\<rparr>) w"

text \<open>The ports that take part in the computation of the root vector: information has been
  received from another bridge and, for an MSTI, inside the region.\<close>

definition root_candidate :: "bref \<Rightarrow> world \<Rightarrow> pref \<Rightarrow> bool" where
  "root_candidate b w p \<longleftrightarrow>
     (let port = pheap w p; stpm = bheap w b in
      \<not> admin_non_stp port \<and> infoIs port = Received \<and>
      stp_vector_compare_bridge_id (design_bridge (portPrio port)) (BrId stpm) \<noteq> 0 \<and>
      (br_vlan_id stpm \<noteq> STP_CIST_ID \<longrightarrow>
        (case stp_port_mst_findport STP_CIST_ID (port_index port) w of
           None \<Rightarrow> False
         | Some c \<Rightarrow> \<not> (\<not> infoInternal (pheap w c) \<and> infoIs (pheap w c) = Received))))"

text \<open>The root path priority vector of a port.\<close>

definition root_path_prio :: "bref \<Rightarrow> world \<Rightarrow> pref \<Rightarrow> PRIO_VECTOR_T" where
  "root_path_prio b w p =
     (let port = pheap w p; v = portPrio port in
      if br_vlan_id (bheap w b) = STP_CIST_ID
      then (if infoInternal port
            then v\<lparr>region_root_path_cost := region_root_path_cost v + operPCost port\<rparr>
            else v\<lparr>root_path_cost := root_path_cost v + operPCost port,
                   region_root_bridge := BrId (owner_of w p), region_root_path_cost := 0\<rparr>)
      else v\<lparr>region_root_path_cost := region_root_path_cost v + operPCost port\<rparr>)"

definition stp_rolesel_updtRootPrio :: "bref \<Rightarrow> world \<Rightarrow> world" where
  "stp_rolesel_updtRootPrio b w =
     for_ports (\<lambda>p w.
       if \<not> root_candidate b w p then w
       else let v = root_path_prio b w p in
         if stp_vector_compare v (rootPrio (bheap w b)) < 0
         then updb b (\<lambda>s. s\<lparr>rootPrio := v, rootTimes := stp_times_copy (portTimes (pheap w p))\<rparr>) w
         else w)
       (ports (bheap w b)) w"

text \<open>The designated vector and times of a port.\<close>

definition updt_design :: "bool \<Rightarrow> STPM_T \<Rightarrow> BRIDGE_ID \<Rightarrow> PORT_T \<Rightarrow> PORT_T" where
  "updt_design cist stpm ownerBrId port =
     (if admin_non_stp port then port
      else let v = stp_vector_create (root_bridge (rootPrio stpm)) (root_path_cost (rootPrio stpm))
                     (region_root_bridge (rootPrio stpm)) (region_root_path_cost (rootPrio stpm))
                     (BrId stpm) (port_id port) (port_id port);
               v = (if cist \<and> \<not> sendRSTP port then v\<lparr>region_root_bridge := ownerBrId\<rparr> else v) in
           port\<lparr>designPrio := v, designTimes := stp_times_copy (rootTimes stpm)\<rparr>)"

text \<open>The \<open>switch\<close> over \<open>infoIs\<close> that CIST and MSTI share.\<close>

definition info_differs :: "PORT_T \<Rightarrow> bool" where
  "info_differs port \<longleftrightarrow> stp_vector_compare (portPrio port) (designPrio port) \<noteq> 0 \<or>
     stp_times_compare (portTimes port) (designTimes port) \<noteq> 0"

definition updt_role :: "STPM_T \<Rightarrow> PORT_T \<Rightarrow> PORT_T" where
  "updt_role stpm port =
     (case infoIs port of
        Disabled \<Rightarrow> stp_rolesel_setRoleSelected DisabledPort port
      | Aged \<Rightarrow> (stp_rolesel_setRoleSelected DesignatedPort port)\<lparr>updtInfo := True\<rparr>
      | Mine \<Rightarrow>
          (let port = stp_rolesel_setRoleSelected DesignatedPort port in
           if info_differs port then port\<lparr>updtInfo := True\<rparr> else port)
      | Received \<Rightarrow>
          if rootPortId stpm = port_id port
          then (stp_rolesel_setRoleSelected RootPort port)\<lparr>updtInfo := False\<rparr>
          else if stp_vector_compare (designPrio port) (portPrio port) < 0
          then (stp_rolesel_setRoleSelected DesignatedPort port)\<lparr>updtInfo := True\<rparr>
          else if stp_rolesel_is_backup_port port stpm
          then (stp_rolesel_setRoleSelected BackupPort port)\<lparr>updtInfo := False\<rparr>
          else (stp_rolesel_setRoleSelected AlternatePort port)\<lparr>updtInfo := False\<rparr>)"

definition set_non_stp :: "PORT_T \<Rightarrow> PORT_T" where
  "set_non_stp port = (stp_rolesel_setRoleSelected NonStpPort port)\<lparr>learn := True, forward := True\<rparr>"

subsubsection \<open>CIST\<close>

definition updt_role_cist :: "bref \<Rightarrow> pref \<Rightarrow> world \<Rightarrow> world" where
  "updt_role_cist b p w =
     (if admin_non_stp (pheap w p) then upd p set_non_stp w
      else let w = upd p (updt_role (bheap w b)) w; port = pheap w p in
        if \<not> infoInternal port \<or> \<not> rcvdInternal port
        then upds (nextMst port) (\<lambda>t. t\<lparr>reselect := True, selected := False\<rparr>) w
        else w)"

definition stp_rolesel_updtRolesCist :: "bref \<Rightarrow> world \<Rightarrow> world" where
  "stp_rolesel_updtRolesCist b w =
     (let had_cist_pathcost = root_path_cost (rootPrio (bheap w b));
          old_region_root = addr (region_root_bridge (rootPrio (bheap w b)));
          w = updb b (\<lambda>s. s\<lparr>rootPrio := stp_vector_create (BrId s) 0 (BrId s) 0 (BrId s) 0 0,
                            rootTimes := stp_times_copy (BrTimes s), rootPortId := 0\<rparr>) w;
          w = stp_rolesel_updtRootPrio b w;
          w = upds (ports (bheap w b)) (\<lambda>t. updt_design True (bheap w b) (BrId (bheap w (owner t))) t) w;
          w = updb b (\<lambda>s. s\<lparr>rootPortId := bridge_port (rootPrio s)\<rparr>) w;
          w = (if (root_path_cost (rootPrio (bheap w b)) \<noteq> 0 \<or> had_cist_pathcost \<noteq> 0) \<and>
                  memcmp 6 old_region_root (addr (region_root_bridge (rootPrio (bheap w b)))) \<noteq> 0
               then for_ports (\<lambda>p w. upds (nextMst (pheap w p)) (\<lambda>t. t\<lparr>changedMaster := True\<rparr>) w)
                      (ports (bheap w b)) w
               else w) in
      for_ports (updt_role_cist b) (ports (bheap w b)) w)"

subsubsection \<open>MSTI\<close>

text \<open>A boundary port of the region follows the role of its CIST port.\<close>

definition updt_role_msti :: "STPM_T \<Rightarrow> PORT_T \<Rightarrow> PORT_T \<Rightarrow> PORT_T" where
  "updt_role_msti stpm cistport port =
     (if portEnabled cistport \<and> infoIs cistport = Received \<and> \<not> infoInternal cistport
      then let port = (if selectedRole cistport = RootPort then stp_rolesel_setRoleSelected MasterPort port
                       else if selectedRole cistport = AlternatePort
                         then stp_rolesel_setRoleSelected AlternatePort port
                       else port) in
           if info_differs port then port\<lparr>updtInfo := True\<rparr> else port
      else updt_role stpm port)"

text \<open>The loop returns early at a port without a CIST port.\<close>

primrec updt_roles_msti :: "bref \<Rightarrow> pref list \<Rightarrow> world \<Rightarrow> world" where
  "updt_roles_msti b [] w = w"
| "updt_roles_msti b (p # ps) w =
     (if admin_non_stp (pheap w p) then updt_roles_msti b ps (upd p set_non_stp w)
      else case stp_port_mst_findport STP_CIST_ID (port_index (pheap w p)) w of
        None \<Rightarrow> w
      | Some c \<Rightarrow> updt_roles_msti b ps (upd p (updt_role_msti (bheap w b) (pheap w c)) w))"

definition stp_rolesel_updtRolesMsti :: "bref \<Rightarrow> world \<Rightarrow> world" where
  "stp_rolesel_updtRolesMsti b w =
     (let w = updb b (\<lambda>s. s\<lparr>rootPrio := stp_vector_create zero_bridge_id 0 (BrId s) 0 (BrId s) 0 0,
                            rootTimes := stp_times_copy (BrTimes s), rootPortId := 0\<rparr>) w;
          w = stp_rolesel_updtRootPrio b w;
          w = upds (ports (bheap w b)) (\<lambda>t. updt_design False (bheap w b) (BrId (bheap w (owner t))) t) w;
          w = updb b (\<lambda>s. s\<lparr>rootPortId := bridge_port (rootPrio s)\<rparr>) w in
      updt_roles_msti b (ports (bheap w b)) w)"

definition stp_rolesel_updtRolesXst :: "bref \<Rightarrow> world \<Rightarrow> world" where
  "stp_rolesel_updtRolesXst b w =
     (if br_vlan_id (bheap w b) = STP_CIST_ID then stp_rolesel_updtRolesCist b w
      else stp_rolesel_updtRolesMsti b w)"

definition stp_rolesel_setSelectedTree :: "bref \<Rightarrow> world \<Rightarrow> world \<times> bool" where
  "stp_rolesel_setSelectedTree b w =
     (if list_ex (\<lambda>p. reselect (pheap w p)) (ports (bheap w b)) then (w, False)
      else (upds (ports (bheap w b)) (\<lambda>t. t\<lparr>selected := True\<rparr>) w, True))"

subsection \<open>The machine\<close>

definition MSTP_rolesel_enter_state :: "bref \<Rightarrow> world \<Rightarrow> world" where
  "MSTP_rolesel_enter_state b w =
     (case State (rolesel (bheap w b)) of
        RS_BEGIN \<Rightarrow> stp_rolesel_updtRoleDisableTree b w
      | INIT_BRIDGE \<Rightarrow> stp_rolesel_updtRoleDisableTree b w
      | RS_RECEIVE \<Rightarrow>
          fst (stp_rolesel_setSelectedTree b
            (stp_rolesel_updtRolesXst b (stp_rolesel_clearReselectTree b w))))"

definition MSTP_rolesel_check_conditions :: "bref \<Rightarrow> world \<Rightarrow> world \<times> bool" where
  "MSTP_rolesel_check_conditions b w =
     (case State (rolesel (bheap w b)) of
        RS_BEGIN \<Rightarrow> hopb rolesel_update b INIT_BRIDGE w
      | INIT_BRIDGE \<Rightarrow> hopb rolesel_update b RS_RECEIVE w
      | RS_RECEIVE \<Rightarrow>
          if list_ex (\<lambda>p. reselect (pheap w p)) (ports (bheap w b))
          then hopb rolesel_update b RS_RECEIVE w else (w, False))"

definition rolesel_machine :: "bref \<Rightarrow> world machine_ops" where
  "rolesel_machine =
     bridge_machine rolesel rolesel_update RS_BEGIN MSTP_rolesel_enter_state MSTP_rolesel_check_conditions"

definition stp_rolesel_update_stpm :: "bref \<Rightarrow> world \<Rightarrow> world" where
  "stp_rolesel_update_stpm b w =
     (let w = updb b (\<lambda>s. let v = stp_vector_create (BrId s) 0 (BrId s) 0 (BrId s) 0 0 in
                          if rootPortId s = 0 \<or> stp_vector_compare v (rootPrio s) < 0
                          then s\<lparr>rootPrio := v\<rparr> else s) w;
          s = bheap w b in
      upds (ports s)
        (\<lambda>t. let t = t\<lparr>designPrio := stp_vector_create (root_bridge (rootPrio s)) (root_path_cost (rootPrio s))
                         (region_root_bridge (rootPrio s)) (region_root_path_cost (rootPrio s))
                         (BrId s) (port_id t) (port_id t)\<rparr>;
                 t = (if infoIs t \<noteq> Received \<or> rootPortId s = port_id t
                      then t\<lparr>portPrio := designPrio t\<rparr> else t) in
             t\<lparr>reselect := True, selected := False\<rparr>) w)"

subsection \<open>The root vector\<close>

lemma root_candidate_updb [simp]:
  assumes "\<And>s. BrId (f s) = BrId s" and "\<And>s. br_vlan_id (f s) = br_vlan_id s"
  shows "root_candidate b (updb c f w) p = root_candidate b w p"
  using assms by (auto simp: root_candidate_def Let_def split: option.splits)

lemma root_path_prio_updb [simp]:
  assumes "\<And>s. BrId (f s) = BrId s" and "\<And>s. br_vlan_id (f s) = br_vlan_id s"
  shows "root_path_prio b (updb c f w) p = root_path_prio b w p"
  using assms by (simp add: root_path_prio_def Let_def)

definition root_step :: "bref \<Rightarrow> pref \<Rightarrow> world \<Rightarrow> world" where
  "root_step b p w =
     (if \<not> root_candidate b w p then w
      else let v = root_path_prio b w p in
        if stp_vector_compare v (rootPrio (bheap w b)) < 0
        then updb b (\<lambda>s. s\<lparr>rootPrio := v, rootTimes := stp_times_copy (portTimes (pheap w p))\<rparr>) w
        else w)"

lemma updtRootPrio_alt:
  "stp_rolesel_updtRootPrio b w = for_ports (root_step b) (ports (bheap w b)) w"
  by (simp add: stp_rolesel_updtRootPrio_def root_step_def [abs_def])

lemma root_step_indep [simp]:
  "root_candidate b (root_step b p w) q = root_candidate b w q"
  "root_path_prio b (root_step b p w) q = root_path_prio b w q"
  "pheap (root_step b p w) = pheap w"
  "ports (bheap (root_step b p w) c) = ports (bheap w c)"
  "BrId (bheap (root_step b p w) c) = BrId (bheap w c)"
  "br_vlan_id (bheap (root_step b p w) c) = br_vlan_id (bheap w c)"
  "rolesel (bheap (root_step b p w) c) = rolesel (bheap w c)"
  "g_CISTPORT (root_step b p w) = g_CISTPORT w" "platform (root_step b p w) = platform w"
  by (simp_all add: root_step_def Let_def)

lemma updtRootPrio_frame [simp]:
  "pheap (stp_rolesel_updtRootPrio b w) = pheap w"
  "ports (bheap (stp_rolesel_updtRootPrio b w) c) = ports (bheap w c)"
  "BrId (bheap (stp_rolesel_updtRootPrio b w) c) = BrId (bheap w c)"
  "br_vlan_id (bheap (stp_rolesel_updtRootPrio b w) c) = br_vlan_id (bheap w c)"
  "rolesel (bheap (stp_rolesel_updtRootPrio b w) c) = rolesel (bheap w c)"
  unfolding updtRootPrio_alt
  by (rule for_ports_field [where g = pheap], simp)
    (rule for_ports_field [where g = "\<lambda>w. ports (bheap w c)"], simp,
     rule for_ports_field [where g = "\<lambda>w. BrId (bheap w c)"], simp,
     rule for_ports_field [where g = "\<lambda>w. br_vlan_id (bheap w c)"], simp,
     rule for_ports_field [where g = "\<lambda>w. rolesel (bheap w c)"], simp)

text \<open>The loop keeps the running minimum of the root path vectors of the candidates.\<close>

lemma rootPrio_fold:
  "rootPrio (bheap (for_ports (root_step b) ps w) b) =
     foldl vec.better (rootPrio (bheap w b)) (map (root_path_prio b w) (filter (root_candidate b w) ps))"
proof (induction ps arbitrary: w)
  case (Cons p ps)
  have "rootPrio (bheap (root_step b p w) b) =
      (if root_candidate b w p then vec.better (rootPrio (bheap w b)) (root_path_prio b w p)
       else rootPrio (bheap w b))"
    by (simp add: root_step_def Let_def vec.better_def)
  then show ?case using Cons.IH [of "root_step b p w"] by simp
qed simp

lemma updtRootPrio_min:
  assumes "vec_ok (rootPrio (bheap w b))"
    and "\<forall>p \<in> set (ports (bheap w b)). root_candidate b w p \<longrightarrow> vec_ok (root_path_prio b w p)"
  defines "best \<equiv> rootPrio (bheap (stp_rolesel_updtRootPrio b w) b)"
  shows "vec_ok best"
    and "best = rootPrio (bheap w b) \<or>
      (\<exists>p \<in> set (ports (bheap w b)). root_candidate b w p \<and> best = root_path_prio b w p)"
    and "stp_vector_compare best (rootPrio (bheap w b)) \<le> 0"
    and "p \<in> set (ports (bheap w b)) \<Longrightarrow> root_candidate b w p \<Longrightarrow>
      stp_vector_compare best (root_path_prio b w p) \<le> 0"
proof -
  let ?ps = "ports (bheap w b)"
  have eq: "best = foldl vec.better (rootPrio (bheap w b)) (map (root_path_prio b w) (filter (root_candidate b w) ?ps))"
    unfolding best_def updtRootPrio_alt by (rule rootPrio_fold)
  have le: "vec_ok best \<and> (\<forall>y \<in> insert (rootPrio (bheap w b))
      (set (map (root_path_prio b w) (filter (root_candidate b w) ?ps))). stp_vector_compare best y \<le> 0)"
    unfolding eq by (rule vec.foldl_better_le) (use assms in auto)
  then show "vec_ok best" and "stp_vector_compare best (rootPrio (bheap w b)) \<le> 0"
    and "p \<in> set ?ps \<Longrightarrow> root_candidate b w p \<Longrightarrow> stp_vector_compare best (root_path_prio b w p) \<le> 0"
    by auto
  show "best = rootPrio (bheap w b) \<or>
      (\<exists>p \<in> set ?ps. root_candidate b w p \<and> best = root_path_prio b w p)"
    using vec.foldl_better_in [of "rootPrio (bheap w b)" "map (root_path_prio b w) (filter (root_candidate b w) ?ps)"]
    unfolding eq by auto
qed

subsection \<open>The selected roles\<close>

definition role_outcome :: "STPM_T \<Rightarrow> PORT_T \<Rightarrow> PORT_ROLE_T" where
  "role_outcome s t =
     (if admin_non_stp t then NonStpPort
      else case infoIs t of
        Disabled \<Rightarrow> DisabledPort
      | Aged \<Rightarrow> DesignatedPort
      | Mine \<Rightarrow> DesignatedPort
      | Received \<Rightarrow>
          if rootPortId s = port_id t then RootPort
          else if stp_vector_compare (designPrio t) (portPrio t) < 0 then DesignatedPort
          else if stp_rolesel_is_backup_port t s then BackupPort
          else AlternatePort)"

lemma setRoleSelected_selectedRole [simp]:
  "selectedRole (stp_rolesel_setRoleSelected r t) = r"
  by (simp add: stp_rolesel_setRoleSelected_def Let_def)

lemma setRoleSelected_frame [simp]:
  "infoInternal (stp_rolesel_setRoleSelected r t) = infoInternal t"
  "nextMst (stp_rolesel_setRoleSelected r t) = nextMst t"
  "reselect (stp_rolesel_setRoleSelected r t) = reselect t"
  "admin_non_stp (stp_rolesel_setRoleSelected r t) = admin_non_stp t"
  "port_index (stp_rolesel_setRoleSelected r t) = port_index t"
  by (simp_all add: stp_rolesel_setRoleSelected_def Let_def)

lemma updt_role_outcome:
  "\<not> admin_non_stp t \<Longrightarrow> selectedRole (updt_role s t) = role_outcome s t"
  "admin_non_stp t \<Longrightarrow> selectedRole (set_non_stp t) = role_outcome s t"
  by (simp_all add: updt_role_def role_outcome_def set_non_stp_def Let_def split: INFO_IS_T.split)

lemma updt_role_frame [simp]:
  "reselect (updt_role s t) = reselect t" "nextMst (updt_role s t) = nextMst t"
  "reselect (set_non_stp t) = reselect t" "nextMst (set_non_stp t) = nextMst t"
  by (simp_all add: updt_role_def set_non_stp_def Let_def split: INFO_IS_T.split)

lemma role_outcome_indep [simp]:
  "role_outcome s (t\<lparr>reselect := x, selected := y\<rparr>) = role_outcome s t"
  "role_outcome s (changedMaster_update f t) = role_outcome s t"
  by (simp_all add: role_outcome_def stp_rolesel_is_backup_port_def)

lemma updt_role_cist_bheap [simp]: "bheap (updt_role_cist b p w) = bheap w"
  by (simp add: updt_role_cist_def Let_def)

lemma updt_role_cist_other:
  assumes "q \<noteq> p"
  shows "role_outcome s (pheap (updt_role_cist b p w) q) = role_outcome s (pheap w q)"
    and "selectedRole (pheap (updt_role_cist b p w) q) = selectedRole (pheap w q)"
  using assms
  by (auto simp: updt_role_cist_def Let_def upds_field [of selectedRole] upds_field [of "role_outcome s"])

lemma updt_role_cist_own:
  "selectedRole (pheap (updt_role_cist b p w) p) = role_outcome (bheap w b) (pheap w p)"
  by (simp add: updt_role_cist_def Let_def upds_field [of selectedRole] updt_role_outcome)

lemma roles_cist:
  assumes "distinct ps" and "p \<in> set ps"
  shows "selectedRole (pheap (for_ports (updt_role_cist b) ps w) p) = role_outcome (bheap w b) (pheap w p)"
  using assms
proof (induction ps arbitrary: w)
  case (Cons q ps)
  have keep: "selectedRole (pheap (for_ports (updt_role_cist b) ps v) p) = selectedRole (pheap v p)"
    if "p \<notin> set ps" for v
    using that by (induction ps arbitrary: v) (auto simp: updt_role_cist_other)
  show ?case
  proof (cases "p = q")
    case True
    then show ?thesis using Cons.prems keep by (simp add: updt_role_cist_own)
  next
    case False
    then show ?thesis using Cons.prems Cons.IH [of "updt_role_cist b q w"]
      by (simp add: updt_role_cist_other)
  qed
qed simp

text \<open>What the earlier phases of \<open>updtRolesCist\<close> leave of the ports and of the instance.\<close>

definition cist_start :: "bref \<Rightarrow> world \<Rightarrow> world" where
  "cist_start b w = updb b (\<lambda>s. s\<lparr>rootPrio := stp_vector_create (BrId s) 0 (BrId s) 0 (BrId s) 0 0,
     rootTimes := stp_times_copy (BrTimes s), rootPortId := 0\<rparr>) w"

definition cist_rooted :: "bref \<Rightarrow> world \<Rightarrow> world" where
  "cist_rooted b w = stp_rolesel_updtRootPrio b (cist_start b w)"

definition cist_before_roles :: "bref \<Rightarrow> world \<Rightarrow> world" where
  "cist_before_roles b w =
     (let r = cist_rooted b w;
          v = updb b (\<lambda>s. s\<lparr>rootPortId := bridge_port (rootPrio s)\<rparr>)
            (upds (ports (bheap r b)) (\<lambda>t. updt_design True (bheap r b) (BrId (bheap r (owner t))) t) r) in
      if (root_path_cost (rootPrio (bheap v b)) \<noteq> 0 \<or> root_path_cost (rootPrio (bheap w b)) \<noteq> 0) \<and>
         memcmp 6 (addr (region_root_bridge (rootPrio (bheap w b))))
           (addr (region_root_bridge (rootPrio (bheap v b)))) \<noteq> 0
      then for_ports (\<lambda>p w. upds (nextMst (pheap w p)) (\<lambda>t. t\<lparr>changedMaster := True\<rparr>) w)
             (ports (bheap v b)) v
      else v)"

lemma updtRolesCist_alt:
  "stp_rolesel_updtRolesCist b w =
     for_ports (updt_role_cist b) (ports (bheap (cist_before_roles b w) b)) (cist_before_roles b w)"
  by (simp add: stp_rolesel_updtRolesCist_def cist_before_roles_def cist_rooted_def cist_start_def Let_def)

lemma for_ports_changedMaster [simp]:
  "bheap (for_ports (\<lambda>p w. upds (nextMst (pheap w p)) (\<lambda>t. t\<lparr>changedMaster := True\<rparr>) w) ps w) = bheap w"
  by (rule for_ports_field) simp

lemma cist_before_roles_stpm:
  "ports (bheap (cist_before_roles b w) b) = ports (bheap w b)"
  "rootPortId (bheap (cist_before_roles b w) b) = bridge_port (rootPrio (bheap (cist_rooted b w) b))"
  "BrId (bheap (cist_before_roles b w) b) = BrId (bheap w b)"
  by (simp_all add: cist_before_roles_def Let_def cist_rooted_def cist_start_def)

text \<open>The fields of a port the roles are decided from.\<close>

definition role_basis :: "PORT_T \<Rightarrow> bool \<times> INFO_IS_T \<times> PORT_ID \<times> PRIO_VECTOR_T" where
  "role_basis t = (admin_non_stp t, infoIs t, port_id t, portPrio t)"

lemma cist_before_roles_port [simp]:
  "role_basis (pheap (cist_before_roles b w) p) = role_basis (pheap w p)"
proof -
  have m: "role_basis (pheap (for_ports (\<lambda>p w. upds (nextMst (pheap w p))
      (\<lambda>t. t\<lparr>changedMaster := True\<rparr>) w) ps v) p) = role_basis (pheap v p)" for ps v
    by (rule for_ports_field [where g = "\<lambda>w. role_basis (pheap w p)"])
      (rule upds_field, simp add: role_basis_def)
  have d: "role_basis (updt_design c s i t) = role_basis t" for c s i t
    by (simp add: updt_design_def role_basis_def Let_def)
  show ?thesis
    by (simp add: cist_before_roles_def Let_def m cist_rooted_def cist_start_def
        upds_field [of role_basis] d)
qed

subsection \<open>Properties\<close>

text \<open>Port identifiers name the ports of an instance, and the receiver of a vector is recorded in it.\<close>

definition instance_ok :: "bref \<Rightarrow> world \<Rightarrow> bool" where
  "instance_ok b w \<longleftrightarrow>
     (let ps = ports (bheap w b) in
      distinct (map (\<lambda>p. port_id (pheap w p)) ps) \<and>
      list_all (\<lambda>p. port_id (pheap w p) \<noteq> 0 \<and>
        (infoIs (pheap w p) = Received \<longrightarrow> bridge_port (portPrio (pheap w p)) = port_id (pheap w p)) \<and>
        (root_candidate b w p \<longrightarrow> vec_ok (root_path_prio b w p))) ps \<and>
      bridge_ok (BrId (bheap w b)))"

definition own_vector :: "BRIDGE_ID \<Rightarrow> PRIO_VECTOR_T" where
  "own_vector i = stp_vector_create i 0 i 0 i 0 0"

lemma own_vector_ok: "bridge_ok i \<Longrightarrow> vec_ok (own_vector i)"
  by (simp add: own_vector_def vec_ok_def stp_vector_create_def)

lemma bridge_port_path [simp]: "bridge_port (root_path_prio b w p) = bridge_port (portPrio (pheap w p))"
  by (simp add: root_path_prio_def Let_def)

lemma root_candidate_basis: "root_candidate b w p \<Longrightarrow> \<not> admin_non_stp (pheap w p) \<and> infoIs (pheap w p) = Received"
  by (simp add: root_candidate_def Let_def)

text \<open>Who gets the role Root, in terms of the winning vector.\<close>

lemma cist_root_role:
  assumes "distinct (ports (bheap w b))" and "p \<in> set (ports (bheap w b))"
  shows "selectedRole (pheap (stp_rolesel_updtRolesCist b w) p) = RootPort \<longleftrightarrow>
    \<not> admin_non_stp (pheap w p) \<and> infoIs (pheap w p) = Received \<and>
    bridge_port (rootPrio (bheap (cist_rooted b w) b)) = port_id (pheap w p)"
proof -
  have "role_basis (pheap (cist_before_roles b w) p) = role_basis (pheap w p)" by simp
  then show ?thesis
    using roles_cist [OF assms, of b "cist_before_roles b w"]
    by (simp add: updtRolesCist_alt cist_before_roles_stpm role_outcome_def role_basis_def
        split: INFO_IS_T.split)
qed

text \<open>C1: role selection on the CIST gives the role Root to exactly the port whose root
  path priority vector is better than the bridge's own vector and at least as good as that of every
  other candidate.\<close>

theorem cist_root_port:
  assumes ok: "instance_ok b w" and p: "p \<in> set (ports (bheap w b))"
  defines "w' \<equiv> stp_rolesel_updtRolesCist b w"
  shows "selectedRole (pheap w' p) = RootPort \<longleftrightarrow>
    root_candidate b w p \<and>
    stp_vector_compare (root_path_prio b w p) (own_vector (BrId (bheap w b))) < 0 \<and>
    (\<forall>q \<in> set (ports (bheap w b)). root_candidate b w q \<longrightarrow>
      stp_vector_compare (root_path_prio b w p) (root_path_prio b w q) \<le> 0)"
proof -
  let ?ps = "ports (bheap w b)" and ?own = "own_vector (BrId (bheap w b))"
  define best where "best = rootPrio (bheap (cist_rooted b w) b)"
  have st: "rootPrio (bheap (cist_start b w) b) = ?own" "ports (bheap (cist_start b w) b) = ?ps"
      "root_candidate b (cist_start b w) q = root_candidate b w q"
      "root_path_prio b (cist_start b w) q = root_path_prio b w q" for q
    by (simp_all add: cist_start_def own_vector_def)
  have ids: "inj_on (\<lambda>p. port_id (pheap w p)) (set ?ps)" and dist: "distinct ?ps"
    and each: "\<And>q. q \<in> set ?ps \<Longrightarrow> port_id (pheap w q) \<noteq> 0"
      "\<And>q. q \<in> set ?ps \<Longrightarrow> root_candidate b w q \<Longrightarrow> vec_ok (root_path_prio b w q)"
      "\<And>q. q \<in> set ?ps \<Longrightarrow> infoIs (pheap w q) = Received \<Longrightarrow>
        bridge_port (portPrio (pheap w q)) = port_id (pheap w q)"
    and own: "vec_ok ?own"
    using ok by (auto simp: instance_ok_def Let_def distinct_map list_all_iff own_vector_ok)
  have best: "vec_ok best" "best = ?own \<or> (\<exists>q \<in> set ?ps. root_candidate b w q \<and> best = root_path_prio b w q)"
      "stp_vector_compare best ?own \<le> 0"
      "\<And>q. q \<in> set ?ps \<Longrightarrow> root_candidate b w q \<Longrightarrow> stp_vector_compare best (root_path_prio b w q) \<le> 0"
    using updtRootPrio_min [of "cist_start b w" b] own each(2)
    unfolding best_def cist_rooted_def st by auto
  have role: "selectedRole (pheap w' p) = RootPort \<longleftrightarrow>
      \<not> admin_non_stp (pheap w p) \<and> infoIs (pheap w p) = Received \<and> bridge_port best = port_id (pheap w p)"
    using cist_root_role [OF dist p] by (simp add: w'_def best_def)
  have zero: "bridge_port ?own = 0" by (simp add: own_vector_def stp_vector_create_def)
  show ?thesis
  proof
    assume "selectedRole (pheap w' p) = RootPort"
    then have r: "bridge_port best = port_id (pheap w p)" using role by simp
    then obtain q where q: "q \<in> set ?ps" "root_candidate b w q" "best = root_path_prio b w q"
      using best(2) zero each(1) [OF p] by auto
    then have "port_id (pheap w q) = port_id (pheap w p)"
      using r each(3) root_candidate_basis by force
    then have "q = p" using ids q p by (auto dest: inj_onD)
    moreover have "best \<noteq> ?own" using r zero each(1) [OF p] by auto
    then have "stp_vector_compare best ?own < 0"
      using best(1,3) own vec.cmp_eq [of best ?own] by linarith
    ultimately show "root_candidate b w p \<and> stp_vector_compare (root_path_prio b w p) ?own < 0 \<and>
        (\<forall>q \<in> set ?ps. root_candidate b w q \<longrightarrow>
          stp_vector_compare (root_path_prio b w p) (root_path_prio b w q) \<le> 0)"
      using q best(4) by auto
  next
    assume win: "root_candidate b w p \<and> stp_vector_compare (root_path_prio b w p) ?own < 0 \<and>
        (\<forall>q \<in> set ?ps. root_candidate b w q \<longrightarrow>
          stp_vector_compare (root_path_prio b w p) (root_path_prio b w q) \<le> 0)"
    then have "stp_vector_compare (root_path_prio b w p) best \<le> 0" using best(2) by auto
    moreover have "stp_vector_compare best (root_path_prio b w p) \<le> 0" using best(4) [OF p] win by blast
    ultimately have "best = root_path_prio b w p"
      using vec.cmp_antisym [of best "root_path_prio b w p"] best(1) each(2) [OF p] win by blast
    then show "selectedRole (pheap w' p) = RootPort"
      using role win each(3) [OF p] root_candidate_basis by auto
  qed
qed


subsection \<open>The machine comes to rest\<close>

text \<open>The MSTI ports chained to the ports of an instance are not ports of that instance.\<close>

definition tree_disjoint :: "bref \<Rightarrow> world \<Rightarrow> bool" where
  "tree_disjoint b w \<longleftrightarrow>
     list_all (\<lambda>p. list_all (\<lambda>q. q \<notin> set (ports (bheap w b))) (nextMst (pheap w p))) (ports (bheap w b))"

lemma updt_role_cist_reselect:
  assumes "q \<notin> set (nextMst (pheap w p))"
  shows "reselect (pheap (updt_role_cist b p w) q) = reselect (pheap w q)"
  using assms by (cases "q = p") (auto simp: updt_role_cist_def Let_def)

lemma updt_role_cist_nextMst [simp]:
  "nextMst (pheap (updt_role_cist b p w) q) = nextMst (pheap w q)"
  by (auto simp: updt_role_cist_def Let_def upds_field [of nextMst])

lemma roles_cist_reselect:
  assumes "\<forall>p \<in> set ps. q \<notin> set (nextMst (pheap w p))"
  shows "reselect (pheap (for_ports (updt_role_cist b) ps w) q) = reselect (pheap w q)"
  using assms by (induction ps arbitrary: w) (auto simp: updt_role_cist_reselect)

lemma cist_before_roles_kept [simp]:
  "nextMst (pheap (cist_before_roles b w) p) = nextMst (pheap w p)"
  "reselect (pheap (cist_before_roles b w) p) = reselect (pheap w p)"
proof -
  define g where "g t = (nextMst t, reselect t)" for t :: PORT_T
  have m: "g (pheap (for_ports (\<lambda>p w. upds (nextMst (pheap w p))
      (\<lambda>t. t\<lparr>changedMaster := True\<rparr>) w) ps v) p) = g (pheap v p)" for ps v
    by (rule for_ports_field [where g = "\<lambda>w. g (pheap w p)"]) (rule upds_field, simp add: g_def)
  have d: "g (updt_design c s i t) = g t" for c s i t
    by (simp add: updt_design_def g_def Let_def)
  have "g (pheap (cist_before_roles b w) p) = g (pheap w p)"
    by (simp add: cist_before_roles_def Let_def m cist_rooted_def cist_start_def upds_field [of g] d)
  then show "nextMst (pheap (cist_before_roles b w) p) = nextMst (pheap w p)"
    and "reselect (pheap (cist_before_roles b w) p) = reselect (pheap w p)"
    by (simp_all add: g_def)
qed

lemma updtRolesCist_kept:
  "ports (bheap (stp_rolesel_updtRolesCist b w) b) = ports (bheap w b)"
  "nextMst (pheap (stp_rolesel_updtRolesCist b w) p) = nextMst (pheap w p)"
  "\<forall>p \<in> set (ports (bheap w b)). q \<notin> set (nextMst (pheap w p)) \<Longrightarrow>
     reselect (pheap (stp_rolesel_updtRolesCist b w) q) = reselect (pheap w q)"
  "rolesel (bheap (stp_rolesel_updtRolesCist b w) b) = rolesel (bheap w b)"
  "br_vlan_id (bheap (stp_rolesel_updtRolesCist b w) b) = br_vlan_id (bheap w b)"
proof -
  have b: "bheap (for_ports (updt_role_cist b) ps v) = bheap v" for ps v
    by (rule for_ports_field) simp
  show "ports (bheap (stp_rolesel_updtRolesCist b w) b) = ports (bheap w b)"
    by (simp add: updtRolesCist_alt b cist_before_roles_stpm)
  show "rolesel (bheap (stp_rolesel_updtRolesCist b w) b) = rolesel (bheap w b)"
    and "br_vlan_id (bheap (stp_rolesel_updtRolesCist b w) b) = br_vlan_id (bheap w b)"
    by (simp_all add: updtRolesCist_alt b cist_before_roles_def Let_def cist_rooted_def cist_start_def)
  show "nextMst (pheap (stp_rolesel_updtRolesCist b w) p) = nextMst (pheap w p)"
    unfolding updtRolesCist_alt
    by (subst for_ports_field [where g = "\<lambda>v. nextMst (pheap v p)"]) simp_all
  show "\<forall>p \<in> set (ports (bheap w b)). q \<notin> set (nextMst (pheap w p)) \<Longrightarrow>
     reselect (pheap (stp_rolesel_updtRolesCist b w) q) = reselect (pheap w q)"
    by (simp add: updtRolesCist_alt roles_cist_reselect cist_before_roles_stpm)
qed

lemma updt_roles_msti_kept [simp]:
  "bheap (updt_roles_msti b ps w) = bheap w"
  "reselect (pheap (updt_roles_msti b ps w) q) = reselect (pheap w q)"
  "nextMst (pheap (updt_roles_msti b ps w) q) = nextMst (pheap w q)"
proof -
  have r: "reselect (updt_role_msti s c t) = reselect t" "nextMst (updt_role_msti s c t) = nextMst t" for s c t
    by (simp_all add: updt_role_msti_def Let_def)
  show "bheap (updt_roles_msti b ps w) = bheap w"
    by (induction ps arbitrary: w) (auto split: option.split)
  show "reselect (pheap (updt_roles_msti b ps w) q) = reselect (pheap w q)"
    and "nextMst (pheap (updt_roles_msti b ps w) q) = nextMst (pheap w q)"
    by (induction ps arbitrary: w) (auto simp: r split: option.split)
qed

lemma updtRolesMsti_kept:
  "ports (bheap (stp_rolesel_updtRolesMsti b w) b) = ports (bheap w b)"
  "nextMst (pheap (stp_rolesel_updtRolesMsti b w) q) = nextMst (pheap w q)"
  "reselect (pheap (stp_rolesel_updtRolesMsti b w) q) = reselect (pheap w q)"
  "rolesel (bheap (stp_rolesel_updtRolesMsti b w) b) = rolesel (bheap w b)"
  "br_vlan_id (bheap (stp_rolesel_updtRolesMsti b w) b) = br_vlan_id (bheap w b)"
  by (simp_all add: stp_rolesel_updtRolesMsti_def Let_def upds_field [of nextMst] upds_field [of reselect]
      updt_design_def)

lemma enter_receive_kept:
  assumes "State (rolesel (bheap w b)) = RS_RECEIVE"
  shows "ports (bheap (MSTP_rolesel_enter_state b w) b) = ports (bheap w b)"
    and "rolesel (bheap (MSTP_rolesel_enter_state b w) b) = rolesel (bheap w b)"
    and "nextMst (pheap (MSTP_rolesel_enter_state b w) q) = nextMst (pheap w q)"
  using assms
  by (simp_all add: MSTP_rolesel_enter_state_def stp_rolesel_setSelectedTree_def
      stp_rolesel_updtRolesXst_def updtRolesCist_kept updtRolesMsti_kept
      stp_rolesel_clearReselectTree_def upds_field [of nextMst])

text \<open>After a round in state \<open>RECEIVE\<close> every port of the instance has its role selected and no port asks
  for another selection.\<close>

lemma enter_receive_selects:
  assumes d: "tree_disjoint b w" and st: "State (rolesel (bheap w b)) = RS_RECEIVE"
    and p: "p \<in> set (ports (bheap w b))"
  shows "selected (pheap (MSTP_rolesel_enter_state b w) p)" and "\<not> reselect (pheap (MSTP_rolesel_enter_state b w) p)"
proof -
  let ?c = "stp_rolesel_clearReselectTree b w" and ?ps = "ports (bheap w b)"
  let ?x = "stp_rolesel_updtRolesXst b ?c"
  have c: "bheap ?c = bheap w" "nextMst (pheap ?c q) = nextMst (pheap w q)" for q
    by (simp_all add: stp_rolesel_clearReselectTree_def upds_field [of nextMst])
  have nr: "\<not> reselect (pheap ?c q)" if "q \<in> set ?ps" for q
    using that by (simp add: stp_rolesel_clearReselectTree_def pheap_upds_idem)
  have x: "ports (bheap ?x b) = ?ps" "rolesel (bheap ?x b) = rolesel (bheap w b)"
      "nextMst (pheap ?x q) = nextMst (pheap w q)" for q
    by (simp_all add: stp_rolesel_updtRolesXst_def updtRolesCist_kept updtRolesMsti_kept c)
  have xr: "\<not> reselect (pheap ?x q)" if "q \<in> set ?ps" for q
  proof -
    have "\<forall>p \<in> set (ports (bheap ?c b)). q \<notin> set (nextMst (pheap ?c p))"
      using that d by (auto simp: c tree_disjoint_def list_all_iff)
    then show ?thesis
      using nr [OF that] updtRolesCist_kept(3) [of ?c b q]
      by (simp add: stp_rolesel_updtRolesXst_def updtRolesMsti_kept)
  qed
  have e: "MSTP_rolesel_enter_state b w = upds ?ps (\<lambda>t. t\<lparr>selected := True\<rparr>) ?x"
    using st xr by (simp add: MSTP_rolesel_enter_state_def stp_rolesel_setSelectedTree_def x list_ex_iff)
  show "selected (pheap (MSTP_rolesel_enter_state b w) p)" "\<not> reselect (pheap (MSTP_rolesel_enter_state b w) p)"
    using p xr [OF p] by (simp_all add: e pheap_upds_idem)
qed

definition rolesel_rank :: "bref \<Rightarrow> world \<Rightarrow> nat" where
  "rolesel_rank b w = (case State (rolesel (bheap w b)) of RS_BEGIN \<Rightarrow> 2 | INIT_BRIDGE \<Rightarrow> 1 | RS_RECEIVE \<Rightarrow> 0)"

lemma rolesel_changing [simp]:
  "get_changeState (rolesel_machine b) w = changeState (rolesel (bheap w b))"
  by (simp add: rolesel_machine_def bridge_machine_def)

lemma rolesel_enter_kept:
  assumes "tree_disjoint b w"
  shows "ports (bheap (MSTP_rolesel_enter_state b w) b) = ports (bheap w b)"
    and "rolesel (bheap (MSTP_rolesel_enter_state b w) b) = rolesel (bheap w b)"
    and "p \<in> set (ports (bheap w b)) \<Longrightarrow> nextMst (pheap (MSTP_rolesel_enter_state b w) p) = nextMst (pheap w p)"
  using enter_receive_kept [of w b]
  by (cases "State (rolesel (bheap w b))"; simp add: MSTP_rolesel_enter_state_def
      stp_rolesel_updtRoleDisableTree_def upds_field [of nextMst])+

lemmas rolesel_defs = rolesel_machine_def bridge_machine_def hopb_def statmch_step_def
  stp_statmch_check_condition_def MSTP_rolesel_check_conditions_def Let_def split_beta

interpretation rs: progressing_machine "rolesel_machine b" "tree_disjoint b" "rolesel_rank b" for b
proof
  fix w
  assume d: "tree_disjoint b w"
  note k = rolesel_enter_kept [OF d]
  show "tree_disjoint b (statmch_step (rolesel_machine b) w)"
    using d k by (cases "State (rolesel (bheap w b))")
      (auto simp: tree_disjoint_def list_all_iff rolesel_defs)
  assume again: "get_changeState (rolesel_machine b) (statmch_step (rolesel_machine b) w)"
  show "rolesel_rank b (statmch_step (rolesel_machine b) w) < rolesel_rank b w"
    using again k enter_receive_selects(2) [OF d]
    by (cases "State (rolesel (bheap w b))")
      (auto simp: rolesel_defs rolesel_rank_def list_ex_iff split: if_splits)
qed

text \<open>C13: a pending role selection machine returns after at most three rounds in state
  \<open>RECEIVE\<close>; then every port of the instance has a selected role and none asks for reselection.\<close>

theorem rolesel_settles:
  assumes d: "tree_disjoint b w" and pending: "changeState (rolesel (bheap w b))"
  shows "\<exists>w' n. stp_statmch_change_state (rolesel_machine b) 0 w = Some (w', n) \<and> n \<le> 3 \<and>
    State (rolesel (bheap w' b)) = RS_RECEIVE \<and> ports (bheap w' b) = ports (bheap w b) \<and>
    (\<forall>p \<in> set (ports (bheap w b)). selected (pheap w' p) \<and> \<not> reselect (pheap w' p))"
proof -
  let ?I = "\<lambda>v. ports (bheap v b) = ports (bheap w b)"
  let ?S = "\<lambda>v. State (rolesel (bheap v b)) = RS_RECEIVE \<and>
    (\<forall>p \<in> set (ports (bheap w b)). selected (pheap v p) \<and> \<not> reselect (pheap v p))"
  have "?I (statmch_step (rolesel_machine b) v)" if "tree_disjoint b v" "?I v" for v
    using that rolesel_enter_kept [OF that(1)]
    by (cases "State (rolesel (bheap v b))") (simp_all add: rolesel_defs)
  moreover have "?S (statmch_step (rolesel_machine b) v)"
    if "tree_disjoint b v" "?I v" "\<not> get_changeState (rolesel_machine b) (statmch_step (rolesel_machine b) v)" for v
    using that rolesel_enter_kept [OF that(1)] enter_receive_selects [OF that(1)]
    by (cases "State (rolesel (bheap v b))") (auto simp: rolesel_defs split: if_splits)
  ultimately have "\<exists>w' n. stp_statmch_change_state (rolesel_machine b) 0 w = Some (w', n) \<and> tree_disjoint b w' \<and>
      ?I w' \<and> ?S w' \<and> \<not> get_changeState (rolesel_machine b) w' \<and> n \<le> 0 + rolesel_rank b w + 1"
    using d pending by (intro rs.change_state_settles [of b w ?I ?S]) simp_all
  moreover have "rolesel_rank b w \<le> 2" by (simp add: rolesel_rank_def split: rolesel_state.split)
  ultimately show ?thesis by (fastforce intro: order_trans)
qed

end
