(* ===== verification/StpPortinfo.thy ===== *)
theory StpPortinfo
  imports StpRoletrns
begin

text \<open>
  The Port Information machine (\<open>stp_portinfo.c\<close>): classification of a received message, the
  recording of its agreement, proposal and master flags, the ageing of received information.
  The entry of a BPDU (\<open>stp_portinfo_rx_bpdu\<close>) is with the receive machine.
\<close>

subsection \<open>Received times\<close>

text \<open>\<open>eff_age\<close>: the increment of the message age, at least one second.\<close>

definition age_increment :: "u16 \<Rightarrow> nat" where
  "age_increment max_age = max 1 ((8 + unat max_age) div 16)"

definition stp_portinfo_updt_recvmsg_timer :: "PORT_T \<Rightarrow> world \<Rightarrow> TIMEVALUES_T" where
  "stp_portinfo_updt_recvmsg_timer port w =
     (let v = msgTimes port in
      if p_vlan_id port = STP_CIST_ID
      then (if \<not> rcvdInternal port
            then v\<lparr>MessageAge := of_nat (age_increment (MaxAge (portTimes port)) + unat (MessageAge (msgTimes port))),
                   RemainingHops := RemainingHops (BrTimes (bheap w (owner port)))\<rparr>
            else v\<lparr>MessageAge := MessageAge (msgTimes port),
                   RemainingHops := RemainingHops (msgTimes port) - 1\<rparr>)
      else v\<lparr>RemainingHops := RemainingHops (msgTimes port) - 1\<rparr>)"

subsection \<open>Classification of a message\<close>

definition msg_port_role :: "PORT_T \<Rightarrow> u8" where
  "msg_port_role port =
     (if msgBpduType port = BPDU_RSTP then drop_bit PORT_ROLE_OFFS (msgFlags port AND PORT_ROLE_MASK)
      else RSTP_PORT_ROLE_UNKN)"

text \<open>The result and the port with \<open>msgPortRole\<close> set. The CIST and the MSTI version differ in the
  treatment of Config BPDUs only.\<close>

definition rcvinfo :: "bool \<Rightarrow> PORT_T \<Rightarrow> world \<Rightarrow> RCVD_MSG_T \<times> PORT_T" where
  "rcvinfo cist port w =
     (if msgBpduType port = BPDU_TOPO_CHANGE_TYPE then (OtherMsg, port)
      else
        let port = port\<lparr>msgPortRole := msg_port_role port\<rparr>;
            bridcmp = stp_vector_compare (msgPrio port) (portPrio port);
            timecmp = stp_times_compare (stp_portinfo_updt_recvmsg_timer port w) (portTimes port);
            designated = (msgPortRole port = RSTP_PORT_ROLE_DESGN \<or> cist \<and> msgBpduType port = BPDU_CONFIG_TYPE) in
        if designated \<and>
           (bridcmp < 0 \<or>
            stp_vector_compare_bridge_id (design_bridge (msgPrio port)) (design_bridge (portPrio port)) = 0 \<and>
            design_port (msgPrio port) = design_port (portPrio port) \<and> timecmp \<noteq> 0)
        then (SuperiorDesignateMsg, port)
        else if designated \<and> bridcmp = 0 \<and> timecmp = 0 then (RepeatedDesignateMsg, port)
        else if msgPortRole port = RSTP_PORT_ROLE_ROOT \<and> bridcmp \<ge> 0 then (ConfirmedRootMsg, port)
        else (OtherMsg, port))"

definition stp_portinfo_cist_rcvinfo :: "PORT_T \<Rightarrow> world \<Rightarrow> RCVD_MSG_T \<times> PORT_T" where
  "stp_portinfo_cist_rcvinfo = rcvinfo True"

definition stp_portinfo_msti_rcvinfo :: "PORT_T \<Rightarrow> world \<Rightarrow> RCVD_MSG_T \<times> PORT_T" where
  "stp_portinfo_msti_rcvinfo = rcvinfo False"

definition stp_portinfo_xst_rcvinfo :: "PORT_T \<Rightarrow> world \<Rightarrow> RCVD_MSG_T \<times> PORT_T" where
  "stp_portinfo_xst_rcvinfo port w =
     (if p_vlan_id port = STP_CIST_ID then stp_portinfo_cist_rcvinfo port w
      else stp_portinfo_msti_rcvinfo port w)"

subsection \<open>Recording the flags of a message\<close>

definition stp_portinfo_record_masteredcist :: "pref \<Rightarrow> world \<Rightarrow> world" where
  "stp_portinfo_record_masteredcist p w =
     (if \<not> rcvdInternal (pheap w p)
      then upds (nextMst (pheap w p)) (\<lambda>t. t\<lparr>mstiMastered := False\<rparr>) w else w)"

definition stp_portinfo_record_masteredmsti :: "pref \<Rightarrow> world \<Rightarrow> world" where
  "stp_portinfo_record_masteredmsti p w =
     upd p (\<lambda>t. t\<lparr>mstiMastered := operPointToPointMac t \<and> msgFlags t AND MASTER_BIT \<noteq> 0\<rparr>) w"

definition stp_portinfo_record_masteredxst :: "pref \<Rightarrow> world \<Rightarrow> world" where
  "stp_portinfo_record_masteredxst p w =
     (if p_vlan_id (pheap w p) = STP_CIST_ID then stp_portinfo_record_masteredcist p w
      else stp_portinfo_record_masteredmsti p w)"

definition stp_portinfo_record_proposalcist :: "pref \<Rightarrow> world \<Rightarrow> world" where
  "stp_portinfo_record_proposalcist p w =
     (let w = upd p (\<lambda>t. t\<lparr>proposed := msgPortRole t = RSTP_PORT_ROLE_DESGN \<and>
                              PROPOSAL_BIT AND msgFlags t \<noteq> 0 \<and> operPointToPointMac t\<rparr>) w in
      if \<not> rcvdInternal (pheap w p)
      then upds (nextMst (pheap w p)) (\<lambda>t. t\<lparr>proposed := proposed (pheap w p)\<rparr>) w else w)"

definition stp_portinfo_record_proposalmsti :: "pref \<Rightarrow> world \<Rightarrow> world" where
  "stp_portinfo_record_proposalmsti p w =
     upd p (\<lambda>t. t\<lparr>proposed := PROPOSAL_BIT AND msgFlags t \<noteq> 0 \<and> operPointToPointMac t\<rparr>) w"

definition stp_portinfo_record_proposalxst :: "pref \<Rightarrow> world \<Rightarrow> world" where
  "stp_portinfo_record_proposalxst p w =
     (if p_vlan_id (pheap w p) = STP_CIST_ID then stp_portinfo_record_proposalcist p w
      else stp_portinfo_record_proposalmsti p w)"

definition stp_portinfo_xstinfo_check :: "PORT_T \<Rightarrow> bool" where
  "stp_portinfo_xstinfo_check port \<longleftrightarrow> stp_vector_compare (msgPrio port) (portPrio port) \<le> 0"

text \<open>The condition of both agreement procedures. The source stores the truth value of the
  comparison in \<open>bridcmp\<close> and then tests that number against zero again.\<close>

definition agreement_test :: "PORT_T \<Rightarrow> bool" where
  "agreement_test port \<longleftrightarrow>
     (let bridcmp = (if stp_vector_compare (msgPrio port) (portPrio port) \<le> 0 then 1 else 0 :: int) in
      push_bit PORT_ROLE_OFFS RSTP_PORT_ROLE_ROOT AND msgFlags port \<noteq> 0 \<and> bridcmp \<le> 0 \<or>
      push_bit PORT_ROLE_OFFS RSTP_PORT_ROLE_DESGN AND msgFlags port \<noteq> 0 \<and> bridcmp \<ge> 0)"

definition stp_portinfo_record_agreementcist :: "pref \<Rightarrow> world \<Rightarrow> world" where
  "stp_portinfo_record_agreementcist p w =
     (let w = upd p (\<lambda>t. t\<lparr>agreed := AGREEMENT_BIT AND msgFlags t \<noteq> 0 \<and> operPointToPointMac t \<and> agreement_test t\<rparr>) w in
      if \<not> rcvdInternal (pheap w p)
      then upds (nextMst (pheap w p)) (\<lambda>t. t\<lparr>agreed := agreed (pheap w p)\<rparr>) w else w)"

definition stp_portinfo_record_agreementmsti :: "pref \<Rightarrow> world \<Rightarrow> world" where
  "stp_portinfo_record_agreementmsti p w =
     (case stp_port_mst_findport STP_CIST_ID (port_index (pheap w p)) w of
        None \<Rightarrow> w
      | Some c \<Rightarrow>
          let bridcmp = stp_vector_compare (msgPrio (pheap w c)) (portPrio (pheap w c)) in
          upd p (\<lambda>t. t\<lparr>agreed := (bridcmp = 0 \<or> bridcmp < - 4 \<or> bridcmp > 4) \<and>
            AGREEMENT_BIT AND msgFlags t \<noteq> 0 \<and> operPointToPointMac t \<and> agreement_test t\<rparr>) w)"

definition stp_portinfo_record_agreementxst :: "pref \<Rightarrow> world \<Rightarrow> world" where
  "stp_portinfo_record_agreementxst p w =
     (if p_vlan_id (pheap w p) = STP_CIST_ID then stp_portinfo_record_agreementcist p w
      else stp_portinfo_record_agreementmsti p w)"

subsection \<open>Conditions over the CIST port\<close>

definition stp_portinfo_rcvd_xstinfo :: "pref \<Rightarrow> world \<Rightarrow> bool" where
  "stp_portinfo_rcvd_xstinfo p w =
     (if p_vlan_id (pheap w p) = STP_CIST_ID then rcvdMsg (pheap w p)
      else case stp_port_mst_findport STP_CIST_ID (port_index (pheap w p)) w of
        None \<Rightarrow> False
      | Some c \<Rightarrow> \<not> rcvdMsg (pheap w c) \<and> rcvdMsg (pheap w p))"

definition stp_portinfo_updt_xstinfo :: "pref \<Rightarrow> world \<Rightarrow> bool" where
  "stp_portinfo_updt_xstinfo p w =
     (if p_vlan_id (pheap w p) = STP_CIST_ID then updtInfo (pheap w p)
      else updtInfo (pheap w p) \<or>
        (case stp_port_mst_findport STP_CIST_ID (port_index (pheap w p)) w of
           None \<Rightarrow> False
         | Some c \<Rightarrow> updtInfo (pheap w c) \<or> reselect (pheap w c)))"

subsection \<open>Ageing\<close>

definition stp_portinfo_updtRcvdInfoWhileCist :: "pref \<Rightarrow> world \<Rightarrow> world" where
  "stp_portinfo_updtRcvdInfoWhileCist p w =
     upd p (\<lambda>port.
       if \<not> rcvdInternal port
       then let eff_age = age_increment (MaxAge (portTimes port)) + unat (MessageAge (msgTimes port));
                max_age = unat (MaxAge (portTimes port));
                hello3 = 3 * unat (HelloTime (portTimes port));
                port = port\<lparr>rcvdInfoWhile := (if eff_age \<le> max_age then of_nat (min (max_age - eff_age) hello3) else 0)\<rparr> in
            port\<lparr>portTimes := (portTimes port)\<lparr>MessageAge := of_nat eff_age,
                   RemainingHops := RemainingHops (BrTimes (bheap w (owner port)))\<rparr>\<rparr>
       else let port = port\<lparr>portTimes := (portTimes port)\<lparr>MessageAge := MessageAge (msgTimes port),
                   RemainingHops := RemainingHops (msgTimes port) - 1\<rparr>\<rparr> in
            port\<lparr>rcvdInfoWhile :=
              (if MessageAge (portTimes port) > MaxAge (portTimes port) \<or> RemainingHops (portTimes port) \<le> 0
               then 0 else 3 * ucast (HelloTime (portTimes port)))\<rparr>) w"

definition stp_portinfo_updtRcvdInfoWhileMsti :: "pref \<Rightarrow> world \<Rightarrow> world" where
  "stp_portinfo_updtRcvdInfoWhileMsti p w =
     (let w = upd p (\<lambda>t. t\<lparr>portTimes := (portTimes t)\<lparr>RemainingHops := RemainingHops (msgTimes t) - 1\<rparr>\<rparr>) w in
      if RemainingHops (portTimes (pheap w p)) \<le> 0 then upd p (\<lambda>t. t\<lparr>rcvdInfoWhile := 0\<rparr>) w
      else case stp_port_mst_findport STP_CIST_ID (port_index (pheap w p)) w of
        Some c \<Rightarrow> upd p (\<lambda>t. t\<lparr>rcvdInfoWhile := 3 * ucast (HelloTime (portTimes (pheap w c)))\<rparr>) w
      | None \<Rightarrow> upd p (\<lambda>t. t\<lparr>rcvdInfoWhile := 3 * ucast DEF_BR_HELLOT\<rparr>) w)"

definition stp_portinfo_updtRcvdInfoWhileXst :: "pref \<Rightarrow> world \<Rightarrow> world" where
  "stp_portinfo_updtRcvdInfoWhileXst p w =
     (if p_vlan_id (pheap w p) = STP_CIST_ID then stp_portinfo_updtRcvdInfoWhileCist p w
      else stp_portinfo_updtRcvdInfoWhileMsti p w)"

subsection \<open>The machine\<close>

definition info_disable :: "PORT_T \<Rightarrow> PORT_T" where
  "info_disable t = t\<lparr>rcvdMsg := False, agreed := False, agree := False, proposed := False,
     proposing := False, rcvdInfoWhile := 0, infoIs := Disabled, updtInfo := False,
     reselect := True, selected := False\<rparr>"

definition info_update_port :: "PORT_T \<Rightarrow> PORT_T" where
  "info_update_port t =
     (let t = t\<lparr>proposed := False, proposing := False, synced := False, sync := changedMaster t\<rparr>;
          t = t\<lparr>agreed := agreed t \<and> stp_portinfo_xstinfo_check t \<and> \<not> changedMaster t\<rparr>;
          t = t\<lparr>portPrio := designPrio t, portTimes := stp_times_copy (designTimes t)\<rparr> in
      t\<lparr>updtInfo := False, changedMaster := False, infoIs := Mine, newInfo := True\<rparr>)"

definition info_superior :: "pref \<Rightarrow> world \<Rightarrow> world" where
  "info_superior p w =
     (let w = upd p (\<lambda>t. t\<lparr>infoInternal := rcvdInternal t, proposing := False\<rparr>) w;
          w = stp_portinfo_record_proposalxst p w;
          w = upd p (\<lambda>t. t\<lparr>agree := agree t \<and> stp_portinfo_xstinfo_check t\<rparr>) w;
          w = stp_portinfo_record_agreementxst p w;
          w = upd p (\<lambda>t. t\<lparr>synced := synced t \<and> agreed t\<rparr>) w;
          w = upd p (\<lambda>t. t\<lparr>portPrio := msgPrio t, portTimes := stp_times_copy (msgTimes t)\<rparr>) w;
          w = stp_portinfo_updtRcvdInfoWhileXst p w in
      upd p (\<lambda>t. t\<lparr>infoIs := Received, reselect := True, selected := False, rcvdMsg := False\<rparr>) w)"

definition info_repeated :: "pref \<Rightarrow> world \<Rightarrow> world" where
  "info_repeated p w =
     (let w = upd p (\<lambda>t. t\<lparr>infoInternal := rcvdInternal t\<rparr>) w;
          w = stp_portinfo_record_proposalxst p w;
          w = stp_portinfo_record_agreementxst p w;
          w = stp_portinfo_updtRcvdInfoWhileXst p w in
      upd p (\<lambda>t. t\<lparr>rcvdMsg := False\<rparr>) w)"

definition MSTP_info_enter_state :: "pref \<Rightarrow> world \<Rightarrow> world" where
  "MSTP_info_enter_state p w =
     (case State (info (pheap w p)) of
        INFO_BEGIN \<Rightarrow>
          upd p (\<lambda>t. info_disable (t\<lparr>rcvdMsg := False, msgBpduType := - 1, msgPortRole := RSTP_PORT_ROLE_UNKN,
            msgFlags := 0, rx_tcn_bpdu_cnt := 0, rx_rstp_bpdu_cnt := 0, rx_cfg_bpdu_cnt := 0\<rparr>)) w
      | INFO_DISABLED \<Rightarrow> upd p info_disable w
      | INFO_ENABLED \<Rightarrow>
          upd p (\<lambda>t. t\<lparr>portPrio := designPrio t, portTimes := stp_times_copy (designTimes t)\<rparr>) w
      | AGED \<Rightarrow> upd p (\<lambda>t. t\<lparr>infoIs := Aged, reselect := True, selected := False\<rparr>) w
      | UPDATE \<Rightarrow> stp_roletrns_setnewinfoXst p (upd p info_update_port w)
      | CURRENT \<Rightarrow> w
      | INFO_RECEIVE \<Rightarrow>
          (let (r, t) = stp_portinfo_xst_rcvinfo (pheap w p) w in
           stp_portinfo_record_masteredxst p (upd p (\<lambda>_. t\<lparr>rcvdInfo := r\<rparr>) w))
      | SUPERIOR_DESIGNATED \<Rightarrow> info_superior p w
      | REPEATED_DESIGNATED \<Rightarrow> info_repeated p w
      | INFO_ROOT \<Rightarrow> upd p (\<lambda>t. t\<lparr>rcvdMsg := False\<rparr>) (stp_portinfo_record_agreementxst p w)
      | INFO_OTHER \<Rightarrow> upd p (\<lambda>t. t\<lparr>rcvdMsg := False\<rparr>) w)"

definition MSTP_info_check_conditions :: "pref \<Rightarrow> world \<Rightarrow> world \<times> bool" where
  "MSTP_info_check_conditions p w =
     (let port = pheap w p; hop_2_state = hop info_update p in
      if (\<not> portEnabled port \<and> infoIs port \<noteq> Disabled) \<or> State (info port) = INFO_BEGIN
      then hop_2_state INFO_DISABLED w
      else case State (info port) of
        INFO_BEGIN \<Rightarrow> hop_2_state INFO_DISABLED w
      | INFO_DISABLED \<Rightarrow>
          if portEnabled port then hop_2_state AGED w
          else if rcvdMsg port then hop_2_state INFO_DISABLED w
          else if updtInfo port then hop_2_state INFO_DISABLED w
          else (w, False)
      | INFO_ENABLED \<Rightarrow> hop_2_state AGED w
      | AGED \<Rightarrow> if selected port \<and> updtInfo port then hop_2_state UPDATE w else (w, False)
      | UPDATE \<Rightarrow> hop_2_state CURRENT w
      | CURRENT \<Rightarrow>
          if selected port \<and> updtInfo port then hop_2_state UPDATE w
          else if infoIs port = Received \<and> rcvdInfoWhile port = 0 \<and> \<not> updtInfo port \<and>
                  \<not> stp_portinfo_rcvd_xstinfo p w
            then hop_2_state AGED w
          else if rcvdMsg port \<and> \<not> stp_portinfo_updt_xstinfo p w then hop_2_state INFO_RECEIVE w
          else (w, False)
      | INFO_RECEIVE \<Rightarrow>
          (case rcvdInfo port of
             SuperiorDesignateMsg \<Rightarrow> hop_2_state SUPERIOR_DESIGNATED w
           | RepeatedDesignateMsg \<Rightarrow> hop_2_state REPEATED_DESIGNATED w
           | ConfirmedRootMsg \<Rightarrow> hop_2_state INFO_ROOT w
           | OtherMsg \<Rightarrow> hop_2_state INFO_OTHER w)
      | SUPERIOR_DESIGNATED \<Rightarrow> hop_2_state CURRENT w
      | REPEATED_DESIGNATED \<Rightarrow> hop_2_state CURRENT w
      | INFO_ROOT \<Rightarrow> hop_2_state CURRENT w
      | INFO_OTHER \<Rightarrow> hop_2_state CURRENT w)"

definition info_machine :: "pref \<Rightarrow> world machine_ops" where
  "info_machine =
     port_machine info info_update INFO_BEGIN MSTP_info_enter_state MSTP_info_check_conditions"

lemma info_changing [simp]: "get_changeState (info_machine p) w = changeState (info (pheap w p))"
  by (simp add: info_machine_def port_machine_def)

subsection \<open>The machine comes to rest\<close>

text \<open>What the transitions depend on.\<close>

definition info_view :: "PORT_T \<Rightarrow> bool \<times> bool \<times> bool \<times> bool \<times> info_state STATE_MACH_T" where
  "info_view t = (portEnabled t, rcvdMsg t, selected t, updtInfo t, info t)"

lemma info_view_indep [simp]:
  "info_view (proposed_update f t) = info_view t" "info_view (agreed_update f t) = info_view t"
  "info_view (mstiMastered_update f t) = info_view t" "info_view (portTimes_update g t) = info_view t"
  "info_view (rcvdInfoWhile_update h t) = info_view t" "info_view (newInfoCist_update f t) = info_view t"
  "info_view (newInfoMsti_update f t) = info_view t" "info_view (agree_update f t) = info_view t"
  "info_view (synced_update f t) = info_view t" "info_view (proposing_update f t) = info_view t"
  "info_view (infoInternal_update f t) = info_view t" "info_view (portPrio_update k t) = info_view t"
  by (simp_all add: info_view_def)

lemma record_frame [simp]:
  "info_view (pheap (stp_portinfo_record_proposalxst p w) q) = info_view (pheap w q)"
  "info_view (pheap (stp_portinfo_record_agreementxst p w) q) = info_view (pheap w q)"
  "info_view (pheap (stp_portinfo_record_masteredxst p w) q) = info_view (pheap w q)"
  "info_view (pheap (stp_portinfo_updtRcvdInfoWhileXst p w) q) = info_view (pheap w q)"
  "info_view (pheap (stp_roletrns_setnewinfoXst p w) q) = info_view (pheap w q)"
proof -
  note u = upds_field [of info_view]
  show "info_view (pheap (stp_portinfo_record_proposalxst p w) q) = info_view (pheap w q)"
    by (simp add: stp_portinfo_record_proposalxst_def stp_portinfo_record_proposalcist_def Let_def
        stp_portinfo_record_proposalmsti_def u)
  show "info_view (pheap (stp_portinfo_record_agreementxst p w) q) = info_view (pheap w q)"
    by (simp add: stp_portinfo_record_agreementxst_def stp_portinfo_record_agreementcist_def Let_def
        stp_portinfo_record_agreementmsti_def u split: option.split)
  show "info_view (pheap (stp_portinfo_record_masteredxst p w) q) = info_view (pheap w q)"
    by (simp add: stp_portinfo_record_masteredxst_def stp_portinfo_record_masteredcist_def
        stp_portinfo_record_masteredmsti_def u)
  show "info_view (pheap (stp_portinfo_updtRcvdInfoWhileXst p w) q) = info_view (pheap w q)"
    by (simp add: stp_portinfo_updtRcvdInfoWhileXst_def stp_portinfo_updtRcvdInfoWhileCist_def Let_def
        stp_portinfo_updtRcvdInfoWhileMsti_def split: option.split)
  show "info_view (pheap (stp_roletrns_setnewinfoXst p w) q) = info_view (pheap w q)"
    by (rule setnewinfoXst_field) simp_all
qed

text \<open>State entry on the view: which flags each state clears.\<close>

definition info_effect :: "PORT_T \<Rightarrow> bool \<times> bool \<times> bool \<times> bool \<times> info_state STATE_MACH_T" where
  "info_effect t =
     (let s = State (info t) in
      (portEnabled t,
       rcvdMsg t \<and> s \<notin> {INFO_BEGIN, INFO_DISABLED, SUPERIOR_DESIGNATED, REPEATED_DESIGNATED, INFO_ROOT, INFO_OTHER},
       selected t \<and> s \<notin> {INFO_BEGIN, INFO_DISABLED, AGED, SUPERIOR_DESIGNATED},
       updtInfo t \<and> s \<notin> {INFO_BEGIN, INFO_DISABLED, UPDATE},
       info t))"

lemma rcvinfo_view: "info_view (snd (stp_portinfo_xst_rcvinfo t w)) = info_view t"
  by (simp add: stp_portinfo_xst_rcvinfo_def stp_portinfo_cist_rcvinfo_def stp_portinfo_msti_rcvinfo_def
      rcvinfo_def Let_def info_view_def)

lemma info_view_enter:
  "info_view (pheap (MSTP_info_enter_state p w) p) = info_effect (pheap w p)"
proof -
  show ?thesis
  proof (cases "State (info (pheap w p))")
    case SUPERIOR_DESIGNATED
    have "info_view (t\<lparr>infoIs := Received, reselect := True, selected := False, rcvdMsg := False\<rparr>) =
        (fst (info_view t), False, False, fst (snd (snd (snd (info_view t)))), snd (snd (snd (snd (info_view t)))))" for t
      by (simp add: info_view_def)
    then show ?thesis using SUPERIOR_DESIGNATED
      by (simp add: MSTP_info_enter_state_def info_superior_def Let_def info_effect_def) (simp add: info_view_def)
  next
    case REPEATED_DESIGNATED
    have "info_view (t\<lparr>rcvdMsg := False\<rparr>) =
        (fst (info_view t), False, snd (snd (info_view t)))" for t
      by (simp add: info_view_def)
    then show ?thesis using REPEATED_DESIGNATED
      by (simp add: MSTP_info_enter_state_def info_repeated_def Let_def info_effect_def) (simp add: info_view_def)
  next
    case INFO_ROOT
    have "info_view (t\<lparr>rcvdMsg := False\<rparr>) =
        (fst (info_view t), False, snd (snd (info_view t)))" for t
      by (simp add: info_view_def)
    then show ?thesis using INFO_ROOT
      by (simp add: MSTP_info_enter_state_def Let_def info_effect_def) (simp add: info_view_def)
  next
    case INFO_RECEIVE
    have "info_view (t\<lparr>rcvdInfo := r\<rparr>) = info_view t" for t r by (simp add: info_view_def)
    then show ?thesis using INFO_RECEIVE rcvinfo_view [of "pheap w p" w]
      by (simp add: MSTP_info_enter_state_def split_beta info_effect_def Let_def) (simp add: info_view_def)
  next
    case UPDATE
    then show ?thesis
      by (simp add: MSTP_info_enter_state_def info_effect_def info_update_port_def Let_def)
        (simp add: info_view_def)
  qed (simp_all add: MSTP_info_enter_state_def info_effect_def info_view_def info_disable_def)
qed

lemma info_enter_disabled:
  "State (info (pheap w p)) = INFO_DISABLED \<Longrightarrow> infoIs (pheap (MSTP_info_enter_state p w) p) = Disabled"
  by (simp add: MSTP_info_enter_state_def info_disable_def)

definition info_rank :: "pref \<Rightarrow> world \<Rightarrow> nat" where
  "info_rank p w =
     (let t = pheap w p in
      case State (info t) of
        INFO_BEGIN \<Rightarrow> 10
      | INFO_DISABLED \<Rightarrow> if portEnabled t then 2 else 0
      | INFO_ENABLED \<Rightarrow> 2
      | AGED \<Rightarrow> 1
      | UPDATE \<Rightarrow> if rcvdMsg t then 8 else 3
      | CURRENT \<Rightarrow> if rcvdMsg t then (if selected t \<and> updtInfo t then 9 else 7)
                    else (if selected t \<and> updtInfo t then 4 else 2)
      | INFO_RECEIVE \<Rightarrow> 6
      | _ \<Rightarrow> 5)"

interpretation inf: progressing_machine "info_machine p" "\<lambda>_. True" "info_rank p" for p
proof
  fix w
  assume again: "get_changeState (info_machine p) (statmch_step (info_machine p) w)"
  note v = info_view_enter [of p w, unfolded info_view_def info_effect_def Let_def prod.inject]
  show "info_rank p (statmch_step (info_machine p) w) < info_rank p w"
    using again info_enter_disabled [of w p]
    by (cases "State (info (pheap w p))")
      (auto simp: info_machine_def machine_simps MSTP_info_check_conditions_def v info_rank_def
        split: if_splits RCVD_MSG_T.splits)
qed simp_all

subsection \<open>Properties\<close>

text \<open>the agreement procedures accept the agreement flag of any message
  whose port role bits are not both clear; the comparison of the message vector with the port
  vector has no influence.\<close>

theorem agreement_ignores_priority:
  "agreement_test t \<longleftrightarrow> msgFlags t AND PORT_ROLE_MASK \<noteq> 0"
proof -
  have eq: "(8 :: u8) AND f = 8 AND (12 AND f)" for f by (simp flip: and.assoc)
  have "12 AND f = 0 \<Longrightarrow> (8 :: u8) AND f = 0" for f by (subst eq) simp
  then show ?thesis
    by (auto simp: agreement_test_def Let_def and.commute push_bit_eq_mult)
qed

text \<open>what a port has received from outside its region lives for at most three
  hello times, and not at all once its age has passed the maximum age.\<close>

theorem received_info_bounded:
  assumes "\<not> rcvdInternal (pheap w p)"
  defines "t \<equiv> pheap w p" and "t' \<equiv> pheap (stp_portinfo_updtRcvdInfoWhileCist p w) p"
  shows "unat (rcvdInfoWhile t') \<le> 3 * unat (HelloTime (portTimes t)) \<and>
    unat (MessageAge (msgTimes t)) + unat (rcvdInfoWhile t') \<le> max (unat (MaxAge (portTimes t))) (unat (MessageAge (msgTimes t))) \<and>
    (unat (MessageAge (msgTimes t)) \<ge> unat (MaxAge (portTimes t)) \<longrightarrow> rcvdInfoWhile t' = 0)"
proof -
  let ?max = "unat (MaxAge (portTimes t))" and ?hello3 = "3 * unat (HelloTime (portTimes t))"
  define eff where "eff = age_increment (MaxAge (portTimes t)) + unat (MessageAge (msgTimes t))"
  have eff: "eff > unat (MessageAge (msgTimes t))" by (simp add: eff_def age_increment_def)
  have life: "rcvdInfoWhile t' = (if eff \<le> ?max then of_nat (min (?max - eff) ?hello3) else 0)"
    using assms(1) by (simp add: t'_def t_def stp_portinfo_updtRcvdInfoWhileCist_def Let_def eff_def)
  have "?max < 2 ^ 16" using unsigned_less [of "MaxAge (portTimes t)"] by simp
  then have "unat (of_nat (min (?max - eff) ?hello3) :: u32) = min (?max - eff) ?hello3"
    by (simp add: unsigned_of_nat take_bit_nat_eq_self)
  then show ?thesis using eff by (auto simp: life)
qed

text \<open>a message from inside the region whose hop count is exhausted (zero) is not
  discarded: the decremented count wraps to 255 and the information lives for three hello times.\<close>

theorem remaining_hops_wrap:
  assumes "rcvdInternal (pheap w p)" and "RemainingHops (msgTimes (pheap w p)) = 0"
    and "MessageAge (msgTimes (pheap w p)) \<le> MaxAge (portTimes (pheap w p))"
  shows "RemainingHops (portTimes (pheap (stp_portinfo_updtRcvdInfoWhileCist p w) p)) = 255 \<and>
    rcvdInfoWhile (pheap (stp_portinfo_updtRcvdInfoWhileCist p w) p) =
      3 * ucast (HelloTime (portTimes (pheap w p)))"
  using assms by (auto simp: stp_portinfo_updtRcvdInfoWhileCist_def Let_def not_less)

text \<open>The data of a message and of the port that the recording procedures leave alone.\<close>

definition info_data :: "PORT_T \<Rightarrow> PRIO_VECTOR_T \<times> PRIO_VECTOR_T \<times> nat \<times> INFO_IS_T \<times> bool" where
  "info_data t = (msgPrio t, portPrio t, p_vlan_id t, infoIs t, reselect t)"

lemma info_data_indep [simp]:
  "info_data (proposed_update f t) = info_data t" "info_data (agreed_update f t) = info_data t"
  "info_data (mstiMastered_update f t) = info_data t" "info_data (portTimes_update g t) = info_data t"
  "info_data (rcvdInfoWhile_update h t) = info_data t" "info_data (agree_update f t) = info_data t"
  "info_data (synced_update f t) = info_data t" "info_data (proposing_update f t) = info_data t"
  "info_data (infoInternal_update f t) = info_data t"
  by (simp_all add: info_data_def)

lemma record_data [simp]:
  "info_data (pheap (stp_portinfo_record_proposalxst p w) q) = info_data (pheap w q)"
  "info_data (pheap (stp_portinfo_record_agreementxst p w) q) = info_data (pheap w q)"
  "info_data (pheap (stp_portinfo_record_masteredxst p w) q) = info_data (pheap w q)"
  "info_data (pheap (stp_portinfo_updtRcvdInfoWhileXst p w) q) = info_data (pheap w q)"
proof -
  note u = upds_field [of info_data]
  show "info_data (pheap (stp_portinfo_record_proposalxst p w) q) = info_data (pheap w q)"
    by (simp add: stp_portinfo_record_proposalxst_def stp_portinfo_record_proposalcist_def Let_def
        stp_portinfo_record_proposalmsti_def u)
  show "info_data (pheap (stp_portinfo_record_agreementxst p w) q) = info_data (pheap w q)"
    by (simp add: stp_portinfo_record_agreementxst_def stp_portinfo_record_agreementcist_def Let_def
        stp_portinfo_record_agreementmsti_def u split: option.split)
  show "info_data (pheap (stp_portinfo_record_masteredxst p w) q) = info_data (pheap w q)"
    by (simp add: stp_portinfo_record_masteredxst_def stp_portinfo_record_masteredcist_def
        stp_portinfo_record_masteredmsti_def u)
  show "info_data (pheap (stp_portinfo_updtRcvdInfoWhileXst p w) q) = info_data (pheap w q)"
    by (simp add: stp_portinfo_updtRcvdInfoWhileXst_def stp_portinfo_updtRcvdInfoWhileCist_def Let_def
        stp_portinfo_updtRcvdInfoWhileMsti_def split: option.split)
qed

lemma superior_data:
  "info_data (pheap (info_superior p w) p) =
     (msgPrio (pheap w p), msgPrio (pheap w p), p_vlan_id (pheap w p), Received, True)"
proof -
  have fin: "info_data (t\<lparr>infoIs := Received, reselect := True, selected := False, rcvdMsg := False\<rparr>) =
      (fst (info_data t), fst (snd (info_data t)), fst (snd (snd (info_data t))), Received, True)" for t
    by (simp add: info_data_def)
  have copy: "info_data (t\<lparr>portPrio := msgPrio t, portTimes := x\<rparr>) =
      (fst (info_data t), fst (info_data t), snd (snd (info_data t)))" for t x
    by (simp add: info_data_def)
  have syn: "info_data (t\<lparr>synced := b\<rparr>) = info_data t" and agr: "info_data (t\<lparr>agree := b\<rparr>) = info_data t"
    and int: "info_data (t\<lparr>infoInternal := b, proposing := c\<rparr>) = info_data t" for t b c
    by (simp_all add: info_data_def)
  have upd: "info_data (pheap (upd p f v) p) = info_data (f (pheap v p))" for f v by simp
  have "info_data (pheap (info_superior p w) p) =
      (fst (info_data (pheap w p)), fst (info_data (pheap w p)), fst (snd (snd (info_data (pheap w p)))), Received, True)"
    unfolding info_superior_def Let_def upd fin copy record_data syn agr int by simp
  then show ?thesis by (simp add: info_data_def)
qed

lemma rcvinfo_data: "info_data (snd (stp_portinfo_xst_rcvinfo t w)) = info_data t"
  by (simp add: stp_portinfo_xst_rcvinfo_def stp_portinfo_cist_rcvinfo_def stp_portinfo_msti_rcvinfo_def
      rcvinfo_def Let_def info_data_def)

lemma enter_receive_data:
  assumes "State (info (pheap w p)) = INFO_RECEIVE"
  shows "info_data (pheap (MSTP_info_enter_state p w) p) = info_data (pheap w p)"
    and "rcvdInfo (pheap (MSTP_info_enter_state p w) p) = fst (stp_portinfo_xst_rcvinfo (pheap w p) w)"
proof -
  have "info_data (t\<lparr>rcvdInfo := r\<rparr>) = info_data t" for t r by (simp add: info_data_def)
  then show "info_data (pheap (MSTP_info_enter_state p w) p) = info_data (pheap w p)"
    using assms by (simp add: MSTP_info_enter_state_def split_beta rcvinfo_data)
  show "rcvdInfo (pheap (MSTP_info_enter_state p w) p) = fst (stp_portinfo_xst_rcvinfo (pheap w p) w)"
    using assms by (simp add: MSTP_info_enter_state_def split_beta stp_portinfo_record_masteredxst_def
        stp_portinfo_record_masteredcist_def stp_portinfo_record_masteredmsti_def upds_field [of rcvdInfo])
qed

text \<open>The stages of the treatment of a superior message with vector \<open>m\<close>.\<close>

definition taking_superior :: "PRIO_VECTOR_T \<Rightarrow> pref \<Rightarrow> world \<Rightarrow> bool" where
  "taking_superior m p w \<longleftrightarrow>
     (let t = pheap w p in
      portEnabled t \<and> \<not> updtInfo t \<and> p_vlan_id t = STP_CIST_ID \<and> msgPrio t = m \<and>
      (State (info t) = INFO_RECEIVE \<and> changeState (info t) \<and>
         fst (stp_portinfo_xst_rcvinfo t w) = SuperiorDesignateMsg \<or>
       State (info t) = SUPERIOR_DESIGNATED \<and> changeState (info t) \<or>
       State (info t) \<in> {CURRENT, AGED} \<and> portPrio t = m \<and> reselect t \<and> \<not> selected t \<and> \<not> rcvdMsg t \<and>
         (State (info t) = CURRENT \<longrightarrow> infoIs t = Received)))"

lemma taking_superior_step:
  assumes s: "taking_superior m p w"
  shows "taking_superior m p (statmch_step (info_machine p) w)"
    and "\<not> changeState (info (pheap (statmch_step (info_machine p) w) p)) \<Longrightarrow>
      (let t = pheap (statmch_step (info_machine p) w) p in
       State (info t) = CURRENT \<and> infoIs t = Received \<and> rcvdInfoWhile t \<noteq> 0 \<or>
       State (info t) = AGED \<and> infoIs t = Aged)"
proof -
  note v = info_view_enter [of p w, unfolded info_view_def info_effect_def Let_def prod.inject]
  note d = info_machine_def machine_simps MSTP_info_check_conditions_def taking_superior_def v
  have sup: "State (info (pheap w p)) = SUPERIOR_DESIGNATED \<Longrightarrow>
      info_data (pheap (MSTP_info_enter_state p w) p) =
        (msgPrio (pheap w p), msgPrio (pheap w p), p_vlan_id (pheap w p), Received, True)"
    by (simp add: MSTP_info_enter_state_def superior_data)
  note rcv = enter_receive_data [of w p] and e = MSTP_info_enter_state_def
  consider "State (info (pheap w p)) = INFO_RECEIVE" | "State (info (pheap w p)) = SUPERIOR_DESIGNATED"
    | "State (info (pheap w p)) = CURRENT" | "State (info (pheap w p)) = AGED"
    using s by (auto simp: taking_superior_def Let_def)
  then have "taking_superior m p (statmch_step (info_machine p) w) \<and>
      (\<not> changeState (info (pheap (statmch_step (info_machine p) w) p)) \<longrightarrow>
      (let t = pheap (statmch_step (info_machine p) w) p in
       State (info t) = CURRENT \<and> infoIs t = Received \<and> rcvdInfoWhile t \<noteq> 0 \<or>
       State (info t) = AGED \<and> infoIs t = Aged))"
  proof cases
    case 1
    then show ?thesis using s rcv by (auto simp: d info_data_def)
  next
    case 2
    then show ?thesis using s sup by (auto simp: d info_data_def)
  next
    case 3
    then have "MSTP_info_enter_state p w = w" by (simp add: e)
    then show ?thesis using s 3
      by (auto simp: d stp_portinfo_rcvd_xstinfo_def stp_portinfo_updt_xstinfo_def)
  next
    case 4
    then have "MSTP_info_enter_state p w = upd p (\<lambda>t. t\<lparr>infoIs := Aged, reselect := True, selected := False\<rparr>) w"
      by (simp add: e)
    then show ?thesis using s 4 by (auto simp: d)
  qed
  then show "taking_superior m p (statmch_step (info_machine p) w)"
    and "\<not> changeState (info (pheap (statmch_step (info_machine p) w) p)) \<Longrightarrow>
      (let t = pheap (statmch_step (info_machine p) w) p in
       State (info t) = CURRENT \<and> infoIs t = Received \<and> rcvdInfoWhile t \<noteq> 0 \<or>
       State (info t) = AGED \<and> infoIs t = Aged)"
    by blast+
qed


end
