(* ===== verification/StpReceive.thy ===== *)
theory StpReceive
  imports StpPortinfo
begin

text \<open>
  The reception of BPDUs: the header check (\<open>stp_in_check_bpdu_header\<close> of \<open>stp_in.c\<close>), the entry
  of a frame into the port (\<open>stp_portinfo_rx_bpdu\<close> of \<open>stp_portinfo.c\<close>) and the Port Receive
  machine (\<open>stp_receive.c\<close>), which unpacks the CIST message and one message per MSTI.

  A frame is its list of bytes; the receive buffer is zeroed before a frame is read into it, so
  that a view beyond the end reads zero (\<open>byte_at\<close>, \<open>slice\<close>).
\<close>

subsection \<open>Error codes\<close>

abbreviation (input) STP_OK :: int where "STP_OK \<equiv> 0"
abbreviation (input) STP_ERROR :: int where "STP_ERROR \<equiv> 1"
abbreviation (input) STP_Big_len8023_Format :: int where "STP_Big_len8023_Format \<equiv> 19"
abbreviation (input) STP_Small_len8023_Format :: int where "STP_Small_len8023_Format \<equiv> 20"
abbreviation (input) STP_len8023_Format_Gt_Len :: int where "STP_len8023_Format_Gt_Len \<equiv> 21"
abbreviation (input) STP_Not_Proper_802_3_Packet :: int where "STP_Not_Proper_802_3_Packet \<equiv> 22"
abbreviation (input) STP_Invalid_Protocol :: int where "STP_Invalid_Protocol \<equiv> 23"

subsection \<open>The current BPDU\<close>

definition stp_in_set_cur_bpdu :: "u8 list option \<Rightarrow> u8 \<Rightarrow> bool \<Rightarrow> world \<Rightarrow> world" where
  "stp_in_set_cur_bpdu f ty digestSnp w =
     w\<lparr>g_curBPDU := \<lparr>cur_bpdu = f, cur_bpdu_type = ty, cur_digestSnp = digestSnp\<rparr>\<rparr>"

definition stp_in_get_cur_bpdu :: "world \<Rightarrow> (u8 list \<times> u8 \<times> bool) option" where
  "stp_in_get_cur_bpdu w =
     (case cur_bpdu (g_curBPDU w) of
        None \<Rightarrow> None
      | Some f \<Rightarrow> Some (f, cur_bpdu_type (g_curBPDU w), cur_digestSnp (g_curBPDU w)))"

subsection \<open>The header check\<close>

text \<open>\<open>(version_3_length - 64) / d\<close> in \<open>int\<close>: the division truncates towards zero.\<close>

definition mst_count :: "u16 \<Rightarrow> nat \<Rightarrow> int" where
  "mst_count v3 d =
     (if unat v3 \<ge> 64 then int ((unat v3 - 64) div d) else - int ((64 - unat v3) div d))"

text \<open>The classification of a BPDU of type 2 with version 3 or more.\<close>

definition check_version_3 :: "PORT_T \<Rightarrow> u8 list \<Rightarrow> nat \<Rightarrow> int \<times> u8 option" where
  "check_version_3 port f len =
     (let v3 = ntohs (if configDigestSnp port then c_version_3_length (cisco_view f)
                      else version_3_length (mstp_view f));
          MstCnt = mst_count v3 16 in
      if 35 \<le> len \<and> len < 103 \<or> ver_1_len (mstp_view f) \<noteq> 0 \<or> MstCnt > 64 \<or> MstCnt < 0
      then (0, Some BPDU_RSTP)
      else if len \<ge> 102 \<and> ver_1_len (mstp_view f) = 0 \<and> MstCnt \<le> 64 \<and> MstCnt \<ge> 0
      then (0, Some BPDU_MSTP)
      else (- 1, None))"

text \<open>The result and what is stored through \<open>bpdu_type\<close> (\<open>None\<close>: nothing).\<close>

definition stp_in_check_bpdu_header :: "PORT_T \<Rightarrow> u8 list \<Rightarrow> nat \<Rightarrow> int \<times> u8 option" where
  "stp_in_check_bpdu_header port f len =
     (let len8023' = unat (ntohs (len8023 (eth_view f))); h = hdr_view f in
      if len < MIN_BPDU then (- 1, None)
      else if len8023' > 1500 then (STP_Big_len8023_Format, None)
      else if len8023' < MIN_BPDU then (STP_Small_len8023_Format, None)
      else if len8023' + 14 > len then (STP_len8023_Format_Gt_Len, None)
      else if dsap (eth_view f) \<noteq> BPDU_L_SAP \<or> ssap (eth_view f) \<noteq> BPDU_L_SAP \<or> llc (eth_view f) \<noteq> LLC_UI
      then (STP_Not_Proper_802_3_Packet, None)
      else if protocol h ! 0 \<noteq> 0 \<or> protocol h ! 1 \<noteq> 0 then (STP_Invalid_Protocol, None)
      else if bpdu_type h = BPDU_TOPO_CHANGE_TYPE
      then (if len \<ge> 4 then (0, Some BPDU_TOPO_CHANGE_TYPE) else (- 1, None))
      else if bpdu_type h = BPDU_CONFIG_TYPE
      then (if len \<ge> 35 then (0, Some BPDU_CONFIG_TYPE) else (- 1, None))
      else if bpdu_type h = BPDU_RSTP
      then (if version h = 2 \<and> len \<ge> 36 then (0, Some BPDU_RSTP)
            else if version h \<ge> 3 then check_version_3 port f len
            else (- 1, None))
      else (- 1, None))"

subsection \<open>Entry of a frame\<close>

definition stp_portinfo_send_tcn2npd :: "pref \<Rightarrow> world \<Rightarrow> world" where
  "stp_portinfo_send_tcn2npd p w = emit (Npd_tcn (p_vlan_id (pheap w p)) 0 (port_index (pheap w p))) w"

text \<open>The topology change notification to the switch chip, one per enabled port.\<close>

definition notify_topology_change :: "pref \<Rightarrow> world \<Rightarrow> world" where
  "notify_topology_change p w =
     for_ports (\<lambda>q w. if portEnabled (pheap w q) then stp_portinfo_send_tcn2npd q w else w)
       (ports (owner_of w p)) w"

text \<open>The tail of \<open>stp_portinfo_rx_bpdu\<close>: the header's members are copied into the port, a
  topology change is signalled, and the frame becomes the current BPDU.\<close>

definition rx_accept :: "pref \<Rightarrow> u8 list \<Rightarrow> u8 \<Rightarrow> world \<Rightarrow> world" where
  "rx_accept p f ty w =
     (let w = upd p (\<lambda>t. t\<lparr>msgBpduVersion := version (hdr_view f), msgBpduType := bpdu_type (hdr_view f),
                           msgFlags := b_flags (body_view f)\<rparr>) w;
          w = (if ty = BPDU_TOPO_CHANGE_TYPE \<or> b_flags (body_view f) AND TOLPLOGY_CHANGE_BIT \<noteq> 0 \<or>
                  b_flags (body_view f) AND TOLPLOGY_CHANGE_ACK_BIT \<noteq> 0
               then notify_topology_change p w else w) in
      stp_in_set_cur_bpdu (Some f) ty (configDigestSnp (pheap w p)) w)"

text \<open>\<open>stack_byte\<close> is what the uninitialised local \<open>bpdu_type\<close> holds when the header check returns
  without storing a type; only a negative result of the check is rejected.\<close>

definition stp_portinfo_rx_bpdu :: "u8 \<Rightarrow> pref \<Rightarrow> u8 list \<Rightarrow> nat \<Rightarrow> world \<Rightarrow> int \<times> world" where
  "stp_portinfo_rx_bpdu stack_byte p f len w =
     (let (ret, stored) = stp_in_check_bpdu_header (pheap w p) f len;
          ty = (case stored of Some b \<Rightarrow> b | None \<Rightarrow> stack_byte) in
      if ret < 0 then (- 1, w)
      else if ty = BPDU_CONFIG_TYPE
      then let w = upd p (\<lambda>t. t\<lparr>rx_cfg_bpdu_cnt := rx_cfg_bpdu_cnt t + 1\<rparr>) w in
           if admin_non_stp (pheap w p) then (- 1, w)
           else (0, rx_accept p f ty (upd p (\<lambda>t. t\<lparr>rcvdBpdu := True\<rparr>) w))
      else if ty = BPDU_TOPO_CHANGE_TYPE
      then let w = upd p (\<lambda>t. t\<lparr>rx_tcn_bpdu_cnt := rx_tcn_bpdu_cnt t + 1\<rparr>) w in
           if admin_non_stp (pheap w p) then (- 1, w)
           else (0, rx_accept p f ty (upd p (\<lambda>t. t\<lparr>rcvdBpdu := True\<rparr>) w))
      else if ty = BPDU_RSTP \<or> ty = BPDU_MSTP
      then let w = upd p (\<lambda>t. t\<lparr>rx_rstp_bpdu_cnt := rx_rstp_bpdu_cnt t + 1\<rparr>) w in
           if admin_non_stp (pheap w p) then (- 1, w)
           else if version_num (ForceVersion (owner_of w p)) \<ge> 2
           then (0, rx_accept p f ty (upd p (\<lambda>t. t\<lparr>rcvdBpdu := True\<rparr>) w))
           else (- 1, w)
      else (- 1, w))"

definition stp_port_rx_bpdu :: "u8 \<Rightarrow> pref \<Rightarrow> u8 list \<Rightarrow> nat \<Rightarrow> world \<Rightarrow> int \<times> world" where
  "stp_port_rx_bpdu = stp_portinfo_rx_bpdu"

subsection \<open>The procedures of the receive machine\<close>

definition stp_receive_mstpVendorCisco :: "world \<Rightarrow> bool" where
  "stp_receive_mstpVendorCisco w =
     (case stp_in_get_cur_bpdu w of None \<Rightarrow> False | Some (_, _, digestSnp) \<Rightarrow> digestSnp)"

definition stp_receive_fromSameRegion :: "pref \<Rightarrow> world \<Rightarrow> bool" where
  "stp_receive_fromSameRegion p w =
     (case stp_in_get_cur_bpdu w of
        None \<Rightarrow> False
      | Some (f, ty, _) \<Rightarrow>
          rcvdRSTP (pheap w p) \<and> ty = BPDU_MSTP \<and> version_num (ForceVersion (owner_of w p)) \<ge> 3 \<and>
          (configDigestSnp (pheap w p) \<or>
           memcmp 51 (mstcid_bytes (MSTCID (mstp_view f))) (mstcid_bytes (MstConfigId (owner_of w p))) = 0))"

definition stp_receive_rcvdAnyMsg :: "pref \<Rightarrow> world \<Rightarrow> bool" where
  "stp_receive_rcvdAnyMsg p w \<longleftrightarrow> list_ex (\<lambda>q. rcvdMsg (pheap w q)) (p # nextMst (pheap w p))"

definition stp_receive_clearAllRcvdMsgs :: "world \<Rightarrow> world" where
  "stp_receive_clearAllRcvdMsgs w =
     upds (concat (map (\<lambda>b. ports (bheap w b)) (bridges w))) (\<lambda>t. t\<lparr>rcvdMsg := False\<rparr>) w"

text \<open>The body of the loop over the MSTI records of a frame, for either layout.\<close>

definition msti_message ::
  "(u8 list \<Rightarrow> nat \<Rightarrow> u8 list) \<Rightarrow> (u8 list \<Rightarrow> nat \<Rightarrow> u8) \<Rightarrow> bool \<Rightarrow> pref \<Rightarrow> u8 list \<Rightarrow> nat \<Rightarrow> world \<Rightarrow> world" where
  "msti_message root_id flags cisco p f index w =
     (let mstid = ntohs (root_id f index) AND 0x0fff in
      case stp_port_mst_findport (unat mstid) (port_index (pheap w p)) w of
        None \<Rightarrow> w
      | Some q \<Rightarrow>
          upd q (\<lambda>t.
            let v = stp_vector_get_mst_vector (big_endian w) f index cisco (msgPrio t);
                v = v\<lparr>bridge_port := port_id t,
                      design_bridge := (design_bridge v)\<lparr>prio := prio (design_bridge v) + (0x0fff AND mstid)\<rparr>\<rparr> in
            t\<lparr>rcvdMsg := True, msgBpduType := msgBpduType (pheap w p), msgPrio := v,
              msgFlags := flags f index, msgTimes := stp_vector_get_mst_timers f index\<rparr>) w)"

primrec msti_messages :: "(nat \<Rightarrow> world \<Rightarrow> world) \<Rightarrow> nat \<Rightarrow> world \<Rightarrow> world" where
  "msti_messages step 0 w = w"
| "msti_messages step (Suc n) w = step n (msti_messages step n w)"

text \<open>The loop bound: \<open>MstCnt\<close> is an \<open>unsigned short\<close>.\<close>

definition msti_bound :: "u16 \<Rightarrow> nat \<Rightarrow> nat" where
  "msti_bound v3 d = unat (of_int (mst_count v3 d) :: u16)"

definition stp_receive_setRcvdMsgs_Cisco :: "pref \<Rightarrow> world \<Rightarrow> world" where
  "stp_receive_setRcvdMsgs_Cisco p w =
     (case stp_in_get_cur_bpdu w of
        None \<Rightarrow> w
      | Some (f, ty, _) \<Rightarrow>
          let b = cisco_view f; mstp = (ty = BPDU_MSTP);
              w = upd p (\<lambda>t.
                let t = t\<lparr>rcvdMsg := True\<rparr>;
                    t = (if mstp then t\<lparr>p_digest := c_ConfigurationDigest (ciscoMSTID b)\<rparr> else t);
                    v = (msgPrio t)\<lparr>root_bridge := stp_vector_get_bridge_id (b_root_id (c_body b)),
                          root_path_cost := ntohl (b_root_path_cost (c_body b)),
                          region_root_bridge := stp_vector_get_bridge_id (cist_region_root_id b),
                          design_port := ntohs (b_port_id (c_body b)),
                          bridge_port := port_id t,
                          design_bridge := stp_vector_get_bridge_id (b_bridge_id (c_body b)),
                          region_root_path_cost :=
                            (if mstp \<and> rcvdInternal t then ntohl (c_cist_inter_path_cost b) else 0)\<rparr> in
                t\<lparr>msgPrio := v,
                  msgTimes := (stp_times_get (c_body b) (msgTimes t))
                    \<lparr>RemainingHops := (if mstp then c_cist_remaining_hops b else 0)\<rparr>\<rparr>) w in
          if rcvdInternal (pheap w p)
          then msti_messages
                 (msti_message (\<lambda>f i. mc_msti_region_root_id (mc_view i f)) (\<lambda>f i. mc_msti_flags (mc_view i f)) True p f)
                 (msti_bound (ntohs (c_version_3_length b)) 26) w
          else w)"

definition stp_receive_setRcvdMsgs :: "pref \<Rightarrow> world \<Rightarrow> world" where
  "stp_receive_setRcvdMsgs p w =
     (case stp_in_get_cur_bpdu w of
        None \<Rightarrow> w
      | Some (f, ty, _) \<Rightarrow>
          let w = upd p (\<lambda>t. t\<lparr>rcvdMsg := True\<rparr>) w in
          if configDigestSnp (pheap w p) then stp_receive_setRcvdMsgs_Cisco p w
          else
            let b = mstp_view f; mstp = (ty = BPDU_MSTP);
                w = upd p (\<lambda>t.
                  let v = (msgPrio t)\<lparr>root_bridge := stp_vector_get_bridge_id (b_root_id (body b)),
                            root_path_cost := ntohl (b_root_path_cost (body b)),
                            region_root_bridge := stp_vector_get_bridge_id (b_bridge_id (body b)),
                            design_port := ntohs (b_port_id (body b)),
                            bridge_port := port_id t,
                            design_bridge := stp_vector_get_bridge_id
                              (if mstp then cist_bridge_id b else b_bridge_id (body b)),
                            region_root_path_cost :=
                              (if mstp \<and> rcvdInternal t then ntohl (cist_inter_path_cost b) else 0)\<rparr> in
                  t\<lparr>msgPrio := v,
                    msgTimes := (stp_times_get (body b) (msgTimes t))
                      \<lparr>RemainingHops := (if mstp then cist_remaining_hops b else 0)\<rparr>\<rparr>) w in
            if rcvdInternal (pheap w p)
            then msti_messages
                   (msti_message (\<lambda>f i. msti_region_root_id (msti_view i f)) (\<lambda>f i. msti_flags (msti_view i f)) False p f)
                   (msti_bound (ntohs (version_3_length b)) 16) w
            else w)"

definition stp_receive_setTcFlags :: "pref \<Rightarrow> world \<Rightarrow> world" where
  "stp_receive_setTcFlags p w =
     (let port = pheap w p in
      if msgBpduType port = BPDU_TOPO_CHANGE_TYPE
      then upds (nextMst port) (\<lambda>t. t\<lparr>rcvdTc := True\<rparr>) (upd p (\<lambda>t. t\<lparr>rcvdTcn := True\<rparr>) w)
      else if msgBpduType port = BPDU_CONFIG_TYPE \<or> msgBpduType port = BPDU_RSTP
      then
        let w = (if TOLPLOGY_CHANGE_ACK_BIT AND msgFlags port \<noteq> 0
                 then upd p (\<lambda>t. t\<lparr>rcvdTcAck := True\<rparr>) w else w) in
        if \<not> rcvdInternal port
        then (if TOLPLOGY_CHANGE_BIT AND msgFlags port \<noteq> 0
              then upds (nextMst port) (\<lambda>t. t\<lparr>rcvdTc := True\<rparr>) w else w)
        else upds (nextMst port)
               (\<lambda>t. if rcvdMsg t \<and> TOLPLOGY_CHANGE_BIT AND msgFlags t \<noteq> 0 then t\<lparr>rcvdTc := True\<rparr> else t) w
      else w)"

definition stp_receive_updtBPDUVersion :: "pref \<Rightarrow> world \<Rightarrow> world" where
  "stp_receive_updtBPDUVersion p w =
     upd p (\<lambda>t. t\<lparr>rcvdSTP := rcvdSTP t \<or> msgBpduType t = BPDU_TOPO_CHANGE_TYPE \<or> msgBpduVersion t < 2,
                  rcvdRSTP := rcvdRSTP t \<or> msgBpduType t = BPDU_RSTP\<rparr>) w"

subsection \<open>The machine\<close>

definition MSTP_receive_enter_state :: "pref \<Rightarrow> world \<Rightarrow> world" where
  "MSTP_receive_enter_state p w =
     (case State (receive (pheap w p)) of
        RX_BEGIN \<Rightarrow> w
      | DISCARD \<Rightarrow>
          stp_receive_clearAllRcvdMsgs
            (upd p (\<lambda>t. t\<lparr>rcvdBpdu := False, rcvdRSTP := False, rcvdSTP := False\<rparr>) w)
      | RX_RECEIVE \<Rightarrow>
          (let w = stp_receive_updtBPDUVersion p w;
               w = upd p (\<lambda>t. t\<lparr>rcvdInternal := stp_receive_fromSameRegion p w\<rparr>) w;
               w = stp_receive_setRcvdMsgs p w;
               w = stp_receive_setTcFlags p w in
           upd p (\<lambda>t. t\<lparr>rcvdBpdu := False\<rparr>) w)
      | RX_INIT \<Rightarrow> w)"

definition MSTP_receive_check_conditions :: "pref \<Rightarrow> world \<Rightarrow> world \<times> bool" where
  "MSTP_receive_check_conditions p w =
     (let port = pheap w p; hop_2_state = hop receive_update p in
      case State (receive port) of
        RX_BEGIN \<Rightarrow> hop_2_state DISCARD w
      | DISCARD \<Rightarrow>
          if rcvdBpdu port \<and> \<not> portEnabled port then hop_2_state DISCARD w
          else if rcvdBpdu port \<and> portEnabled port then hop_2_state RX_RECEIVE w
          else (w, False)
      | RX_RECEIVE \<Rightarrow>
          if rcvdBpdu port \<and> \<not> portEnabled port then hop_2_state DISCARD w
          else if rcvdBpdu port \<and> portEnabled port \<and> \<not> stp_receive_rcvdAnyMsg p w then hop_2_state RX_RECEIVE w
          else (w, False)
      | RX_INIT \<Rightarrow> (w, False))"

definition receive_machine :: "pref \<Rightarrow> world machine_ops" where
  "receive_machine =
     port_machine receive receive_update RX_BEGIN MSTP_receive_enter_state MSTP_receive_check_conditions"

subsection \<open>What the procedures leave alone\<close>

text \<open>The members that unpacking a message and setting the topology change flags do not touch.\<close>

definition rx_kept :: "PORT_T \<Rightarrow> receive_state STATE_MACH_T \<times> bool \<times> bool \<times> bool \<times> pref list \<times> nat" where
  "rx_kept t = (receive t, rcvdBpdu t, portEnabled t, rcvdInternal t, nextMst t, port_index t)"

lemma rx_kept_indep [simp]:
  "rx_kept (rcvdMsg_update a t) = rx_kept t" "rx_kept (msgBpduType_update b t) = rx_kept t"
  "rx_kept (msgPrio_update c t) = rx_kept t" "rx_kept (msgFlags_update b t) = rx_kept t"
  "rx_kept (msgTimes_update d t) = rx_kept t" "rx_kept (p_digest_update e t) = rx_kept t"
  "rx_kept (rcvdTc_update a t) = rx_kept t" "rx_kept (rcvdTcn_update a t) = rx_kept t"
  "rx_kept (rcvdTcAck_update a t) = rx_kept t" "rx_kept (rcvdSTP_update a t) = rx_kept t"
  "rx_kept (rcvdRSTP_update a t) = rx_kept t"
  by (simp_all add: rx_kept_def)

lemma rx_kept_message [simp]:
  "rx_kept (pheap (msti_message r fl c p f i w) q) = rx_kept (pheap w q)"
  by (simp add: msti_message_def Let_def split: option.split)

lemma rx_kept_messages [simp]:
  "rx_kept (pheap (msti_messages (msti_message r fl c p f) n w) q) = rx_kept (pheap w q)"
  by (induction n) simp_all

lemma rx_kept_procedures [simp]:
  "rx_kept (pheap (stp_receive_setRcvdMsgs_Cisco p w) q) = rx_kept (pheap w q)"
  "rx_kept (pheap (stp_receive_setRcvdMsgs p w) q) = rx_kept (pheap w q)"
  "rx_kept (pheap (stp_receive_setTcFlags p w) q) = rx_kept (pheap w q)"
  "rx_kept (pheap (stp_receive_updtBPDUVersion p w) q) = rx_kept (pheap w q)"
  "rx_kept (pheap (stp_receive_clearAllRcvdMsgs w) q) = rx_kept (pheap w q)"
proof -
  show cisco: "rx_kept (pheap (stp_receive_setRcvdMsgs_Cisco p w) q) = rx_kept (pheap w q)" for w
    by (simp add: stp_receive_setRcvdMsgs_Cisco_def Let_def split: option.split prod.split)
  show "rx_kept (pheap (stp_receive_setRcvdMsgs p w) q) = rx_kept (pheap w q)"
    by (simp add: stp_receive_setRcvdMsgs_def Let_def cisco split: option.split prod.split)
  show "rx_kept (pheap (stp_receive_setTcFlags p w) q) = rx_kept (pheap w q)"
    by (simp add: stp_receive_setTcFlags_def Let_def upds_field [of rx_kept])
  show "rx_kept (pheap (stp_receive_updtBPDUVersion p w) q) = rx_kept (pheap w q)"
    by (simp add: stp_receive_updtBPDUVersion_def)
  show "rx_kept (pheap (stp_receive_clearAllRcvdMsgs w) q) = rx_kept (pheap w q)"
    by (simp add: stp_receive_clearAllRcvdMsgs_def upds_field [of rx_kept])
qed

lemmas rx_kept_fields = rx_kept_procedures [unfolded rx_kept_def prod.inject]

subsection \<open>The machine comes to rest\<close>

definition receive_rank :: "pref \<Rightarrow> world \<Rightarrow> nat" where
  "receive_rank p w = (if State (receive (pheap w p)) = RX_BEGIN then 1 else 0)"

lemma receive_enter:
  "State (receive (pheap (MSTP_receive_enter_state p w) p)) = State (receive (pheap w p))"
  "State (receive (pheap w p)) \<in> {DISCARD, RX_RECEIVE} \<Longrightarrow> \<not> rcvdBpdu (pheap (MSTP_receive_enter_state p w) p)"
  by (auto simp: MSTP_receive_enter_state_def Let_def rx_kept_fields split: receive_state.split)

interpretation rcv: progressing_machine "receive_machine p" "\<lambda>_. True" "receive_rank p" for p
proof
  fix w
  assume "get_changeState (receive_machine p) (statmch_step (receive_machine p) w)"
  then show "receive_rank p (statmch_step (receive_machine p) w) < receive_rank p w"
    using receive_enter [where p = p and w = w]
    by (cases "State (receive (pheap w p))")
      (auto simp: receive_machine_def machine_simps MSTP_receive_check_conditions_def receive_rank_def
        split: if_splits)
qed simp_all

subsection \<open>The header check and the loop over the MSTI records\<close>

lemma msti_bound_le:
  assumes "0 \<le> mst_count v3 16" and "mst_count v3 16 \<le> 64"
  shows "msti_bound v3 16 \<le> 64" and "msti_bound v3 26 \<le> 64"
proof -
  have "unat v3 < 65536" using unsigned_less [of v3] by simp
  then have small: "mst_count v3 d = int n \<Longrightarrow> n \<le> 64 \<Longrightarrow> msti_bound v3 d = n" for n d
    by (simp add: msti_bound_def unsigned_of_nat take_bit_nat_eq_self)
  from assms show "msti_bound v3 16 \<le> 64"
    using small [of 16 "nat (mst_count v3 16)"] by simp
  have "0 \<le> mst_count v3 26" and "mst_count v3 26 \<le> 64"
    using assms div_le_mono2 [of 16 26 "unat v3 - 64"]
    by (auto simp: mst_count_def split: if_splits)
  then show "msti_bound v3 26 \<le> 64"
    using small [of 26 "nat (mst_count v3 26)"] by simp
qed

text \<open>when the header check classifies a frame as an MSTP BPDU, the receive
  loop reads at most the 64 MSTI records the frame structure has, in the 802.1s layout (16 bytes a
  record) and, for a port with digest snooping, in the Cisco layout (26 bytes a record).\<close>

theorem mstp_records_in_frame:
  assumes "stp_in_check_bpdu_header port f n = (0, Some BPDU_MSTP)"
  shows "(if configDigestSnp port then msti_bound (ntohs (c_version_3_length (cisco_view f))) 26
          else msti_bound (ntohs (version_3_length (mstp_view f))) 16) \<le> STP_MSTI_MAX"
  using assms msti_bound_le
  by (auto simp: stp_in_check_bpdu_header_def check_version_3_def Let_def split: if_splits)

subsection \<open>Accepted and rejected frames\<close>

lemma notify_frame:
  "pheap (notify_topology_change p w) = pheap w" "bheap (notify_topology_change p w) = bheap w"
  "g_CISTPORT (notify_topology_change p w) = g_CISTPORT w"
  unfolding notify_topology_change_def
  by (rule for_ports_field, simp add: stp_portinfo_send_tcn2npd_def)+

lemma rx_accept_port:
  "pheap (rx_accept p f ty w) q =
     (if q = p then (pheap w p)\<lparr>msgBpduVersion := version (hdr_view f), msgBpduType := bpdu_type (hdr_view f),
        msgFlags := b_flags (body_view f)\<rparr> else pheap w q)"
  "g_curBPDU (rx_accept p f ty w) =
     \<lparr>cur_bpdu = Some f, cur_bpdu_type = ty, cur_digestSnp = configDigestSnp (pheap w p)\<rparr>"
  by (simp_all add: rx_accept_def Let_def stp_in_set_cur_bpdu_def notify_frame)

text \<open>The effects on the counters that a rejected frame can have.\<close>

definition counted :: "pref \<Rightarrow> world \<Rightarrow> world \<Rightarrow> bool" where
  "counted p w w' \<longleftrightarrow> (\<exists>a b c. w' = upd p (\<lambda>t. t\<lparr>rx_cfg_bpdu_cnt := a, rx_tcn_bpdu_cnt := b, rx_rstp_bpdu_cnt := c\<rparr>) w)"

lemma countedI:
  assumes "g (pheap w p) = (pheap w p)\<lparr>rx_cfg_bpdu_cnt := a, rx_tcn_bpdu_cnt := b, rx_rstp_bpdu_cnt := c\<rparr>"
  shows "counted p w (upd p g w)"
  unfolding counted_def upd_def using assms by metis

lemma rx_counts:
  "counted p w w"
  "counted p w (upd p (\<lambda>t. t\<lparr>rx_cfg_bpdu_cnt := rx_cfg_bpdu_cnt t + 1\<rparr>) w)"
  "counted p w (upd p (\<lambda>t. t\<lparr>rx_tcn_bpdu_cnt := rx_tcn_bpdu_cnt t + 1\<rparr>) w)"
  "counted p w (upd p (\<lambda>t. t\<lparr>rx_rstp_bpdu_cnt := rx_rstp_bpdu_cnt t + 1\<rparr>) w)"
proof -
  have "counted p w (upd p id w)"
    by (rule countedI [where a = "rx_cfg_bpdu_cnt (pheap w p)" and b = "rx_tcn_bpdu_cnt (pheap w p)" and
        c = "rx_rstp_bpdu_cnt (pheap w p)"]) simp
  then show "counted p w w" by (simp add: upd_def)
qed (rule countedI, rule PORT_T.equality; simp)+

text \<open>C18: a frame that the port turns away changes nothing but the port's
  three counters of received BPDUs.\<close>

theorem rx_rejected_only_counts:
  assumes "fst (stp_portinfo_rx_bpdu stack_byte p f n w) \<noteq> 0"
  shows "fst (stp_portinfo_rx_bpdu stack_byte p f n w) = - 1 \<and>
    (\<exists>a b c. snd (stp_portinfo_rx_bpdu stack_byte p f n w) =
      upd p (\<lambda>t. t\<lparr>rx_cfg_bpdu_cnt := a, rx_tcn_bpdu_cnt := b, rx_rstp_bpdu_cnt := c\<rparr>) w)"
  unfolding counted_def [symmetric] using assms
  by (auto simp: stp_portinfo_rx_bpdu_def Let_def rx_counts split: prod.splits option.splits if_splits)

text \<open>a frame with a valid header on a port that takes part in the protocol, in a
  version that the instance speaks, is accepted: the receive machine is asked to run, the header's
  members are in the port, and the frame is the current BPDU under its classified type.\<close>

theorem rx_accepted:
  assumes "stp_in_check_bpdu_header (pheap w p) f n = (0, Some ty)" and "\<not> admin_non_stp (pheap w p)"
    and "ty \<in> {BPDU_RSTP, BPDU_MSTP} \<Longrightarrow> version_num (ForceVersion (owner_of w p)) \<ge> 2"
  shows "\<exists>w'. stp_portinfo_rx_bpdu stack_byte p f n w = (0, w') \<and> rcvdBpdu (pheap w' p) \<and>
    msgBpduVersion (pheap w' p) = version (hdr_view f) \<and> msgBpduType (pheap w' p) = bpdu_type (hdr_view f) \<and>
    msgFlags (pheap w' p) = b_flags (body_view f) \<and> stp_in_get_cur_bpdu w' = Some (f, ty, configDigestSnp (pheap w p))"
proof -
  have "ty \<in> {BPDU_CONFIG_TYPE, BPDU_TOPO_CHANGE_TYPE, BPDU_RSTP, BPDU_MSTP}"
    using assms(1) by (auto simp: stp_in_check_bpdu_header_def check_version_3_def Let_def split: if_splits)
  then show ?thesis using assms
    by (auto simp: stp_portinfo_rx_bpdu_def Let_def rx_accept_port stp_in_get_cur_bpdu_def)
qed

text \<open>the header check reports a frame whose 802.3 length field exceeds 1500 with a
  positive error code, and \<open>stp_portinfo_rx_bpdu\<close> tests for a negative one only: when the
  uninitialised local happens to be zero the frame is taken as a Config BPDU.\<close>

theorem bad_length_accepted:
  assumes "7 \<le> n" and "unat (ntohs (len8023 (eth_view f))) > 1500" and "\<not> admin_non_stp (pheap w p)"
  shows "stp_in_check_bpdu_header (pheap w p) f n = (STP_Big_len8023_Format, None) \<and>
    (\<exists>w'. stp_portinfo_rx_bpdu BPDU_CONFIG_TYPE p f n w = (0, w') \<and> rcvdBpdu (pheap w' p) \<and>
      stp_in_get_cur_bpdu w' = Some (f, BPDU_CONFIG_TYPE, configDigestSnp (pheap w p)))"
proof -
  have "stp_in_check_bpdu_header (pheap w p) f n = (STP_Big_len8023_Format, None)"
    using assms by (simp add: stp_in_check_bpdu_header_def)
  then show ?thesis using assms(3)
    by (simp add: stp_portinfo_rx_bpdu_def rx_accept_port stp_in_get_cur_bpdu_def Let_def)
qed

subsection \<open>Topology change flags\<close>

lemma rcvdTc_message [simp]: "rcvdTc (pheap (msti_message r fl c p f i w) q) = rcvdTc (pheap w q)"
  by (simp add: msti_message_def Let_def split: option.split)

lemma rcvdTc_messages [simp]:
  "rcvdTc (pheap (msti_messages (msti_message r fl c p f) n w) q) = rcvdTc (pheap w q)"
  by (induction n) simp_all

lemma rcvdTc_setRcvdMsgs:
  "rcvdTc (pheap (stp_receive_setRcvdMsgs_Cisco p w) q) = rcvdTc (pheap w q)"
  "rcvdTc (pheap (stp_receive_setRcvdMsgs p w) q) = rcvdTc (pheap w q)"
proof -
  show cisco: "rcvdTc (pheap (stp_receive_setRcvdMsgs_Cisco p w) q) = rcvdTc (pheap w q)" for w
    by (simp add: stp_receive_setRcvdMsgs_Cisco_def Let_def split: option.split prod.split)
  show "rcvdTc (pheap (stp_receive_setRcvdMsgs p w) q) = rcvdTc (pheap w q)"
    by (simp add: stp_receive_setRcvdMsgs_def Let_def cisco split: option.split prod.split)
qed

text \<open>the receive machine never sets \<open>rcvdTc\<close> of the CIST port it runs for,
  whatever topology change flags the BPDU carries; only the MSTI ports hanging off it are told.\<close>

theorem cist_tc_bit_ignored:
  assumes "p \<notin> set (nextMst (pheap w p))"
  shows "rcvdTc (pheap (MSTP_receive_enter_state p w) p) = rcvdTc (pheap w p)"
proof -
  have "rcvdTc (pheap (stp_receive_setTcFlags p v) p) = rcvdTc (pheap v p)"
    if "nextMst (pheap v p) = nextMst (pheap w p)" for v
    using assms that by (simp add: stp_receive_setTcFlags_def Let_def)
  then show ?thesis
    by (simp add: MSTP_receive_enter_state_def Let_def rx_kept_fields rcvdTc_setRcvdMsgs
        stp_receive_updtBPDUVersion_def stp_receive_clearAllRcvdMsgs_def upds_field [of rcvdTc]
        split: receive_state.split)
qed

end
