(* ===== verification/StpTransmit.thy ===== *)
theory StpTransmit
  imports StpReceive
begin

text \<open>
  The transmission of BPDUs: the construction of the frames (\<open>stp_transmit.c\<close> and the MSTI encoders
  of \<open>stp_vector.c\<close>) and the Port Transmit machine. A frame is built as the packet structure of the
  code and handed over as that structure's bytes together with the number of bytes to send; the
  allocation of the structure is taken to succeed.
\<close>

abbreviation (input) STP_Nothing_To_Do :: int where "STP_Nothing_To_Do \<equiv> 32"
abbreviation (input) MIN_FRAME_LENGTH :: nat where "MIN_FRAME_LENGTH \<equiv> 64"

text \<open>Sizes of the structures.\<close>

abbreviation (input) size_MAC_HEADER_T :: nat where "size_MAC_HEADER_T \<equiv> 12"
abbreviation (input) size_ETH_HEADER_T :: nat where "size_ETH_HEADER_T \<equiv> 5"
abbreviation (input) size_BPDU_HEADER_T :: nat where "size_BPDU_HEADER_T \<equiv> 4"
abbreviation (input) size_BPDU_BODY_T :: nat where "size_BPDU_BODY_T \<equiv> 31"

record RSTP_BPDU_T =
  r_mac :: MAC_HEADER_T
  r_eth :: ETH_HEADER_T
  r_hdr :: BPDU_HEADER_T
  r_body :: BPDU_BODY_T
  r_ver_1_length :: u8

definition rstp_bytes :: "RSTP_BPDU_T \<Rightarrow> u8 list" where
  "rstp_bytes p = frame_head (r_mac p) (r_eth p) (r_hdr p) (r_body p) @ [r_ver_1_length p]"

subsection \<open>Headers and bodies\<close>

definition zero_body :: BPDU_BODY_T where
  "zero_body =
     \<lparr>b_flags = 0, b_root_id = replicate 8 0, b_root_path_cost = replicate 4 0,
      b_bridge_id = replicate 8 0, b_port_id = replicate 2 0, b_message_age = replicate 2 0,
      b_max_age = replicate 2 0, b_hello_time = replicate 2 0, b_forward_delay = replicate 2 0\<rparr>"

definition g_bpdu_packet :: RSTP_BPDU_T where
  "g_bpdu_packet =
     \<lparr>r_mac = \<lparr>dst_mac = [0x01, 0x80, 0xc2, 0x00, 0x00, 0x00], src_mac = replicate 6 0\<rparr>,
      r_eth = \<lparr>len8023 = [0, 0], dsap = BPDU_L_SAP, ssap = BPDU_L_SAP, llc = LLC_UI\<rparr>,
      r_hdr = \<lparr>protocol = [0, 0], version = BPDU_VERSION_ID, bpdu_type = 0\<rparr>,
      r_body = zero_body, r_ver_1_length = 0\<rparr>"

text \<open>\<open>stp_transmit_build_bpdu_header\<close> on the three headers of a packet; the last component is the
  returned length, padded to the minimum frame length.\<close>

definition stp_transmit_build_bpdu_header ::
  "u8 \<Rightarrow> nat \<Rightarrow> world \<Rightarrow> MAC_HEADER_T \<Rightarrow> ETH_HEADER_T \<Rightarrow> BPDU_HEADER_T
   \<Rightarrow> MAC_HEADER_T \<times> ETH_HEADER_T \<times> BPDU_HEADER_T \<times> nat" where
  "stp_transmit_build_bpdu_header ty pkt_len w m e h =
     (m\<lparr>src_mac := stp_to_get_port_mac w\<rparr>,
      e\<lparr>len8023 := htons (of_nat (pkt_len + 3))\<rparr>,
      (if ty = BPDU_RSTP then h\<lparr>bpdu_type := ty, version := BPDU_VERSION_RAPID_ID\<rparr>
       else if ty = BPDU_MSTP then h\<lparr>bpdu_type := BPDU_RSTP, version := BPDU_VERSION_MULTI_ID\<rparr>
       else h\<lparr>bpdu_type := ty, version := BPDU_VERSION_ID\<rparr>),
      max pkt_len MIN_FRAME_LENGTH)"

text \<open>The same on a whole RST packet.\<close>

definition rstp_header :: "u8 \<Rightarrow> nat \<Rightarrow> world \<Rightarrow> RSTP_BPDU_T \<Rightarrow> RSTP_BPDU_T \<times> nat" where
  "rstp_header ty pkt_len w b =
     (let (m, e, h, n) = stp_transmit_build_bpdu_header ty pkt_len w (r_mac b) (r_eth b) (r_hdr b) in
      (b\<lparr>r_mac := m, r_eth := e, r_hdr := h\<rparr>, n))"

definition flag :: "bool \<Rightarrow> u8 \<Rightarrow> u8" where
  "flag c b = (if c then b else 0)"

text \<open>The flags a port contributes to an MST message (CIST body and MSTI records).\<close>

definition mst_flags :: "PORT_T \<Rightarrow> u8" where
  "mst_flags t =
     flag (tcWhile t \<noteq> 0) TOLPLOGY_CHANGE_BIT OR flag (proposing t) PROPOSAL_BIT OR
     flag (learning t) LEARN_BIT OR flag (forwarding t) FORWARD_BIT OR flag (agree t) AGREEMENT_BIT"

fun role_code :: "PORT_ROLE_T \<Rightarrow> u8" where
  "role_code MasterPort = MSTP_PORT_ROLE_MASTER"
| "role_code AlternatePort = RSTP_PORT_ROLE_ALTBACK"
| "role_code BackupPort = RSTP_PORT_ROLE_ALTBACK"
| "role_code RootPort = RSTP_PORT_ROLE_ROOT"
| "role_code DesignatedPort = RSTP_PORT_ROLE_DESGN"
| "role_code _ = RSTP_PORT_ROLE_UNKN"

definition stp_transmit_build_config_bpdu :: "PORT_T \<Rightarrow> bool \<Rightarrow> BPDU_BODY_T \<Rightarrow> BPDU_BODY_T" where
  "stp_transmit_build_config_bpdu port set_topo_ack_flag b =
     stp_times_set (portTimes port)
       (stp_vector_set_vector (portPrio port)
         (b\<lparr>b_flags := flag (tcWhile port \<noteq> 0) TOLPLOGY_CHANGE_BIT OR
             flag (set_topo_ack_flag \<and> tcAck port) TOLPLOGY_CHANGE_ACK_BIT\<rparr>))"

definition stp_transmit_build_config_bpdu_mstp :: "PORT_T \<Rightarrow> BPDU_BODY_T \<Rightarrow> BPDU_BODY_T" where
  "stp_transmit_build_config_bpdu_mstp port b =
     stp_times_set (portTimes port)
       (b\<lparr>b_flags := mst_flags port,
          b_root_id := stp_vector_set_bridge_id (root_bridge (portPrio port)),
          b_root_path_cost := htonl (root_path_cost (portPrio port)),
          b_bridge_id := stp_vector_set_bridge_id (region_root_bridge (portPrio port)),
          b_port_id := htons (port_id port)\<rparr>)"

definition stp_transmit_build_cisco_config_bpdu_mstp :: "PORT_T \<Rightarrow> world \<Rightarrow> BPDU_BODY_T \<Rightarrow> BPDU_BODY_T" where
  "stp_transmit_build_cisco_config_bpdu_mstp port w b =
     stp_times_set (portTimes port)
       (b\<lparr>b_flags := mst_flags port,
          b_root_id := stp_vector_set_bridge_id (root_bridge (portPrio port)),
          b_root_path_cost := htonl (root_path_cost (portPrio port)),
          b_bridge_id := stp_vector_set_bridge_id (BrId (bheap w (owner port))),
          b_port_id := htons (port_id port)\<rparr>)"

subsection \<open>MSTI records\<close>

definition stp_vector_set_mst_vector :: "PORT_T \<Rightarrow> world \<Rightarrow> MSTI_CFG_MSG_T" where
  "stp_vector_set_mst_vector t w =
     \<lparr>msti_flags = mst_flags t OR flag (role t = MasterPort) MASTER_BIT OR push_bit PORT_ROLE_OFFS (role_code (role t)),
      msti_region_root_id = stp_vector_set_bridge_id (region_root_bridge (portPrio t)),
      msti_internal_root_path_cost = htonl (region_root_path_cost (portPrio t)),
      msti_bridge_priority = ucast (drop_bit 8 (prio (BrId (bheap w (owner t))) AND 0xf000)),
      msti_port_priority = ucast (drop_bit 8 (port_id t AND 0xf000)),
      msti_remaining_hops = RemainingHops (portTimes t)\<rparr>"

definition stp_vector_cisco_set_mst_vector :: "PORT_T \<Rightarrow> world \<Rightarrow> u8 \<Rightarrow> MSTI_Cisco_CFG_MST_T" where
  "stp_vector_cisco_set_mst_vector t w rsvd =
     \<lparr>mc_msti_id = of_nat (br_vlan_id (bheap w (owner t))),
      mc_msti_flags = mst_flags t OR flag (role t = MasterPort) MASTER_BIT OR push_bit PORT_ROLE_OFFS (role_code (role t)),
      mc_msti_region_root_id = stp_vector_set_bridge_id (region_root_bridge (portPrio t)),
      mc_msti_internal_root_path_cost = htonl (region_root_path_cost (portPrio t)),
      mc_msti_bridge_priority = stp_vector_set_bridge_id (BrId (bheap w (owner t))),
      mc_msti_port_priority = htons (drop_bit 8 (port_id t AND 0xf000)),
      mc_msti_remaining_hops = RemainingHops (portTimes t), mc_rsvd = rsvd\<rparr>"

text \<open>The loop over \<open>nextMst\<close>: record \<open>index\<close> describes the \<open>index\<close>-th MSTI port. The encoder of the
  802.1s layout also leaves the low byte of the last region root priority in \<open>pkt_mstid\<close>.\<close>

definition fill_mst :: "'a list \<Rightarrow> 'a list \<Rightarrow> 'a list" where
  "fill_mst rs ms = rs @ drop (length rs) ms"

definition last_mstid :: "MSTI_CFG_MSG_T list \<Rightarrow> world \<Rightarrow> world" where
  "last_mstid rs w = (if rs = [] then w else w\<lparr>pkt_mstid := ucast (msti_region_root_id (last rs) ! 1)\<rparr>)"

definition zero_msti :: MSTI_CFG_MSG_T where
  "zero_msti =
     \<lparr>msti_flags = 0, msti_region_root_id = replicate 8 0, msti_internal_root_path_cost = replicate 4 0,
      msti_bridge_priority = 0, msti_port_priority = 0, msti_remaining_hops = 0\<rparr>"

definition zero_mc :: MSTI_Cisco_CFG_MST_T where
  "zero_mc =
     \<lparr>mc_msti_id = 0, mc_msti_flags = 0, mc_msti_region_root_id = replicate 8 0,
      mc_msti_internal_root_path_cost = replicate 4 0, mc_msti_bridge_priority = replicate 8 0,
      mc_msti_port_priority = replicate 2 0, mc_msti_remaining_hops = 0, mc_rsvd = 0\<rparr>"

text \<open>A zeroed packet of the MST layouts with the template \<open>g_bpdu_packet\<close> copied over its head.\<close>

definition mstp_template :: MSTP_BPDU_T where
  "mstp_template =
     \<lparr>mac = r_mac g_bpdu_packet, eth = r_eth g_bpdu_packet, hdr = r_hdr g_bpdu_packet, body = zero_body,
      ver_1_len = 0, version_3_length = [0, 0],
      MSTCID = \<lparr>FormatSelector = 0, ConfigurationName = replicate 32 0, RevisionLevel = [0, 0],
                ConfigurationDigest = replicate 16 0\<rparr>,
      cist_inter_path_cost = replicate 4 0, cist_bridge_id = replicate 8 0, cist_remaining_hops = 0,
      MCfgMsg = replicate 64 zero_msti\<rparr>"

definition cisco_template :: MSTP_Cisco_BPDU_T where
  "cisco_template =
     \<lparr>c_mac = r_mac g_bpdu_packet, c_eth = r_eth g_bpdu_packet, c_hdr = r_hdr g_bpdu_packet, c_body = zero_body,
      c_ver_1_len = 0, c_rsvd1 = 0, c_version_3_length = [0, 0],
      ciscoMSTID = \<lparr>c_ConfigurationName = replicate 32 0, c_RevisionLevel = [0, 0],
                    c_ConfigurationDigest = replicate 16 0\<rparr>,
      cist_region_root_id = replicate 8 0, c_cist_inter_path_cost = replicate 4 0,
      c_cist_remaining_hops = 0, c_rsvd2 = 0, c_MCfgMsg = replicate 64 zero_mc\<rparr>"

subsection \<open>Sending\<close>

definition sendStpTcnbittoNpd :: "pref \<Rightarrow> world \<Rightarrow> world" where
  "sendStpTcnbittoNpd p w = emit (Npd_tcn (p_vlan_id (pheap w p)) 0 (port_index (pheap w p))) w"

text \<open>One notification per enabled port of the instance that owns the port.\<close>

definition flush_enabled :: "pref \<Rightarrow> world \<Rightarrow> world" where
  "flush_enabled p w =
     for_ports (\<lambda>q w. if portEnabled (pheap w q) then sendStpTcnbittoNpd q w else w) (ports (owner_of w p)) w"

definition send_from :: "pref \<Rightarrow> nat \<Rightarrow> u8 list \<Rightarrow> nat \<Rightarrow> world \<Rightarrow> int \<times> world" where
  "send_from p vlan bpdu pkt_len w =
     (let t = pheap w p in
      stp_to_tx_bpdu (port_index t) vlan bpdu (pkt_len + size_MAC_HEADER_T + size_ETH_HEADER_T)
        (isWAN t) (slot_no t) (port_no t) w)"

definition stp_transmit_txTcn :: "pref \<Rightarrow> world \<Rightarrow> int \<times> world" where
  "stp_transmit_txTcn p w =
     (if skip_tx (pheap w p) > 0
      then (STP_Nothing_To_Do, upd p (\<lambda>t. t\<lparr>skip_tx := skip_tx t - 1\<rparr>) w)
      else if admin_non_stp (pheap w p) then (1, w)
      else
        let (b, pkt_len) = rstp_header BPDU_TOPO_CHANGE_TYPE size_BPDU_HEADER_T w g_bpdu_packet;
            (iret, w) = send_from p (br_vlan_id (owner_of w p)) (rstp_bytes b) pkt_len w in
        (iret, flush_enabled p w))"

definition stp_transmit_txConfig :: "pref \<Rightarrow> world \<Rightarrow> int \<times> world" where
  "stp_transmit_txConfig p w =
     (if skip_tx (pheap w p) > 0
      then (STP_Nothing_To_Do, upd p (\<lambda>t. t\<lparr>skip_tx := skip_tx t - 1\<rparr>) w)
      else if admin_non_stp (pheap w p) then (1, w)
      else
        let (b, pkt_len) = rstp_header BPDU_CONFIG_TYPE (size_BPDU_HEADER_T + size_BPDU_BODY_T) w g_bpdu_packet;
            b = b\<lparr>r_body := stp_transmit_build_config_bpdu (pheap w p) True (r_body b)\<rparr> in
        send_from p (br_vlan_id (owner_of w p)) (rstp_bytes b) pkt_len w)"

text \<open>The packet of \<open>stp_transmit_txMstp\<close> and the length it sends; \<open>rs\<close> are the MSTI records.\<close>

definition txMstp_packet :: "pref \<Rightarrow> MSTI_CFG_MSG_T list \<Rightarrow> world \<Rightarrow> MSTP_BPDU_T \<times> nat" where
  "txMstp_packet p rs w =
     (let t = pheap w p; br = owner_of w p;
          mst = version_num (ForceVersion br) \<ge> 3;
          b = mstp_template\<lparr>body := stp_transmit_build_config_bpdu_mstp t zero_body\<rparr>;
          b = b\<lparr>body := (body b)\<lparr>b_flags := b_flags (body b) OR push_bit PORT_ROLE_OFFS (role_code (role t))\<rparr>\<rparr>;
          v3 = 64 + 16 * length rs;
          b = (if mst
               then b\<lparr>MSTCID := MstConfigId br, cist_bridge_id := stp_vector_set_bridge_id (BrId br),
                      cist_inter_path_cost := htonl (region_root_path_cost (portPrio t)),
                      cist_remaining_hops := RemainingHops (portTimes t),
                      MCfgMsg := fill_mst rs (MCfgMsg b), version_3_length := htons (of_nat v3)\<rparr>
               else b);
          pkt_len = (if mst then size_BPDU_HEADER_T + size_BPDU_BODY_T + 1 + 2 + v3
                     else size_BPDU_HEADER_T + size_BPDU_BODY_T + 1);
          (m, e, h, _) = stp_transmit_build_bpdu_header (if mst then BPDU_MSTP else BPDU_RSTP) pkt_len w (mac b) (eth b) (hdr b) in
      (b\<lparr>mac := m, eth := e, hdr := h\<rparr>, pkt_len))"

text \<open>The configuration digest that is sent to a Cisco peer: the one the port received, unless the
  user has configured one.\<close>

definition cisco_digest :: "pref \<Rightarrow> bref \<Rightarrow> world \<Rightarrow> u8 list" where
  "cisco_digest p cist w =
     (let own = ConfigurationDigest (MstConfigId (owner_of w p)) in
      if configDigestSnp (pheap w p)
      then (if br_digest (bheap w cist) ! 0 \<noteq> 0 then take 16 (br_digest (bheap w cist)) else p_digest (pheap w p))
      else own)"

definition txMstp_Cisco_packet :: "pref \<Rightarrow> bref \<Rightarrow> MSTI_Cisco_CFG_MST_T list \<Rightarrow> world \<Rightarrow> MSTP_Cisco_BPDU_T \<times> nat" where
  "txMstp_Cisco_packet p cist rs w =
     (let t = pheap w p; br = owner_of w p;
          mst = version_num (ForceVersion br) \<ge> 3;
          b = cisco_template\<lparr>c_body := stp_transmit_build_cisco_config_bpdu_mstp t w zero_body\<rparr>;
          b = b\<lparr>c_body := (c_body b)\<lparr>b_flags := b_flags (c_body b) OR push_bit PORT_ROLE_OFFS (role_code (role t))\<rparr>\<rparr>;
          v3 = 64 + 26 * length rs;
          b = (if mst
               then b\<lparr>ciscoMSTID := \<lparr>c_ConfigurationName = ConfigurationName (MstConfigId br),
                        c_RevisionLevel = RevisionLevel (MstConfigId br),
                        c_ConfigurationDigest = cisco_digest p cist w\<rparr>,
                      cist_region_root_id := stp_vector_set_bridge_id (region_root_bridge (portPrio t)),
                      c_cist_inter_path_cost := htonl (region_root_path_cost (portPrio t)),
                      c_cist_remaining_hops := RemainingHops (portTimes t),
                      c_MCfgMsg := fill_mst rs (c_MCfgMsg b), c_version_3_length := htons (of_nat v3)\<rparr>
               else b);
          pkt_len = (if mst then size_BPDU_HEADER_T + size_BPDU_BODY_T + 1 + 1 + 2 + v3
                     else size_BPDU_HEADER_T + size_BPDU_BODY_T + 1);
          (m, e, h, _) = stp_transmit_build_bpdu_header (if mst then BPDU_MSTP else BPDU_RSTP) pkt_len w (c_mac b) (c_eth b) (c_hdr b) in
      (b\<lparr>c_mac := m, c_eth := e, c_hdr := h\<rparr>, pkt_len))"

text \<open>Both MST senders notify the switch chip when the frame carries a topology change flag.\<close>

definition flush_on_tc :: "u8 \<Rightarrow> pref \<Rightarrow> world \<Rightarrow> world" where
  "flush_on_tc flags p w =
     (if flags AND TOLPLOGY_CHANGE_BIT \<noteq> 0 \<or> flags AND TOLPLOGY_CHANGE_ACK_BIT \<noteq> 0 then flush_enabled p w else w)"

text \<open>In MST mode the sender gives up when there is no CIST instance to take the user's digest from.\<close>

definition stp_transmit_txMstp_to_Cisco :: "pref \<Rightarrow> world \<Rightarrow> int \<times> world" where
  "stp_transmit_txMstp_to_Cisco p w =
     (let mst = version_num (ForceVersion (owner_of w p)) \<ge> 3;
          rs = map (\<lambda>q. stp_vector_cisco_set_mst_vector (pheap w q) w 0) (nextMst (pheap w p)) in
      case stp_stpm_get_instance STP_CIST_ID w of
        None \<Rightarrow>
          if mst then (STP_ERROR, w)
          else let (b, pkt_len) = txMstp_Cisco_packet p 0 rs w; (iret, w) = send_from p 1 (cisco_bytes b) pkt_len w in
               (iret, flush_on_tc (b_flags (c_body b)) p w)
      | Some cist \<Rightarrow>
          let (b, pkt_len) = txMstp_Cisco_packet p cist rs w; (iret, w) = send_from p 1 (cisco_bytes b) pkt_len w in
          (iret, flush_on_tc (b_flags (c_body b)) p w))"

definition stp_transmit_txMstp :: "pref \<Rightarrow> world \<Rightarrow> int \<times> world" where
  "stp_transmit_txMstp p w =
     (if admin_non_stp (pheap w p) then (1, w)
      else if version_num (ForceVersion (owner_of w p)) \<le> 1 then (STP_Nothing_To_Do, w)
      else if configDigestSnp (pheap w p) then stp_transmit_txMstp_to_Cisco p w
      else
        let rs = map (\<lambda>q. stp_vector_set_mst_vector (pheap w q) w) (nextMst (pheap w p));
            (b, pkt_len) = txMstp_packet p rs w;
            w = (if version_num (ForceVersion (owner_of w p)) \<ge> 3 then last_mstid rs w else w);
            (iret, w) = send_from p 1 (mstp_bytes b) pkt_len w in
        (iret, flush_on_tc (b_flags (body b)) p w))"

text \<open>\<open>stp_transmit_txRstp\<close>, the RST sender that \<open>stp_transmit_txMstp\<close> has replaced.\<close>

definition stp_transmit_txRstp :: "pref \<Rightarrow> world \<Rightarrow> int \<times> world" where
  "stp_transmit_txRstp p w =
     (if skip_tx (pheap w p) > 0
      then (STP_Nothing_To_Do, upd p (\<lambda>t. t\<lparr>skip_tx := skip_tx t - 1\<rparr>) w)
      else if admin_non_stp (pheap w p) then (1, w)
      else
        let t = pheap w p;
            (b, pkt_len) = rstp_header BPDU_RSTP (size_BPDU_HEADER_T + size_BPDU_BODY_T + 1) w g_bpdu_packet;
            b = b\<lparr>r_body := stp_transmit_build_config_bpdu t False (r_body b)\<rparr>;
            role = (if selectedRole t \<in> {AlternatePort, BackupPort, RootPort, DesignatedPort}
                    then role_code (selectedRole t) else RSTP_PORT_ROLE_UNKN);
            b = b\<lparr>r_body := (r_body b)\<lparr>b_flags := b_flags (r_body b) OR push_bit PORT_ROLE_OFFS role OR
                   flag (synced t) AGREEMENT_BIT OR flag (proposing t) PROPOSAL_BIT OR
                   flag (forwarding t) FORWARD_BIT OR flag (learning t) LEARN_BIT\<rparr>\<rparr> in
        send_from p (br_vlan_id (owner_of w p)) (rstp_bytes b) pkt_len w)"

subsection \<open>Conditions of the machine\<close>

definition stp_transmit_cistRootPort :: "nat \<Rightarrow> world \<Rightarrow> bool" where
  "stp_transmit_cistRootPort pidx w =
     (case stp_port_mst_findport STP_CIST_ID pidx w of None \<Rightarrow> False | Some c \<Rightarrow> role (pheap w c) = RootPort)"

definition stp_transmit_mstiRootPort :: "nat \<Rightarrow> world \<Rightarrow> bool" where
  "stp_transmit_mstiRootPort pidx w =
     (case stp_port_mst_findport STP_CIST_ID pidx w of
        None \<Rightarrow> False | Some c \<Rightarrow> list_ex (\<lambda>q. role (pheap w q) = RootPort) (nextMst (pheap w c)))"

definition stp_transmit_cistDesignatedPort :: "nat \<Rightarrow> world \<Rightarrow> bool" where
  "stp_transmit_cistDesignatedPort pidx w =
     (case stp_port_mst_findport STP_CIST_ID pidx w of None \<Rightarrow> False | Some c \<Rightarrow> role (pheap w c) = DesignatedPort)"

definition stp_transmit_mstiDesignatedPort :: "nat \<Rightarrow> world \<Rightarrow> bool" where
  "stp_transmit_mstiDesignatedPort pidx w =
     (case stp_port_mst_findport STP_CIST_ID pidx w of
        None \<Rightarrow> False | Some c \<Rightarrow> list_ex (\<lambda>q. role (pheap w q) = DesignatedPort) (nextMst (pheap w c)))"

definition stp_transmit_update_newInfoCist :: "nat \<Rightarrow> world \<Rightarrow> bool" where
  "stp_transmit_update_newInfoCist pidx w =
     (case stp_port_mst_findport STP_CIST_ID pidx w of
        None \<Rightarrow> False
      | Some c \<Rightarrow> let t = pheap w c in
          newInfoCist t \<or> role t = DesignatedPort \<or> role t = RootPort \<and> tcWhile t \<noteq> 0)"

definition stp_transmit_update_newInfoMsti :: "nat \<Rightarrow> world \<Rightarrow> bool" where
  "stp_transmit_update_newInfoMsti pidx w =
     (case stp_port_mst_findport STP_CIST_ID pidx w of
        None \<Rightarrow> False
      | Some c \<Rightarrow> list_ex (\<lambda>q. let t = pheap w q in
          newInfoMsti t \<or> role t = DesignatedPort \<or> role t = RootPort \<and> tcWhile t \<noteq> 0) (nextMst (pheap w c)))"

definition stp_transmit_ifselectedAndnotupdtInfoInAnyMstPort :: "nat \<Rightarrow> world \<Rightarrow> bool" where
  "stp_transmit_ifselectedAndnotupdtInfoInAnyMstPort pidx w =
     (case stp_port_mst_findport STP_CIST_ID pidx w of
        None \<Rightarrow> False
      | Some c \<Rightarrow> list_ex (\<lambda>q. selected (pheap w q) \<and> \<not> updtInfo (pheap w q)) (c # nextMst (pheap w c)))"

subsection \<open>The machine\<close>

definition MSTP_transmit_enter_state :: "pref \<Rightarrow> world \<Rightarrow> world" where
  "MSTP_transmit_enter_state p w =
     (let init = upd p (\<lambda>t. t\<lparr>newInfoCist := False, newInfoMsti := False, helloWhen := 0, txCount := 0\<rparr>) w;
          clear = upd p (\<lambda>t. t\<lparr>newInfoCist := False, newInfoMsti := False\<rparr>) w in
      case State (transmit (pheap w p)) of
        TX_BEGIN \<Rightarrow> init
      | TRANSMIT_INIT \<Rightarrow> init
      | TRANSMIT_PERIODIC \<Rightarrow>
          (let w = upd p (\<lambda>t. t\<lparr>newInfoCist := stp_transmit_update_newInfoCist (port_index t) w\<rparr>) w;
               w = upd p (\<lambda>t. t\<lparr>newInfoMsti := stp_transmit_update_newInfoMsti (port_index t) w\<rparr>) w in
           upd p (\<lambda>t. t\<lparr>helloWhen := ucast (HelloTime (rootTimes (owner_of w p)))\<rparr>) w)
      | IDLE \<Rightarrow> w
      | TRANSMIT_CONFIG \<Rightarrow>
          upd p (\<lambda>t. t\<lparr>txCount := txCount t + 1, tcAck := False\<rparr>) (snd (stp_transmit_txConfig p clear))
      | TRANSMIT_TCN \<Rightarrow> upd p (\<lambda>t. t\<lparr>txCount := txCount t + 1\<rparr>) (snd (stp_transmit_txTcn p clear))
      | TRANSMIT_RSTP \<Rightarrow>
          upd p (\<lambda>t. t\<lparr>txCount := txCount t + 1, tcAck := False\<rparr>) (snd (stp_transmit_txMstp p clear)))"

definition MSTP_transmit_check_conditions :: "pref \<Rightarrow> world \<Rightarrow> world \<times> bool" where
  "MSTP_transmit_check_conditions p w =
     (let port = pheap w p; i = port_index port; hop_2_state = hop transmit_update p in
      case State (transmit port) of
        TX_BEGIN \<Rightarrow> hop_2_state TRANSMIT_INIT w
      | IDLE \<Rightarrow>
          if \<not> stp_transmit_ifselectedAndnotupdtInfoInAnyMstPort i w then (w, False)
          else if \<not> adminEnable port \<or> admin_non_stp port then (w, False)
          else if helloWhen port = 0 then hop_2_state TRANSMIT_PERIODIC w
          else if \<not> sendRSTP port \<and> newInfoCist port \<and> txCount port < TxHoldCount \<and>
                  stp_transmit_cistDesignatedPort i w \<and> helloWhen port \<noteq> 0
          then hop_2_state TRANSMIT_CONFIG w
          else if \<not> sendRSTP port \<and> newInfoCist port \<and> txCount port < TxHoldCount \<and>
                  stp_transmit_cistRootPort i w \<and> tcWhile port \<noteq> 0 \<and> helloWhen port \<noteq> 0
          then hop_2_state TRANSMIT_TCN w
          else if sendRSTP port \<and> txCount port < TxHoldCount \<and> helloWhen port \<noteq> 0 \<and>
                  (newInfoCist port \<and> (stp_transmit_cistRootPort i w \<or> stp_transmit_cistDesignatedPort i w) \<or>
                   newInfoMsti port \<and> (stp_transmit_mstiRootPort i w \<or> stp_transmit_mstiDesignatedPort i w))
          then hop_2_state TRANSMIT_RSTP w
          else (w, False)
      | _ \<Rightarrow> hop_2_state IDLE w)"

definition transmit_machine :: "pref \<Rightarrow> world machine_ops" where
  "transmit_machine =
     port_machine transmit transmit_update TX_BEGIN MSTP_transmit_enter_state MSTP_transmit_check_conditions"

subsection \<open>What sending leaves alone\<close>

text \<open>Sending appends at most one frame and some notifications to the trace; apart from that only
  \<open>skip_tx\<close> and \<open>pkt_mstid\<close> change.\<close>

fun is_tx :: "out_event \<Rightarrow> bool" where
  "is_tx (Tx_bpdu _ _ _ _ _ _ _) = True"
| "is_tx _ = False"

definition tx_events :: "world \<Rightarrow> nat" where
  "tx_events w = length (filter is_tx (out w))"

definition sent :: "pref \<Rightarrow> world \<Rightarrow> world \<Rightarrow> bool" where
  "sent p w w' \<longleftrightarrow> (\<exists>k m es. w' = (upd p (\<lambda>t. t\<lparr>skip_tx := k\<rparr>) w)\<lparr>pkt_mstid := m, out := out w @ es\<rparr> \<and>
     length (filter is_tx es) \<le> 1)"

lemma sentI:
  assumes "length (filter is_tx es) \<le> 1"
  shows "sent p w (w\<lparr>pkt_mstid := m, out := out w @ es\<rparr>)"
  unfolding sent_def using assms
  by (intro exI [of _ "skip_tx (pheap w p)"] exI [of _ m] exI [of _ es]) (simp add: upd_def fun_upd_idem)

lemma sent_refl: "sent p w w"
  using sentI [of "[]" p w "pkt_mstid w"] by simp

lemma sent_skip: "sent p w (upd p (\<lambda>t. t\<lparr>skip_tx := skip_tx t - 1\<rparr>) w)"
  unfolding sent_def
  by (intro exI [of _ "skip_tx (pheap w p) - 1"] exI [of _ "pkt_mstid w"] exI [of _ "[]"]) (simp add: upd_def)

lemma flush_enabled_out:
  "\<exists>es. flush_enabled p w = w\<lparr>out := out w @ es\<rparr> \<and> filter is_tx es = []"
  unfolding flush_enabled_def
proof (rule for_ports_inv [where I = "\<lambda>v. \<exists>es. v = w\<lparr>out := out w @ es\<rparr> \<and> filter is_tx es = []"])
  fix q v
  assume "\<exists>es. v = w\<lparr>out := out w @ es\<rparr> \<and> filter is_tx es = []"
  then obtain es where v: "v = w\<lparr>out := out w @ es\<rparr>" and es: "filter is_tx es = []" by blast
  let ?e = "Npd_tcn (p_vlan_id (pheap v q)) 0 (port_index (pheap v q))"
  have "sendStpTcnbittoNpd q v = w\<lparr>out := out w @ (es @ [?e])\<rparr>"
    by (simp add: sendStpTcnbittoNpd_def emit_def v)
  moreover have "filter is_tx (es @ [?e]) = []" using es by simp
  ultimately have "\<exists>es. sendStpTcnbittoNpd q v = w\<lparr>out := out w @ es\<rparr> \<and> filter is_tx es = []" by blast
  moreover have "\<exists>es. v = w\<lparr>out := out w @ es\<rparr> \<and> filter is_tx es = []" using v es by blast
  ultimately show "\<exists>es. (if portEnabled (pheap v q) then sendStpTcnbittoNpd q v else v) = w\<lparr>out := out w @ es\<rparr> \<and>
      filter is_tx es = []"
    by (cases "portEnabled (pheap v q)") (simp_all only: if_True if_False)
next
  show "\<exists>es. w = w\<lparr>out := out w @ es\<rparr> \<and> filter is_tx es = []"
    by (rule exI [of _ "[]"]) simp
qed

lemma sent_frame:
  "sent p w (snd (send_from p n b l (w\<lparr>pkt_mstid := m\<rparr>)))"
  "sent p w (flush_enabled q (snd (send_from p n b l (w\<lparr>pkt_mstid := m\<rparr>))))"
proof -
  let ?t = "pheap w p"
  let ?e = "Tx_bpdu (port_index ?t) n b (l + 17) (isWAN ?t) (slot_no ?t) (port_no ?t)"
  let ?v = "snd (send_from p n b l (w\<lparr>pkt_mstid := m\<rparr>))"
  have v: "?v = w\<lparr>pkt_mstid := m, out := out w @ [?e]\<rparr>"
    by (simp add: send_from_def stp_to_tx_bpdu_def emit_def Let_def)
  show "sent p w ?v" unfolding v by (rule sentI) simp
  obtain es where "flush_enabled q ?v = ?v\<lparr>out := out ?v @ es\<rparr>" and es: "filter is_tx es = []"
    using flush_enabled_out [of q ?v] by blast
  then have "flush_enabled q ?v = w\<lparr>pkt_mstid := m, out := out w @ (?e # es)\<rparr>"
    unfolding v by simp
  then show "sent p w (flush_enabled q ?v)"
    using sentI [of "?e # es" p w m] es by simp
qed

lemma sent_frame_flush:
  "sent p w (flush_on_tc fl q (snd (send_from p n b l (w\<lparr>pkt_mstid := m\<rparr>))))"
  "sent p w (flush_on_tc fl q (snd (send_from p n b l w)))"
  "sent p w (snd (send_from p n b l w))" "sent p w (flush_enabled q (snd (send_from p n b l w)))"
  using sent_frame [where p = p and w = w and n = n and b = b and l = l and m = m]
    sent_frame [where p = p and w = w and n = n and b = b and l = l and m = "pkt_mstid w"]
  by (simp_all add: flush_on_tc_def)

lemma sent_tx:
  "sent p w (snd (stp_transmit_txTcn p w))" "sent p w (snd (stp_transmit_txConfig p w))"
  "sent p w (snd (stp_transmit_txMstp_to_Cisco p w))" "sent p w (snd (stp_transmit_txMstp p w))"
proof -
  show "sent p w (snd (stp_transmit_txTcn p w))"
    by (simp add: stp_transmit_txTcn_def Let_def split_beta sent_refl sent_skip sent_frame_flush)
  show "sent p w (snd (stp_transmit_txConfig p w))"
    by (simp add: stp_transmit_txConfig_def Let_def split_beta sent_refl sent_skip sent_frame_flush)
  show cisco: "sent p w (snd (stp_transmit_txMstp_to_Cisco p w))"
    by (simp add: stp_transmit_txMstp_to_Cisco_def Let_def split_beta sent_refl sent_frame_flush split: option.split)
  show "sent p w (snd (stp_transmit_txMstp p w))"
    by (simp add: stp_transmit_txMstp_def last_mstid_def Let_def split_beta sent_refl sent_frame_flush cisco)
qed

text \<open>The members the machine works on, and the frame of a state's entry.\<close>

lemma sent_fields:
  assumes "sent p w w'"
  shows "\<exists>k. pheap w' p = (pheap w p)\<lparr>skip_tx := k\<rparr>" and "q \<noteq> p \<Longrightarrow> pheap w' q = pheap w q"
    and "bheap w' = bheap w" and "tx_events w' \<le> tx_events w + 1"
  using assms by (auto simp: sent_def tx_events_def)

lemma sent_view:
  assumes "sent p w w'"
  shows "transmit (pheap w' p) = transmit (pheap w p)" "newInfoCist (pheap w' p) = newInfoCist (pheap w p)"
    "newInfoMsti (pheap w' p) = newInfoMsti (pheap w p)" "helloWhen (pheap w' p) = helloWhen (pheap w p)"
    "txCount (pheap w' p) = txCount (pheap w p)" "owner (pheap w' p) = owner (pheap w p)"
  using sent_fields(1) [OF assms] by auto

subsection \<open>The machine comes to rest\<close>

definition transmit_rank :: "pref \<Rightarrow> world \<Rightarrow> nat" where
  "transmit_rank p w =
     (let t = pheap w p in
      case State (transmit t) of
        TX_BEGIN \<Rightarrow> 6
      | TRANSMIT_INIT \<Rightarrow> 5
      | TRANSMIT_PERIODIC \<Rightarrow> 3
      | IDLE \<Rightarrow> if helloWhen t = 0 then 4 else if newInfoCist t \<or> newInfoMsti t then 2 else 0
      | _ \<Rightarrow> if helloWhen t = 0 then 5 else 1)"

definition hello_ok :: "pref \<Rightarrow> world \<Rightarrow> bool" where
  "hello_ok p w \<longleftrightarrow> HelloTime (rootTimes (owner_of w p)) \<noteq> 0"

text \<open>What entering a state does to the members the rank and the rate limit depend on.\<close>

definition transmit_view :: "PORT_T \<Rightarrow> transmit_state STATE_MACH_T \<times> bool \<times> bool \<times> u32 \<times> u32 \<times> bref" where
  "transmit_view t = (transmit t, newInfoCist t, newInfoMsti t, helloWhen t, txCount t, owner t)"

lemma transmit_enter_view:
  fixes w p
  defines "t \<equiv> pheap w p" and "w' \<equiv> MSTP_transmit_enter_state p w"
  shows "transmit_view (pheap w' p) =
      (case State (transmit t) of
         TX_BEGIN \<Rightarrow> (transmit t, False, False, 0, 0, owner t)
       | TRANSMIT_INIT \<Rightarrow> (transmit t, False, False, 0, 0, owner t)
       | TRANSMIT_PERIODIC \<Rightarrow> (transmit t, newInfoCist (pheap w' p), newInfoMsti (pheap w' p),
           ucast (HelloTime (rootTimes (owner_of w p))), txCount t, owner t)
       | IDLE \<Rightarrow> transmit_view t
       | _ \<Rightarrow> (transmit t, False, False, helloWhen t, txCount t + 1, owner t))"
    and "bheap w' = bheap w"
proof -
  let ?c = "upd p (\<lambda>t. t\<lparr>newInfoCist := False, newInfoMsti := False\<rparr>) w"
  note s = sent_tx [of p ?c]
  note v = s(1,2,4) [THEN sent_view(1)] s(1,2,4) [THEN sent_view(2)] s(1,2,4) [THEN sent_view(3)]
    s(1,2,4) [THEN sent_view(4)] s(1,2,4) [THEN sent_view(5)] s(1,2,4) [THEN sent_view(6)]
    s(1,2,4) [THEN sent_fields(3)]
  show "transmit_view (pheap w' p) =
      (case State (transmit t) of
         TX_BEGIN \<Rightarrow> (transmit t, False, False, 0, 0, owner t)
       | TRANSMIT_INIT \<Rightarrow> (transmit t, False, False, 0, 0, owner t)
       | TRANSMIT_PERIODIC \<Rightarrow> (transmit t, newInfoCist (pheap w' p), newInfoMsti (pheap w' p),
           ucast (HelloTime (rootTimes (owner_of w p))), txCount t, owner t)
       | IDLE \<Rightarrow> transmit_view t
       | _ \<Rightarrow> (transmit t, False, False, helloWhen t, txCount t + 1, owner t))"
    by (cases "State (transmit t)")
      (simp_all add: w'_def t_def MSTP_transmit_enter_state_def Let_def transmit_view_def v)
  show "bheap w' = bheap w"
    by (cases "State (transmit t)")
      (simp_all add: w'_def t_def MSTP_transmit_enter_state_def Let_def v)
qed

text \<open>The transitions the condition function can ask for.\<close>

definition transmit_hop :: "PORT_T \<Rightarrow> transmit_state \<Rightarrow> bool" where
  "transmit_hop t s \<longleftrightarrow>
     (case State (transmit t) of
        TX_BEGIN \<Rightarrow> s = TRANSMIT_INIT
      | IDLE \<Rightarrow> s = TRANSMIT_PERIODIC \<and> helloWhen t = 0 \<or>
          s \<in> {TRANSMIT_CONFIG, TRANSMIT_TCN, TRANSMIT_RSTP} \<and> helloWhen t \<noteq> 0 \<and>
          (newInfoCist t \<or> newInfoMsti t) \<and> txCount t < TxHoldCount
      | _ \<Rightarrow> s = IDLE)"

lemma transmit_check_hop:
  "MSTP_transmit_check_conditions p w = (w, False) \<or>
   (\<exists>s. MSTP_transmit_check_conditions p w = hop transmit_update p s w \<and> transmit_hop (pheap w p) s)"
  by (cases "State (transmit (pheap w p))")
    (auto simp: MSTP_transmit_check_conditions_def transmit_hop_def Let_def)

text \<open>A step in terms of the port after the entry.\<close>

lemma transmit_step:
  fixes w p
  defines "v \<equiv> MSTP_transmit_enter_state p w" and "w' \<equiv> statmch_step (transmit_machine p) w"
  shows "newInfoCist (pheap w' p) = newInfoCist (pheap v p)" "newInfoMsti (pheap w' p) = newInfoMsti (pheap v p)"
    "helloWhen (pheap w' p) = helloWhen (pheap v p)" "txCount (pheap w' p) = txCount (pheap v p)"
    "owner (pheap w' p) = owner (pheap v p)" "bheap w' = bheap w" "out w' = out v"
    "if changeState (transmit (pheap w' p)) then transmit_hop (pheap v p) (State (transmit (pheap w' p)))
     else State (transmit (pheap w' p)) = State (transmit (pheap v p))"
proof -
  let ?v = "upd p (transmit_update (\<lambda>m. m\<lparr>changeState := False\<rparr>)) v"
  have w': "w' = fst (stp_statmch_check_condition (transmit_machine p) ?v)"
    by (simp add: w'_def v_def statmch_step_def transmit_machine_def port_machine_def)
  have b: "bheap v = bheap w" unfolding v_def by (rule transmit_enter_view)
  have hop: "transmit_hop (pheap ?v p) s = transmit_hop (pheap v p) s" for s
    by (simp add: transmit_hop_def split: transmit_state.split)
  from transmit_check_hop [of p ?v] consider
    "w' = ?v" | s where "transmit_hop (pheap v p) s" and
      "w' = upd p (transmit_update (\<lambda>m. m\<lparr>changeState := True\<rparr>)) (upd p (transmit_update (stp_statmch_hop_2_state s)) ?v)"
    unfolding w' hop
    by (auto simp: stp_statmch_check_condition_def transmit_machine_def port_machine_def hop_def Let_def)
  then show "newInfoCist (pheap w' p) = newInfoCist (pheap v p)" "newInfoMsti (pheap w' p) = newInfoMsti (pheap v p)"
    "helloWhen (pheap w' p) = helloWhen (pheap v p)" "txCount (pheap w' p) = txCount (pheap v p)"
    "owner (pheap w' p) = owner (pheap v p)" "bheap w' = bheap w" "out w' = out v"
    "if changeState (transmit (pheap w' p)) then transmit_hop (pheap v p) (State (transmit (pheap w' p)))
     else State (transmit (pheap w' p)) = State (transmit (pheap v p))"
    by (cases; simp add: b)+
qed

lemma ucast_0_iff: "(ucast (h :: u16) :: u32) = 0 \<longleftrightarrow> h = 0"
proof -
  have "unat h < 65536" using unsigned_less [of h] by simp
  then have "unat (ucast h :: u32) = unat h" by (simp add: unsigned_ucast_eq take_bit_nat_eq_self)
  then show ?thesis by (metis unsigned_0 unsigned_eq_0_iff)
qed

lemmas transmit_enter_fields = transmit_enter_view(1) [unfolded transmit_view_def]

interpretation tx: progressing_machine "transmit_machine p" "hello_ok p" "transmit_rank p" for p
proof
  fix w
  note e = transmit_enter_fields [of p w] and s = transmit_step [of p w]
  have c: "get_changeState (transmit_machine p) u = changeState (transmit (pheap u p))" for u
    by (simp add: transmit_machine_def port_machine_def)
  show "hello_ok p (statmch_step (transmit_machine p) w)" if "hello_ok p w"
    using e s(5,6) that by (cases "State (transmit (pheap w p))") (simp_all add: hello_ok_def)
  show "transmit_rank p (statmch_step (transmit_machine p) w) < transmit_rank p w"
    if "hello_ok p w" "get_changeState (transmit_machine p) (statmch_step (transmit_machine p) w)"
    using e s(1,2,3,8) that
    by (cases "State (transmit (pheap w p))")
      (auto simp: c transmit_rank_def hello_ok_def transmit_hop_def ucast_0_iff Let_def split: if_splits)
qed

lemma transmit_run:
  assumes "HelloTime (rootTimes (owner_of w p)) \<noteq> 0"
  shows "\<exists>w' n. stp_statmch_change_state (transmit_machine p) 0 w = Some (w', n) \<and>
    \<not> changeState (transmit (pheap w' p)) \<and> n \<le> 7"
proof -
  have "transmit_rank p w \<le> 6"
    by (simp add: transmit_rank_def Let_def split: transmit_state.split)
  moreover have "get_changeState (transmit_machine p) u = changeState (transmit (pheap u p))" for u
    by (simp add: transmit_machine_def port_machine_def)
  ultimately show ?thesis
    using tx.change_state_returns [of p w 0] assms unfolding hello_ok_def by fastforce
qed

text \<open>C15: with a non-zero hello time the Port Transmit machine comes to rest after at
  most seven transitions, from any state.\<close>

theorem transmit_returns:
  assumes "HelloTime (rootTimes (owner_of w p)) \<noteq> 0"
  shows "\<exists>w' n. stp_statmch_change_state (transmit_machine p) 0 w = Some (w', n) \<and>
    \<not> changeState (transmit (pheap w' p)) \<and> n \<le> 7"
  using assms by (rule transmit_run)

text \<open>The periodic cycle without a hello time: nothing stops the machine.\<close>

definition hello_cycle :: "pref \<Rightarrow> world \<Rightarrow> bool" where
  "hello_cycle p w \<longleftrightarrow>
     (let t = pheap w p in
      State (transmit t) \<in> {IDLE, TRANSMIT_PERIODIC} \<and> changeState (transmit t) \<and> helloWhen t = 0 \<and>
      adminEnable t \<and> \<not> admin_non_stp t \<and> HelloTime (rootTimes (owner_of w p)) = 0 \<and>
      stp_port_mst_findport STP_CIST_ID (port_index t) w = Some p \<and> selected t \<and> \<not> updtInfo t)"

lemma hello_cycle_step:
  assumes "hello_cycle p w"
  shows "hello_cycle p (statmch_step (transmit_machine p) w)"
proof -
  have "State (transmit (pheap w p)) = IDLE \<or> State (transmit (pheap w p)) = TRANSMIT_PERIODIC"
    using assms by (auto simp: hello_cycle_def Let_def)
  then show ?thesis
    using assms
    by (elim disjE)
      (simp_all add: hello_cycle_def transmit_machine_def machine_simps MSTP_transmit_enter_state_def
        MSTP_transmit_check_conditions_def stp_transmit_ifselectedAndnotupdtInfoInAnyMstPort_def)
qed

text \<open>when the root's hello time is zero (the value is taken from received BPDUs
  without a check), the machine of an enabled, selected CIST port alternates between \<open>IDLE\<close> and
  \<open>TRANSMIT_PERIODIC\<close> for ever: the state machine driver does not return.\<close>

theorem transmit_livelock:
  assumes "State (transmit (pheap w p)) = IDLE" and "changeState (transmit (pheap w p))"
    and "helloWhen (pheap w p) = 0" and "adminEnable (pheap w p)" and "\<not> admin_non_stp (pheap w p)"
    and "HelloTime (rootTimes (owner_of w p)) = 0" and "selected (pheap w p)" and "\<not> updtInfo (pheap w p)"
    and "stp_port_mst_findport STP_CIST_ID (port_index (pheap w p)) w = Some p"
  shows "stp_statmch_change_state (transmit_machine p) 0 w = None"
proof (rule change_state_diverges [where I = "hello_cycle p"])
  show "hello_cycle p w" using assms by (simp add: hello_cycle_def)
  show "hello_cycle p v \<Longrightarrow> get_changeState (transmit_machine p) v" for v
    by (simp add: hello_cycle_def transmit_machine_def port_machine_def Let_def)
qed (rule hello_cycle_step)

subsection \<open>The transmission rate is limited\<close>

text \<open>Frames sent plus frames still allowed, for a machine past its initialisation.\<close>

definition tx_budget :: "nat \<Rightarrow> pref \<Rightarrow> world \<Rightarrow> bool" where
  "tx_budget n p w \<longleftrightarrow>
     (let t = pheap w p in
      State (transmit t) \<notin> {TX_BEGIN, TRANSMIT_INIT} \<and> txCount t \<le> TxHoldCount \<and>
      tx_events w + (3 - unat (txCount t)) \<le> n \<and>
      (changeState (transmit t) \<and> State (transmit t) \<in> {TRANSMIT_CONFIG, TRANSMIT_TCN, TRANSMIT_RSTP} \<longrightarrow>
       txCount t < TxHoldCount))"

lemma transmit_enter_events:
  fixes w p
  defines "s \<equiv> State (transmit (pheap w p))"
  shows "tx_events (MSTP_transmit_enter_state p w) \<le>
    tx_events w + (if s \<in> {TRANSMIT_CONFIG, TRANSMIT_TCN, TRANSMIT_RSTP} then 1 else 0)"
proof -
  let ?c = "upd p (\<lambda>t. t\<lparr>newInfoCist := False, newInfoMsti := False\<rparr>) w"
  note e = sent_tx(1,2,4) [of p ?c, THEN sent_fields(4)]
  show ?thesis
    using e by (cases s) (simp_all add: s_def MSTP_transmit_enter_state_def Let_def tx_events_def)
qed

lemma tx_budget_step:
  assumes "tx_budget n p w" and "changeState (transmit (pheap w p))"
  shows "tx_budget n p (statmch_step (transmit_machine p) w)"
proof -
  let ?s = "State (transmit (pheap w p))" and ?t = "pheap w p"
  note e = transmit_enter_fields [of p w] and s = transmit_step [of p w] and ev = transmit_enter_events [of p w]
  have inc: "txCount ?t < 3 \<Longrightarrow> unat (txCount ?t + 1) = unat (txCount ?t) + 1 \<and> txCount ?t + 1 \<le> 3"
    by (simp add: word_less_nat_alt word_le_nat_alt unat_word_ariths)
  have lt: "txCount ?t < 3 \<Longrightarrow> unat (txCount ?t) < 3" by (simp add: word_less_nat_alt)
  have out: "tx_events (statmch_step (transmit_machine p) w) = tx_events (MSTP_transmit_enter_state p w)"
    using s(7) by (simp add: tx_events_def)
  show ?thesis
    using assms e s(4,8) ev inc lt
    by (cases ?s) (auto simp: tx_budget_def Let_def out transmit_hop_def split: if_splits)
qed


end
