(* ===== verification/StpRoundtrip.thy ===== *)
theory StpRoundtrip
  imports StpTransmit
begin

text \<open>
  The transmit and the receive side agree: an MST BPDU that \<open>stp_transmit_txMstp\<close> builds passes the
  header check of a receiving port, and the receive machine's procedures decode from it the
  priority vectors and the timer values of the sending port, for the CIST and for every MSTI.
\<close>

subsection \<open>Bit fields of the MSTI records\<close>

lemma mask_f000: "(0xf000 :: u16) = push_bit 12 (mask 4)" by (simp add: mask_eq_exp_minus_1)

lemma mask_f0: "(0xf0 :: u8) = push_bit 4 (mask 4)" by (simp add: mask_eq_exp_minus_1)

lemma mask_f0': "(0xf0 :: u16) = push_bit 4 (mask 4)" by (simp add: mask_eq_exp_minus_1)

lemma mask_0fff: "(0x0fff :: u16) = mask 12" by (simp add: mask_eq_exp_minus_1)

lemma priority_nibble:
  "0xf000 AND push_bit 8 (ucast ((ucast (drop_bit 8 x AND 0xf0) :: u8) AND 0xf0)) = (x :: u16) AND 0xf000"
  unfolding mask_f000 mask_f0 mask_f0' by (rule bit_word_eqI) (auto simp: bit_simps)

lemma priority_split: "(x AND 0xf000) + (0x0fff AND x) = (x :: u16)"
proof -
  have "(x AND 0xf000) AND (0x0fff AND x) = 0"
    unfolding mask_f000 mask_0fff by (rule bit_word_eqI) (auto simp: bit_simps)
  then have "(x AND 0xf000) + (0x0fff AND x) = (x AND 0xf000) OR (0x0fff AND x)"
    by (simp add: disjunctive_add_eq_or)
  also have "\<dots> = x"
    unfolding mask_f000 mask_0fff by (rule bit_word_eqI) (auto simp: bit_simps)
  finally show ?thesis .
qed

subsection \<open>A well-formed sender\<close>

text \<open>The members a sender copies into a frame have the sizes of their C arrays; there are at most
  64 MSTI ports.\<close>

definition tx_port_ok :: "PORT_T \<Rightarrow> bool" where
  "tx_port_ok t \<longleftrightarrow> bridge_ok (root_bridge (portPrio t)) \<and> bridge_ok (region_root_bridge (portPrio t))"

definition sender_ok :: "pref \<Rightarrow> world \<Rightarrow> bool" where
  "sender_ok p w \<longleftrightarrow>
     tx_port_ok (pheap w p) \<and> bridge_ok (BrId (owner_of w p)) \<and> mstcid_ok (MstConfigId (owner_of w p)) \<and>
     length (sysMac w) = 6 \<and> length (nextMst (pheap w p)) \<le> 64 \<and>
     (\<forall>q \<in> set (nextMst (pheap w p)). tx_port_ok (pheap w q))"

abbreviation msti_records :: "pref \<Rightarrow> world \<Rightarrow> MSTI_CFG_MSG_T list" where
  "msti_records p w \<equiv> map (\<lambda>q. stp_vector_set_mst_vector (pheap w q) w) (nextMst (pheap w p))"

text \<open>The MST packet of a port, and its length on the wire.\<close>

definition mst_packet :: "pref \<Rightarrow> world \<Rightarrow> MSTP_BPDU_T" where
  "mst_packet p w = fst (txMstp_packet p (msti_records p w) w)"

definition mst_length :: "pref \<Rightarrow> world \<Rightarrow> nat" where
  "mst_length p w = 119 + 16 * length (nextMst (pheap w p))"

lemma mst_packet_alt:
  assumes "ForceVersion (owner_of w p) = NORMAL_MSTP"
  shows "mst_packet p w =
    \<lparr>mac = \<lparr>dst_mac = [0x01, 0x80, 0xc2, 0x00, 0x00, 0x00], src_mac = take 6 (sysMac w)\<rparr>,
     eth = \<lparr>len8023 = htons (of_nat (105 + 16 * length (nextMst (pheap w p)))),
            dsap = BPDU_L_SAP, ssap = BPDU_L_SAP, llc = LLC_UI\<rparr>,
     hdr = \<lparr>protocol = [0, 0], version = BPDU_VERSION_MULTI_ID, bpdu_type = BPDU_RSTP\<rparr>,
     body = (let b = stp_transmit_build_config_bpdu_mstp (pheap w p) zero_body in
             b\<lparr>b_flags := b_flags b OR push_bit PORT_ROLE_OFFS (role_code (role (pheap w p)))\<rparr>),
     ver_1_len = 0, version_3_length = htons (of_nat (64 + 16 * length (nextMst (pheap w p)))),
     MSTCID = MstConfigId (owner_of w p),
     cist_inter_path_cost = htonl (region_root_path_cost (portPrio (pheap w p))),
     cist_bridge_id = stp_vector_set_bridge_id (BrId (owner_of w p)),
     cist_remaining_hops = RemainingHops (portTimes (pheap w p)),
     MCfgMsg = fill_mst (msti_records p w) (replicate 64 zero_msti)\<rparr>"
  using assms
  by (simp add: mst_packet_def txMstp_packet_def stp_transmit_build_bpdu_header_def mstp_template_def
      g_bpdu_packet_def Let_def stp_to_get_port_mac_def)

lemma txMstp_length:
  "ForceVersion (owner_of w p) = NORMAL_MSTP \<Longrightarrow> snd (txMstp_packet p (msti_records p w) w) + 17 = mst_length p w"
  by (simp add: txMstp_packet_def stp_transmit_build_bpdu_header_def mst_length_def Let_def)

lemma set_mst_vector_ok:
  "tx_port_ok t \<Longrightarrow> msti_ok (stp_vector_set_mst_vector t w)"
  by (simp add: msti_ok_def stp_vector_set_mst_vector_def tx_port_ok_def)

lemma zero_msti_ok: "msti_ok zero_msti"
  by (simp add: msti_ok_def zero_msti_def)

lemma mst_packet_ok:
  assumes "ForceVersion (owner_of w p) = NORMAL_MSTP" and "sender_ok p w"
  shows "mstp_ok (mst_packet p w)"
proof -
  have "\<forall>m \<in> set (MCfgMsg (mst_packet p w)). msti_ok m"
    using assms
    by (auto simp: mst_packet_alt fill_mst_def sender_ok_def set_mst_vector_ok zero_msti_ok dest!: in_set_dropD)
  moreover have "length (MCfgMsg (mst_packet p w)) = 64"
    using assms by (simp add: mst_packet_alt fill_mst_def sender_ok_def)
  ultimately show ?thesis
    using assms
    by (simp add: mstp_ok_def)
      (simp add: mst_packet_alt mac_ok_def eth_ok_def hdr_ok_def body_ok_def Let_def sender_ok_def tx_port_ok_def
        stp_transmit_build_config_bpdu_mstp_def stp_times_set_def zero_body_def)
qed

lemma mst_packet_view:
  assumes "ForceVersion (owner_of w p) = NORMAL_MSTP" and "sender_ok p w"
  shows "mstp_view (mstp_bytes (mst_packet p w)) = mst_packet p w"
    and "hdr_view (mstp_bytes (mst_packet p w)) = hdr (mst_packet p w)"
    and "eth_view (mstp_bytes (mst_packet p w)) = eth (mst_packet p w)"
    and "body_view (mstp_bytes (mst_packet p w)) = body (mst_packet p w)"
proof -
  show v: "mstp_view (mstp_bytes (mst_packet p w)) = mst_packet p w"
    using mst_packet_ok [OF assms] by (rule mstp_view_bytes)
  from arg_cong [OF v, of hdr] show "hdr_view (mstp_bytes (mst_packet p w)) = hdr (mst_packet p w)"
    by (simp add: mstp_view_def)
  from arg_cong [OF v, of eth] show "eth_view (mstp_bytes (mst_packet p w)) = eth (mst_packet p w)"
    by (simp add: mstp_view_def)
  from arg_cong [OF v, of body] show "body_view (mstp_bytes (mst_packet p w)) = body (mst_packet p w)"
    by (simp add: mstp_view_def)
qed

lemma unat_of_nat_small: "n < 65536 \<Longrightarrow> unat (of_nat n :: u16) = n"
  by (simp add: unsigned_of_nat take_bit_nat_eq_self)

text \<open>in MST mode a port that takes part in the protocol sends exactly its MST packet, with
  as many bytes as the headers, the CIST part and one record per MSTI port occupy: the frame ends
  where the packet's contents end, and it fits the packet structure.\<close>

theorem mst_frame_sent:
  assumes "ForceVersion (owner_of w p) = NORMAL_MSTP" and "\<not> admin_non_stp (pheap w p)"
    and "\<not> configDigestSnp (pheap w p)" and "sender_ok p w"
  shows "filter is_tx (out (snd (stp_transmit_txMstp p w))) = filter is_tx (out w) @
      [Tx_bpdu (port_index (pheap w p)) 1 (mstp_bytes (mst_packet p w)) (119 + 16 * length (nextMst (pheap w p)))
        (isWAN (pheap w p)) (slot_no (pheap w p)) (port_no (pheap w p))] \<and>
    119 + 16 * length (nextMst (pheap w p)) \<le> length (mstp_bytes (mst_packet p w))"
proof -
  let ?rs = "msti_records p w"
  let ?v = "snd (send_from p 1 (mstp_bytes (mst_packet p w)) (snd (txMstp_packet p ?rs w)) (last_mstid ?rs w))"
  have l: "pheap (last_mstid ?rs w) = pheap w" "out (last_mstid ?rs w) = out w" "bheap (last_mstid ?rs w) = bheap w"
    by (simp_all add: last_mstid_def)
  have fl: "filter is_tx (out (flush_on_tc fl q u)) = filter is_tx (out u)" for fl q u
    using flush_enabled_out [of q u] by (auto simp: flush_on_tc_def)
  have v: "filter is_tx (out ?v) = filter is_tx (out w) @
      [Tx_bpdu (port_index (pheap w p)) 1 (mstp_bytes (mst_packet p w)) (mst_length p w)
        (isWAN (pheap w p)) (slot_no (pheap w p)) (port_no (pheap w p))]"
    using txMstp_length [OF assms(1)] by (simp add: send_from_def stp_to_tx_bpdu_def l Let_def)
  have "snd (stp_transmit_txMstp p w) = flush_on_tc (b_flags (body (mst_packet p w))) p ?v"
    using assms by (simp add: stp_transmit_txMstp_def Let_def split_beta mst_packet_def)
  moreover have "length (mstp_bytes (mst_packet p w)) = 1143"
    using mst_packet_ok [OF assms(1,4)] by (rule length_mstp_bytes)
  ultimately show ?thesis using v assms(4) by (simp add: fl mst_length_def sender_ok_def)
qed

text \<open>C8: a port without digest snooping classifies the frame of a well-formed MST
  sender as an MSTP BPDU.\<close>

theorem mst_header_accepted:
  assumes "ForceVersion (owner_of w p) = NORMAL_MSTP" and "sender_ok p w" and "\<not> configDigestSnp port"
  shows "stp_in_check_bpdu_header port (mstp_bytes (mst_packet p w)) (119 + 16 * length (nextMst (pheap w p))) =
    (0, Some BPDU_MSTP)"
proof -
  let ?n = "length (nextMst (pheap w p))"
  have n: "?n \<le> 64" using assms by (simp add: sender_ok_def)
  have u: "unat (of_nat (105 + 16 * ?n) :: u16) = 105 + 16 * ?n" "unat (of_nat (64 + 16 * ?n) :: u16) = 64 + 16 * ?n"
    using n by (intro unat_of_nat_small; simp)+
  have "mst_count (of_nat (64 + 16 * ?n)) 16 = int ?n"
    unfolding mst_count_def u by simp
  then have "check_version_3 port (mstp_bytes (mst_packet p w)) (119 + 16 * ?n) = (0, Some BPDU_MSTP)"
    using n assms(3) mst_packet_view(1) [OF assms(1,2)]
    by (simp add: check_version_3_def mst_packet_alt [OF assms(1)] Let_def del: of_nat_add of_nat_mult)
  then show ?thesis
    using n u(1) mst_packet_view(2,3) [OF assms(1,2)]
    by (simp add: stp_in_check_bpdu_header_def mst_packet_alt [OF assms(1)] Let_def del: of_nat_add of_nat_mult)
qed

subsection \<open>Decoding\<close>

text \<open>The look-up of an MSTI port does not depend on the message members of the ports.\<close>

lemma findport_upd:
  assumes "\<And>t. nextMst (g t) = nextMst t" and "\<And>t. owner (g t) = owner t"
  shows "stp_port_mst_findport m i (upd q g w) = stp_port_mst_findport m i w"
proof -
  have "nextMst (pheap (upd q g w) r) = nextMst (pheap w r)" and "owner (pheap (upd q g w) r) = owner (pheap w r)" for r
    using assms by simp_all
  then show ?thesis
    by (simp add: stp_port_mst_findport_def split: option.split)
qed

lemma findport_message:
  "stp_port_mst_findport m j (msti_message r fl c p f i w) = stp_port_mst_findport m j w"
  by (simp add: msti_message_def Let_def findport_upd split: option.split)

lemma findport_messages:
  "stp_port_mst_findport m j (msti_messages (msti_message r fl c p f) n w) = stp_port_mst_findport m j w"
  by (induction n) (simp_all add: findport_message)

lemma messages_port_index:
  "port_index (pheap (msti_messages (msti_message r fl c p f) n w) q) = port_index (pheap w q)"
  using rx_kept_messages [where q = q] by (simp add: rx_kept_def)

lemma messages_other:
  assumes "\<And>i. i < n \<Longrightarrow> stp_port_mst_findport (unat (ntohs (r f i) AND 0x0fff)) (port_index (pheap w p)) w \<noteq> Some q"
  shows "pheap (msti_messages (msti_message r fl c p f) n w) q = pheap w q"
  using assms
proof (induction n)
  case (Suc n)
  let ?u = "msti_messages (msti_message r fl c p f) n w"
  have "stp_port_mst_findport (unat (ntohs (r f n) AND 0x0fff)) (port_index (pheap ?u p)) ?u \<noteq> Some q"
    using Suc.prems [of n] by (simp add: findport_messages messages_port_index)
  then have "pheap (msti_message r fl c p f n ?u) q = pheap ?u q"
    by (auto simp: msti_message_def Let_def split: option.split)
  then show ?case using Suc by simp
qed simp

text \<open>The timer values travel in the high byte of their fields.\<close>

definition wire_times :: "TIMEVALUES_T \<Rightarrow> bool" where
  "wire_times t \<longleftrightarrow> MessageAge t < 256 \<and> MaxAge t < 256 \<and> ForwardDelay t < 256 \<and> HelloTime t < 256"

lemma times_roundtrip:
  assumes "wire_times t"
  shows "stp_times_get (stp_times_set t b) v = t\<lparr>RemainingHops := RemainingHops v\<rparr>"
  using assms
  by (simp add: stp_times_get_def stp_times_set_def wire_times_def drop_push_16 take_bit_8_small)

text \<open>The receiver: the frame is its current BPDU, and none of the frame's MSTI records is for the
  receiving CIST port itself.\<close>

definition receiver_of :: "pref \<Rightarrow> world \<Rightarrow> pref \<Rightarrow> world \<Rightarrow> bool" where
  "receiver_of p w q v \<longleftrightarrow>
     (\<exists>d. stp_in_get_cur_bpdu v = Some (mstp_bytes (mst_packet p w), BPDU_MSTP, d)) \<and>
     \<not> configDigestSnp (pheap v q) \<and> rcvdInternal (pheap v q) \<and>
     (\<forall>r \<in> set (nextMst (pheap w p)).
        stp_port_mst_findport (unat (prio (region_root_bridge (portPrio (pheap w r))) AND 0x0fff)) (port_index (pheap v q)) v \<noteq> Some q)"

lemma mst_record:
  assumes "ForceVersion (owner_of w p) = NORMAL_MSTP" and "sender_ok p w" and "i < length (nextMst (pheap w p))"
  shows "msti_view i (mstp_bytes (mst_packet p w)) = stp_vector_set_mst_vector (pheap w (nextMst (pheap w p) ! i)) w"
proof -
  have "i < 64" using assms by (simp add: sender_ok_def)
  then show ?thesis
    using msti_view_mstp [OF mst_packet_ok [OF assms(1,2)]] assms
    by (simp add: mst_packet_alt fill_mst_def nth_append)
qed

lemma mst_record_id:
  assumes "ForceVersion (owner_of w p) = NORMAL_MSTP" and "sender_ok p w" and "i < length (nextMst (pheap w p))"
  shows "ntohs (msti_region_root_id (msti_view i (mstp_bytes (mst_packet p w)))) =
    prio (region_root_bridge (portPrio (pheap w (nextMst (pheap w p) ! i))))"
  using assms
  by (simp add: mst_record stp_vector_set_mst_vector_def stp_vector_set_bridge_id_def stp_vector_set_short_def)

lemma mst_bound:
  assumes "ForceVersion (owner_of w p) = NORMAL_MSTP" and "sender_ok p w"
  shows "msti_bound (ntohs (version_3_length (mst_packet p w))) 16 = length (nextMst (pheap w p))"
proof -
  let ?n = "length (nextMst (pheap w p))"
  have n: "?n \<le> 64" using assms by (simp add: sender_ok_def)
  have "mst_count (of_nat (64 + 16 * ?n)) 16 = int ?n"
    unfolding mst_count_def using n by (subst (1 2) unat_of_nat_small) simp_all
  then show ?thesis
    using n unat_of_nat_small [of ?n]
    by (simp add: msti_bound_def mst_packet_alt [OF assms(1)] del: of_nat_add of_nat_mult)
qed

text \<open>C5: what the receiving CIST port of the same region decodes from the frame is
  the sender's priority vector with the sender as designated bridge and port, and the sender's
  timer values and remaining hops.\<close>

theorem cist_message_decoded:
  assumes "ForceVersion (owner_of w p) = NORMAL_MSTP" and "sender_ok p w" and "wire_times (portTimes (pheap w p))"
    and "receiver_of p w q v"
  shows "let t = pheap (stp_receive_setRcvdMsgs q v) q in
    rcvdMsg t \<and>
    msgPrio t = stp_vector_create
      (root_bridge (portPrio (pheap w p))) (root_path_cost (portPrio (pheap w p)))
      (region_root_bridge (portPrio (pheap w p))) (region_root_path_cost (portPrio (pheap w p)))
      (BrId (owner_of w p)) (port_id (pheap w p)) (port_id (pheap v q)) \<and>
    msgTimes t = portTimes (pheap w p)"
proof -
  let ?b = "mst_packet p w" and ?n = "length (nextMst (pheap w p))"
  obtain d where cur: "stp_in_get_cur_bpdu v = Some (mstp_bytes ?b, BPDU_MSTP, d)"
    and q: "\<not> configDigestSnp (pheap v q)" "rcvdInternal (pheap v q)"
    using assms(4) by (auto simp: receiver_of_def)
  have ok: "bridge_ok (root_bridge (portPrio (pheap w p)))" "bridge_ok (region_root_bridge (portPrio (pheap w p)))"
      "bridge_ok (BrId (owner_of w p))"
    using assms(2) by (simp_all add: sender_ok_def tx_port_ok_def)
  define g :: "PORT_T \<Rightarrow> PORT_T" where "g = (\<lambda>t. let v = (msgPrio t)\<lparr>root_bridge := stp_vector_get_bridge_id (b_root_id (body ?b)),
        root_path_cost := ntohl (b_root_path_cost (body ?b)),
        region_root_bridge := stp_vector_get_bridge_id (b_bridge_id (body ?b)),
        design_port := ntohs (b_port_id (body ?b)), bridge_port := port_id t,
        design_bridge := stp_vector_get_bridge_id (cist_bridge_id ?b),
        region_root_path_cost := (if rcvdInternal t then ntohl (cist_inter_path_cost ?b) else 0)\<rparr> in
      t\<lparr>msgPrio := v, msgTimes := (stp_times_get (body ?b) (msgTimes t))\<lparr>RemainingHops := cist_remaining_hops ?b\<rparr>\<rparr>)"
  let ?u = "upd q g (upd q (\<lambda>t. t\<lparr>rcvdMsg := True\<rparr>) v)"
  let ?r = "\<lambda>f i. msti_region_root_id (msti_view i f)" and ?fl = "\<lambda>f i. msti_flags (msti_view i f)"
  have keep: "nextMst (g t) = nextMst t" "owner (g t) = owner t" "port_index (g t) = port_index t"
      "rcvdInternal (g t) = rcvdInternal t" for t
    by (simp_all add: g_def Let_def)
  have run: "stp_receive_setRcvdMsgs q v = msti_messages (msti_message ?r ?fl False q (mstp_bytes ?b)) ?n ?u"
    using q by (simp add: stp_receive_setRcvdMsgs_def cur mst_packet_view(1) [OF assms(1,2)]
        mst_bound [OF assms(1,2)] g_def Let_def cong: if_cong)
  have "stp_port_mst_findport (unat (ntohs (?r (mstp_bytes ?b) i) AND 0x0fff)) (port_index (pheap ?u q)) ?u \<noteq> Some q"
    if "i < ?n" for i
    using that assms by (simp add: mst_record_id receiver_of_def findport_upd keep)
  then have "pheap (stp_receive_setRcvdMsgs q v) q = pheap ?u q"
    unfolding run by (rule messages_other)
  moreover have "msgPrio (pheap ?u q) = stp_vector_create
      (root_bridge (portPrio (pheap w p))) (root_path_cost (portPrio (pheap w p)))
      (region_root_bridge (portPrio (pheap w p))) (region_root_path_cost (portPrio (pheap w p)))
      (BrId (owner_of w p)) (port_id (pheap w p)) (port_id (pheap v q))"
    using ok q(2)
    by (simp add: g_def Let_def mst_packet_alt [OF assms(1)] stp_transmit_build_config_bpdu_mstp_def
        stp_times_set_def stp_vector_create_def)
  moreover have "msgTimes (pheap ?u q) = portTimes (pheap w p)"
    using times_roundtrip [OF assms(3)]
    by (simp add: g_def Let_def mst_packet_alt [OF assms(1)] stp_transmit_build_config_bpdu_mstp_def)
      (simp add: stp_times_get_def)
  moreover have "rcvdMsg (pheap ?u q)" by (simp add: g_def Let_def)
  ultimately show ?thesis by simp
qed

text \<open>The identifiers of an MSTI port of the sender: the instance number is the low part of the
  bridge and of the region root priority, the address is the one of the CIST, and the port
  number is the one of the CIST port.\<close>

definition msti_ids :: "pref \<Rightarrow> pref \<Rightarrow> u16 \<Rightarrow> world \<Rightarrow> bool" where
  "msti_ids p r m w \<longleftrightarrow>
     prio (region_root_bridge (portPrio (pheap w r))) AND 0x0fff = m \<and>
     0x0fff AND prio (BrId (owner_of w r)) = m \<and> addr (BrId (owner_of w r)) = addr (BrId (owner_of w p)) \<and>
     port_id (pheap w p) AND 0x0fff = 0x0fff AND port_id (pheap w r)"

text \<open>C6: record \<open>i\<close> of the frame gives the receiver's port of that instance the
  vector of the sender's MSTI port, with the sender's MSTI bridge and port as designated ones, its
  flags and its remaining hops.\<close>

theorem msti_message_decoded:
  assumes "ForceVersion (owner_of w p) = NORMAL_MSTP" and "sender_ok p w"
    and "i < length (nextMst (pheap w p))" and "r = nextMst (pheap w p) ! i" and "msti_ids p r m w"
    and "stp_port_mst_findport (unat m) (port_index (pheap v q)) v = Some q'"
  shows "let f = mstp_bytes (mst_packet p w);
      t = pheap (msti_message (\<lambda>f i. msti_region_root_id (msti_view i f)) (\<lambda>f i. msti_flags (msti_view i f)) False q f i v) q' in
    rcvdMsg t \<and> root_bridge (msgPrio t) = root_bridge (msgPrio (pheap v q')) \<and>
    region_root_bridge (msgPrio t) = region_root_bridge (portPrio (pheap w r)) \<and>
    region_root_path_cost (msgPrio t) = region_root_path_cost (portPrio (pheap w r)) \<and>
    design_bridge (msgPrio t) = BrId (owner_of w r) \<and> design_port (msgPrio t) = port_id (pheap w r) \<and>
    bridge_port (msgPrio t) = port_id (pheap v q') \<and>
    RemainingHops (msgTimes t) = RemainingHops (portTimes (pheap w r)) \<and>
    msgFlags t = mst_flags (pheap w r) OR flag (role (pheap w r) = MasterPort) MASTER_BIT OR
      push_bit PORT_ROLE_OFFS (role_code (role (pheap w r)))"
proof -
  let ?f = "mstp_bytes (mst_packet p w)"
  have ok: "bridge_ok (region_root_bridge (portPrio (pheap w r)))" "bridge_ok (BrId (owner_of w p))"
    using assms(2-4) by (auto simp: sender_ok_def tx_port_ok_def)
  have rec: "msti_view i ?f = stp_vector_set_mst_vector (pheap w r) w"
    using assms(1-4) by (simp add: mst_record)
  have "slice 110 8 ?f = cist_bridge_id (mstp_view ?f)" by (simp add: mstp_view_def)
  then have cist: "stp_vector_get_bridge_id (slice 110 8 ?f) = BrId (owner_of w p)"
    using ok by (simp add: mst_packet_view(1) [OF assms(1,2)]) (simp add: mst_packet_alt [OF assms(1)])
  have port: "ntohs (b_port_id (body_view ?f)) = port_id (pheap w p)"
    by (simp add: mst_packet_view(4) [OF assms(1,2)])
      (simp add: mst_packet_alt [OF assms(1)] Let_def stp_transmit_build_config_bpdu_mstp_def stp_times_set_def)
  have mstid: "ntohs (msti_region_root_id (msti_view i ?f)) AND 0x0fff = m"
    using assms(1-5) by (simp add: mst_record_id msti_ids_def)
  have m: "m = 0x0fff AND prio (BrId (owner_of w r))" using assms(5) by (simp add: msti_ids_def)
  then have mm: "0x0fff AND m = m" by (simp only: and.left_idem)
  have br: "(BrId (owner_of w p))\<lparr>prio := (prio (BrId (owner_of w r)) AND 0xf000) + (0x0fff AND m)\<rparr> = BrId (owner_of w r)"
    using assms(5) priority_split [of "prio (BrId (owner_of w r))"] unfolding mm
    by (cases "BrId (owner_of w p)"; cases "BrId (owner_of w r)") (simp add: m msti_ids_def)
  have dp: "(port_id (pheap w p) AND 0x0fff) + (port_id (pheap w r) AND 0xf000) = port_id (pheap w r)"
    using assms(5) priority_split [of "port_id (pheap w r)"] by (simp add: msti_ids_def add.commute)
  show ?thesis
    unfolding msti_message_def mstid Let_def assms(6)
    using ok br dp
    by (simp add: stp_vector_get_mst_vector_def rec cist port Let_def stp_vector_get_mst_timers_def)
      (simp add: stp_vector_set_mst_vector_def priority_nibble)
qed

subsection \<open>Config and TCN frames\<close>

text \<open>the Config sender pads the length it returns to 64 bytes and adds the
  17 bytes of the MAC and LLC headers, but the packet it allocates has 53 bytes: 81 bytes are
  sent from its address, 28 of them beyond the object.\<close>

theorem config_frame_overread:
  assumes "skip_tx (pheap w p) = 0" and "\<not> admin_non_stp (pheap w p)" and "length (sysMac w) = 6"
    and "bridge_ok (root_bridge (portPrio (pheap w p)))" and "bridge_ok (design_bridge (portPrio (pheap w p)))"
  shows "\<exists>bpdu. out (snd (stp_transmit_txConfig p w)) = out w @
      [Tx_bpdu (port_index (pheap w p)) (br_vlan_id (owner_of w p)) bpdu 81
        (isWAN (pheap w p)) (slot_no (pheap w p)) (port_no (pheap w p))] \<and> length bpdu = 53"
  using assms
  by (simp add: stp_transmit_txConfig_def rstp_header_def stp_transmit_build_bpdu_header_def g_bpdu_packet_def
      send_from_def stp_to_tx_bpdu_def Let_def rstp_bytes_def)
    (simp add: length_frame_head mac_ok_def eth_ok_def hdr_ok_def body_ok_def stp_to_get_port_mac_def
      stp_transmit_build_config_bpdu_def stp_times_set_def stp_vector_set_vector_def zero_body_def
      stp_vector_set_short_def)

end
