(* ===== verification/StpPort.thy ===== *)
theory StpPort
  imports StpRoundtrip
begin

text \<open>
  Creation, initialisation and deletion of ports, and the tables that find them
  (\<open>stp_port.c\<close>): \<open>g_CISTPORT\<close> holds the CIST port of a switch port, and the MSTI ports of the same
  switch port hang off it.

  What the kernel says about a WAN port (the bridge it belongs to, read from sysfs, and its
  interface index) is the parameter \<open>os\<close>.
\<close>

abbreviation (input) STP_BRIDGE_NOTFOUND :: int where "STP_BRIDGE_NOTFOUND \<equiv> 33"
abbreviation (input) STP_CREATE_PORT_FAIL :: int where "STP_CREATE_PORT_FAIL \<equiv> 34"
abbreviation (input) STP_PORT_NOTFOUND :: int where "STP_PORT_NOTFOUND \<equiv> 35"

text \<open>\<open>/sys/class/net/eth<slot>-<port>.<vid>/brport/bridge/ifindex\<close> (\<open>None\<close>: no such file) and
  \<open>if_nametoindex\<close>; VLAN 0 stands for the interface without a VLAN suffix.\<close>

record os_env =
  sysfs_bridge_ifindex :: "nat \<Rightarrow> nat \<Rightarrow> nat \<Rightarrow> nat option"
  if_nametoindex :: "nat \<Rightarrow> nat \<Rightarrow> nat \<Rightarrow> nat"

definition vmap_set :: "nat \<Rightarrow> VLAN_MAP_T \<Rightarrow> VLAN_MAP_T" where
  "vmap_set vid m = m\<lparr>bmp := (bmp m)[vid div 8 := bmp m ! (vid div 8) OR push_bit (vid mod 8) 1]\<rparr>"

definition vmap_clear :: "nat \<Rightarrow> VLAN_MAP_T \<Rightarrow> VLAN_MAP_T" where
  "vmap_clear vid m = m\<lparr>bmp := (bmp m)[vid div 8 := bmp m ! (vid div 8) AND NOT (push_bit (vid mod 8) 1)]\<rparr>"

definition vmap_has :: "nat \<Rightarrow> VLAN_MAP_T \<Rightarrow> bool" where
  "vmap_has vid m \<longleftrightarrow> bmp m ! (vid div 8) AND push_bit (vid mod 8) 1 \<noteq> 0"

subsection \<open>Creation and initialisation\<close>

text \<open>The configuration every new port gets.\<close>

definition new_port_cfg :: "bref \<Rightarrow> nat \<Rightarrow> nat \<Rightarrow> PORT_T \<Rightarrow> PORT_T" where
  "new_port_cfg b MSTID pidx t =
     (let t = stp_to_get_init_port_cfg (t\<lparr>owner := b, p_vlan_id := MSTID, port_index := pidx\<rparr>);
          i = push_bit 8 DEF_PORT_PRIO + of_nat pidx in
      t\<lparr>LinkDelay := DEF_LINK_DELAY, port_id := (if pidx > PORT_INDEX_MAX then i AND 0xfeff else i)\<rparr>)"

text \<open>The WAN part: slot and port number come from the CIST port.\<close>

definition new_port_wan :: "os_env \<Rightarrow> pref \<Rightarrow> nat \<Rightarrow> nat \<Rightarrow> world \<Rightarrow> world" where
  "new_port_wan os p pidx VID w =
     (let (slot, no, w) =
        (case stp_port_mst_findport STP_CIST_ID pidx w of
           Some c \<Rightarrow> (slot_no (pheap w c), port_no (pheap w c),
             upd p (\<lambda>t. t\<lparr>slot_no := slot_no (pheap w c), port_no := port_no (pheap w c), isWAN := True\<rparr>) w)
         | None \<Rightarrow> (0, 0, w)) in
      case sysfs_bridge_ifindex os slot no VID of
        None \<Rightarrow> w
      | Some br \<Rightarrow>
          let ifi = if_nametoindex os slot no VID in
          emit (Npd_wan_state br ifi NAM_STP_PORT_STATE_DISCARD_E)
            (upd p (\<lambda>t. t\<lparr>port_ifindex := ifi, br_ifindex := br\<rparr>) w))"

definition stp_port_mst_port_create ::
  "os_env \<Rightarrow> bref \<Rightarrow> nat \<Rightarrow> nat \<Rightarrow> bool \<Rightarrow> nat \<Rightarrow> world \<Rightarrow> pref option \<times> world" where
  "stp_port_mst_port_create os b MSTID pidx isWan VID w =
     (if list_ex (\<lambda>q. port_index (pheap w q) = pidx) (ports (bheap w b)) then (None, w)
      else
        let p = next_pref w;
            w = upd p (\<lambda>_. zero_port) (w\<lparr>next_pref := p + 1\<rparr>);
            w = updb b (\<lambda>s. s\<lparr>ports := p # ports s\<rparr>) w;
            w = (if isWan then new_port_wan os p pidx VID w else w);
            w = upd p (new_port_cfg b MSTID pidx) w;
            w = (if MSTID \<noteq> STP_CIST_ID
                 then case stp_port_mst_findport STP_CIST_ID pidx w of
                   None \<Rightarrow> w
                 | Some c \<Rightarrow>
                     upd p (\<lambda>t. t\<lparr>operEdge := operEdge (pheap w c), portEnabled := portEnabled (pheap w c),
                                  operPointToPointMac := operPointToPointMac (pheap w c)\<rparr>) w
                 else w) in
        (Some p, w))"

definition stp_port_init :: "pref \<Rightarrow> bref \<Rightarrow> bool \<Rightarrow> world \<Rightarrow> world" where
  "stp_port_init p b check_link w =
     (let w = (if check_link
               then upd p (\<lambda>t. t\<lparr>adminEnable := stp_to_get_port_link_status (port_index t) w,
                     designPrio := stp_vector_create (BrId (bheap w b)) 0 zero_bridge_id 0 (BrId (bheap w b)) (port_id t) (port_id t),
                     designTimes := stp_times_copy (rootTimes (bheap w b))\<rparr>) w
               else w) in
      upd p (\<lambda>t. t\<lparr>fdWhile := 0, helloWhen := 0, mdelayWhile := 0, rbWhile := 0, rcvdInfoWhile := 0,
                    rrWhile := 0, tcWhile := 0, txCount := 0, msgPortRole := RSTP_PORT_ROLE_UNKN,
                    selectedRole := DisabledPort, sendRSTP := True,
                    operSpeed := stp_to_get_port_oper_speed t w, p2p_recompute := True\<rparr>) w)"

subsection \<open>Deletion\<close>

text \<open>The first port of the instance with the same index is where the list is cut; the rest is what
  follows the deleted port. The freed object keeps its contents in the model.\<close>

definition stp_port_delete :: "pref \<Rightarrow> world \<Rightarrow> world" where
  "stp_port_delete p w =
     (let b = owner (pheap w p); i = port_index (pheap w p); ps = ports (bheap w b) in
      if list_ex (\<lambda>q. port_index (pheap w q) = i) ps
      then emit (Npd_stp_info (p_vlan_id (pheap w p)) 0 i NAM_STP_PORT_STATE_DISABLE_E)
             (updb b (\<lambda>s. s\<lparr>ports := takeWhile (\<lambda>q. port_index (pheap w q) \<noteq> i) ps @ tl (dropWhile (\<lambda>q. q \<noteq> p) ps)\<rparr>) w)
      else w)"

definition stp_port_clear_gloabl_portarray :: "world \<Rightarrow> world" where
  "stp_port_clear_gloabl_portarray w = w\<lparr>g_CISTPORT := (\<lambda>_. None)\<rparr>"

subsection \<open>Adding a port to an instance\<close>

text \<open>Hooking a new port into the tables: \<open>g_CISTPORT[index]->nextMst\<close> is followed without a test.\<close>

definition link_port :: "nat \<Rightarrow> nat \<Rightarrow> pref \<Rightarrow> world \<Rightarrow> world" where
  "link_port MSTID index p w =
     (if MSTID = STP_CIST_ID then w\<lparr>g_CISTPORT := (g_CISTPORT w)(index := Some p)\<rparr>
      else case g_CISTPORT w index of
        None \<Rightarrow> null_deref w
      | Some c \<Rightarrow> upd c (\<lambda>t. t\<lparr>nextMst := p # nextMst t\<rparr>) w)"

definition count_vlan :: "nat \<Rightarrow> bool \<Rightarrow> pref \<Rightarrow> world \<Rightarrow> world" where
  "count_vlan VID isWan p w =
     upd p (\<lambda>t. let m = vmap_set VID (p_vlan_map t) in
       t\<lparr>p_vlan_map := m\<lparr>ulcount := (if isWan then 1 else ulcount m + 1)\<rparr>\<rparr>) w"

text \<open>When the instance is enabled the code calls \<open>stp_stpm_enable\<close> with the state the instance is
  in, which returns at once; the call is left out.\<close>

definition stp_port_mst_addport ::
  "os_env \<Rightarrow> nat \<Rightarrow> nat \<Rightarrow> nat \<Rightarrow> bool \<Rightarrow> world \<Rightarrow> int \<times> world" where
  "stp_port_mst_addport os MSTID pidx VID isWan w =
     (case stp_port_global_index_parse (platform w) pidx of
        None \<Rightarrow> (STP_ERROR, w)
      | Some index \<Rightarrow>
          if MSTID > STP_MSTI_MAX \<or> index > MAX_PORT_NUM then (STP_ERROR, w)
          else case stp_port_mst_findport MSTID pidx w of
            Some p \<Rightarrow> (STP_OK, count_vlan VID isWan p w)
          | None \<Rightarrow>
              (case stp_stpm_get_instance MSTID w of
                 None \<Rightarrow> (STP_BRIDGE_NOTFOUND, w)
               | Some b \<Rightarrow>
                   (case stp_port_mst_port_create os b MSTID pidx isWan VID w of
                      (None, w) \<Rightarrow> (STP_CREATE_PORT_FAIL, w)
                    | (Some p, w) \<Rightarrow>
                        (STP_OK, count_vlan VID isWan p (link_port MSTID index p (stp_port_init p b True w))))))"

subsection \<open>Removing a port from an instance\<close>

definition remove_first :: "('a \<Rightarrow> bool) \<Rightarrow> 'a list \<Rightarrow> 'a list" where
  "remove_first P xs = takeWhile (\<lambda>x. \<not> P x) xs @ tl (dropWhile (\<lambda>x. \<not> P x) xs)"

definition uncount_vlan :: "nat \<Rightarrow> pref \<Rightarrow> world \<Rightarrow> world" where
  "uncount_vlan VID p w =
     upd p (\<lambda>t. let m = vmap_clear VID (p_vlan_map t) in t\<lparr>p_vlan_map := m\<lparr>ulcount := ulcount m - 1\<rparr>\<rparr>) w"

text \<open>\<open>stack_int\<close> is the value of the uninitialised \<open>iRet\<close>, which is returned while other VLANs keep
  the port. After \<open>stp_port_delete\<close> the code reads members of the freed port when the instance is
  enabled; \<open>fault\<close> records it (the call it guards does nothing).\<close>

definition stp_port_mst_delport :: "int \<Rightarrow> nat \<Rightarrow> nat \<Rightarrow> nat \<Rightarrow> world \<Rightarrow> int \<times> world" where
  "stp_port_mst_delport stack_int MSTID pidx VID w =
     (case stp_port_global_index_parse (platform w) pidx of
        None \<Rightarrow> (STP_ERROR, w)
      | Some index \<Rightarrow>
          if MSTID > STP_MSTI_MAX \<or> index > MAX_PORT_NUM then (STP_ERROR, w)
          else if MSTID = STP_CIST_ID then (STP_OK, w)
          else case stp_port_mst_findport MSTID pidx w of
            None \<Rightarrow> (STP_PORT_NOTFOUND, w)
          | Some p \<Rightarrow>
              let w = uncount_vlan VID p w in
              if ulcount (p_vlan_map (pheap w p)) \<noteq> 0 then (stack_int, w)
              else
                let w = (case g_CISTPORT w index of
                      None \<Rightarrow> null_deref w
                    | Some c \<Rightarrow>
                        upd c (\<lambda>t. t\<lparr>nextMst := remove_first (\<lambda>q. br_vlan_id (owner_of w q) = MSTID) (nextMst t)\<rparr>) w);
                    b = owner (pheap w p);
                    w = stp_port_delete p w in
                (STP_OK, if admin_state (bheap w b) = STP_ENABLED then null_deref w else w))"

subsection \<open>The tables as a port store\<close>

text \<open>What the VLAN management relies on: adding a port to an instance makes it findable there and
  leaves the other instances and switch ports alone.\<close>

locale port_store =
  fixes find :: "'i \<Rightarrow> 'k \<Rightarrow> 'w \<Rightarrow> 'p option" and add :: "'i \<Rightarrow> 'k \<Rightarrow> 'w \<Rightarrow> 'w"
    and inv :: "'w \<Rightarrow> bool" and addable :: "'i \<Rightarrow> 'k \<Rightarrow> 'w \<Rightarrow> bool"
  assumes add_inv: "inv w \<Longrightarrow> addable m k w \<Longrightarrow> inv (add m k w)"
    and add_find: "inv w \<Longrightarrow> addable m k w \<Longrightarrow> find m k (add m k w) \<noteq> None"
    and add_keeps: "inv w \<Longrightarrow> addable m k w \<Longrightarrow> find m' k' w \<noteq> None \<Longrightarrow> find m' k' (add m k w) = find m' k' w"
begin

text \<open>Adding a list of switch ports to an instance, each one addable when its turn comes.\<close>

fun add_all :: "'i \<Rightarrow> 'k list \<Rightarrow> 'w \<Rightarrow> 'w" where
  "add_all m [] w = w"
| "add_all m (k # ks) w = add_all m ks (add m k w)"

fun all_addable :: "'i \<Rightarrow> 'k list \<Rightarrow> 'w \<Rightarrow> bool" where
  "all_addable m [] w \<longleftrightarrow> True"
| "all_addable m (k # ks) w \<longleftrightarrow> addable m k w \<and> all_addable m ks (add m k w)"

lemma add_all_keeps:
  "inv w \<Longrightarrow> all_addable m ks w \<Longrightarrow> find m' k' w \<noteq> None \<Longrightarrow> find m' k' (add_all m ks w) = find m' k' w"
proof (induction ks arbitrary: w)
  case (Cons k ks)
  then show ?case using add_keeps [of w m k m' k'] add_inv [of w m k] by simp
qed simp

lemma add_all_find:
  "inv w \<Longrightarrow> all_addable m ks w \<Longrightarrow> k \<in> set ks \<Longrightarrow> find m k (add_all m ks w) \<noteq> None"
proof (induction ks arbitrary: w)
  case (Cons k' ks)
  have inv': "inv (add m k' w)" using Cons.prems add_inv by simp
  show ?case
  proof (cases "k = k'")
    case True
    then show ?thesis
      using Cons.prems add_find [of w m k'] inv' add_all_keeps [of "add m k' w" m ks m k'] by simp
  next
    case False
    then show ?thesis using Cons inv' by simp
  qed
qed simp

end

subsection \<open>The tables of the daemon are a port store\<close>

definition tables_ok :: "world \<Rightarrow> bool" where
  "tables_ok w \<longleftrightarrow> (\<forall>i c. g_CISTPORT w i = Some c \<longrightarrow>
     c < next_pref w \<and> (\<forall>q \<in> set (nextMst (pheap w c)). q < next_pref w) \<and>
     (\<forall>j. g_CISTPORT w j = Some c \<longrightarrow> j = i))"

lemma new_port_wan_frame:
  "q \<noteq> p \<Longrightarrow> pheap (new_port_wan os p i v w) q = pheap w q"
  "bheap (new_port_wan os p i v w) = bheap w" "g_CISTPORT (new_port_wan os p i v w) = g_CISTPORT w"
  "platform (new_port_wan os p i v w) = platform w" "bridges (new_port_wan os p i v w) = bridges w"
  "next_pref (new_port_wan os p i v w) = next_pref w"
  "nextMst (pheap (new_port_wan os p i v w) p) = nextMst (pheap w p)"
  by (simp_all add: new_port_wan_def Let_def split_beta upd_def emit_def split: option.split)

lemma new_port_cfg_fields [simp]:
  "owner (new_port_cfg b m i t) = b" "port_index (new_port_cfg b m i t) = i"
  "p_vlan_id (new_port_cfg b m i t) = m" "nextMst (new_port_cfg b m i t) = nextMst t"
  by (simp_all add: new_port_cfg_def stp_to_get_init_port_cfg_def Let_def)

lemma next_pref_upd [simp]: "next_pref (upd p f w) = next_pref w" "next_pref (updb b g w) = next_pref w"
  by (simp_all add: upd_def updb_def)

lemma port_create:
  assumes "stp_port_mst_port_create os b m i wan v w = (Some p, w')"
  shows "p = next_pref w" "next_pref w' = p + 1" "\<And>q. q \<noteq> p \<Longrightarrow> pheap w' q = pheap w q"
    "owner (pheap w' p) = b" "port_index (pheap w' p) = i" "p_vlan_id (pheap w' p) = m"
    "nextMst (pheap w' p) = []" "bheap w' = (bheap w)(b := (bheap w b)\<lparr>ports := p # ports (bheap w b)\<rparr>)"
    "g_CISTPORT w' = g_CISTPORT w" "platform w' = platform w" "bridges w' = bridges w"
proof -
  have fresh: "\<not> list_ex (\<lambda>q. port_index (pheap w q) = i) (ports (bheap w b))"
    using assms by (auto simp: stp_port_mst_port_create_def split: if_splits)
  show "p = next_pref w" "next_pref w' = p + 1" "\<And>q. q \<noteq> p \<Longrightarrow> pheap w' q = pheap w q"
    "owner (pheap w' p) = b" "port_index (pheap w' p) = i" "p_vlan_id (pheap w' p) = m"
    "nextMst (pheap w' p) = []" "bheap w' = (bheap w)(b := (bheap w b)\<lparr>ports := p # ports (bheap w b)\<rparr>)"
    "g_CISTPORT w' = g_CISTPORT w" "platform w' = platform w" "bridges w' = bridges w"
    using assms fresh
    by (auto simp: stp_port_mst_port_create_def Let_def new_port_wan_frame zero_port_def updb_def
        split: option.splits if_splits)
qed

lemma init_frame:
  "q \<noteq> p \<Longrightarrow> pheap (stp_port_init p b c w) q = pheap w q" "bheap (stp_port_init p b c w) = bheap w"
  "g_CISTPORT (stp_port_init p b c w) = g_CISTPORT w" "platform (stp_port_init p b c w) = platform w"
  "bridges (stp_port_init p b c w) = bridges w" "next_pref (stp_port_init p b c w) = next_pref w"
  "nextMst (pheap (stp_port_init p b c w) p) = nextMst (pheap w p)"
  "owner (pheap (stp_port_init p b c w) p) = owner (pheap w p)"
  "port_index (pheap (stp_port_init p b c w) p) = port_index (pheap w p)"
  by (simp_all add: stp_port_init_def Let_def)

lemma count_vlan_frame:
  "nextMst (pheap (count_vlan v c p w) q) = nextMst (pheap w q)"
  "owner (pheap (count_vlan v c p w) q) = owner (pheap w q)"
  "bheap (count_vlan v c p w) = bheap w" "g_CISTPORT (count_vlan v c p w) = g_CISTPORT w"
  "platform (count_vlan v c p w) = platform w" "next_pref (count_vlan v c p w) = next_pref w"
  by (simp_all add: count_vlan_def Let_def)

lemma findport_count_vlan [simp]:
  "stp_port_mst_findport m i (count_vlan v c p w) = stp_port_mst_findport m i w"
  unfolding count_vlan_def by (rule findport_upd) (simp_all add: Let_def)

text \<open>The outcomes of a successful \<open>stp_port_mst_addport\<close>.\<close>

definition port_addable :: "os_env \<Rightarrow> nat \<Rightarrow> bool \<Rightarrow> nat \<Rightarrow> nat \<Rightarrow> world \<Rightarrow> bool" where
  "port_addable os v wan m i w \<longleftrightarrow>
     fst (stp_port_mst_addport os m i v wan w) = STP_OK \<and>
     (m \<noteq> STP_CIST_ID \<longrightarrow> stp_port_mst_findport STP_CIST_ID i w \<noteq> None)"

definition add_port :: "os_env \<Rightarrow> nat \<Rightarrow> bool \<Rightarrow> nat \<Rightarrow> nat \<Rightarrow> world \<Rightarrow> world" where
  "add_port os v wan m i w = snd (stp_port_mst_addport os m i v wan w)"

text \<open>The world after a port \<open>p\<close> has been created for instance \<open>b\<close>, as far as the tables see it.\<close>

definition port_entered :: "nat \<Rightarrow> nat \<Rightarrow> nat \<Rightarrow> bref \<Rightarrow> pref \<Rightarrow> world \<Rightarrow> world \<Rightarrow> bool" where
  "port_entered m i index b p w w' \<longleftrightarrow>
     p = next_pref w \<and> next_pref w' = p + 1 \<and> platform w' = platform w \<and>
     owner (pheap w' p) = b \<and> nextMst (pheap w' p) = [] \<and>
     (\<forall>c. br_vlan_id (bheap w' c) = br_vlan_id (bheap w c)) \<and> (\<forall>q. q \<noteq> p \<longrightarrow> owner (pheap w' q) = owner (pheap w q)) \<and>
     (if m = STP_CIST_ID
      then g_CISTPORT w' = (g_CISTPORT w)(index := Some p) \<and> (\<forall>q. q \<noteq> p \<longrightarrow> nextMst (pheap w' q) = nextMst (pheap w q))
      else g_CISTPORT w' = g_CISTPORT w \<and>
        (\<forall>q. q \<noteq> p \<longrightarrow> nextMst (pheap w' q) =
          (if g_CISTPORT w index = Some q then p # nextMst (pheap w q) else nextMst (pheap w q))))"

lemma add_port_cases:
  assumes "port_addable os v wan m i w" and "tables_ok w"
  obtains (old) p where "stp_port_mst_findport m i w = Some p" and "add_port os v wan m i w = count_vlan v wan p w"
  | (new) index b where "stp_port_global_index_parse (platform w) i = Some index" and "index \<le> 51"
      and "stp_port_mst_findport m i w = None" and "br_vlan_id (bheap w b) = m"
      and "port_entered m i index b (next_pref w) w (add_port os v wan m i w)"
proof (cases "stp_port_mst_findport m i w")
  case (Some p)
  then show ?thesis
    using assms(1) that(1) by (auto simp: port_addable_def add_port_def stp_port_mst_addport_def split: option.splits if_splits)
next
  case None
  obtain index b w1 p where idx: "stp_port_global_index_parse (platform w) i = Some index" "index \<le> 51"
    and b: "stp_stpm_get_instance m w = Some b"
    and cr: "stp_port_mst_port_create os b m i wan v w = (Some p, w1)"
    and w': "add_port os v wan m i w = count_vlan v wan p (link_port m index p (stp_port_init p b True w1))"
    using assms(1) None
    by (auto simp: port_addable_def add_port_def stp_port_mst_addport_def split: option.splits if_splits prod.splits)
  note c = port_create [OF cr]
  have vid: "br_vlan_id (bheap w b) = m"
    using b by (auto simp: stp_stpm_get_instance_def find_Some_iff)
  have cist: "m \<noteq> 0 \<Longrightarrow> \<exists>q. g_CISTPORT w index = Some q \<and> q \<noteq> p"
    using assms idx c(1)
    by (auto simp: port_addable_def findport_cist tables_ok_def split: if_splits)
  have "port_entered m i index b p w (add_port os v wan m i w)"
  proof (cases "m = 0")
    case True
    then show ?thesis unfolding port_entered_def w'
      using c by (auto simp: link_port_def count_vlan_frame init_frame)
  next
    case False
    then obtain q where "g_CISTPORT w index = Some q" "q \<noteq> p" using cist by blast
    then show ?thesis unfolding port_entered_def w'
      using c False by (auto simp: link_port_def count_vlan_frame init_frame)
  qed
  then show ?thesis using that(2) [OF idx None vid] c(1) by simp
qed

lemma enteredD:
  assumes "port_entered m i index b p w w'"
  shows "next_pref w = p" "next_pref w' = Suc p" "platform w' = platform w" "owner (pheap w' p) = b"
    "nextMst (pheap w' p) = []" "br_vlan_id (bheap w' c) = br_vlan_id (bheap w c)"
    "q \<noteq> p \<Longrightarrow> owner (pheap w' q) = owner (pheap w q)"
    "m = STP_CIST_ID \<Longrightarrow> g_CISTPORT w' = (g_CISTPORT w)(index := Some p)"
    "m \<noteq> STP_CIST_ID \<Longrightarrow> g_CISTPORT w' = g_CISTPORT w"
    "q \<noteq> p \<Longrightarrow> nextMst (pheap w' q) =
       (if m \<noteq> STP_CIST_ID \<and> g_CISTPORT w index = Some q then p # nextMst (pheap w q) else nextMst (pheap w q))"
  using assms unfolding port_entered_def by (auto split: if_splits)

lemma entered_find:
  assumes e: "port_entered m i index b p w w'" and idx: "stp_port_global_index_parse (platform w) i = Some index" "index \<le> 51"
    and vid: "br_vlan_id (bheap w b) = m" and fr: "tables_ok w"
    and cist: "m \<noteq> STP_CIST_ID \<Longrightarrow> g_CISTPORT w index \<noteq> None"
  shows "stp_port_mst_findport m i w' = Some p"
proof (cases "m = 0")
  case True
  then show ?thesis using enteredD(3,8) [OF e] idx by (simp add: findport_cist)
next
  case False
  then obtain c where c: "g_CISTPORT w index = Some c" using cist by auto
  then have "c \<noteq> p" using fr enteredD(1) [OF e] by (auto simp: tables_ok_def)
  then show ?thesis using enteredD(3,4,6,9,10) [OF e] idx vid False c by (simp add: stp_port_mst_findport_def)
qed

lemma entered_keeps:
  assumes e: "port_entered m i index b p w w'" and idx: "stp_port_global_index_parse (platform w) i = Some index"
    and vid: "br_vlan_id (bheap w b) = m" and fr: "tables_ok w"
    and none: "stp_port_mst_findport m i w = None" and found: "stp_port_mst_findport m' i' w = Some q"
  shows "stp_port_mst_findport m' i' w' = Some q"
proof -
  obtain k c where k: "stp_port_global_index_parse (platform w) i' = Some k" "k \<le> 51" "g_CISTPORT w k = Some c"
    using found by (auto simp: stp_port_mst_findport_def split: option.splits if_splits)
  have inj: "g_CISTPORT w index = Some c \<Longrightarrow> index = k"
    using fr k(3) by (auto simp: tables_ok_def)
  have lt: "c < p" "\<And>r. r \<in> set (nextMst (pheap w c)) \<Longrightarrow> r < p"
    using fr k(3) enteredD(1) [OF e] by (auto simp: tables_ok_def)
  have vids: "find (\<lambda>r. br_vlan_id (bheap w' (owner (pheap w' r))) = m') (nextMst (pheap w c)) =
      find (\<lambda>r. br_vlan_id (owner_of w r) = m') (nextMst (pheap w c))"
  proof (rule find_cong [OF refl])
    fix r assume "r \<in> set (nextMst (pheap w c))"
    then have "r \<noteq> p" using lt(2) by blast
    then show "(br_vlan_id (bheap w' (owner (pheap w' r))) = m') = (br_vlan_id (owner_of w r) = m')"
      using enteredD(6,7) [OF e] by simp
  qed
  have diff: "m = 0 \<Longrightarrow> k \<noteq> index" "m \<noteq> 0 \<Longrightarrow> k = index \<Longrightarrow> m' \<noteq> m"
    using none found idx k by (auto simp: stp_port_mst_findport_def)
  have pf: "platform w' = platform w" "g_CISTPORT w' k = Some c"
    using enteredD(3,8,9) [OF e] k(3) diff(1) by (auto, cases "m = 0", auto)
  show ?thesis
  proof (cases "m' = 0")
    case True
    then show ?thesis using found k pf by (simp add: findport_cist)
  next
    case False
    have "find (\<lambda>r. br_vlan_id (bheap w' (owner (pheap w' r))) = m') (nextMst (pheap w' c)) =
        find (\<lambda>r. br_vlan_id (bheap w' (owner (pheap w' r))) = m') (nextMst (pheap w c))"
      using enteredD(4,6,10) [OF e] lt(1) vid diff(2) inj
      by (auto simp: enteredD(10) [OF e])
    then show ?thesis using found k pf vids False by (simp add: stp_port_mst_findport_def)
  qed
qed

lemma entered_ok:
  assumes "port_entered m i index b p w w'" and "tables_ok w"
  shows "tables_ok w'"
proof -
  have p: "p = next_pref w" "next_pref w' = p + 1" "nextMst (pheap w' p) = []"
    using enteredD [OF assms(1)] by simp_all
  have "c < next_pref w' \<and> (\<forall>q \<in> set (nextMst (pheap w' c)). q < next_pref w')"
    if c: "g_CISTPORT w' k = Some c" for k c
  proof (cases "c = p")
    case False
    then have "g_CISTPORT w k = Some c" and "set (nextMst (pheap w' c)) \<subseteq> insert p (set (nextMst (pheap w c)))"
      using enteredD(8,9) [OF assms(1)] enteredD(10) [OF assms(1) False] c False
      by (cases "m = 0"; auto split: if_splits)+
    then show ?thesis using assms(2) p by (fastforce simp: tables_ok_def)
  qed (use p in simp)
  moreover have "j = k" if "g_CISTPORT w' k = Some c" "g_CISTPORT w' j = Some c" for j k c
    using enteredD(1,8,9) [OF assms(1)] assms(2) that
    by (cases "m = 0") (auto simp: tables_ok_def split: if_splits)
  ultimately show ?thesis unfolding tables_ok_def by blast
qed

interpretation ps: port_store stp_port_mst_findport "add_port os v wan" tables_ok "port_addable os v wan" for os v wan
proof
  fix w m i m' i'
  assume fr: "tables_ok w" and add: "port_addable os v wan m i w"
  have fresh_count: "tables_ok (count_vlan v wan p w)" for p
    using fr by (simp add: tables_ok_def count_vlan_frame)
  show "tables_ok (add_port os v wan m i w)"
    using add fr
  proof (cases rule: add_port_cases)
    case (new index b)
    then show ?thesis using entered_ok [OF new(5) fr] by simp
  qed (simp add: fresh_count)
  show "stp_port_mst_findport m i (add_port os v wan m i w) \<noteq> None"
    using add fr
  proof (cases rule: add_port_cases)
    case (new index b)
    then have "m \<noteq> STP_CIST_ID \<Longrightarrow> g_CISTPORT w index \<noteq> None"
      using add by (auto simp: port_addable_def findport_cist split: if_splits)
    then show ?thesis using entered_find [OF new(5,1,2,4) fr] by simp
  qed simp
  show "stp_port_mst_findport m' i' (add_port os v wan m i w) = stp_port_mst_findport m' i' w"
    if "stp_port_mst_findport m' i' w \<noteq> None"
    using add fr
  proof (cases rule: add_port_cases)
    case (new index b)
    then show ?thesis using entered_keeps [OF new(5,1,4) fr new(3)] that by auto
  qed simp
qed


text \<open>adding a switch port to an MSTI before the CIST has it follows the null
  pointer \<open>g_CISTPORT[index]\<close>.\<close>

theorem addport_null_deref:
  assumes "m \<noteq> STP_CIST_ID" and "m \<le> STP_MSTI_MAX" and "stp_port_global_index_parse (platform w) i = Some index"
    and "index \<le> MAX_PORT_NUM" and "g_CISTPORT w index = None" and "stp_stpm_get_instance m w = Some b"
    and "list_all (\<lambda>q. port_index (pheap w q) \<noteq> i) (ports (bheap w b))"
  shows "fst (stp_port_mst_addport os m i v wan w) = STP_OK \<and> fault (snd (stp_port_mst_addport os m i v wan w))"
proof -
  have "stp_port_mst_findport m i w = None"
    using assms by (simp add: stp_port_mst_findport_def)
  moreover obtain p w1 where cr: "stp_port_mst_port_create os b m i wan v w = (Some p, w1)"
    using assms(7) by (auto simp: stp_port_mst_port_create_def Let_def list_ex_iff list_all_iff)
  moreover have "link_port m index p (stp_port_init p b True w1) = null_deref (stp_port_init p b True w1)"
    using port_create(9) [OF cr] assms(1,5) by (simp add: link_port_def init_frame)
  ultimately show ?thesis
    using assms by (simp add: stp_port_mst_addport_def count_vlan_def)
qed

lemma remove_first_filter:
  assumes "distinct (map f xs)"
  shows "remove_first (\<lambda>x. f x = k) xs = filter (\<lambda>x. f x \<noteq> k) xs"
  using assms
proof (induction xs)
  case (Cons x xs)
  have "f x = k \<Longrightarrow> filter (\<lambda>y. f y \<noteq> k) xs = xs"
    using Cons.prems by (intro filter_True) (metis distinct.simps(2) image_eqI list.map(2) set_map)
  then show ?case using Cons by (auto simp: remove_first_def)
qed (simp add: remove_first_def)

lemma cut_list:
  assumes "p \<in> set ps" and "distinct (map f ps)"
  shows "takeWhile (\<lambda>q. f q \<noteq> f p) ps @ tl (dropWhile (\<lambda>q. q \<noteq> p) ps) = filter (\<lambda>q. q \<noteq> p) ps"
  using assms
proof (induction ps)
  case (Cons x ps)
  have "x = p \<Longrightarrow> filter (\<lambda>q. q \<noteq> p) ps = ps"
    using Cons.prems by (auto intro!: filter_True)
  then show ?case using Cons by auto
qed simp

lemma port_delete:
  "pheap (stp_port_delete p u) = pheap u" "g_CISTPORT (stp_port_delete p u) = g_CISTPORT u"
  "platform (stp_port_delete p u) = platform u"
  "br_vlan_id (bheap (stp_port_delete p u) b) = br_vlan_id (bheap u b)"
  "admin_state (bheap (stp_port_delete p u) b) = admin_state (bheap u b)"
  "p \<in> set (ports (owner_of u p)) \<Longrightarrow> distinct (map (\<lambda>q. port_index (pheap u q)) (ports (owner_of u p))) \<Longrightarrow>
     ports (bheap (stp_port_delete p u) (owner (pheap u p))) = filter (\<lambda>q. q \<noteq> p) (ports (owner_of u p))"
  using cut_list [of p "ports (owner_of u p)" "\<lambda>q. port_index (pheap u q)"]
  by (auto simp: stp_port_delete_def Let_def list_ex_iff)

text \<open>An instance's port list and a switch port's chain have no two entries for the same key.\<close>

definition port_lists_ok :: "nat \<Rightarrow> pref \<Rightarrow> world \<Rightarrow> bool" where
  "port_lists_ok index p w \<longleftrightarrow>
     p \<in> set (ports (owner_of w p)) \<and> distinct (map (\<lambda>q. port_index (pheap w q)) (ports (owner_of w p))) \<and>
     (\<exists>c. g_CISTPORT w index = Some c \<and> distinct (map (\<lambda>q. br_vlan_id (owner_of w q)) (nextMst (pheap w c))))"

text \<open>taking the last VLAN of an MSTI port away removes the port: it is no longer
  found in that instance and no longer on the instance's list; the other ports of the instance stay.\<close>

theorem delport_removes:
  assumes "m \<noteq> STP_CIST_ID" and "m \<le> STP_MSTI_MAX" and "stp_port_global_index_parse (platform w) i = Some index"
    and "stp_port_mst_findport m i w = Some p" and "ulcount (p_vlan_map (pheap w p)) = 1" and "port_lists_ok index p w"
  shows "\<exists>w'. stp_port_mst_delport stack_int m i v w = (STP_OK, w') \<and> stp_port_mst_findport m i w' = None \<and>
    ports (bheap w' (owner (pheap w p))) = filter (\<lambda>q. q \<noteq> p) (ports (owner_of w p))"
proof -
  define u where "u = uncount_vlan v p w"
  obtain c where c: "g_CISTPORT w index = Some c" "distinct (map (\<lambda>q. br_vlan_id (owner_of w q)) (nextMst (pheap w c)))"
    using assms(6) by (auto simp: port_lists_ok_def)
  have idx: "index \<le> 51"
    using assms(3,4) by (auto simp: stp_port_mst_findport_def split: if_splits)
  have u: "owner (pheap u q) = owner (pheap w q)" "nextMst (pheap u q) = nextMst (pheap w q)"
      "port_index (pheap u q) = port_index (pheap w q)" "bheap u = bheap w" "g_CISTPORT u = g_CISTPORT w"
      "platform u = platform w" "ulcount (p_vlan_map (pheap u p)) = 0" for q
    using assms(5) by (simp_all add: u_def uncount_vlan_def Let_def vmap_clear_def)
  define l where "l = upd c (\<lambda>t. t\<lparr>nextMst := remove_first (\<lambda>q. br_vlan_id (owner_of u q) = m) (nextMst t)\<rparr>) u"
  have l: "owner (pheap l q) = owner (pheap w q)" "port_index (pheap l q) = port_index (pheap w q)"
      "nextMst (pheap l c) = filter (\<lambda>q. br_vlan_id (owner_of w q) \<noteq> m) (nextMst (pheap w c))" "bheap l = bheap w"
      "g_CISTPORT l = g_CISTPORT w" "platform l = platform w" for q
    using u remove_first_filter [OF c(2), of m] by (simp_all add: l_def)
  let ?d = "stp_port_delete p l"
  let ?e = "if admin_state (bheap ?d (owner (pheap w p))) = STP_ENABLED then null_deref ?d else ?d"
  have run: "stp_port_mst_delport stack_int m i v w = (STP_OK, ?e)"
  proof -
    have "g_CISTPORT u index = Some c" using u(5) c(1) by simp
    then show ?thesis
      unfolding stp_port_mst_delport_def assms(3,4) option.case Let_def u_def [symmetric]
      using assms(1,2) idx u(7) by (simp add: l_def [symmetric] l(1) del: pheap_upd bheap_upd)
  qed
  have "find (\<lambda>q. br_vlan_id (owner_of w q) = m) (nextMst (pheap l c)) = None"
    by (auto simp: l(3) find_None_iff)
  then have "stp_port_mst_findport m i ?d = None"
    using assms(1,3) c(1) idx by (simp add: stp_port_mst_findport_def port_delete l)
  moreover have "stp_port_mst_findport m i (null_deref ?d) = stp_port_mst_findport m i ?d"
    by (simp add: stp_port_mst_findport_def split: option.split)
  ultimately have "stp_port_mst_findport m i ?e = None" by simp
  moreover have "ports (bheap ?e (owner (pheap w p))) = filter (\<lambda>q. q \<noteq> p) (ports (owner_of w p))"
    using port_delete(6) [of p l] assms(6) by (simp add: l port_lists_ok_def)
  ultimately show ?thesis using run by blast
qed

end
