(* ===== verification/StpStpm.thy ===== *)
theory StpStpm
  imports StpPort StpEdge StpMigrate StpP2p StpPcost StpSttrans
    StpTopoch StpRolesel "HOL-Library.Monad_Syntax"
begin

text \<open>
  The bridge instances (\<open>stp_stpm.c\<close>): their creation, start, stop and deletion, the one-second clock,
  and the drivers that run the machines of an instance, and of all instances, until none of them
  has a transition left. The drivers are loops without a bound: not returning is the value \<open>None\<close>.
\<close>

abbreviation (input) STP_Cannot_Compute_Bridge_Prio :: int where "STP_Cannot_Compute_Bridge_Prio \<equiv> 30"
abbreviation (input) STP_Invalid_Bridge_Priority :: int where "STP_Invalid_Bridge_Priority \<equiv> 28"

subsection \<open>The machines of an instance\<close>

text \<open>The machines are linked at the head of a list as they are created; those of the transmit and of
  the receive side are not linked. A port of an MSTI has only the last five.\<close>

definition port_machines :: "pref \<Rightarrow> world \<Rightarrow> world machine_ops list" where
  "port_machines p w =
     (if p_vlan_id (pheap w p) = STP_CIST_ID then [migrate_machine p, edge_machine p, p2p_machine p] else []) @
     [sttrans_machine p, roletrns_machine p, info_machine p, pcost_machine p, topoch_machine p]"

definition instance_machines :: "bref \<Rightarrow> world \<Rightarrow> world machine_ops list" where
  "instance_machines b w = rolesel_machine b # concat (map (\<lambda>p. port_machines p w) (ports (bheap w b)))"

definition stp_stpm_init_machine :: "world machine_ops \<Rightarrow> world \<Rightarrow> world" where
  "stp_stpm_init_machine this w = concreteEnterState this (set_begin this w)"

text \<open>\<open>stp_stpm_iterate_machines\<close> with its three callbacks: \<open>stp_stpm_init_machine\<close>;
  \<open>stp_statmch_check_condition\<close>, stopping at the first machine that wants to move;
  \<open>stp_statmch_change_state\<close>, adding up the loops.\<close>

primrec iterate_init :: "world machine_ops list \<Rightarrow> world \<Rightarrow> world" where
  "iterate_init [] w = w"
| "iterate_init (m # ms) w = iterate_init ms (stp_stpm_init_machine m w)"

primrec iterate_check :: "world machine_ops list \<Rightarrow> world \<Rightarrow> world \<times> bool" where
  "iterate_check [] w = (w, False)"
| "iterate_check (m # ms) w =
     (let (w, iret) = stp_statmch_check_condition m w in if iret then (w, True) else iterate_check ms w)"

primrec iterate_change :: "world machine_ops list \<Rightarrow> world \<Rightarrow> (world \<times> nat) option" where
  "iterate_change [] w = Some (w, 0)"
| "iterate_change (m # ms) w =
     do { (w, n) \<leftarrow> stp_statmch_change_state m 0 w; (w, k) \<leftarrow> iterate_change ms w; Some (w, n + k) }"

partial_function (option) stp_stpm_do_update :: "bref \<Rightarrow> nat \<Rightarrow> world \<Rightarrow> (world \<times> nat) option" where
  "stp_stpm_do_update b number_of_loops w =
     (let (w, need_state_change) = iterate_check (instance_machines b w) w in
      if \<not> need_state_change then Some (w, number_of_loops)
      else do { (w, n) \<leftarrow> iterate_change (instance_machines b w) w;
                stp_stpm_do_update b (number_of_loops + 1 + n) w })"

definition stp_stpm_update :: "bref \<Rightarrow> world \<Rightarrow> (world \<times> nat) option" where
  "stp_stpm_update b w = (if g_flag w then stp_stpm_do_update b 0 w else Some (w, 0))"

subsection \<open>The transmit and the receive machines\<close>

text \<open>\<open>stp_statmch_check_condition\<close> and, when it asks for it, \<open>stp_statmch_change_state\<close>.\<close>

definition check_and_run :: "world machine_ops \<Rightarrow> world \<Rightarrow> world option" where
  "check_and_run m w =
     (let (w, iret) = stp_statmch_check_condition m w in
      if iret then map_option fst (stp_statmch_change_state m 0 w) else Some w)"

primrec run_ports :: "(pref \<Rightarrow> world machine_ops) \<Rightarrow> pref list \<Rightarrow> world \<Rightarrow> world option" where
  "run_ports mach [] w = Some w"
| "run_ports mach (p # ps) w = do { w \<leftarrow> check_and_run (mach p) w; run_ports mach ps w }"

text \<open>\<open>None\<close> as the instance or as the result of \<open>stp_stpm_get_the_cist\<close> is a null pointer, which the code
  follows.\<close>

definition stp_stpm_mst_update_transmit :: "bref option \<Rightarrow> world \<Rightarrow> world option" where
  "stp_stpm_mst_update_transmit this w =
     (case this of None \<Rightarrow> Some (null_deref w) | Some b \<Rightarrow> run_ports transmit_machine (ports (bheap w b)) w)"

definition stp_stpm_mst_update_receive :: "pref option \<Rightarrow> world \<Rightarrow> world option" where
  "stp_stpm_mst_update_receive port w =
     (case port of
        Some p \<Rightarrow> check_and_run (receive_machine p) w
      | None \<Rightarrow>
          (case g_CISTBRIDGE w of
             None \<Rightarrow> Some (null_deref w)
           | Some b \<Rightarrow> run_ports receive_machine (ports (bheap w b)) w))"

definition stp_stpm_mst_init_transmit :: "bref \<Rightarrow> world \<Rightarrow> world" where
  "stp_stpm_mst_init_transmit b w =
     for_ports (\<lambda>p. stp_stpm_init_machine (transmit_machine p)) (ports (bheap w b)) w"

definition stp_stpm_mst_init_receive :: "bref \<Rightarrow> world \<Rightarrow> world" where
  "stp_stpm_mst_init_receive b w =
     for_ports (\<lambda>p. stp_stpm_init_machine (receive_machine p)) (ports (bheap w b)) w"

subsection \<open>All instances\<close>

primrec update_all :: "bref list \<Rightarrow> world \<Rightarrow> (world \<times> nat) option" where
  "update_all [] w = Some (w, 0)"
| "update_all (b # bs) w = do { (w, n) \<leftarrow> stp_stpm_update b w; (w, k) \<leftarrow> update_all bs w; Some (w, n + k) }"

text \<open>The loop \<open>do { ... } while (number_of_loops)\<close>.\<close>

partial_function (option) update_until_quiet :: "world \<Rightarrow> world option" where
  "update_until_quiet w =
     do { (w, number_of_loops) \<leftarrow> update_all (bridges w) w;
          if number_of_loops \<noteq> 0 then update_until_quiet w else Some w }"

definition stp_stpm_mst_update :: "pref option \<Rightarrow> world \<Rightarrow> world option" where
  "stp_stpm_mst_update port w =
     do { w \<leftarrow> stp_stpm_mst_update_receive port w;
          w \<leftarrow> update_until_quiet w;
          stp_stpm_mst_update_transmit (g_CISTBRIDGE w) w }"

subsection \<open>The clock\<close>

definition stp_stpm_check_topoch :: "bref \<Rightarrow> world \<Rightarrow> bool" where
  "stp_stpm_check_topoch b w \<longleftrightarrow> list_ex (\<lambda>p. tcWhile (pheap w p) \<noteq> 0) (ports (bheap w b))"

definition dec :: "u32 \<Rightarrow> u32" where
  "dec t = (if t > 0 then t - 1 else t)"

text \<open>The nine timers of a port, and its uptime.\<close>

definition tick_port :: "PORT_T \<Rightarrow> PORT_T" where
  "tick_port t = t\<lparr>fdWhile := dec (fdWhile t), helloWhen := dec (helloWhen t), mdelayWhile := dec (mdelayWhile t),
     rbWhile := dec (rbWhile t), rcvdInfoWhile := dec (rcvdInfoWhile t), rrWhile := dec (rrWhile t),
     tcWhile := dec (tcWhile t), txCount := dec (txCount t), lnkWhile := dec (lnkWhile t), uptime := uptime t + 1\<rparr>"

definition tick_instance :: "bref \<Rightarrow> world \<Rightarrow> world" where
  "tick_instance b w =
     (let w = upds (ports (bheap w b)) tick_port w in
      if stp_stpm_check_topoch b w
      then updb b (\<lambda>s. s\<lparr>Topo_Change := True, Topo_Change_Count := Topo_Change_Count s + 1, timeSince_Topo_Change := 0\<rparr>) w
      else updb b (\<lambda>s. s\<lparr>Topo_Change := False, Topo_Change_Count := 0, timeSince_Topo_Change := timeSince_Topo_Change s + 1\<rparr>) w)"

primrec tick_all :: "bref list \<Rightarrow> world \<Rightarrow> world \<times> nat" where
  "tick_all [] w = (w, 0)"
| "tick_all (b # bs) w =
     (if admin_state (bheap w b) \<noteq> STP_ENABLED then tick_all bs w
      else let (w, n) = tick_all bs (tick_instance b w) in (w, n + 1))"

definition stp_stpm_one_second :: "world \<Rightarrow> (world \<times> nat) option" where
  "stp_stpm_one_second w =
     (let (w, dbg_cnt) = tick_all (bridges w) w in
      if dbg_cnt \<noteq> 0 then map_option (\<lambda>w. (w, dbg_cnt)) (stp_stpm_mst_update None w) else Some (w, dbg_cnt))"

subsection \<open>Creation\<close>

text \<open>A new instance at the head of the list (CIST) or right behind the CIST (MSTI).\<close>

definition insert_after :: "'a \<Rightarrow> 'a \<Rightarrow> 'a list \<Rightarrow> 'a list" where
  "insert_after c x xs =
     takeWhile (\<lambda>y. y \<noteq> c) xs @ (case dropWhile (\<lambda>y. y \<noteq> c) xs of [] \<Rightarrow> [] | y # ys \<Rightarrow> y # x # ys)"

definition new_instance :: "nat \<Rightarrow> u8 list option \<Rightarrow> world \<Rightarrow> STPM_T" where
  "new_instance mstid name w =
     (let s = zero_stpm\<lparr>br_vlan_id := mstid, BrId := zero_bridge_id\<lparr>prio := DEF_BR_PRIO\<rparr>\<rparr>;
          s = (case name of None \<Rightarrow> s | Some n \<Rightarrow> s\<lparr>br_name := take 32 n\<rparr>) in
      if mstid = STP_CIST_ID
      then s\<lparr>ForceVersion := NORMAL_MSTP,
             BrTimes := \<lparr>MessageAge = 0, MaxAge = DEF_BR_MAXAGE, ForwardDelay = DEF_BR_FWDELAY,
                         HelloTime = DEF_BR_HELLOT, RemainingHops = DEF_REMAINING_HOPS\<rparr>\<rparr>
      else
        let s = s\<lparr>BrId := (BrId s)\<lparr>prio := prio (BrId s) + (0x0fff AND of_nat mstid)\<rparr>,
                  BrTimes := \<lparr>MessageAge = 0, MaxAge = 0, ForwardDelay = 0, HelloTime = 0,
                              RemainingHops = DEF_REMAINING_HOPS\<rparr>\<rparr> in
        case g_CISTBRIDGE w of
          Some c \<Rightarrow> s\<lparr>ForceVersion := ForceVersion (bheap w c),
                     BrTimes := (BrTimes s)\<lparr>RemainingHops := RemainingHops (BrTimes (bheap w c))\<rparr>,
                     BrId := (BrId s)\<lparr>addr := take 6 (addr (BrId (bheap w c)))\<rparr>\<rparr>
        | None \<Rightarrow> s\<lparr>BrTimes := (BrTimes s)\<lparr>HelloTime := DEF_BR_HELLOT, RemainingHops := DEF_REMAINING_HOPS\<rparr>\<rparr>)"

definition stp_stpm_mst_create :: "nat \<Rightarrow> u8 list option \<Rightarrow> world \<Rightarrow> bref option \<times> world" where
  "stp_stpm_mst_create mstid name w =
     (if mstid > STP_MSTI_MAX then (None, w)
      else
        let b = next_bref w; s = new_instance mstid name w;
            place = (\<lambda>bs w. updb b (\<lambda>_. s) (w\<lparr>next_bref := b + 1, bridges := bs\<rparr>)) in
        if mstid = STP_CIST_ID then (Some b, (place (b # bridges w) w)\<lparr>g_CISTBRIDGE := Some b\<rparr>)
        else case g_CISTBRIDGE w of
          None \<Rightarrow> (None, w)
        | Some c \<Rightarrow> (Some b, place (insert_after c b (bridges w)) w))"

subsection \<open>Start, stop and deletion\<close>

definition stp_stpm_init_data :: "bref \<Rightarrow> world \<Rightarrow> world" where
  "stp_stpm_init_data b w =
     updb b (\<lambda>s. let t = (BrTimes s)\<lparr>MessageAge := 0\<rparr> in
       s\<lparr>rootPrio := stp_vector_create (BrId s) 0 (BrId s) 0 (BrId s) 0 0, BrTimes := t, rootTimes := stp_times_copy t\<rparr>) w"

text \<open>The port with the lowest index (the index 0 of the search means none yet); \<open>None\<close>: no ports.\<close>

definition min_num_port :: "bref \<Rightarrow> world \<Rightarrow> pref option" where
  "min_num_port b w =
     fst (foldl (\<lambda>(best, i) p. if i = 0 \<or> port_index (pheap w p) < i then (Some p, port_index (pheap w p)) else (best, i))
       (None, 0) (ports (bheap w b)))"

definition stp_stpm_compute_bridge_id :: "bref \<Rightarrow> world \<Rightarrow> world option" where
  "stp_stpm_compute_bridge_id b w =
     (case min_num_port b w of
        None \<Rightarrow> None
      | Some _ \<Rightarrow> Some (updb b (\<lambda>s. s\<lparr>BrId := (BrId s)\<lparr>addr := stp_to_get_port_mac w\<rparr>\<rparr>) w))"

text \<open>The instances linked behind the CIST get the CIST's address.\<close>

primrec copy_address :: "bref \<Rightarrow> bref list \<Rightarrow> world \<Rightarrow> world" where
  "copy_address b [] w = w"
| "copy_address b (c # cs) w =
     copy_address b cs (updb c (\<lambda>s. s\<lparr>BrId := (BrId s)\<lparr>addr := take 6 (addr (BrId (bheap w b)))\<rparr>\<rparr>) w)"

definition share_address :: "bref \<Rightarrow> world \<Rightarrow> world" where
  "share_address b w =
     (case g_CISTBRIDGE w of
        None \<Rightarrow> null_deref w
      | Some c \<Rightarrow> copy_address b (tl (dropWhile (\<lambda>x. x \<noteq> c) (bridges w))) w)"

text \<open>From the second part of \<open>stp_stpm_start\<close> on: the data, the ports and the machines.\<close>

definition start_machines :: "bref \<Rightarrow> world \<Rightarrow> world option" where
  "start_machines b w =
     (let cist = (br_vlan_id (bheap w b) = STP_CIST_ID);
          w = stp_stpm_init_data b w;
          w = for_ports (\<lambda>p. stp_port_init p b True) (ports (bheap w b)) w;
          w = (if cist then stp_stpm_mst_init_transmit b (stp_stpm_mst_init_receive b w) else w);
          w = iterate_init (instance_machines b w) w in
      do { w \<leftarrow> (if cist then stp_stpm_mst_update_receive None w else Some w);
           (w, _) \<leftarrow> stp_stpm_update b w;
           if cist then stp_stpm_mst_update_transmit (Some b) w else Some w })"

definition stp_stpm_start :: "bref \<Rightarrow> world \<Rightarrow> (int \<times> world) option" where
  "stp_stpm_start b w =
     (if br_vlan_id (bheap w b) = STP_CIST_ID
      then case stp_stpm_compute_bridge_id b w of
        None \<Rightarrow> Some (STP_Cannot_Compute_Bridge_Prio, w)
      | Some w \<Rightarrow> map_option (\<lambda>w. (STP_OK, w)) (start_machines b (share_address b w))
      else map_option (\<lambda>w. (STP_OK, w)) (start_machines b w))"

definition stp_stpm_stop :: "bref \<Rightarrow> world \<Rightarrow> world" where
  "stp_stpm_stop b w = updb b (\<lambda>s. s\<lparr>admin_state := STP_DISABLED\<rparr>) w"

definition stp_stpm_enable :: "bref \<Rightarrow> UID_STP_MODE_T \<Rightarrow> world \<Rightarrow> (int \<times> world) option" where
  "stp_stpm_enable b st w =
     (if st = admin_state (bheap w b) then Some (0, w)
      else if st = STP_ENABLED
      then map_option (\<lambda>(rc, w). (rc, updb b (\<lambda>s. s\<lparr>admin_state := st\<rparr>) w)) (stp_stpm_start b w)
      else Some (0, stp_stpm_stop b (updb b (\<lambda>s. s\<lparr>admin_state := st\<rparr>) w)))"

text \<open>The port loop of \<open>stp_stpm_delete\<close> advances twice per round: the body moves on to the next port
  (\<open>this->ports = port = pv\<close>) and the loop header does so again, following a null pointer when
  the body has just dealt with the last port.\<close>

fun delete_ports :: "bref \<Rightarrow> pref list \<Rightarrow> world \<Rightarrow> world" where
  "delete_ports b [] w = w"
| "delete_ports b [p] w = null_deref (updb b (\<lambda>s. s\<lparr>ports := []\<rparr>) (stp_port_delete p w))"
| "delete_ports b (p # q # ps) w =
     delete_ports b ps (updb b (\<lambda>s. s\<lparr>ports := q # ps\<rparr>) (stp_port_delete p w))"

definition stp_stpm_delete :: "bref \<Rightarrow> world \<Rightarrow> world option" where
  "stp_stpm_delete b w =
     do { (_, w) \<leftarrow> stp_stpm_enable b STP_DISABLED w;
          let w = delete_ports b (ports (bheap w b)) w;
              same = (\<lambda>c. br_vlan_id (bheap w c) = br_vlan_id (bheap w b)) in
          Some (if list_ex same (bridges w)
                then w\<lparr>bridges := remove_first same (bridges w),
                       g_CISTBRIDGE := (if br_vlan_id (bheap w b) = STP_CIST_ID then None else g_CISTBRIDGE w)\<rparr>
                else w) }"

subsection \<open>Management hooks\<close>

definition stp_stpm_update_after_bridge_management :: "bref \<Rightarrow> world \<Rightarrow> world" where
  "stp_stpm_update_after_bridge_management b w =
     upds (ports (bheap w b)) (\<lambda>t. t\<lparr>reselect := True, selected := False\<rparr>) w"

definition stp_stpm_check_bridge_priority :: "bref \<Rightarrow> world \<Rightarrow> int" where
  "stp_stpm_check_bridge_priority b w =
     (if list_ex (\<lambda>c. admin_state (bheap w c) = STP_ENABLED \<and> c \<noteq> b \<and>
           stp_vector_compare_bridge_id (BrId (bheap w b)) (BrId (bheap w c)) = 0) (bridges w)
      then STP_Invalid_Bridge_Priority else 0)"

subsection \<open>A machine that does not want to move changes nothing\<close>

text \<open>What a machine's condition may change without asking for a transition, and what no condition
  depends on: the trace of outputs and the count of state reports.\<close>

definition retrace :: "out_event list \<Rightarrow> nat \<Rightarrow> world \<Rightarrow> world" where
  "retrace es n w = w\<lparr>out := es, sttrans_count := n\<rparr>"

lemma retrace_simps [simp]:
  "pheap (retrace es n w) = pheap w" "bheap (retrace es n w) = bheap w" "g_CISTPORT (retrace es n w) = g_CISTPORT w"
  "platform (retrace es n w) = platform w" "g_CISTBRIDGE (retrace es n w) = g_CISTBRIDGE w"
  "bridges (retrace es n w) = bridges w" "port_duplex_mode_nodes (retrace es n w) = port_duplex_mode_nodes w"
  "port_speed_s (retrace es n w) = port_speed_s w" "g_flag (retrace es n w) = g_flag w"
  "out (retrace es n w) = es" "sttrans_count (retrace es n w) = n"
  "retrace es n (retrace es' n' w) = retrace es n w" "retrace (out w) (sttrans_count w) w = w"
  by (simp_all add: retrace_def)

lemma findport_retrace [simp]: "stp_port_mst_findport m i (retrace es n w) = stp_port_mst_findport m i w"
  by (simp add: stp_port_mst_findport_def split: option.split)

locale quiet_machine =
  fixes m :: "world machine_ops"
  assumes quiet: "\<not> snd (concreteCheckCondition m w) \<Longrightarrow> \<exists>es n. fst (concreteCheckCondition m w) = retrace es n w"
    and check_retrace: "snd (concreteCheckCondition m (retrace es n w)) = snd (concreteCheckCondition m w)"
begin

lemma check_quiet:
  "\<not> snd (stp_statmch_check_condition m w) \<Longrightarrow> \<exists>es n. fst (stp_statmch_check_condition m w) = retrace es n w"
  using quiet by (auto simp: stp_statmch_check_condition_def Let_def split_beta split: if_splits)

lemma check_again:
  "snd (stp_statmch_check_condition m (retrace es n w)) = snd (stp_statmch_check_condition m w)"
  using check_retrace by (simp add: stp_statmch_check_condition_def Let_def split_beta)

end

lemma retrace_self: "\<exists>es n. w = retrace es n w"
  by (metis retrace_simps(13))

interpretation qmig: quiet_machine "migrate_machine p" for p
  by unfold_locales (auto simp: migrate_machine_def port_machine_def MSTP_migrate_check_conditions_def hop_def Let_def
      intro: retrace_self split: if_splits migrate_state.splits)

interpretation qedg: quiet_machine "edge_machine p" for p
  by unfold_locales (auto simp: edge_machine_def port_machine_def MSTP_edge_check_conditions_def hop_def Let_def
      intro: retrace_self split: if_splits edge_state.splits)

interpretation qpp: quiet_machine "p2p_machine p" for p
  by unfold_locales (auto simp: p2p_machine_def port_machine_def MSTP_p2p_check_conditions_def hop_def Let_def
      intro: retrace_self split: if_splits p2p_state.splits)

interpretation qpc: quiet_machine "pcost_machine p" for p
  by unfold_locales (auto simp: pcost_machine_def port_machine_def MSTP_pcost_check_conditions_def hop_def Let_def
      intro: retrace_self split: if_splits pcost_state.splits)

interpretation qst: quiet_machine "sttrans_machine p" for p
proof
  fix w es n
  have send: "\<exists>es n. stp_sttrans_sendStpStatetoNpd p w\<lparr>sttrans_count := Suc 0\<rparr> = retrace es n w" for w
    by (simp add: stp_sttrans_sendStpStatetoNpd_def emit_def retrace_def Let_def) blast
  show "\<exists>es n. fst (concreteCheckCondition (sttrans_machine p) w) = retrace es n w"
    if "\<not> snd (concreteCheckCondition (sttrans_machine p) w)"
    using that send
    by (auto simp: sttrans_machine_def port_machine_def MSTP_sttrans_check_conditions_def hop_def Let_def
        intro: retrace_self split: if_splits sttrans_state.splits)
  show "snd (concreteCheckCondition (sttrans_machine p) (retrace es n w)) = snd (concreteCheckCondition (sttrans_machine p) w)"
    by (auto simp: sttrans_machine_def port_machine_def MSTP_sttrans_check_conditions_def hop_def Let_def
        split: sttrans_state.splits)
qed

interpretation qrt: quiet_machine "roletrns_machine p" for p
proof
  fix w es n
  have "stp_roletrns_compute_all_synced p (retrace es n w) = stp_roletrns_compute_all_synced p w"
    and "stp_roletrns_compute_re_rooted p (retrace es n w) = stp_roletrns_compute_re_rooted p w"
    by (simp_all add: stp_roletrns_compute_all_synced_def stp_roletrns_compute_re_rooted_def)
  then show "snd (concreteCheckCondition (roletrns_machine p) (retrace es n w)) = snd (concreteCheckCondition (roletrns_machine p) w)"
    by (simp add: roletrns_machine_def port_machine_def MSTP_roletrns_check_conditions_def hop_def split: option.split)
qed (auto simp: roletrns_machine_def port_machine_def MSTP_roletrns_check_conditions_def hop_def
    intro: retrace_self split: option.splits)

interpretation qinf: quiet_machine "info_machine p" for p
proof
  fix w es n
  have "stp_portinfo_rcvd_xstinfo p (retrace es n w) = stp_portinfo_rcvd_xstinfo p w"
    and "stp_portinfo_updt_xstinfo p (retrace es n w) = stp_portinfo_updt_xstinfo p w"
    by (simp_all add: stp_portinfo_rcvd_xstinfo_def stp_portinfo_updt_xstinfo_def split: option.split)
  then show "snd (concreteCheckCondition (info_machine p) (retrace es n w)) = snd (concreteCheckCondition (info_machine p) w)"
    by (cases "State (info (pheap w p))"; cases "rcvdInfo (pheap w p)")
      (simp_all add: info_machine_def port_machine_def MSTP_info_check_conditions_def hop_def Let_def)
qed (auto simp: info_machine_def port_machine_def MSTP_info_check_conditions_def hop_def Let_def
    intro: retrace_self split: if_splits info_state.splits RCVD_MSG_T.splits)

interpretation qtch: quiet_machine "topoch_machine p" for p
  by unfold_locales (auto simp: topoch_machine_def port_machine_def MSTP_topoch_check_conditions_def hop_def Let_def
      intro: retrace_self split: if_splits topoch_state.splits)

interpretation qrs: quiet_machine "rolesel_machine b" for b
  by unfold_locales (auto simp: rolesel_machine_def bridge_machine_def MSTP_rolesel_check_conditions_def hopb_def Let_def
      intro: retrace_self split: if_splits rolesel_state.splits)

lemma machines_quiet: "m \<in> set (instance_machines b w) \<Longrightarrow> quiet_machine m"
  using qmig.quiet_machine_axioms qedg.quiet_machine_axioms qpp.quiet_machine_axioms qpc.quiet_machine_axioms
    qst.quiet_machine_axioms qrt.quiet_machine_axioms qinf.quiet_machine_axioms qtch.quiet_machine_axioms
    qrs.quiet_machine_axioms
  by (auto simp: instance_machines_def port_machines_def split: if_splits)

lemma instance_machines_retrace [simp]: "instance_machines b (retrace es n w) = instance_machines b w"
  by (simp add: instance_machines_def port_machines_def)

declare stp_statmch_change_state.simps [code] stp_stpm_do_update.simps [code] update_until_quiet.simps [code]

subsection \<open>The drivers return only when nothing is left to do\<close>

text \<open>No machine of the instance wants to move.\<close>

definition quiescent :: "bref \<Rightarrow> world \<Rightarrow> bool" where
  "quiescent b w \<longleftrightarrow> list_all (\<lambda>m. \<not> snd (stp_statmch_check_condition m w)) (instance_machines b w)"

lemma quiescent_retrace [simp]: "quiescent b (retrace es n w) = quiescent b w"
  using machines_quiet quiet_machine.check_again
  by (auto simp: quiescent_def list_all_iff)

lemma iterate_check_quiet:
  assumes "iterate_check ms w = (w', False)" and "\<And>m. m \<in> set ms \<Longrightarrow> quiet_machine m"
  shows "(\<exists>es n. w' = retrace es n w) \<and> (\<forall>m \<in> set ms. \<not> snd (stp_statmch_check_condition m w))"
  using assms
proof (induction ms arbitrary: w)
  case (Cons m ms)
  then have q: "quiet_machine m" by simp
  have c: "\<not> snd (stp_statmch_check_condition m w)" and
    r: "iterate_check ms (fst (stp_statmch_check_condition m w)) = (w', False)"
    using Cons.prems(1) by (auto simp: split_beta Let_def split: if_splits)
  obtain es n where e: "fst (stp_statmch_check_condition m w) = retrace es n w"
    using quiet_machine.check_quiet [OF q c] by blast
  have "(\<exists>es' n'. w' = retrace es' n' (retrace es n w)) \<and>
      (\<forall>m \<in> set ms. \<not> snd (stp_statmch_check_condition m (retrace es n w)))"
    using Cons.IH [OF r [unfolded e]] Cons.prems(2) by simp
  then show ?case
    using c Cons.prems(2) quiet_machine.check_again by (auto)
qed (auto intro: retrace_self)

lemma iterate_check_quiescent:
  assumes "iterate_check (instance_machines b w) w = (w', False)"
  shows "quiescent b w" and "\<exists>es n. w' = retrace es n w"
  using iterate_check_quiet [OF assms] machines_quiet by (auto simp: quiescent_def list_all_iff)

text \<open>A run of the driver: it ends quiescent, and without a loop only when it began so.\<close>

definition updated :: "bref \<Rightarrow> nat \<Rightarrow> world \<Rightarrow> world \<times> nat \<Rightarrow> bool" where
  "updated b k w r \<longleftrightarrow> quiescent b (fst r) \<and> k \<le> snd r \<and> (snd r = k \<longrightarrow> (\<exists>es n. fst r = retrace es n w))"

lemma do_update_updated:
  assumes "stp_stpm_do_update b k w = Some r"
  shows "updated b k w r"
proof (rule stp_stpm_do_update.raw_induct [OF _ assms, of updated])
  fix f b k w r
  assume IH: "\<And>b k w r. f b k w = Some r \<Longrightarrow> updated b k w r"
    and eq: "(let (w, need_state_change) = iterate_check (instance_machines b w) w in
      if \<not> need_state_change then Some (w, k)
      else do { (w, n) \<leftarrow> iterate_change (instance_machines b w) w; f b (k + 1 + n) w }) = Some r"
  obtain u c where it: "iterate_check (instance_machines b w) w = (u, c)" by force
  show "updated b k w r"
  proof (cases c)
    case False
    then have "iterate_check (instance_machines b w) w = (u, False)" using it by simp
    from iterate_check_quiescent [OF this] obtain es n where "quiescent b w" and "u = retrace es n w" by blast
    moreover from this have "r = (retrace es n w, k)" using eq it False by simp
    ultimately show ?thesis by (simp add: updated_def) blast
  next
    case True
    then obtain v n where "f b (k + 1 + n) v = Some r"
      using eq it by (auto split: option.splits Option.bind_splits)
    then show ?thesis using IH [of b "k + 1 + n" v r] by (simp add: updated_def)
  qed
qed

lemma quiescent_iterate_check:
  assumes "\<forall>m \<in> set ms. \<not> snd (stp_statmch_check_condition m w)" and "\<And>m. m \<in> set ms \<Longrightarrow> quiet_machine m"
  shows "\<not> snd (iterate_check ms w)"
  using assms
proof (induction ms arbitrary: w)
  case (Cons m ms)
  then obtain es n where "fst (stp_statmch_check_condition m w) = retrace es n w"
    using quiet_machine.check_quiet by (metis list.set_intros(1))
  moreover have "\<not> snd (iterate_check ms (retrace es n w))"
    using Cons quiet_machine.check_again by (metis list.set_intros(2))
  ultimately show ?case using Cons.prems(1) by (simp add: Let_def split_beta)
qed simp

lemma do_update_idle:
  assumes "quiescent b w"
  shows "\<exists>w'. stp_stpm_do_update b k w = Some (w', k)"
proof -
  have "\<not> snd (iterate_check (instance_machines b w) w)"
    using assms machines_quiet by (intro quiescent_iterate_check) (auto simp: quiescent_def list_all_iff)
  then show ?thesis by (subst stp_stpm_do_update.simps) (simp add: Let_def split_beta)
qed

text \<open>\<open>stp_stpm_do_update\<close> returns at once, reporting zero loops, exactly when no machine
  of the instance wants to move, and whenever it returns no machine wants to move any more.\<close>

theorem do_update_quiescent:
  "(quiescent b w \<longleftrightarrow> (\<exists>w'. stp_stpm_do_update b 0 w = Some (w', 0))) \<and>
   (\<forall>w' n. stp_stpm_do_update b 0 w = Some (w', n) \<longrightarrow> quiescent b w')"
proof -
  have "quiescent b w' \<and> (n = 0 \<longrightarrow> quiescent b w)" if "stp_stpm_do_update b 0 w = Some (w', n)" for w' n
    using do_update_updated [OF that] by (auto simp: updated_def)
  then show ?thesis using do_update_idle by blast
qed

lemma update_all_loops:
  "update_all bs w = Some (w', 0) \<Longrightarrow> g_flag w \<Longrightarrow>
     (\<exists>es n. w' = retrace es n w) \<and> (\<forall>b \<in> set bs. quiescent b w)"
proof (induction bs arbitrary: w)
  case Nil
  then show ?case using retrace_self by auto
next
  case (Cons b bs)
  then obtain u where u: "stp_stpm_do_update b 0 w = Some (u, 0)" and rest: "update_all bs u = Some (w', 0)"
    by (auto simp: stp_stpm_update_def split: Option.bind_splits)
  from do_update_updated [OF u] obtain es n where e: "u = retrace es n w" and q: "quiescent b u"
    by (auto simp: updated_def)
  have "(\<exists>es n. w' = retrace es n u) \<and> (\<forall>b \<in> set bs. quiescent b u)"
    using Cons.IH [OF rest] Cons.prems(2) e by simp
  then show ?case using q by (auto simp: e)
qed

lemma all_quiescent:
  assumes "update_until_quiet w = Some w'" and "g_flag w'"
  shows "\<forall>b \<in> set (bridges w'). quiescent b w'"
proof -
  define P where "P w r \<longleftrightarrow> (g_flag r \<longrightarrow> (\<forall>b \<in> set (bridges r). quiescent b r))" for w r :: world
  have "P w w'"
  proof (rule update_until_quiet.raw_induct [OF _ assms(1), of P])
    fix f w r
    assume IH: "\<And>w r. f w = Some r \<Longrightarrow> P w r"
      and eq: "do { (w, number_of_loops) \<leftarrow> update_all (bridges w) w;
                 if number_of_loops \<noteq> 0 then f w else Some w } = Some r"
    then obtain u n where u: "update_all (bridges w) w = Some (u, n)" by (auto split: Option.bind_splits)
    show "P w r"
    proof (cases "n = 0")
      case True
      then have r: "r = u" using eq u by simp
      show ?thesis
      proof (cases "g_flag w")
        case g: True
        from update_all_loops [OF u [unfolded True] g] obtain es k
          where "u = retrace es k w" and "\<forall>b \<in> set (bridges w). quiescent b w" by blast
        then show ?thesis by (simp add: P_def r)
      next
        case False
        have "update_all bs w = Some (w, 0)" for bs
          by (induction bs) (simp_all add: stp_stpm_update_def False)
        then show ?thesis using u False by (simp add: P_def r)
      qed
    next
      case False
      then have "f u = Some r" using eq u by simp
      then show ?thesis using IH [of u r] by (simp add: P_def)
    qed
  qed
  then show ?thesis using assms(2) by (simp add: P_def)
qed

lemma update_all_idle:
  assumes "g_flag w" and "\<forall>b \<in> set bs. quiescent b w"
  shows "\<exists>es n. update_all bs w = Some (retrace es n w, 0)"
  using assms
proof (induction bs arbitrary: w)
  case Nil
  then show ?case using retrace_self [of w] by auto
next
  case (Cons b bs)
  then obtain u where u: "stp_stpm_do_update b 0 w = Some (u, 0)" using do_update_idle [of b w 0] by auto
  from do_update_updated [OF u] obtain es n where "u = retrace es n w" by (auto simp: updated_def)
  moreover from this obtain es' n' where "update_all bs u = Some (retrace es' n' u, 0)"
    using Cons.IH [of u] Cons.prems by auto
  ultimately show ?case using u Cons.prems(1) by (simp add: stp_stpm_update_def) blast
qed


subsection \<open>The clock ticks every running port once\<close>

definition enabled :: "world \<Rightarrow> bref \<Rightarrow> bool" where
  "enabled w b \<longleftrightarrow> admin_state (bheap w b) = STP_ENABLED"

lemma unat_dec: "unat (dec t) = unat t - 1"
  by (cases "t = 0") (simp_all add: dec_def unat_minus_one word_neq_0_conv)

lemma tick_instance_port:
  assumes "distinct (ports (bheap w b))"
  shows "pheap (tick_instance b w) p = (if p \<in> set (ports (bheap w b)) then tick_port (pheap w p) else pheap w p)"
  using assms by (simp add: tick_instance_def Let_def pheap_upds_in)

lemma tick_instance_frame:
  "ports (bheap (tick_instance b w) c) = ports (bheap w c)"
  "admin_state (bheap (tick_instance b w) c) = admin_state (bheap w c)"
  by (simp_all add: tick_instance_def Let_def)

lemma tick_all_ports:
  assumes "distinct (concat (map (\<lambda>b. ports (bheap w b)) bs))"
  shows "pheap (fst (tick_all bs w)) p =
      (if \<exists>b \<in> set bs. enabled w b \<and> p \<in> set (ports (bheap w b)) then tick_port (pheap w p) else pheap w p) \<and>
    snd (tick_all bs w) = length (filter (enabled w) bs)"
  using assms
proof (induction bs arbitrary: w)
  case (Cons b bs)
  show ?case
  proof (cases "enabled w b")
    case True
    let ?w = "tick_instance b w"
    have d: "distinct (concat (map (\<lambda>b. ports (bheap ?w b)) bs))" and e: "enabled ?w = enabled w"
      using Cons.prems by (simp_all add: tick_instance_frame enabled_def fun_eq_iff)
    have "p \<in> set (ports (bheap w b)) \<Longrightarrow> c \<in> set bs \<Longrightarrow> p \<notin> set (ports (bheap w c))" for c
      using Cons.prems by auto
    then show ?thesis
      using Cons.IH [OF d] Cons.prems True tick_instance_port [of w b p]
      by (auto simp: e tick_instance_frame split_beta enabled_def [of w b])
  next
    case False
    then show ?thesis using Cons by (simp add: enabled_def)
  qed
qed simp

lemma distinct_concat_map:
  "distinct (concat (map f xs)) \<Longrightarrow> x \<in> set xs \<Longrightarrow> p \<in> set (f x) \<Longrightarrow> y \<in> set xs \<Longrightarrow> p \<in> set (f y) \<Longrightarrow> y = x"
  by (induction xs) auto

text \<open>C17: one second takes one off each of the nine timers of every port of every enabled
  instance, never below zero, and leaves the ports of the other instances alone.\<close>

theorem one_second_ticks:
  assumes "distinct (concat (map (\<lambda>b. ports (bheap w b)) (bridges w)))"
  defines "w' \<equiv> fst (tick_all (bridges w) w)"
  shows "\<forall>b \<in> set (bridges w). \<forall>p \<in> set (ports (bheap w b)).
    if admin_state (bheap w b) = STP_ENABLED
    then (\<forall>timer \<in> {fdWhile, helloWhen, mdelayWhile, rbWhile, rcvdInfoWhile, rrWhile, tcWhile, txCount, lnkWhile}.
        unat (timer (pheap w' p)) = unat (timer (pheap w p)) - 1) \<and> uptime (pheap w' p) = uptime (pheap w p) + 1
    else pheap w' p = pheap w p"
proof (intro ballI)
  fix b p assume b: "b \<in> set (bridges w)" and p: "p \<in> set (ports (bheap w b))"
  have uniq: "c = b" if "c \<in> set (bridges w)" "p \<in> set (ports (bheap w c))" for c
    using assms(1) b p that by (rule distinct_concat_map)
  show "if admin_state (bheap w b) = STP_ENABLED
    then (\<forall>timer \<in> {fdWhile, helloWhen, mdelayWhile, rbWhile, rcvdInfoWhile, rrWhile, tcWhile, txCount, lnkWhile}.
        unat (timer (pheap w' p)) = unat (timer (pheap w p)) - 1) \<and> uptime (pheap w' p) = uptime (pheap w p) + 1
    else pheap w' p = pheap w p"
  proof (cases "enabled w b")
    case True
    then have "pheap w' p = tick_port (pheap w p)"
      unfolding w'_def using tick_all_ports [OF assms(1), of p] b p by auto
    then show ?thesis using True by (simp add: tick_port_def unat_dec enabled_def)
  next
    case False
    then have "pheap w' p = pheap w p"
      unfolding w'_def using tick_all_ports [OF assms(1), of p] uniq by auto
    then show ?thesis using False by (simp add: enabled_def)
  qed
qed

subsection \<open>Creation and deletion of instances\<close>

lemma find_append:
  "find P (xs @ ys) = (case find P xs of None \<Rightarrow> find P ys | Some x \<Rightarrow> Some x)"
  by (induction xs) simp_all

lemma find_insert_after:
  assumes "c \<in> set xs" and "P x \<Longrightarrow> find P xs = None"
  shows "find P (insert_after c x xs) = (if P x then Some x else find P xs)"
proof (cases "P x")
  case True
  then have "\<not> (\<exists>y \<in> set xs. P y)" using assms(2) by (auto simp: find_None_iff)
  moreover obtain y ys where "dropWhile (\<lambda>y. y \<noteq> c) xs = y # ys"
    using assms(1) by (cases "dropWhile (\<lambda>y. y \<noteq> c) xs") (auto simp: dropWhile_eq_Nil_conv)
  moreover from this have "y \<in> set xs" using set_dropWhileD [of y "\<lambda>y. y \<noteq> c" xs] by simp
  moreover have "find P (takeWhile (\<lambda>y. y \<noteq> c) xs) = None"
    using \<open>\<not> (\<exists>y \<in> set xs. P y)\<close> by (auto simp: find_None_iff dest: set_takeWhileD)
  ultimately show ?thesis
    using True by (auto simp: insert_after_def find_append)
next
  case False
  show ?thesis
  proof (cases "dropWhile (\<lambda>y. y \<noteq> c) xs")
    case Nil
    then show ?thesis
      using assms(1) by (auto simp: dropWhile_eq_Nil_conv)
  next
    case (Cons y ys)
    let ?t = "takeWhile (\<lambda>y. y \<noteq> c) xs"
    have "find P (insert_after c x xs) = find P (?t @ y # ys)"
      using False Cons by (simp add: insert_after_def find_append split: option.split)
    also have "?t @ y # ys = xs" using takeWhile_dropWhile_id [of "\<lambda>y. y \<noteq> c" xs] Cons by simp
    finally show ?thesis using False by simp
  qed
qed

text \<open>a new MSTI is found under its number and no other instance is disturbed; it
  inherits the CIST's address and protocol version, and its number is the low part of its bridge
  priority.\<close>

theorem mst_create_found:
  assumes "0 < m" and "m \<le> STP_MSTI_MAX" and "g_CISTBRIDGE w = Some c" and "c \<in> set (bridges w)"
    and "\<forall>b \<in> set (bridges w). b < next_bref w" and "stp_stpm_get_instance m w = None"
    and "length (addr (BrId (bheap w c))) = 6"
  shows "\<exists>b w'. stp_stpm_mst_create m name w = (Some b, w') \<and> stp_stpm_get_instance m w' = Some b \<and>
    (\<forall>m'. m' \<noteq> m \<longrightarrow> stp_stpm_get_instance m' w' = stp_stpm_get_instance m' w) \<and>
    addr (BrId (bheap w' b)) = addr (BrId (bheap w c)) \<and> ForceVersion (bheap w' b) = ForceVersion (bheap w c) \<and>
    prio (BrId (bheap w' b)) = DEF_BR_PRIO + of_nat m \<and> ports (bheap w' b) = [] \<and> admin_state (bheap w' b) = STP_DISABLED"
proof -
  let ?b = "next_bref w"
  let ?w = "snd (stp_stpm_mst_create m name w)"
  have create: "stp_stpm_mst_create m name w = (Some ?b, ?w)"
    using assms(1-3) by (simp add: stp_stpm_mst_create_def Let_def)
  have br: "bridges ?w = insert_after c ?b (bridges w)"
    and new: "bheap ?w ?b = new_instance m name w" and old: "\<And>d. d \<noteq> ?b \<Longrightarrow> bheap ?w d = bheap w d"
    using assms(1-3) by (simp_all add: stp_stpm_mst_create_def Let_def)
  have vid: "br_vlan_id (new_instance m name w) = m"
    using assms(1) by (simp add: new_instance_def Let_def zero_stpm_def split: option.split)
  have same: "find (\<lambda>b. br_vlan_id (bheap ?w b) = m') (bridges w) = find (\<lambda>b. br_vlan_id (bheap w b) = m') (bridges w)" for m'
    using assms(5) old by (intro find_cong) auto
  have "stp_stpm_get_instance m' ?w = (if m' = m then Some ?b else stp_stpm_get_instance m' w)" for m'
    unfolding stp_stpm_get_instance_def br
    using find_insert_after [OF assms(4), of "\<lambda>b. br_vlan_id (bheap ?w b) = m'" ?b] same assms(6) new vid
    by (auto simp: stp_stpm_get_instance_def)
  moreover have "0x0fff AND of_nat m = (of_nat m :: u16)"
  proof -
    have "(of_nat m :: u16) = take_bit 12 (of_nat m)"
      using assms(2) by (simp add: take_bit_of_nat take_bit_nat_eq_self)
    then show ?thesis unfolding mask_0fff by (simp add: take_bit_eq_mask and.commute)
  qed
  moreover have "addr (BrId (new_instance m name w)) = addr (BrId (bheap w c))"
    "ForceVersion (new_instance m name w) = ForceVersion (bheap w c)"
    "prio (BrId (new_instance m name w)) = DEF_BR_PRIO + (0x0fff AND of_nat m)"
    "ports (new_instance m name w) = []" "admin_state (new_instance m name w) = STP_DISABLED"
    using assms(1,3,7)
    by (simp_all add: new_instance_def Let_def zero_stpm_def zero_bridge_id_def split: option.split)
  ultimately show ?thesis
    using create new by (intro exI [of _ ?b] exI [of _ ?w]) simp
qed

lemma fault_mono:
  "fault w \<Longrightarrow> fault (stp_port_delete p w)"
  by (simp add: stp_port_delete_def Let_def)

lemma delete_ports_odd: "odd (length ps) \<Longrightarrow> fault (delete_ports b ps w)"
  by (induction b ps w rule: delete_ports.induct) simp_all

text \<open>deleting an instance that still has an odd number of ports follows a null
  pointer: its port loop advances twice per round.\<close>

theorem delete_odd_faults:
  assumes "odd (length (ports (bheap w b)))"
  shows "\<exists>w'. stp_stpm_delete b w = Some w' \<and> fault w'"
proof -
  obtain rc u where u: "stp_stpm_enable b STP_DISABLED w = Some (rc, u)" "ports (bheap u b) = ports (bheap w b)"
    by (cases "admin_state (bheap w b)") (auto simp: stp_stpm_enable_def stp_stpm_stop_def)
  have "fault (delete_ports b (ports (bheap u b)) u)"
    using assms u(2) by (simp add: delete_ports_odd)
  then show ?thesis using u(1) by (auto simp: stp_stpm_delete_def Let_def)
qed

end
