(* ===== verification/StpShape.thy ===== *)
theory StpShape
  imports StpStpm
begin

text \<open>
  What the protocol engine never touches. The machines write timers, flags, vectors and roles; the
  structure of the daemon (which ports and instances exist, how they are linked and found) and its
  configuration belong to the management. The projection \<open>shape\<close> has both, and every machine, the
  drivers and the clock keep it.
\<close>

definition pshape :: "PORT_T \<Rightarrow> _" where
  "pshape t = (owner t, port_index t, port_id t, p_vlan_id t, nextMst t, p_vlan_map t,
     (adminEnable t, adminPCost t, adminEdge t, adminPointToPointMac t, admin_non_stp t),
     isWAN t, slot_no t, port_no t)"

definition bshape :: "STPM_T \<Rightarrow> _" where
  "bshape s = (ports s, br_vlan_id s, br_vlan_map s, br_name s, admin_state s, BrId s, BrTimes s, ForceVersion s, MstConfigId s)"

definition shape :: "world \<Rightarrow> _" where
  "shape w = (pshape \<circ> pheap w, bshape \<circ> bheap w,
     (bridges w, next_pref w, next_bref w, g_CISTBRIDGE w, g_CISTPORT w),
     (g_VID2MSTID w, g_VlanPBMP w, platform w, stp_ports w, port_speed_s w, port_duplex_mode_nodes w, enabled_ports w))"

named_theorems shape_simps

lemma pshape_simps: "pshape t = pshape t' \<longleftrightarrow>
    owner t = owner t' \<and> port_index t = port_index t' \<and> port_id t = port_id t' \<and> p_vlan_id t = p_vlan_id t' \<and>
    nextMst t = nextMst t' \<and> p_vlan_map t = p_vlan_map t' \<and> adminEnable t = adminEnable t' \<and> adminPCost t = adminPCost t' \<and>
    adminEdge t = adminEdge t' \<and> adminPointToPointMac t = adminPointToPointMac t' \<and> admin_non_stp t = admin_non_stp t' \<and>
    isWAN t = isWAN t' \<and> slot_no t = slot_no t' \<and> port_no t = port_no t'"
  by (auto simp: pshape_def)

lemma shape_upd [shape_simps]: "(\<And>t. pshape (f t) = pshape t) \<Longrightarrow> shape (upd p f w) = shape w"
  by (auto simp: shape_def upd_def fun_eq_iff)

lemma shape_updb [shape_simps]: "(\<And>s. bshape (f s) = bshape s) \<Longrightarrow> shape (updb b f w) = shape w"
  by (auto simp: shape_def updb_def fun_eq_iff)

lemma shape_emit [shape_simps]: "shape (emit e w) = shape w" "shape (null_deref w) = shape w"
  by (simp_all add: shape_def emit_def null_deref_def)

lemma shape_count [shape_simps]: "shape (w\<lparr>sttrans_count := n\<rparr>) = shape w" "shape (w\<lparr>pkt_mstid := i\<rparr>) = shape w"
  "shape (w\<lparr>g_curBPDU := c\<rparr>) = shape w"
  by (simp_all add: shape_def)

lemma shape_upds [shape_simps]: "(\<And>t. pshape (f t) = pshape t) \<Longrightarrow> shape (upds ps f w) = shape w"
  by (induction ps arbitrary: w) (simp_all add: shape_upd)

lemma shape_for_ports [shape_simps]: "(\<And>p w. shape (bd p w) = shape w) \<Longrightarrow> shape (for_ports bd ps w) = shape w"
  by (rule for_ports_field)

locale shape_machine =
  fixes m :: "world machine_ops"
  assumes enter: "shape (concreteEnterState m w) = shape w"
    and check: "shape (fst (concreteCheckCondition m w)) = shape w"
    and setters: "shape (set_changeState m c w) = shape w" "shape (set_begin m w) = shape w"
begin

lemma check_condition: "shape (fst (stp_statmch_check_condition m w)) = shape w"
  using check [of w] by (auto simp: stp_statmch_check_condition_def setters split_beta Let_def)

lemma step: "shape (statmch_step m w) = shape w"
  by (simp add: statmch_step_def check_condition setters enter)

lemma change_state: "stp_statmch_change_state m k w = Some (w', n) \<Longrightarrow> shape w' = shape w"
  using change_state_invariant [of m k w w' n "\<lambda>v. shape v = shape w"] step by auto

lemma init: "shape (stp_stpm_init_machine m w) = shape w"
  by (simp add: stp_stpm_init_machine_def enter setters)

end

lemma hop_shape [shape_simps]: "(\<And>g t. pshape (u g t) = pshape t) \<Longrightarrow> shape (fst (hop u p st w)) = shape w"
  by (simp add: hop_def shape_simps)

lemma hopb_shape [shape_simps]: "(\<And>g s. bshape (u g s) = bshape s) \<Longrightarrow> shape (fst (hopb u b st w)) = shape w"
  by (simp add: hopb_def shape_simps)

lemma port_machine_shape:
  assumes "\<And>g t. pshape (u g t) = pshape t"
    and "\<And>w. shape (e p w) = shape w" and "\<And>w. shape (fst (c p w)) = shape w"
  shows "shape_machine (port_machine g u st e c p)"
  using assms by unfold_locales (simp_all add: port_machine_def shape_simps)

lemma bridge_machine_shape:
  assumes "\<And>g t. bshape (u g t) = bshape t"
    and "\<And>w. shape (e b w) = shape w" and "\<And>w. shape (fst (c b w)) = shape w"
  shows "shape_machine (bridge_machine g u st e c b)"
  using assms by unfold_locales (simp_all add: bridge_machine_def shape_simps)

lemmas field_simps' = pshape_simps bshape_def

subsection \<open>The procedures of the machines\<close>

lemma shape_upd_value [shape_simps]: "pshape v = pshape (pheap w p) \<Longrightarrow> shape (upd p (\<lambda>_. v) w) = shape w"
  by (auto simp: shape_def upd_def fun_eq_iff)

lemma newinfo_shape [shape_simps]: "shape (stp_roletrns_setnewinfoXst p w) = shape w"
  by (simp add: stp_roletrns_setnewinfoXst_def stp_roletrns_setnewinfoCist_def stp_roletrns_setnewinfoMsti_def
      shape_simps field_simps' split: option.split)

lemma tree_shape [shape_simps]:
  "shape (stp_roletrns_setSyncTree p w) = shape w" "shape (stp_roletrns_setReRootTree p w) = shape w"
  "shape (stp_topoch_setTcPropTree p w) = shape w" "shape (set_tcWhile p w) = shape w"
  by (simp_all add: stp_roletrns_setSyncTree_def stp_roletrns_setReRootTree_def stp_topoch_setTcPropTree_def
      set_tcWhile_def shape_simps field_simps' split: option.split)

lemma npd_shape [shape_simps]: "shape (stp_sttrans_sendStpStatetoNpd p w) = shape w"
  by (simp add: stp_sttrans_sendStpStatetoNpd_def Let_def shape_simps)

lemma record_shape [shape_simps]:
  "shape (stp_portinfo_record_masteredxst p w) = shape w"
  "shape (stp_portinfo_record_proposalxst p w) = shape w"
  "shape (stp_portinfo_record_agreementxst p w) = shape w"
  by (simp_all add: stp_portinfo_record_masteredxst_def stp_portinfo_record_masteredcist_def
      stp_portinfo_record_masteredmsti_def stp_portinfo_record_proposalxst_def stp_portinfo_record_proposalcist_def
      stp_portinfo_record_proposalmsti_def stp_portinfo_record_agreementxst_def stp_portinfo_record_agreementcist_def
      stp_portinfo_record_agreementmsti_def Let_def shape_simps field_simps' split: option.split)

lemma ageing_shape [shape_simps]: "shape (stp_portinfo_updtRcvdInfoWhileXst p w) = shape w"
  by (simp add: stp_portinfo_updtRcvdInfoWhileXst_def stp_portinfo_updtRcvdInfoWhileCist_def
      stp_portinfo_updtRcvdInfoWhileMsti_def Let_def shape_simps field_simps' split: option.split)

lemma rcvinfo_pshape: "pshape (snd (stp_portinfo_xst_rcvinfo t w)) = pshape t"
  by (simp add: stp_portinfo_xst_rcvinfo_def stp_portinfo_cist_rcvinfo_def stp_portinfo_msti_rcvinfo_def rcvinfo_def
      Let_def field_simps')

lemma role_pshape:
  "pshape (set_non_stp t) = pshape t" "pshape (updt_role s t) = pshape t" "pshape (updt_role_msti s c t) = pshape t"
  "pshape (updt_design cist s i t) = pshape t"
  by (simp_all add: set_non_stp_def updt_role_def updt_role_msti_def updt_design_def stp_rolesel_setRoleSelected_def
      Let_def field_simps' split: INFO_IS_T.split)

lemma updtRolesMsti_shape: "shape (updt_roles_msti b ps w) = shape w"
  by (induction ps arbitrary: w) (simp_all add: shape_simps role_pshape split: option.split)

lemma updtRootPrio_shape [shape_simps]: "shape (stp_rolesel_updtRootPrio b w) = shape w"
  unfolding stp_rolesel_updtRootPrio_def by (rule shape_for_ports) (simp add: Let_def shape_simps field_simps')

lemma updtRoles_shape [shape_simps]: "shape (stp_rolesel_updtRolesXst b w) = shape w"
  by (simp add: stp_rolesel_updtRolesXst_def stp_rolesel_updtRolesCist_def stp_rolesel_updtRolesMsti_def
      updt_role_cist_def Let_def shape_simps field_simps' role_pshape [unfolded pshape_simps] updtRolesMsti_shape)

lemma selectTree_shape [shape_simps]:
  "shape (stp_rolesel_updtRoleDisableTree b w) = shape w" "shape (stp_rolesel_clearReselectTree b w) = shape w"
  "shape (fst (stp_rolesel_setSelectedTree b w)) = shape w"
  by (simp_all add: stp_rolesel_updtRoleDisableTree_def stp_rolesel_clearReselectTree_def stp_rolesel_setSelectedTree_def
      shape_simps field_simps')

lemma msti_messages_shape: "(\<And>n w. shape (step n w) = shape w) \<Longrightarrow> shape (msti_messages step n w) = shape w"
  by (induction n) simp_all

lemma msti_message_shape: "shape (msti_message r fl cisco p f n w) = shape w"
  by (simp add: msti_message_def Let_def shape_simps field_simps' split: option.split)

lemma setRcvdMsgs_Cisco_shape [shape_simps]: "shape (stp_receive_setRcvdMsgs_Cisco p w) = shape w"
  by (simp add: stp_receive_setRcvdMsgs_Cisco_def Let_def shape_simps field_simps' msti_messages_shape msti_message_shape
      split: option.split prod.split)

lemma setRcvdMsgs_shape [shape_simps]: "shape (stp_receive_setRcvdMsgs p w) = shape w"
  by (simp add: stp_receive_setRcvdMsgs_def Let_def shape_simps field_simps' msti_messages_shape msti_message_shape
      split: option.split prod.split)

lemma rx_flags_shape [shape_simps]:
  "shape (stp_receive_setTcFlags p w) = shape w" "shape (stp_receive_updtBPDUVersion p w) = shape w"
  "shape (stp_receive_clearAllRcvdMsgs w) = shape w"
  by (simp_all add: stp_receive_setTcFlags_def stp_receive_updtBPDUVersion_def stp_receive_clearAllRcvdMsgs_def
      Let_def shape_simps field_simps')

lemma send_shape [shape_simps]:
  "shape (snd (send_from p v f n w)) = shape w" "shape (flush_enabled p w) = shape w"
  "shape (flush_on_tc fl p w) = shape w" "shape (last_mstid rs w) = shape w"
  by (simp_all add: send_from_def stp_to_tx_bpdu_def flush_on_tc_def flush_enabled_def last_mstid_def
      sendStpTcnbittoNpd_def Let_def shape_simps)

lemma tx_shape [shape_simps]:
  "shape (snd (stp_transmit_txTcn p w)) = shape w" "shape (snd (stp_transmit_txConfig p w)) = shape w"
  "shape (snd (stp_transmit_txMstp p w)) = shape w"
  by (simp_all add: stp_transmit_txTcn_def stp_transmit_txConfig_def stp_transmit_txMstp_def stp_transmit_txMstp_to_Cisco_def
      Let_def split_beta shape_simps field_simps' split: option.split)

subsection \<open>The machines\<close>

lemma migrate_shape: "shape_machine (migrate_machine p)"
  unfolding migrate_machine_def
  by (rule port_machine_shape) (simp_all add: MSTP_migrate_enter_state_def MSTP_migrate_check_conditions_def
      Let_def shape_simps field_simps' split: migrate_state.split)

lemma edge_shape: "shape_machine (edge_machine p)"
  unfolding edge_machine_def
  by (rule port_machine_shape) (simp_all add: MSTP_edge_enter_state_def MSTP_edge_check_conditions_def
      Let_def shape_simps field_simps' split: edge_state.split)

lemma p2p_shape: "shape_machine (p2p_machine p)"
  unfolding p2p_machine_def
  by (rule port_machine_shape) (simp_all add: MSTP_p2p_enter_state_def MSTP_p2p_check_conditions_def
      Let_def shape_simps field_simps' split: p2p_state.split)

lemma pcost_shape: "shape_machine (pcost_machine p)"
  unfolding pcost_machine_def
  by (rule port_machine_shape) (simp_all add: MSTP_pcost_enter_state_def MSTP_pcost_check_conditions_def
      stp_pcost_updport_pcost_def Let_def shape_simps field_simps' split: pcost_state.split)

lemma sttrans_shape: "shape_machine (sttrans_machine p)"
  unfolding sttrans_machine_def
  by (rule port_machine_shape) (simp_all add: MSTP_sttrans_enter_state_def MSTP_sttrans_check_conditions_def
      Let_def shape_simps field_simps' split: sttrans_state.split)

lemma roletrns_shape: "shape_machine (roletrns_machine p)"
  unfolding roletrns_machine_def
  by (rule port_machine_shape) (simp_all add: MSTP_roletrns_enter_state_def MSTP_roletrns_check_conditions_def
      Let_def shape_simps field_simps' split: roletrns_state.split option.split)

lemma topoch_shape: "shape_machine (topoch_machine p)"
  unfolding topoch_machine_def
  by (rule port_machine_shape) (simp_all add: MSTP_topoch_enter_state_def MSTP_topoch_check_conditions_def
      Let_def shape_simps field_simps' split: topoch_state.split)

lemma info_shape: "shape_machine (info_machine p)"
  unfolding info_machine_def
  by (rule port_machine_shape) (simp_all add: MSTP_info_enter_state_def MSTP_info_check_conditions_def info_superior_def
      info_repeated_def info_disable_def info_update_port_def split_beta
      Let_def shape_simps field_simps' rcvinfo_pshape [unfolded pshape_simps] split: info_state.split RCVD_MSG_T.split)

lemma rolesel_shape: "shape_machine (rolesel_machine b)"
  unfolding rolesel_machine_def
  by (rule bridge_machine_shape) (simp_all add: MSTP_rolesel_enter_state_def MSTP_rolesel_check_conditions_def
      Let_def shape_simps field_simps' split: rolesel_state.split)

lemma receive_shape: "shape_machine (receive_machine p)"
  unfolding receive_machine_def
  by (rule port_machine_shape) (simp_all add: MSTP_receive_enter_state_def MSTP_receive_check_conditions_def
      Let_def shape_simps field_simps' split: receive_state.split)

lemma transmit_shape: "shape_machine (transmit_machine p)"
  unfolding transmit_machine_def
  by (rule port_machine_shape) (simp_all add: MSTP_transmit_enter_state_def MSTP_transmit_check_conditions_def
      Let_def shape_simps field_simps' split: transmit_state.split)


interpretation sm_mig: shape_machine "migrate_machine p" for p by (rule migrate_shape)
interpretation sm_edg: shape_machine "edge_machine p" for p by (rule edge_shape)
interpretation sm_pp: shape_machine "p2p_machine p" for p by (rule p2p_shape)
interpretation sm_pc: shape_machine "pcost_machine p" for p by (rule pcost_shape)
interpretation sm_st: shape_machine "sttrans_machine p" for p by (rule sttrans_shape)
interpretation sm_rt: shape_machine "roletrns_machine p" for p by (rule roletrns_shape)
interpretation sm_tch: shape_machine "topoch_machine p" for p by (rule topoch_shape)
interpretation sm_inf: shape_machine "info_machine p" for p by (rule info_shape)
interpretation sm_rs: shape_machine "rolesel_machine b" for b by (rule rolesel_shape)
interpretation sm_rx: shape_machine "receive_machine p" for p by (rule receive_shape)
interpretation sm_tx: shape_machine "transmit_machine p" for p by (rule transmit_shape)

lemma instance_machines_shape: "m \<in> set (instance_machines b w) \<Longrightarrow> shape_machine m"
  by (auto simp: instance_machines_def port_machines_def migrate_shape edge_shape p2p_shape pcost_shape sttrans_shape
      roletrns_shape topoch_shape info_shape rolesel_shape split: if_splits)

subsection \<open>The drivers\<close>

lemma iterate_check_shape: "\<forall>m \<in> set ms. shape_machine m \<Longrightarrow> shape (fst (iterate_check ms w)) = shape w"
proof (induction ms arbitrary: w)
  case (Cons m ms)
  then have "shape (fst (stp_statmch_check_condition m w)) = shape w" by (simp add: shape_machine.check_condition)
  then show ?case using Cons by (simp add: split_beta Let_def)
qed simp

lemma iterate_change_shape:
  "\<forall>m \<in> set ms. shape_machine m \<Longrightarrow> iterate_change ms w = Some (w', n) \<Longrightarrow> shape w' = shape w"
proof (induction ms arbitrary: w n)
  case (Cons m ms)
  then obtain u k j where u: "stp_statmch_change_state m 0 w = Some (u, k)" "iterate_change ms u = Some (w', j)"
    by (auto split: bind_splits)
  then show ?case using Cons shape_machine.change_state [of m 0 w u k] by auto
qed simp

lemma iterate_init_shape: "\<forall>m \<in> set ms. shape_machine m \<Longrightarrow> shape (iterate_init ms w) = shape w"
  by (induction ms arbitrary: w) (simp_all add: shape_machine.init)

lemma do_update_shape:
  assumes "stp_stpm_do_update b n w = Some r"
  shows "shape (fst r) = shape w"
proof -
  define P where "P b' (n' :: nat) w r \<longleftrightarrow> shape (fst r) = shape w" for b' :: bref and n' w and r :: "world \<times> nat"
  have "P b n w r"
  proof (rule stp_stpm_do_update.raw_induct [OF _ assms, of P])
    fix f b n w r
    assume IH: "\<And>b n w r. f b n w = Some r \<Longrightarrow> P b n w r"
      and eq: "(let (w, need) = iterate_check (instance_machines b w) w in
        if \<not> need then Some (w, n)
        else do { (w, k) \<leftarrow> iterate_change (instance_machines b w) w; f b (n + 1 + k) w }) = Some r"
    obtain u need where u: "iterate_check (instance_machines b w) w = (u, need)" by force
    then have s: "shape u = shape w" using iterate_check_shape [of "instance_machines b w" w] instance_machines_shape by auto
    show "P b n w r"
    proof (cases need)
      case True
      then obtain v k where "iterate_change (instance_machines b u) u = Some (v, k)" "f b (n + 1 + k) v = Some r"
        using eq u by (auto split: bind_splits)
      then show ?thesis
        using IH [of b "n + 1 + k" v r] iterate_change_shape [of "instance_machines b u" u v k] instance_machines_shape s
        by (auto simp: P_def)
    qed (use eq u s in \<open>auto simp: P_def\<close>)
  qed
  then show ?thesis by (simp add: P_def)
qed

lemma update_shape: "stp_stpm_update b w = Some r \<Longrightarrow> shape (fst r) = shape w"
  by (auto simp: stp_stpm_update_def do_update_shape split: if_splits)

lemma update_all_shape: "update_all bs w = Some r \<Longrightarrow> shape (fst r) = shape w"
proof (induction bs arbitrary: w r)
  case (Cons b bs)
  then obtain u k where u: "stp_stpm_update b w = Some (u, k)" and "map_option fst (update_all bs u) = Some (fst r)"
    by (auto split: bind_splits)
  then show ?case using Cons.IH [of u] update_shape [OF u] by auto
qed simp

lemma until_quiet_shape:
  assumes "update_until_quiet w = Some w'"
  shows "shape w' = shape w"
proof -
  define P where "P w r \<longleftrightarrow> shape r = shape w" for w r
  have "P w w'"
  proof (rule update_until_quiet.raw_induct [OF _ assms, of P])
    fix f w r
    assume IH: "\<And>w r. f w = Some r \<Longrightarrow> P w r"
      and eq: "do { (w, n) \<leftarrow> update_all (bridges w) w; if n \<noteq> 0 then f w else Some w } = Some r"
    then obtain u n where u: "update_all (bridges w) w = Some (u, n)" "(if n \<noteq> 0 then f u else Some u) = Some r"
      by (auto split: bind_splits)
    then show "P w r" using IH [of u r] update_all_shape [OF u(1)] by (auto simp: P_def split: if_splits)
  qed
  then show ?thesis by (simp add: P_def)
qed

lemma check_and_run_shape: "shape_machine m \<Longrightarrow> check_and_run m w = Some w' \<Longrightarrow> shape w' = shape w"
  using shape_machine.check_condition [of m w] shape_machine.change_state [of m 0]
  by (force simp: check_and_run_def split_beta Let_def split: if_splits)

lemma run_ports_shape:
  "(\<And>p. shape_machine (mach p)) \<Longrightarrow> run_ports mach ps w = Some w' \<Longrightarrow> shape w' = shape w"
proof (induction ps arbitrary: w)
  case (Cons p ps)
  then obtain u where "check_and_run (mach p) w = Some u" "run_ports mach ps u = Some w'" by (auto split: bind_splits)
  then show ?case using Cons check_and_run_shape [of "mach p" w u] by auto
qed simp

lemma update_transmit_shape: "stp_stpm_mst_update_transmit b w = Some w' \<Longrightarrow> shape w' = shape w"
  using run_ports_shape [of transmit_machine, OF transmit_shape]
  by (auto simp: stp_stpm_mst_update_transmit_def shape_emit split: option.splits)

lemma update_receive_shape: "stp_stpm_mst_update_receive p w = Some w' \<Longrightarrow> shape w' = shape w"
  using run_ports_shape [of receive_machine, OF receive_shape] check_and_run_shape [OF receive_shape]
  by (auto simp: stp_stpm_mst_update_receive_def shape_emit split: option.splits)

text \<open>What only \<open>stp_stpm_init_data\<close> and \<open>stp_port_init\<close> could change when an instance starts.\<close>

lemma start_machines_keeps:
  assumes keeps: "\<And>w w'. shape w = shape w' \<Longrightarrow> g w = g w'"
    and data: "\<And>w. g (stp_stpm_init_data b w) = g w" and port: "\<And>p w. g (stp_port_init p b True w) = g w"
    and run: "start_machines b w = Some w'"
  shows "g w' = g w"
proof -
  let ?c = "br_vlan_id (bheap w b) = STP_CIST_ID"
  define u where "u = for_ports (\<lambda>p. stp_port_init p b True) (ports (bheap (stp_stpm_init_data b w) b)) (stp_stpm_init_data b w)"
  define v where "v = (if ?c then stp_stpm_mst_init_transmit b (stp_stpm_mst_init_receive b u) else u)"
  define i where "i = iterate_init (instance_machines b v) v"
  have "g u = g w" unfolding u_def using for_ports_field [of g "\<lambda>p. stp_port_init p b True"] port data by simp
  moreover have "shape v = shape u"
    by (simp add: v_def stp_stpm_mst_init_transmit_def stp_stpm_mst_init_receive_def shape_simps sm_tx.init sm_rx.init)
  moreover have "shape i = shape v" unfolding i_def by (rule iterate_init_shape) (simp add: instance_machines_shape)
  moreover obtain x y n where "(if ?c then stp_stpm_mst_update_receive None i else Some i) = Some x"
      "stp_stpm_update b x = Some (y, n)" "(if ?c then stp_stpm_mst_update_transmit (Some b) y else Some y) = Some w'"
    using run unfolding start_machines_def Let_def u_def [symmetric] v_def [symmetric] i_def [symmetric] by (auto split: bind_splits)
  then have "shape x = shape i" "shape y = shape x" "shape w' = shape y"
    using update_receive_shape [of None i x] update_shape [of b x "(y, n)"] update_transmit_shape [of "Some b" y w']
    by (auto split: if_splits)
  ultimately show ?thesis using keeps by metis
qed

lemma mst_update_shape: "stp_stpm_mst_update p w = Some w' \<Longrightarrow> shape w' = shape w"
  using update_receive_shape until_quiet_shape update_transmit_shape
  by (auto simp: stp_stpm_mst_update_def split: bind_splits)

lemma tick_all_shape: "shape (fst (tick_all bs w)) = shape w"
proof (induction bs arbitrary: w)
  case (Cons b bs)
  have "shape (tick_instance b w) = shape w"
    by (simp add: tick_instance_def tick_port_def Let_def shape_simps field_simps')
  then show ?case using Cons by (simp add: split_beta Let_def)
qed simp

lemma one_second_shape: "stp_stpm_one_second w = Some (w', n) \<Longrightarrow> shape w' = shape w"
  using mst_update_shape [of None "fst (tick_all (bridges w) w)"] tick_all_shape [of "bridges w" w]
  by (auto simp: stp_stpm_one_second_def split_beta Let_def split: if_splits)

end
