(* ===== verification/StpMd5.thy ===== *)
theory StpMd5
  imports Prelude
begin

text \<open>
  The message digest of \<open>stp_md5.c\<close>: the streaming context \<open>MD5_CTX\<close>, its two finalisers, the
  one-shot function \<open>MD5\<close> and the keyed digest \<open>stp_md5_get_digest\<close>. The locale \<open>block_hash\<close> relates the
  byte-wise absorption of a message to the chaining of its 64-byte blocks; its interpretation on
  the code's transformation gives the equivalence with the definitions of RFC 1321 and RFC 2104.
\<close>

subsection \<open>The context and the transformation\<close>

text \<open>\<open>i[0]\<close>, \<open>i[1]\<close>: the number of bits, the low and the high word; \<open>buf\<close>: the chaining variables.\<close>

record MD5_CTX =
  i_lo :: u32
  i_hi :: u32
  buf :: "u32 list"
  inbuf :: "u8 list"
  digest :: "u8 list"

datatype md5_round = FF | GG | HH | II

fun md5_fn :: "md5_round \<Rightarrow> u32 \<Rightarrow> u32 \<Rightarrow> u32 \<Rightarrow> u32" where
  "md5_fn FF x y z = (x AND y) OR (NOT x AND z)"
| "md5_fn GG x y z = (x AND z) OR (y AND NOT z)"
| "md5_fn HH x y z = x XOR y XOR z"
| "md5_fn II x y z = y XOR (x OR NOT z)"

definition ROTATE_LEFT :: "u32 \<Rightarrow> nat \<Rightarrow> u32" where
  "ROTATE_LEFT x n = push_bit n x OR drop_bit (32 - n) x"

text \<open>The 64 invocations in their order: the macro, the index into \<open>in\<close>, the shift and the constant. Each
  invocation assigns to the first of its four variables, and the next one has the variables
  rotated by one: \<open>FF (a, b, c, d, ...)\<close>, \<open>FF (d, a, b, c, ...)\<close> and so on.\<close>

definition transform_table :: "(md5_round \<times> nat \<times> nat \<times> u32) list" where
  "transform_table = [
     (FF, 0, 7, 3614090360), (FF, 1, 12, 3905402710), (FF, 2, 17, 606105819), (FF, 3, 22, 3250441966),
     (FF, 4, 7, 4118548399), (FF, 5, 12, 1200080426), (FF, 6, 17, 2821735955), (FF, 7, 22, 4249261313),
     (FF, 8, 7, 1770035416), (FF, 9, 12, 2336552879), (FF, 10, 17, 4294925233), (FF, 11, 22, 2304563134),
     (FF, 12, 7, 1804603682), (FF, 13, 12, 4254626195), (FF, 14, 17, 2792965006), (FF, 15, 22, 1236535329),
     (GG, 1, 5, 4129170786), (GG, 6, 9, 3225465664), (GG, 11, 14, 643717713), (GG, 0, 20, 3921069994),
     (GG, 5, 5, 3593408605), (GG, 10, 9, 38016083), (GG, 15, 14, 3634488961), (GG, 4, 20, 3889429448),
     (GG, 9, 5, 568446438), (GG, 14, 9, 3275163606), (GG, 3, 14, 4107603335), (GG, 8, 20, 1163531501),
     (GG, 13, 5, 2850285829), (GG, 2, 9, 4243563512), (GG, 7, 14, 1735328473), (GG, 12, 20, 2368359562),
     (HH, 5, 4, 4294588738), (HH, 8, 11, 2272392833), (HH, 11, 16, 1839030562), (HH, 14, 23, 4259657740),
     (HH, 1, 4, 2763975236), (HH, 4, 11, 1272893353), (HH, 7, 16, 4139469664), (HH, 10, 23, 3200236656),
     (HH, 13, 4, 681279174), (HH, 0, 11, 3936430074), (HH, 3, 16, 3572445317), (HH, 6, 23, 76029189),
     (HH, 9, 4, 3654602809), (HH, 12, 11, 3873151461), (HH, 15, 16, 530742520), (HH, 2, 23, 3299628645),
     (II, 0, 6, 4096336452), (II, 7, 10, 1126891415), (II, 14, 15, 2878612391), (II, 5, 21, 4237533241),
     (II, 12, 6, 1700485571), (II, 3, 10, 2399980690), (II, 10, 15, 4293915773), (II, 1, 21, 2240044497),
     (II, 8, 6, 1873313359), (II, 15, 10, 4264355552), (II, 6, 15, 2734768916), (II, 13, 21, 1309151649),
     (II, 4, 6, 4149444226), (II, 11, 10, 3174756917), (II, 2, 15, 718787259), (II, 9, 21, 3951481745)]"

fun md5_step :: "u32 list \<Rightarrow> u32 \<times> u32 \<times> u32 \<times> u32 \<Rightarrow> md5_round \<times> nat \<times> nat \<times> u32 \<Rightarrow> u32 \<times> u32 \<times> u32 \<times> u32" where
  "md5_step xs (a, b, c, d) (r, k, s, ac) =
     (let a = a + (md5_fn r b c d + xs ! k + ac); a = ROTATE_LEFT a s; a = a + b in (d, a, b, c))"

definition stp_md5_transform :: "u32 list \<Rightarrow> u32 list \<Rightarrow> u32 list" where
  "stp_md5_transform bf xs =
     (let (a, b, c, d) = foldl (md5_step xs) (bf ! 0, bf ! 1, bf ! 2, bf ! 3) transform_table in
      [bf ! 0 + a, bf ! 1 + b, bf ! 2 + c, bf ! 3 + d])"

subsection \<open>Absorbing a message\<close>

definition stp_md5_init :: "MD5_CTX \<Rightarrow> MD5_CTX" where
  "stp_md5_init ctx = ctx\<lparr>i_lo := 0, i_hi := 0, buf := [0x67452301, 0xefcdab89, 0x98badcfe, 0x10325476]\<rparr>"

text \<open>A 32-bit word from four bytes, the lowest first, and back.\<close>

definition le32 :: "u8 list \<Rightarrow> u32" where
  "le32 f = push_bit 24 (ucast (f ! 3)) OR push_bit 16 (ucast (f ! 2)) OR push_bit 8 (ucast (f ! 1)) OR ucast (f ! 0)"

definition le32_bytes :: "u32 \<Rightarrow> u8 list" where
  "le32_bytes x = [ucast (x AND 0xff), ucast (drop_bit 8 x AND 0xff), ucast (drop_bit 16 x AND 0xff),
     ucast (drop_bit 24 x AND 0xff)]"

definition input_words :: "nat \<Rightarrow> u8 list \<Rightarrow> u32 list" where
  "input_words n bs = map (\<lambda>k. le32 (drop (4 * k) bs)) [0 ..< n]"

text \<open>One round of the loop of \<open>stp_md5_update\<close>.\<close>

definition update_byte :: "u8 \<Rightarrow> nat \<times> MD5_CTX \<Rightarrow> nat \<times> MD5_CTX" where
  "update_byte c s =
     (let (mdi, ctx) = s; ctx = ctx\<lparr>inbuf := (inbuf ctx)[mdi := c]\<rparr>; mdi = mdi + 1 in
      if mdi = 0x40 then (0, ctx\<lparr>buf := stp_md5_transform (buf ctx) (input_words 16 (inbuf ctx))\<rparr>)
      else (mdi, ctx))"

definition stp_md5_update :: "MD5_CTX \<Rightarrow> u8 list \<Rightarrow> MD5_CTX" where
  "stp_md5_update ctx inBuf =
     (let inLen = of_nat (length inBuf) :: u32;
          mdi = unat (drop_bit 3 (i_lo ctx) AND 0x3F);
          ctx = (if i_lo ctx + push_bit 3 inLen < i_lo ctx then ctx\<lparr>i_hi := i_hi ctx + 1\<rparr> else ctx);
          ctx = ctx\<lparr>i_lo := i_lo ctx + push_bit 3 inLen\<rparr>;
          ctx = ctx\<lparr>i_hi := i_hi ctx + drop_bit 29 inLen\<rparr> in
      snd (fold update_byte inBuf (mdi, ctx)))"

subsection \<open>The digest\<close>

definition PADDING :: "u8 list" where
  "PADDING = 0x80 # replicate 63 0"

definition pad_len :: "MD5_CTX \<Rightarrow> nat" where
  "pad_len ctx =
     (let mdi = unat (drop_bit 3 (i_lo ctx) AND 0x3F) in if mdi < 56 then 56 - mdi else 120 - mdi)"

definition stp_md5_final :: "MD5_CTX \<Rightarrow> MD5_CTX" where
  "stp_md5_final ctx =
     (let in14 = i_lo ctx; in15 = i_hi ctx;
          ctx = stp_md5_update ctx (take (pad_len ctx) PADDING);
          xs = input_words 14 (inbuf ctx) @ [in14, in15];
          ctx = ctx\<lparr>buf := stp_md5_transform (buf ctx) xs\<rparr> in
      ctx\<lparr>digest := concat (map le32_bytes (take 4 (buf ctx)))\<rparr>)"

definition stp_md5_encode :: "u32 list \<Rightarrow> nat \<Rightarrow> u8 list" where
  "stp_md5_encode input len = concat (map (\<lambda>i. le32_bytes (input ! i)) [0 ..< (len + 3) div 4])"

text \<open>\<open>stp_md5_final_h\<close> returns the digest; the context is wiped.\<close>

definition stp_md5_final_h :: "MD5_CTX \<Rightarrow> u8 list" where
  "stp_md5_final_h ctx =
     (let bits = stp_md5_encode [i_lo ctx, i_hi ctx] 8;
          ctx = stp_md5_update ctx (take (pad_len ctx) PADDING);
          ctx = stp_md5_update ctx bits in
      stp_md5_encode (buf ctx) 16)"

text \<open>\<open>MD5\<close> feeds the text in pieces of 64 bytes; \<open>ctx\<close> is the uninitialised local.\<close>

definition md5_pieces :: "u8 list \<Rightarrow> u8 list list" where
  "md5_pieces text = map (\<lambda>k. take 64 (drop (64 * k) text)) [0 ..< length text div 64]"

definition MD5 :: "MD5_CTX \<Rightarrow> u8 list \<Rightarrow> u8 list" where
  "MD5 ctx text =
     (let ctx = fold (\<lambda>da ctx. stp_md5_update ctx da) (md5_pieces text) (stp_md5_init ctx);
          ctx = stp_md5_update ctx (drop (64 * (length text div 64)) text) in
      digest (stp_md5_final ctx))"

text \<open>The keyed digest. A key of more than 64 bytes is replaced by its digest, of which \<open>SHA_KEYSIZE\<close> (20)
  bytes are copied although it has 16: \<open>beyond\<close> are the four bytes behind \<open>tk\<close>.\<close>

definition stp_md5_get_digest :: "MD5_CTX \<Rightarrow> u8 list \<Rightarrow> u8 list \<Rightarrow> u8 list \<Rightarrow> u8 list" where
  "stp_md5_get_digest ctx beyond text key =
     (let key = (if length key > 64 then stp_md5_final_h (stp_md5_update (stp_md5_init ctx) key) @ take 4 beyond else key);
          k_pad = key @ replicate (64 - length key) 0;
          k_ipad = map (\<lambda>b. b XOR 0x36) k_pad; k_opad = map (\<lambda>b. b XOR 0x5c) k_pad;
          dg = stp_md5_final_h (stp_md5_update (stp_md5_update (stp_md5_init ctx) k_ipad) text) in
      stp_md5_final_h (stp_md5_update (stp_md5_update (stp_md5_init ctx) k_opad) (take 16 dg)))"

subsection \<open>Absorbing byte by byte\<close>

locale block_hash =
  fixes compress :: "'s \<Rightarrow> u8 list \<Rightarrow> 's"
begin

text \<open>The chaining of the complete blocks of a message, and a partly filled buffer.\<close>

function absorb :: "'s \<Rightarrow> u8 list \<Rightarrow> 's" where
  "absorb s m = (if length m < 64 then s else absorb (compress s (take 64 m)) (drop 64 m))"
  by pat_completeness auto
termination by (relation "measure (\<lambda>(s, m). length m)") auto

declare absorb.simps [simp del]

definition holds :: "'s \<Rightarrow> u8 list \<Rightarrow> nat \<Rightarrow> 's \<Rightarrow> u8 list \<Rightarrow> bool" where
  "holds s0 m k s bs \<longleftrightarrow> k = length m mod 64 \<and> length bs = 64 \<and> s = absorb s0 m \<and>
     take k bs = drop (64 * (length m div 64)) m"

lemma absorb_short: "length m < 64 \<Longrightarrow> absorb s m = s"
  by (subst absorb.simps) simp

lemma absorb_block: "length b = 64 \<Longrightarrow> absorb s (b @ m) = absorb (compress s b) m"
  by (subst absorb.simps) simp

lemma absorb_append: "length a mod 64 = 0 \<Longrightarrow> absorb s (a @ b) = absorb (absorb s a) b"
proof (induction s a rule: absorb.induct)
  case (1 s m)
  show ?case
  proof (cases "length m < 64")
    case True
    then have "m = []" using 1(2) by simp
    then show ?thesis by (simp add: absorb_short)
  next
    case False
    then have "length (drop 64 m) mod 64 = 0" using 1(2) by (simp add: le_mod_geq)
    then have "absorb (compress s (take 64 m)) (drop 64 m @ b) = absorb (absorb (compress s (take 64 m)) (drop 64 m)) b"
      using 1(1) False by simp
    moreover have "absorb s (m @ b) = absorb (compress s (take 64 m)) (drop 64 m @ b)"
      using absorb_block [of "take 64 m" s "drop 64 m @ b"] False by (simp flip: append_assoc)
    moreover have "absorb s m = absorb (compress s (take 64 m)) (drop 64 m)"
      using absorb_block [of "take 64 m" s "drop 64 m"] False by simp
    ultimately show ?thesis by simp
  qed
qed

lemma absorb_prefix:
  "absorb s (take (64 * (length m div 64)) m @ t) = absorb (absorb s m) t"
proof -
  let ?a = "take (64 * (length m div 64)) m" and ?r = "drop (64 * (length m div 64)) m"
  have "length ?a mod 64 = 0" by simp
  moreover have "length ?r < 64" by (simp add: minus_mult_div_eq_mod)
  ultimately have "absorb s (?a @ ?r) = absorb s ?a"
    by (simp only: absorb_append absorb_short)
  then show ?thesis using \<open>length ?a mod 64 = 0\<close> by (simp only: absorb_append append_take_drop_id)
qed

lemma holds_push:
  assumes "holds s0 m k s bs"
  shows "if k + 1 = 64 then holds s0 (m @ [c]) 0 (compress s (bs[k := c])) (bs[k := c])
         else holds s0 (m @ [c]) (k + 1) s (bs[k := c])"
proof -
  let ?q = "64 * (length m div 64)"
  have k: "k = length m mod 64" "k < 64" and bs: "length bs = 64" and s: "s = absorb s0 m"
    and t: "take k bs = drop ?q m"
    using assms by (auto simp: holds_def)
  have r: "length m - ?q = k" and le: "?q \<le> length m" using k by (simp_all add: minus_mult_div_eq_mod)
  have t': "take (k + 1) (bs[k := c]) = drop ?q m @ [c]"
    using bs k t by (simp add: take_Suc_conv_app_nth)
  have m: "m @ [c] = take ?q m @ (drop ?q m @ [c])" by simp
  have ab: "absorb s0 (m @ [c]) = absorb s (drop ?q m @ [c])"
    by (subst m) (simp only: absorb_prefix s)
  show ?thesis
  proof (cases "k + 1 = 64")
    case True
    moreover have "length m = ?q + k" using r le by (metis le_add_diff_inverse)
    ultimately have e: "Suc (length m) = 64 * (length m div 64 + 1)" by (simp only: distrib_left)
    have "length (m @ [c]) mod 64 = 0"
      unfolding length_append_singleton e by (rule mod_mult_self1_is_0)
    moreover have "64 * (Suc (length m) div 64) = Suc (length m)"
      unfolding e by (simp only: nonzero_mult_div_cancel_left zero_neq_numeral not_False_eq_True)
    moreover have "bs[k := c] = drop ?q m @ [c]" using t' True bs by simp
    moreover note ab
    moreover have "length (drop ?q m @ [c]) = 64" using r True by simp
    ultimately show ?thesis
      using True bs absorb_block [of "drop ?q m @ [c]" s "[]"] by (simp add: holds_def absorb_short)
  next
    case False
    then have "length (m @ [c]) mod 64 = k + 1" and d: "length (m @ [c]) div 64 = length m div 64"
      using k by (simp_all add: mod_Suc div_Suc)
    moreover have "absorb s0 (m @ [c]) = s"
      unfolding ab by (rule absorb_short) (use r False k(2) in simp)
    moreover have "drop (64 * (length (m @ [c]) div 64)) (m @ [c]) = drop ?q m @ [c]" unfolding d using le by simp
    ultimately show ?thesis using False bs t' by (simp add: holds_def)
  qed
qed

end

subsection \<open>The context holds a message\<close>

text \<open>The transformation on the 64 bytes of a block, and the chaining variables of \<open>stp_md5_init\<close>.\<close>

definition md5_compress :: "u32 list \<Rightarrow> u8 list \<Rightarrow> u32 list" where
  "md5_compress bf b = stp_md5_transform bf (input_words 16 b)"

interpretation bh: block_hash md5_compress .

abbreviation (input) md5_iv :: "u32 list" where "md5_iv \<equiv> [0x67452301, 0xefcdab89, 0x98badcfe, 0x10325476]"

text \<open>What a context knows of the message \<open>m\<close> fed so far: its length in bits modulo 2 to the 64, the chained
  complete blocks and the bytes of the unfinished one.\<close>

definition absorbed :: "u8 list \<Rightarrow> MD5_CTX \<Rightarrow> bool" where
  "absorbed m ctx \<longleftrightarrow> i_lo ctx = of_nat (8 * length m) \<and> i_hi ctx = of_nat (8 * length m div 2 ^ 32) \<and>
     bh.holds md5_iv m (length m mod 64) (buf ctx) (inbuf ctx)"

lemma absorbed_init: "length (inbuf ctx) = 64 \<Longrightarrow> absorbed [] (stp_md5_init ctx)"
  by (simp add: absorbed_def stp_md5_init_def bh.holds_def bh.absorb_short)

lemma update_bytes:
  "bh.holds s0 m k (buf ctx) (inbuf ctx) \<Longrightarrow>
   (let (k', ctx') = fold update_byte xs (k, ctx) in
    bh.holds s0 (m @ xs) k' (buf ctx') (inbuf ctx') \<and> i_lo ctx' = i_lo ctx \<and> i_hi ctx' = i_hi ctx)"
proof (induction xs arbitrary: m k ctx)
  case (Cons c xs)
  obtain k' ctx' where s: "update_byte c (k, ctx) = (k', ctx')" by force
  have "bh.holds s0 (m @ [c]) k' (buf ctx') (inbuf ctx') \<and> i_lo ctx' = i_lo ctx \<and> i_hi ctx' = i_hi ctx"
    using bh.holds_push [OF Cons.prems, of c] s
    by (auto simp: update_byte_def Let_def md5_compress_def split: if_splits)
  then show ?case using Cons.IH [of "m @ [c]" k' ctx'] by (simp add: s split_beta)
qed simp

lemma mdi_of: "i_lo ctx = of_nat (8 * n) \<Longrightarrow> unat (drop_bit 3 (i_lo ctx) AND 0x3F) = n mod 64"
proof -
  assume a: "i_lo ctx = of_nat (8 * n)"
  have "(0x3F :: u32) = mask 6" by (simp add: mask_eq_exp_minus_1)
  then have "unat (drop_bit 3 (i_lo ctx) AND 0x3F) = (8 * n mod 2 ^ 32) div 8 mod 64"
    unfolding a by (simp only: take_bit_eq_mask [symmetric] unsigned_take_bit_eq unsigned_drop_bit_eq)
      (simp add: unsigned_of_nat take_bit_eq_mod drop_bit_eq_div del: of_nat_mult)
  also have "\<dots> = n mod 64"
  proof -
    have "8 * n mod 2 ^ 32 = 8 * (n mod 2 ^ 29)" by (simp add: mult_mod_right)
    then show ?thesis by (simp add: mod_mod_cancel)
  qed
  finally show ?thesis .
qed

lemma carry_iff: "A < p \<Longrightarrow> B < p \<Longrightarrow> (A + B) mod p < A \<longleftrightarrow> p \<le> A + (B :: nat)"
  by (cases "A + B < p") (auto simp: le_mod_geq)

lemma carry_div: "A < p \<Longrightarrow> B < p \<Longrightarrow> (A + B) div p = (if p \<le> A + (B :: nat) then 1 else 0)"
  by (auto simp: le_div_geq)

lemma len32: "LENGTH(32) = 32"
  by simp

lemma mod_2_32: "n mod 2 ^ 32 < (2 ^ 32 :: nat)"
  by (rule mod_less_divisor) simp

lemma unat_of_bytes: "unat (of_nat (8 * n) :: u32) = 8 * n mod 2 ^ 32"
  by (simp only: unsigned_of_nat take_bit_eq_mod len32 of_nat_id)

lemma carry_low:
  "(of_nat (8 * L) :: u32) + of_nat (8 * l) < of_nat (8 * L) \<longleftrightarrow> 2 ^ 32 \<le> 8 * L mod 2 ^ 32 + 8 * l mod 2 ^ 32"
  unfolding word_less_nat_alt unat_word_ariths unat_of_bytes len32 by (rule carry_iff) (rule mod_2_32)+

lemma carry_high:
  assumes "l < 2 ^ 32"
  shows "drop_bit 29 (of_nat l :: u32) = of_nat (8 * l div 2 ^ 32)"
proof -
  have "unat (of_nat l :: u32) = l" using assms by (simp only: unsigned_of_nat take_bit_eq_mod len32 of_nat_id mod_less)
  moreover have "8 * l div 2 ^ 32 = l div 2 ^ 29" by simp
  moreover have "l div 2 ^ 29 < 2 ^ 32" using assms by (rule le_less_trans [OF div_le_dividend])
  ultimately show ?thesis
    by (simp only: word_unat_eq_iff unsigned_drop_bit_eq) (simp only: drop_bit_eq_div [of 29 "_ :: nat"]
        unsigned_of_nat take_bit_eq_mod len32 of_nat_id mod_less)
qed

lemma carry_count:
  fixes L l :: nat
  assumes "l < 2 ^ 32"
  shows "of_nat (8 * L div 2 ^ 32) + (if (of_nat (8 * L) :: u32) + of_nat (8 * l) < of_nat (8 * L) then 1 else 0) + drop_bit 29 (of_nat l :: u32) =
    of_nat (8 * (L + l) div 2 ^ 32)"
proof -
  have "8 * (L + l) div 2 ^ 32 = 8 * L div 2 ^ 32 + 8 * l div 2 ^ 32 + (8 * L mod 2 ^ 32 + 8 * l mod 2 ^ 32) div 2 ^ 32"
    unfolding distrib_left by (rule div_add1_eq)
  also have "(8 * L mod 2 ^ 32 + 8 * l mod 2 ^ 32) div 2 ^ 32 = (if 2 ^ 32 \<le> 8 * L mod 2 ^ 32 + 8 * l mod (2 ^ 32 :: nat) then 1 else 0)"
    by (rule carry_div) (rule mod_2_32)+
  finally show ?thesis
    unfolding carry_low carry_high [OF assms] by (simp only: of_nat_add of_nat_0 of_nat_1 add_ac split: if_split) simp
qed

definition count_bits :: "nat \<Rightarrow> MD5_CTX \<Rightarrow> MD5_CTX" where
  "count_bits n ctx = ctx\<lparr>i_lo := of_nat (8 * n), i_hi := of_nat (8 * n div 2 ^ 32)\<rparr>"

lemma update_alt:
  assumes "absorbed m ctx" and "length xs < 2 ^ 32"
  shows "stp_md5_update ctx xs = snd (fold update_byte xs (length m mod 64, count_bits (length m + length xs) ctx))"
proof -
  have lo: "i_lo ctx = of_nat (8 * length m)" and hi: "i_hi ctx = of_nat (8 * length m div 2 ^ 32)"
    using assms(1) by (simp_all add: absorbed_def)
  have p: "push_bit 3 (of_nat (length xs) :: u32) = of_nat (8 * length xs)" by (simp add: push_bit_eq_mult)
  have "i_lo ctx + push_bit 3 (of_nat (length xs)) = of_nat (8 * (length m + length xs))"
    by (simp add: lo push_bit_eq_mult algebra_simps)
  moreover have "i_hi ctx + (if i_lo ctx + push_bit 3 (of_nat (length xs)) < i_lo ctx then 1 else 0) +
      drop_bit 29 (of_nat (length xs)) = of_nat (8 * (length m + length xs) div 2 ^ 32)"
    unfolding lo hi p by (rule carry_count [OF assms(2)])
  ultimately show ?thesis
    by (auto simp: stp_md5_update_def Let_def mdi_of [OF lo] count_bits_def intro!: arg_cong [of _ _ snd] arg_cong [of _ _ "fold update_byte xs"])
qed

lemma absorbed_update:
  assumes "absorbed m ctx" and "length xs < 2 ^ 32"
  shows "absorbed (m @ xs) (stp_md5_update ctx xs)"
proof -
  let ?c = "count_bits (length m + length xs) ctx"
  have "bh.holds md5_iv m (length m mod 64) (buf ?c) (inbuf ?c)"
    using assms(1) by (simp add: absorbed_def count_bits_def)
  from update_bytes [OF this, of xs] show ?thesis
    unfolding update_alt [OF assms]
    by (auto simp: absorbed_def split_beta Let_def count_bits_def bh.holds_def)
qed

subsection \<open>The reference digest\<close>

text \<open>The padded message, its digest (RFC 1321, 3.1 to 3.5) and the keyed digest (RFC 2104, 2).\<close>

definition md5_pad :: "u8 list \<Rightarrow> u8 list" where
  "md5_pad m = m @ 0x80 # replicate ((119 - length m mod 64) mod 64) 0 @
     le32_bytes (of_nat (8 * length m)) @ le32_bytes (of_nat (8 * length m div 2 ^ 32))"

definition md5_ref :: "u8 list \<Rightarrow> u8 list" where
  "md5_ref m = concat (map le32_bytes (bh.absorb md5_iv (md5_pad m)))"

definition hmac_md5 :: "u8 list \<Rightarrow> u8 list \<Rightarrow> u8 list" where
  "hmac_md5 key text =
     (let k = key @ replicate (64 - length key) 0 in
      md5_ref (map (\<lambda>b. b XOR 0x5c) k @ md5_ref (map (\<lambda>b. b XOR 0x36) k @ text)))"

lemma transform_length: "length (stp_md5_transform bf xs) = 4"
  by (simp add: stp_md5_transform_def split_beta Let_def)

lemma compress_length: "length (md5_compress bf b) = 4"
  by (simp add: md5_compress_def transform_length)

lemma absorb_length: "length s = 4 \<Longrightarrow> length (bh.absorb s m) = 4"
proof (induction s m rule: bh.absorb.induct)
  case (1 s m)
  then show ?case by (subst bh.absorb.simps) (simp add: compress_length)
qed

lemma absorbed_buf: "absorbed m ctx \<Longrightarrow> length (buf ctx) = 4 \<and> buf ctx = bh.absorb md5_iv m"
  by (simp add: absorbed_def bh.holds_def absorb_length)

lemma take_padding: "0 < n \<Longrightarrow> n \<le> 64 \<Longrightarrow> take n PADDING = 0x80 # replicate (n - 1) 0"
  by (cases n) (simp_all add: PADDING_def)

lemma pad_len_absorbed:
  assumes "absorbed m ctx"
  shows "take (pad_len ctx) PADDING = 0x80 # replicate ((119 - length m mod 64) mod 64) 0"
    and "(length m + pad_len ctx) mod 64 = 56" and "pad_len ctx \<le> 64"
proof -
  let ?k = "length m mod 64"
  have k: "?k < 64" by simp
  have p: "pad_len ctx = (if ?k < 56 then 56 - ?k else 120 - ?k)"
    using assms mdi_of [of ctx "length m"] by (simp add: pad_len_def absorbed_def)
  have b: "0 < pad_len ctx" "pad_len ctx \<le> 64" using k unfolding p by auto
  have "pad_len ctx - 1 = (119 - ?k) mod 64" using k unfolding p by (auto simp: le_mod_geq)
  then show "take (pad_len ctx) PADDING = 0x80 # replicate ((119 - ?k) mod 64) 0"
    by (simp only: take_padding [OF b])
  have "(length m + pad_len ctx) mod 64 = (?k + pad_len ctx) mod 64" by (simp only: mod_add_left_eq)
  also have "\<dots> = 56" using k unfolding p by (auto simp: le_mod_geq)
  finally show "(length m + pad_len ctx) mod 64 = 56" .
  show "pad_len ctx \<le> 64" by (rule b)
qed

lemma md5_pad_eq:
  assumes "absorbed m ctx"
  shows "md5_pad m = (m @ take (pad_len ctx) PADDING) @ le32_bytes (i_lo ctx) @ le32_bytes (i_hi ctx)"
  using assms unfolding pad_len_absorbed(1) [OF assms] by (simp add: md5_pad_def absorbed_def)

lemma encode_eq: "length xs = n \<Longrightarrow> stp_md5_encode xs (4 * n) = concat (map le32_bytes xs)"
  by (auto simp: stp_md5_encode_def intro!: arg_cong [of _ _ concat] nth_equalityI)

lemma final_h_ref:
  assumes "absorbed m ctx"
  shows "stp_md5_final_h ctx = md5_ref m"
proof -
  let ?c = "stp_md5_update ctx (take (pad_len ctx) PADDING)"
  let ?b = "stp_md5_encode [i_lo ctx, i_hi ctx] 8"
  have b: "?b = le32_bytes (i_lo ctx) @ le32_bytes (i_hi ctx)"
    using encode_eq [of "[i_lo ctx, i_hi ctx]" 2] by simp
  have "absorbed (m @ take (pad_len ctx) PADDING) ?c"
    by (rule absorbed_update [OF assms]) (simp add: PADDING_def)
  then have "absorbed (md5_pad m) (stp_md5_update ?c ?b)"
    unfolding md5_pad_eq [OF assms] b by (rule absorbed_update) (simp add: le32_bytes_def)
  from absorbed_buf [OF this] encode_eq [of "bh.absorb md5_iv (md5_pad m)" 4] show ?thesis
    by (simp add: stp_md5_final_h_def md5_ref_def Let_def absorb_length)
qed

lemma low_byte: "ucast (x AND 0xff) = (ucast (x :: u32) :: u8)"
proof -
  have m: "(0xff :: u32) = mask 8" by (simp add: mask_eq_exp_minus_1)
  show ?thesis unfolding m by (rule bit_word_eqI) (auto simp: bit_ucast_iff bit_and_iff bit_mask_iff)
qed

lemma le32_le32_bytes: "le32 (le32_bytes x @ xs) = x"
proof (rule bit_word_eqI)
  fix n assume "n < LENGTH(32)"
  then consider "n < 8" | "8 \<le> n" "n < 16" | "16 \<le> n" "n < 24" | "24 \<le> n" "n < 32" by force
  then show "bit (le32 (le32_bytes x @ xs)) n = bit x n"
    by cases (auto simp: le32_def le32_bytes_def low_byte bit_or_iff bit_push_bit_iff bit_ucast_iff bit_drop_bit_eq)
qed


lemma input_words_final:
  assumes "length bs = 64"
  shows "input_words 14 bs @ [x, y] = input_words 16 (take 56 bs @ le32_bytes x @ le32_bytes y)"
proof -
  let ?b = "take 56 bs @ le32_bytes x @ le32_bytes y"
  have "le32 (drop (4 * k) bs) = le32 (drop (4 * k) ?b)" if "k < 14" for k
    using that assms by (simp add: le32_def nth_append)
  then have "input_words 14 bs = input_words 14 ?b" by (simp add: input_words_def)
  moreover have u: "[0 ..< 16] = [0 ..< 14] @ [14, 15 :: nat]" by (simp add: upt_rec)
  have "input_words 16 ?b = input_words 14 ?b @ [le32 (drop 56 ?b), le32 (drop 60 ?b)]"
    by (simp add: input_words_def u)
  moreover have "drop 56 ?b = le32_bytes x @ le32_bytes y" "drop 60 ?b = le32_bytes y @ []"
    using assms by (simp_all add: le32_bytes_def)
  ultimately show ?thesis by (simp only: le32_le32_bytes)
qed

lemma final_ref:
  assumes "absorbed m ctx"
  shows "digest (stp_md5_final ctx) = md5_ref m"
proof -
  let ?m = "m @ take (pad_len ctx) PADDING"
  let ?c = "stp_md5_update ctx (take (pad_len ctx) PADDING)" and ?q = "64 * (length ?m div 64)"
  let ?bits = "le32_bytes (i_lo ctx) @ le32_bytes (i_hi ctx)"
  have "absorbed ?m ?c" by (rule absorbed_update [OF assms]) (simp add: PADDING_def)
  moreover have l: "length ?m mod 64 = 56" using pad_len_absorbed(2, 3) [OF assms] by (simp add: PADDING_def)
  ultimately have b: "length (inbuf ?c) = 64" "take 56 (inbuf ?c) = drop ?q ?m" "buf ?c = bh.absorb md5_iv ?m"
    by (simp_all only: absorbed_def bh.holds_def)
  have "md5_pad m = take ?q ?m @ (drop ?q ?m @ ?bits)"
    unfolding md5_pad_eq [OF assms] append_assoc [symmetric] append_take_drop_id ..
  then have "bh.absorb md5_iv (md5_pad m) = bh.absorb (buf ?c) (drop ?q ?m @ ?bits)"
    by (simp only: bh.absorb_prefix b)
  also have "\<dots> = md5_compress (buf ?c) (take 56 (inbuf ?c) @ ?bits)"
    unfolding b(2) [symmetric]
    using bh.absorb_block [of "take 56 (inbuf ?c) @ ?bits" "buf ?c" "[]"] b(1)
    by (simp add: le32_bytes_def bh.absorb_short)
  also have "\<dots> = stp_md5_transform (buf ?c) (input_words 14 (inbuf ?c) @ [i_lo ctx, i_hi ctx])"
    by (simp only: md5_compress_def input_words_final [OF b(1)])
  finally show ?thesis
    by (simp add: stp_md5_final_def md5_ref_def Let_def transform_length)
qed

lemma absorbed_pieces:
  "absorbed m ctx \<Longrightarrow> \<forall>p \<in> set ps. length p < 2 ^ 32 \<Longrightarrow>
   absorbed (m @ concat ps) (fold (\<lambda>da ctx. stp_md5_update ctx da) ps ctx)"
proof (induction ps arbitrary: m ctx)
  case (Cons p ps)
  from Cons.prems have "absorbed (m @ p) (stp_md5_update ctx p)" by (simp add: absorbed_update)
  from Cons.IH [OF this] Cons.prems show ?case by simp
qed simp

lemma concat_pieces: "concat (map (\<lambda>k. take 64 (drop (64 * k) xs)) [0 ..< n]) = take (64 * n) xs"
proof (induction n)
  case (Suc n)
  then show ?case using take_add [of "64 * n" 64 xs] by (simp add: add.commute)
qed simp

text \<open>C22: The one-shot function \<open>MD5\<close>, which feeds a text to the streaming context in pieces of 64
  bytes and pads in \<open>stp_md5_final\<close>, computes the digest of RFC 1321: the transformation chained over the blocks of the message padded
  with \<open>0x80\<close>, zeros and the 64-bit length in bits.\<close>

theorem md5_digest: "length (inbuf ctx) = 64 \<Longrightarrow> MD5 ctx text = md5_ref text"
proof -
  assume "length (inbuf ctx) = 64"
  let ?r = "drop (64 * (length text div 64)) text"
  let ?c = "fold (\<lambda>da ctx. stp_md5_update ctx da) (md5_pieces text) (stp_md5_init ctx)"
  have "absorbed ([] @ concat (md5_pieces text)) ?c"
    by (rule absorbed_pieces [OF absorbed_init]) (simp_all add: \<open>length (inbuf ctx) = 64\<close> md5_pieces_def)
  moreover have "length ?r < 2 ^ 32" by (simp add: minus_mult_div_eq_mod)
  ultimately have "absorbed (([] @ concat (md5_pieces text)) @ ?r) (stp_md5_update ?c ?r)"
    by (rule absorbed_update)
  then have "absorbed text (stp_md5_update ?c ?r)" by (simp add: md5_pieces_def concat_pieces)
  from final_ref [OF this] show ?thesis by (simp add: MD5_def Let_def)
qed

lemma final_h_update_update:
  assumes "length (inbuf ctx) = 64" "length a < 2 ^ 32" "length b < 2 ^ 32"
  shows "stp_md5_final_h (stp_md5_update (stp_md5_update (stp_md5_init ctx) a) b) = md5_ref (a @ b)"
  using final_h_ref [OF absorbed_update [OF absorbed_update [OF absorbed_init]]] assms by simp

lemma md5_ref_length: "length (md5_ref m) = 16"
proof -
  have "length (concat (map le32_bytes xs)) = 4 * length xs" for xs
    by (induction xs) (simp_all add: le32_bytes_def)
  then show ?thesis by (simp add: md5_ref_def absorb_length)
qed

text \<open>For a key of at most one block the keyed digest is HMAC-MD5 of RFC 2104, whatever the uninitialised
  contexts hold.\<close>

lemma hmac_digest:
  assumes "length (inbuf ctx) = 64" "length key \<le> 64" "length text < 2 ^ 31"
  shows "stp_md5_get_digest ctx beyond text key = hmac_md5 key text"
  using assms
  by (simp add: stp_md5_get_digest_def hmac_md5_def Let_def final_h_update_update md5_ref_length)

end
