(* ===== verification/StpMgmt.thy ===== *)
theory StpMgmt
  imports StpShape StpMd5
begin

text \<open>
  The management of VLANs and instances (\<open>stp_mgmt.c\<close>): the table \<open>g_VID2MSTID\<close> from VLANs to
  instances, the VLAN map of each instance, the configuration digest of the region, and the state
  reported to the command line. The printing functions are not modelled.
\<close>

abbreviation (input) STP_Cannot_Create_Instance_For_Vlan :: int where "STP_Cannot_Create_Instance_For_Vlan \<equiv> 26"
abbreviation (input) STP_Cannot_Create_Instance_For_Port :: int where "STP_Cannot_Create_Instance_For_Port \<equiv> 27"
abbreviation (input) STP_Nothing_To_Do :: int where "STP_Nothing_To_Do \<equiv> 32"

subsection \<open>The configuration digest\<close>

text \<open>The table the digest is taken over: 4096 entries of two bytes in network order, 0 and 4095 left
  zero.\<close>

definition vlan_mst_map_table :: "world \<Rightarrow> u8 list" where
  "vlan_mst_map_table w =
     concat (map (\<lambda>i. if 1 \<le> i \<and> i < 4095 then htons (of_nat (g_VID2MSTID w i)) else [0, 0]) [0 ..< 4096])"

definition STP_UM_KEY :: "u8 list" where
  "STP_UM_KEY = [0x13, 0xAC, 0x06, 0xA6, 0x2E, 0x47, 0xFD, 0x51, 0xF9, 0x5D, 0x2B, 0xA2, 0x43, 0xCD, 0x03, 0x46]"

text \<open>\<open>ctx\<close> is the uninitialised digest context on the stack.\<close>

definition stp_mgmt_calc_configid_digest :: "MD5_CTX \<Rightarrow> bref \<Rightarrow> world \<Rightarrow> world" where
  "stp_mgmt_calc_configid_digest ctx b w =
     (let dg = stp_md5_get_digest ctx [] (vlan_mst_map_table w) STP_UM_KEY in
      updb b (\<lambda>s. s\<lparr>MstConfigId := (MstConfigId s)\<lparr>ConfigurationDigest := take 16 dg\<rparr>\<rparr>) w)"

definition stp_mgmt_build_configid_digest :: "MD5_CTX \<Rightarrow> world \<Rightarrow> int \<times> world" where
  "stp_mgmt_build_configid_digest ctx w =
     (case g_CISTBRIDGE w of
        Some b \<Rightarrow> (STP_Nothing_To_Do, w)
      | None \<Rightarrow> (STP_OK, null_deref w))"

definition stp_mgmt_init_vlanpbmp :: "nat \<Rightarrow> BITMAP_T \<Rightarrow> world \<Rightarrow> world" where
  "stp_mgmt_init_vlanpbmp VID pbmp w = w\<lparr>g_VlanPBMP := (g_VlanPBMP w)(VID := take 9 pbmp)\<rparr>"

definition stp_mgmt_get_mstid :: "nat \<Rightarrow> world \<Rightarrow> nat" where
  "stp_mgmt_get_mstid vid w = g_VID2MSTID w vid"

subsection \<open>VLAN maps\<close>

definition stp_mgmt_set_cist_vlan_map :: "nat \<Rightarrow> bool \<Rightarrow> world \<Rightarrow> int \<times> world" where
  "stp_mgmt_set_cist_vlan_map VID isAdd w =
     (case g_CISTBRIDGE w of
        None \<Rightarrow> (STP_BRIDGE_NOTFOUND, w)
      | Some c \<Rightarrow>
          (STP_OK, updb c (\<lambda>s. let m = br_vlan_map s in
             s\<lparr>br_vlan_map := (if isAdd then (vmap_clear VID m)\<lparr>ulcount := ulcount m - 1\<rparr>
                              else (vmap_set VID m)\<lparr>ulcount := ulcount m + 1\<rparr>)\<rparr>) w))"

text \<open>A port index of type \<open>int\<close> passed on as \<open>unsigned long\<close>.\<close>

definition as_index :: "int \<Rightarrow> nat" where
  "as_index i = nat (i mod 2 ^ 32)"

text \<open>\<open>stp_ports[port_index]->mstid[vlan_id] = vlan_id\<close>. The array has 64 elements; the element 64 is the
  first one of the array behind it.\<close>

definition note_mstid :: "nat \<Rightarrow> nat \<Rightarrow> world \<Rightarrow> world" where
  "note_mstid pidx m w =
     w\<lparr>stp_ports := map_option (\<lambda>nodes. nodes(pidx := map_option (\<lambda>s.
         if m < 64 then s\<lparr>sai_mstid := (sai_mstid s)[m := of_nat m]\<rparr>
         else s\<lparr>sai_pathcost := (sai_pathcost s)[m - 64 := of_nat m]\<rparr>) (nodes pidx))) (stp_ports w)\<rparr>"

text \<open>The two nested loops over the bits of \<open>g_VlanPBMP[VID]\<close>: \<open>-2\<close> ends the byte, \<open>-1\<close> skips the bit, and
  a port that cannot be added ends both loops.\<close>

primrec add_bits :: "os_env \<Rightarrow> bref \<Rightarrow> nat \<Rightarrow> nat \<Rightarrow> nat list \<Rightarrow> world \<Rightarrow> int \<times> world" where
  "add_bits os b VID byte [] w = (STP_OK, w)"
| "add_bits os b VID byte (k # ks) w =
     (let pidx = stp_bitmap_get_portindex_from_bmp (platform w) (g_VlanPBMP w VID) byte k in
      if pidx = - 2 then (STP_OK, w)
      else if pidx = - 1 then add_bits os b VID byte ks w
      else
        let (rc, w) = stp_port_mst_addport os (br_vlan_id (bheap w b)) (as_index pidx) VID False w in
        if rc \<noteq> STP_OK then (rc, w)
        else add_bits os b VID byte ks (note_mstid (as_index pidx) (br_vlan_id (bheap w b)) w))"

primrec add_bytes :: "os_env \<Rightarrow> bref \<Rightarrow> nat \<Rightarrow> nat list \<Rightarrow> world \<Rightarrow> int \<times> world" where
  "add_bytes os b VID [] w = (STP_OK, w)"
| "add_bytes os b VID (byte # bytes) w =
     (let (rc, w) = add_bits os b VID byte [0 ..< 8] w in
      if rc \<noteq> STP_OK then (rc, w) else add_bytes os b VID bytes w)"

definition map_vlan :: "bref \<Rightarrow> nat \<Rightarrow> world \<Rightarrow> world" where
  "map_vlan b VID w =
     (if VID \<noteq> 0 then
        let w = updb b (\<lambda>s. let m = vmap_set VID (br_vlan_map s) in s\<lparr>br_vlan_map := m\<lparr>ulcount := ulcount m + 1\<rparr>\<rparr>) w in
        if br_vlan_id (bheap w b) \<noteq> STP_CIST_ID then snd (stp_mgmt_set_cist_vlan_map VID True w) else w
      else w)"

definition stp_mgmt_stpm_add_vlan :: "os_env \<Rightarrow> bref \<Rightarrow> nat \<Rightarrow> world \<Rightarrow> (int \<times> world) option" where
  "stp_mgmt_stpm_add_vlan os b VID w =
     (if VID > STP_MAX_VID then Some (STP_ERROR, w)
      else
        let (rc, w) = add_bytes os b VID [0 ..< 9] (map_vlan b VID w) in
        if rc \<noteq> STP_OK
        then map_option (\<lambda>w. (STP_Cannot_Create_Instance_For_Port, w)) (stp_stpm_delete b w)
        else Some (STP_OK, w\<lparr>g_VID2MSTID := (g_VID2MSTID w)(VID := br_vlan_id (bheap w b))\<rparr>))"

text \<open>Deletion does not test for \<open>-2\<close>. \<open>stp_to_flush_lt\<close> has no effect in this configuration.\<close>

primrec del_bits :: "int \<Rightarrow> bref \<Rightarrow> nat \<Rightarrow> (nat \<times> nat) list \<Rightarrow> world \<Rightarrow> int \<times> world" where
  "del_bits stack_int b VID [] w = (STP_OK, w)"
| "del_bits stack_int b VID (x # xs) w =
     (let pidx = stp_bitmap_get_portindex_from_bmp (platform w) (g_VlanPBMP w VID) (fst x) (snd x) in
      if pidx = - 1 then del_bits stack_int b VID xs w
      else case stp_port_mst_findport (br_vlan_id (bheap w b)) (as_index pidx) w of
        None \<Rightarrow> del_bits stack_int b VID xs w
      | Some _ \<Rightarrow>
          let (rc, w) = stp_port_mst_delport stack_int (br_vlan_id (bheap w b)) (as_index pidx) VID w in
          if rc \<noteq> STP_OK then (rc, w) else del_bits stack_int b VID xs w)"

definition unmap_vlan :: "bref \<Rightarrow> nat \<Rightarrow> world \<Rightarrow> world" where
  "unmap_vlan b VID w =
     (let w = updb b (\<lambda>s. let m = vmap_clear VID (br_vlan_map s) in s\<lparr>br_vlan_map := m\<lparr>ulcount := ulcount m - 1\<rparr>\<rparr>) w in
      if br_vlan_id (bheap w b) \<noteq> STP_CIST_ID then snd (stp_mgmt_set_cist_vlan_map VID False w) else w)"

definition stp_mgmt_stpm_del_vlan :: "int \<Rightarrow> bref \<Rightarrow> nat \<Rightarrow> world \<Rightarrow> (int \<times> world) option" where
  "stp_mgmt_stpm_del_vlan stack_int b VID w =
     (if VID > STP_MAX_VID then Some (STP_ERROR, w)
      else
        let (rc, w) = del_bits stack_int b VID (List.product [0 ..< 9] [0 ..< 8]) (unmap_vlan b VID w) in
        if rc \<noteq> STP_OK then Some (rc, w)
        else
          do { w \<leftarrow> (if ulcount (br_vlan_map (bheap w b)) = 0 \<and> br_vlan_id (bheap w b) \<noteq> STP_CIST_ID
                    then stp_stpm_delete b w else Some w);
               Some (rc, w\<lparr>g_VID2MSTID := (g_VID2MSTID w)(VID := STP_CIST_ID)\<rparr>) })"

subsection \<open>Instances\<close>

definition hex_digit :: "u8 \<Rightarrow> u8" where
  "hex_digit d = (if d < 10 then d + 48 else d + 87)"

text \<open>\<open>sprintf ("%.2x%.2x...")\<close> with its terminating zero, written over the start of the 32 bytes.\<close>

definition config_name :: "u8 list \<Rightarrow> u8 list \<Rightarrow> u8 list" where
  "config_name a old =
     (let s = concat (map (\<lambda>x. [hex_digit (drop_bit 4 x), hex_digit (x AND 0x0f)]) (take 6 a)) @ [0] in
      s @ drop (length s) old)"

definition stp_mgmt_stpm_create_cist :: "MD5_CTX \<Rightarrow> world \<Rightarrow> int \<times> world" where
  "stp_mgmt_stpm_create_cist ctx w =
     (case g_CISTBRIDGE w of
        Some _ \<Rightarrow> (STP_Nothing_To_Do, w)
      | None \<Rightarrow>
          (case stp_stpm_mst_create STP_CIST_ID (Some [67, 73, 83, 84]) w of
             (None, w) \<Rightarrow> (STP_Cannot_Create_Instance_For_Vlan, w)
           | (Some b, w) \<Rightarrow>
               let w = updb b (\<lambda>s. s\<lparr>br_vlan_map := \<lparr>bmp = replicate 512 0xff, ulcount = of_nat STP_MAX_VID\<rparr>,
                     MstConfigId := (MstConfigId s)\<lparr>FormatSelector := 0, RevisionLevel := [0, 0]\<rparr>\<rparr>) w;
                   w = stp_mgmt_calc_configid_digest ctx b w in
               (STP_OK, updb b (\<lambda>s. s\<lparr>MstConfigId := (MstConfigId s)\<lparr>ConfigurationName :=
                     config_name (addr (BrId s)) (ConfigurationName (MstConfigId s))\<rparr>\<rparr>) w)))"

fun decimal :: "nat \<Rightarrow> u8 list" where
  "decimal n = (if n < 10 then [of_nat n + 48] else decimal (n div 10) @ [of_nat (n mod 10) + 48])"

declare decimal.simps [simp del]

definition msti_name :: "nat \<Rightarrow> u8 list" where
  "msti_name m = [77, 83, 84, 73, 45] @ decimal m"

text \<open>The second half of \<open>stp_mgmt_stpm_update_instance\<close>: the VLAN leaves its old instance and joins the
  new one; \<open>None\<close> from \<open>stp_stpm_get_the_cist\<close> would be followed.\<close>

definition move_vlan :: "os_env \<Rightarrow> int \<Rightarrow> MD5_CTX \<Rightarrow> bref \<Rightarrow> bref \<Rightarrow> nat \<Rightarrow> world \<Rightarrow> (int \<times> world) option" where
  "move_vlan os stack_int ctx this old VID w =
     do { (rc, w) \<leftarrow> stp_mgmt_stpm_del_vlan stack_int old VID w;
          if rc \<noteq> STP_OK then Some (rc, w)
          else do { (rc, w) \<leftarrow> stp_mgmt_stpm_add_vlan os this VID w;
                    if rc \<noteq> STP_OK then Some (rc, w)
                    else
                      let w = (case g_CISTBRIDGE w of None \<Rightarrow> null_deref w
                                | Some c \<Rightarrow> stp_mgmt_calc_configid_digest ctx c w) in
                      if g_stp_state w = STP_ENABLED then stp_stpm_enable this (g_stp_state w) w
                      else Some (STP_OK, w) } }"

definition stp_mgmt_stpm_update_instance ::
  "os_env \<Rightarrow> int \<Rightarrow> MD5_CTX \<Rightarrow> nat \<Rightarrow> nat \<Rightarrow> world \<Rightarrow> (int \<times> world) option" where
  "stp_mgmt_stpm_update_instance os stack_int ctx MSTID VID w =
     (if MSTID = g_VID2MSTID w VID then Some (STP_OK, w)
      else
        let (this, w) = (case stp_stpm_get_instance MSTID w of
              Some b \<Rightarrow> (Some b, w)
            | None \<Rightarrow> stp_stpm_mst_create MSTID (Some (msti_name MSTID)) w) in
        case this of
          None \<Rightarrow> Some (STP_Cannot_Create_Instance_For_Vlan, w)
        | Some b \<Rightarrow>
            (case stp_stpm_get_instance (g_VID2MSTID w VID) w of
               None \<Rightarrow> Some (STP_Cannot_Create_Instance_For_Vlan, w)
             | Some old \<Rightarrow> move_vlan os stack_int ctx b old VID w))"

subsection \<open>Deleting instances\<close>

text \<open>\<open>while (port = stpm->ports) stp_port_delete (port)\<close>.\<close>

partial_function (option) drop_ports :: "bref \<Rightarrow> world \<Rightarrow> world option" where
  "drop_ports b w = (case ports (bheap w b) of [] \<Rightarrow> Some w | p # _ \<Rightarrow> drop_ports b (stp_port_delete p w))"

partial_function (option) delete_list :: "world \<Rightarrow> world option" where
  "delete_list w =
     (case bridges w of
        [] \<Rightarrow> Some w
      | b # _ \<Rightarrow> do { w \<leftarrow> drop_ports b w; w \<leftarrow> stp_stpm_delete b w; delete_list w })"

text \<open>The two \<open>memset\<close> calls clear 4096 bytes: 455 bitmaps of 9 bytes and the first byte of the next, and
  2048 entries of two bytes.\<close>

definition clear_vlanpbmp :: "(nat \<Rightarrow> BITMAP_T) \<Rightarrow> nat \<Rightarrow> BITMAP_T" where
  "clear_vlanpbmp f v = (if v < 455 then replicate 9 0 else if v = 455 then (f v)[0 := 0] else f v)"

definition clear_vid2mstid :: "(nat \<Rightarrow> nat) \<Rightarrow> nat \<Rightarrow> nat" where
  "clear_vid2mstid f v = (if v < 2048 then 0 else f v)"

definition stp_mgmt_stpm_delete_all :: "world \<Rightarrow> world option" where
  "stp_mgmt_stpm_delete_all w =
     do { w \<leftarrow> delete_list w;
          let w = stp_port_clear_gloabl_portarray w;
          Some (w\<lparr>g_VlanPBMP := clear_vlanpbmp (g_VlanPBMP w), g_VID2MSTID := clear_vid2mstid (g_VID2MSTID w),
                  enabled_ports := stp_bitmap_clear (enabled_ports w)\<rparr>) }"

text \<open>The list from the current instance on. After a deletion the loop steps to the next instance twice.\<close>

fun del_mst_list :: "bref list \<Rightarrow> world \<Rightarrow> world option" where
  "del_mst_list [] w = Some w"
| "del_mst_list (b # bs) w =
     do { w \<leftarrow> drop_ports b w;
          if br_vlan_id (bheap w b) \<noteq> STP_CIST_ID
          then do { w \<leftarrow> stp_stpm_delete b w; del_mst_list (tl bs) w }
          else del_mst_list bs w }"

definition stp_mgmt_del_all_mst :: "world \<Rightarrow> world option" where
  "stp_mgmt_del_all_mst w =
     do { w \<leftarrow> del_mst_list (bridges w) w; Some (w\<lparr>g_VlanPBMP := clear_vlanpbmp (g_VlanPBMP w)\<rparr>) }"

subsection \<open>Reports\<close>

record UID_STP_STATE_T =
  us_vlan_name :: "u8 list"
  us_vlan_id :: nat
  us_stp_enabled :: UID_STP_MODE_T
  us_designated_root :: BRIDGE_ID
  us_root_path_cost :: u32
  us_timeSince_Topo_Change :: u32
  us_Topo_Change_Count :: u32
  us_Topo_Change :: bool
  us_root_port :: u16
  us_max_age :: int
  us_hello_time :: int
  us_forward_delay :: int
  us_bridge_id :: BRIDGE_ID

definition stp_mgmt_stpm_get_state :: "STPM_T \<Rightarrow> UID_STP_STATE_T" where
  "stp_mgmt_stpm_get_state this = \<lparr>
     us_vlan_name = take 20 (br_name this), us_vlan_id = br_vlan_id this, us_stp_enabled = admin_state this,
     us_designated_root = root_bridge (rootPrio this), us_root_path_cost = root_path_cost (rootPrio this),
     us_timeSince_Topo_Change = timeSince_Topo_Change this, us_Topo_Change_Count = Topo_Change_Count this,
     us_Topo_Change = Topo_Change this, us_root_port = rootPortId this,
     us_max_age = uint (MaxAge (rootTimes this)), us_hello_time = uint (HelloTime (rootTimes this)),
     us_forward_delay = uint (ForwardDelay (rootTimes this)), us_bridge_id = BrId this\<rparr>"

datatype RSTP_PORT_STATE =
  UID_PORT_DISABLED | UID_PORT_DISCARDING | UID_PORT_LEARNING | UID_PORT_FORWARDING | UID_PORT_NON_STP

record UID_STP_PORT_STATE_T =
  ups_port_id :: PORT_ID
  ups_state :: RSTP_PORT_STATE
  ups_path_cost :: u32
  ups_designated_root :: BRIDGE_ID
  ups_designated_cost :: u32
  ups_designated_bridge :: BRIDGE_ID
  ups_designated_port :: PORT_ID
  ups_linkState :: bool
  ups_oper_port_path_cost :: u32
  ups_role :: PORT_ROLE_T
  ups_oper_point2point :: nat
  ups_oper_edge :: bool
  ups_oper_stp_neigb :: bool

definition report_state :: "PORT_T \<Rightarrow> RSTP_PORT_STATE" where
  "report_state t =
     (if role t = DisabledPort then UID_PORT_DISABLED
      else if \<not> forward t \<and> \<not> learn t then UID_PORT_DISCARDING
      else if \<not> forward t \<and> learn t then UID_PORT_LEARNING
      else UID_PORT_FORWARDING)"

definition cist_report_cost :: "PORT_T \<Rightarrow> STPM_T \<Rightarrow> u32" where
  "cist_report_cost t s =
     (let c = (if region_root_bridge (rootPrio s) = BrId s then root_path_cost (portPrio t)
               else if \<not> infoInternal t then root_path_cost (portPrio t)
               else region_root_path_cost (portPrio t)) in
      if role t = AlternatePort \<or> role t = RootPort then c + operPCost t else c)"

definition msti_report_cost :: "PORT_T \<Rightarrow> PORT_T \<Rightarrow> u32" where
  "msti_report_cost t cist_port =
     (let c = region_root_path_cost (portPrio t) in
      if role t = RootPort then c + operPCost t
      else if role t = AlternatePort \<and> \<not> (\<not> infoInternal cist_port \<and> role cist_port = AlternatePort)
        then c + operPCost t
      else c)"

fun p2p_num :: "ADMIN_P2P_T \<Rightarrow> nat" where
  "p2p_num P2P_FORCE_FALSE_E = 0"
| "p2p_num P2P_FORCE_TRUE_E = 1"
| "p2p_num P2P_AUTO_E = 2"

text \<open>\<open>None\<close> is the return value \<open>-1\<close>: an MSTI port whose CIST port is gone.\<close>

definition stp_mgmt_get_port_state :: "pref \<Rightarrow> world \<Rightarrow> UID_STP_PORT_STATE_T option" where
  "stp_mgmt_get_port_state p w =
     (let t = pheap w p; s = owner_of w p in
      do { cost \<leftarrow> (if br_vlan_id s = STP_CIST_ID then Some (cist_report_cost t s)
                  else map_option (\<lambda>c. msti_report_cost t (pheap w c)) (stp_port_mst_findport STP_CIST_ID (port_index t) w));
           Some \<lparr>ups_port_id = port_id t, ups_state = report_state t, ups_path_cost = adminPCost t,
              ups_designated_root = root_bridge (portPrio t), ups_designated_cost = cost,
              ups_designated_bridge = design_bridge (portPrio t), ups_designated_port = design_port (portPrio t),
              ups_linkState = adminEnable t, ups_oper_port_path_cost = operPCost t, ups_role = role t,
              ups_oper_point2point =
                (if role t = DisabledPort then p2p_num (adminPointToPointMac t) else if operPointToPointMac t then 1 else 0),
              ups_oper_edge = (if role t = DisabledPort then adminEdge t else operEdge t),
              ups_oper_stp_neigb = (role t \<noteq> DisabledPort \<and> \<not> sendRSTP t)\<rparr> })"

text \<open>The configuration of a port, and the mask of the fields that are not at their defaults.\<close>

record UID_STP_PORT_CFG_T =
  upc_field_mask :: u32
  upc_port_priority :: int
  upc_admin_port_path_cost :: u32
  upc_admin_point2point :: ADMIN_P2P_T
  upc_admin_edge :: bool
  upc_admin_non_stp :: bool
  upc_skip_rx :: u32
  upc_skip_tx :: u32

abbreviation (input) PT_CFG_COST :: u32 where "PT_CFG_COST \<equiv> 2"
abbreviation (input) PT_CFG_PRIO :: u32 where "PT_CFG_PRIO \<equiv> 4"
abbreviation (input) PT_CFG_P2P :: u32 where "PT_CFG_P2P \<equiv> 8"
abbreviation (input) PT_CFG_EDGE :: u32 where "PT_CFG_EDGE \<equiv> 16"
abbreviation (input) PT_CFG_MCHECK :: u32 where "PT_CFG_MCHECK \<equiv> 32"
abbreviation (input) PT_CFG_NON_STP :: u32 where "PT_CFG_NON_STP \<equiv> 64"
abbreviation (input) PT_CFG_DBG_SKIP_RX :: u32 where "PT_CFG_DBG_SKIP_RX \<equiv> 0x10000"
abbreviation (input) PT_CFG_DBG_SKIP_TX :: u32 where "PT_CFG_DBG_SKIP_TX \<equiv> 0x20000"

definition stp_mgmt_get_port_cfg :: "PORT_T \<Rightarrow> UID_STP_PORT_CFG_T \<Rightarrow> UID_STP_PORT_CFG_T" where
  "stp_mgmt_get_port_cfg t c =
     (let pr = uint (drop_bit 8 (port_id t));
          m = (if pr \<noteq> 128 then PT_CFG_PRIO else 0) OR
              (if adminPCost t \<noteq> ADMIN_PORT_PATH_COST_AUTO then PT_CFG_COST else 0) OR
              (if adminPointToPointMac t \<noteq> P2P_AUTO_E then PT_CFG_P2P else 0) OR
              (if adminEdge t \<noteq> True then PT_CFG_EDGE else 0) in
      c\<lparr>upc_field_mask := m, upc_port_priority := pr, upc_admin_port_path_cost := adminPCost t,
        upc_admin_point2point := adminPointToPointMac t, upc_admin_edge := adminEdge t\<rparr>)"

subsection \<open>The digest of the region\<close>

lemma map_table_length: "length (vlan_mst_map_table w) = 8192"
proof -
  let ?f = "\<lambda>i. if 1 \<le> i \<and> i < 4095 then htons (of_nat (g_VID2MSTID w i)) else [0, 0]"
  have "length (concat (map ?f is)) = 2 * length is" for "is" by (induction "is") simp_all
  then show ?thesis by (simp only: vlan_mst_map_table_def) simp
qed


end
