(* ===== verification/StpVlan.thy ===== *)
theory StpVlan
  imports StpMgmt
begin

text \<open>
  The VLAN maps as an invariant of the management: every VLAN belongs to exactly one instance, the one
  \<open>g_VID2MSTID\<close> names. The maps of the instances and the table are separate objects in the code, and
  the functions of \<open>stp_mgmt.c\<close> keep them together.
\<close>

subsection \<open>The bits of a VLAN map\<close>

lemma vmap_has_bit: "vmap_has v m \<longleftrightarrow> bit (bmp m ! (v div 8)) (v mod 8)"
proof -
  have "v mod 8 \<le> 7" using mod_less_divisor [of 8 v] by linarith
  then show ?thesis using and_push1_nonzero [of "v mod 8" "bmp m ! (v div 8)"] by (simp add: vmap_has_def)
qed

lemma vmap_bounds: "v \<le> STP_MAX_VID \<Longrightarrow> v div 8 < 512"
  by linarith

lemma vmap_set_has:
  assumes "length (bmp m) = 512" and "v \<le> STP_MAX_VID"
  shows "vmap_has u (vmap_set v m) \<longleftrightarrow> u = v \<or> vmap_has u m"
  using assms vmap_bounds [of v] divmod8_inj [of u v]
  by (auto simp: vmap_has_bit vmap_set_def nth_list_update bit_or_iff bit_push1)

lemma vmap_clear_has:
  assumes "length (bmp m) = 512" and "v \<le> STP_MAX_VID"
  shows "vmap_has u (vmap_clear v m) \<longleftrightarrow> u \<noteq> v \<and> vmap_has u m"
  using assms vmap_bounds [of v] divmod8_inj [of u v]
  by (auto simp: vmap_has_bit vmap_clear_def nth_list_update bit_and_iff bit_not_iff bit_push1)

lemma vmap_length [simp]: "length (bmp (vmap_set v m)) = length (bmp m)" "length (bmp (vmap_clear v m)) = length (bmp m)"
  "ulcount (vmap_set v m) = ulcount m" "ulcount (vmap_clear v m) = ulcount m"
  by (simp_all add: vmap_set_def vmap_clear_def)

lemma vmap_has_count [simp]: "vmap_has v (m\<lparr>ulcount := n\<rparr>) = vmap_has v m"
  by (simp add: vmap_has_def)

subsection \<open>What the port functions leave alone\<close>

definition vshape :: "world \<Rightarrow> _" where
  "vshape w = (bridges w, g_CISTBRIDGE w, g_VID2MSTID w, next_bref w, (\<lambda>b. (br_vlan_id (bheap w b), br_vlan_map (bheap w b))))"

named_theorems vshape_simps

lemma shape_vshape: "shape w = shape w' \<Longrightarrow> vshape w = vshape w'"
  by (auto simp: shape_def vshape_def bshape_def fun_eq_iff)

lemma vshape_basic [vshape_simps]:
  "vshape (upd p f w) = vshape w" "vshape (emit e w) = vshape w" "vshape (null_deref w) = vshape w"
  "vshape (w\<lparr>next_pref := n\<rparr>) = vshape w" "vshape (w\<lparr>stp_ports := s\<rparr>) = vshape w"
  "vshape (w\<lparr>g_CISTPORT := c\<rparr>) = vshape w"
  by (simp_all add: vshape_def upd_def emit_def null_deref_def)

lemma vshape_updb [vshape_simps]:
  "(\<And>s. br_vlan_id (f s) = br_vlan_id s) \<Longrightarrow> (\<And>s. br_vlan_map (f s) = br_vlan_map s) \<Longrightarrow> vshape (updb b f w) = vshape w"
  by (auto simp: vshape_def updb_def fun_eq_iff)

lemma vshape_addport [vshape_simps]: "vshape (snd (stp_port_mst_addport os m i v wan w)) = vshape w"
  by (simp add: stp_port_mst_addport_def stp_port_mst_port_create_def new_port_wan_def stp_port_init_def link_port_def
      count_vlan_def Let_def split_beta vshape_simps split: option.split)

lemma vshape_delete [vshape_simps]: "vshape (stp_port_delete p w) = vshape w"
  by (simp add: stp_port_delete_def Let_def vshape_simps)

lemma vshape_delport [vshape_simps]: "vshape (snd (stp_port_mst_delport x m i v w)) = vshape w"
  by (simp add: stp_port_mst_delport_def uncount_vlan_def Let_def split_beta vshape_simps split: option.split)

lemma vshape_add_bits [vshape_simps]: "vshape (snd (add_bits os b v y ks w)) = vshape w"
proof (induction ks arbitrary: w)
  case (Cons k ks)
  have "vshape (snd (stp_port_mst_addport os m i v False w)) = vshape w" for m i by (rule vshape_addport)
  then show ?case using Cons by (simp add: Let_def split_beta note_mstid_def vshape_simps)
qed simp

lemma vshape_add_bytes [vshape_simps]: "vshape (snd (add_bytes os b v ys w)) = vshape w"
proof (induction ys arbitrary: w)
  case (Cons y ys)
  then show ?case using vshape_add_bits [of os b v y "[0 ..< 8]" w] by (simp add: Let_def split_beta)
qed simp

lemma vshape_del_bits [vshape_simps]: "vshape (snd (del_bits x b v ks w)) = vshape w"
proof (induction ks arbitrary: w)
  case (Cons k ks)
  then show ?case by (simp add: Let_def split_beta vshape_simps split: option.split)
qed simp

lemma vshape_delete_ports [vshape_simps]: "vshape (delete_ports b ps w) = vshape w"
  by (induction b ps w rule: delete_ports.induct) (simp_all add: vshape_simps)

lemma vshape_for_ports [vshape_simps]: "(\<And>p w. vshape (bd p w) = vshape w) \<Longrightarrow> vshape (for_ports bd ps w) = vshape w"
  by (rule for_ports_field)

lemma vshape_init_data [vshape_simps]: "vshape (stp_stpm_init_data b w) = vshape w"
  by (simp add: stp_stpm_init_data_def vshape_simps Let_def)

lemma vshape_start_machines: "start_machines b w = Some w' \<Longrightarrow> vshape w' = vshape w"
  by (rule start_machines_keeps [of vshape, OF shape_vshape]) (simp_all add: vshape_simps stp_port_init_def Let_def)

lemma vshape_copy_address [vshape_simps]: "vshape (copy_address b cs w) = vshape w"
  by (induction cs arbitrary: w) (simp_all add: vshape_simps)

lemma vshape_enable:
  assumes "stp_stpm_enable b st w = Some (rc, w')"
  shows "vshape w' = vshape w"
  using assms vshape_start_machines
  by (fastforce simp: stp_stpm_enable_def stp_stpm_stop_def stp_stpm_start_def stp_stpm_compute_bridge_id_def
      share_address_def vshape_simps split: if_splits option.splits)

subsection \<open>The invariant\<close>

definition vids :: "nat set" where "vids = {1 .. STP_MAX_VID}"

abbreviation inst_id :: "world \<Rightarrow> bref \<Rightarrow> nat" where "inst_id w b \<equiv> br_vlan_id (bheap w b)"

abbreviation has_vlan :: "world \<Rightarrow> bref \<Rightarrow> nat \<Rightarrow> bool" where "has_vlan w b v \<equiv> vmap_has v (br_vlan_map (bheap w b))"

definition instances_ok :: "world \<Rightarrow> bool" where
  "instances_ok w \<longleftrightarrow>
     (\<exists>c \<in> set (bridges w). g_CISTBRIDGE w = Some c \<and> inst_id w c = STP_CIST_ID) \<and>
     inj_on (inst_id w) (set (bridges w)) \<and> distinct (bridges w) \<and>
     (\<forall>b \<in> set (bridges w). b < next_bref w \<and> length (bmp (br_vlan_map (bheap w b))) = 512)"

text \<open>A VLAN is in the map of the instance the table names and in no other.\<close>

definition vlan_at :: "world \<Rightarrow> nat \<Rightarrow> bool" where
  "vlan_at w v \<longleftrightarrow> (\<forall>b \<in> set (bridges w). has_vlan w b v \<longleftrightarrow> inst_id w b = g_VID2MSTID w v) \<and>
     (\<exists>b \<in> set (bridges w). inst_id w b = g_VID2MSTID w v)"

text \<open>The counter of an MSTI, which decides when it is deleted.\<close>

definition counts_ok :: "world \<Rightarrow> bool" where
  "counts_ok w \<longleftrightarrow> (\<forall>b \<in> set (bridges w). inst_id w b \<noteq> STP_CIST_ID \<longrightarrow>
     unat (ulcount (br_vlan_map (bheap w b))) = card {v \<in> vids. g_VID2MSTID w v = inst_id w b})"

definition vlan_ok :: "world \<Rightarrow> bool" where
  "vlan_ok w \<longleftrightarrow> instances_ok w \<and> (\<forall>v \<in> vids. vlan_at w v) \<and> counts_ok w"

lemma vshapeD:
  assumes "vshape w' = vshape w"
  shows "bridges w' = bridges w" "g_CISTBRIDGE w' = g_CISTBRIDGE w" "g_VID2MSTID w' = g_VID2MSTID w"
    "next_bref w' = next_bref w" "\<And>b. inst_id w' b = inst_id w b" "\<And>b. br_vlan_map (bheap w' b) = br_vlan_map (bheap w b)"
  using assms by (auto simp: vshape_def fun_eq_iff)

lemma vlan_ok_cong: "vshape w' = vshape w \<Longrightarrow> vlan_ok w' \<longleftrightarrow> vlan_ok w"
  using vshapeD [of w' w] by (simp add: vlan_ok_def instances_ok_def vlan_at_def counts_ok_def inj_on_def)

lemma vids_finite [simp]: "finite vids" "finite {v \<in> vids. P v}"
  by (simp_all add: vids_def)

lemma card_vids: "card {v \<in> vids. P v} \<le> STP_MAX_VID"
proof -
  have "card {v \<in> vids. P v} \<le> card vids" by (rule card_mono) auto
  then show ?thesis by (simp add: vids_def)
qed

lemma count_update:
  assumes "V \<in> vids" and "f V \<noteq> m"
  shows "card {v \<in> vids. (f(V := m)) v = m} = card {v \<in> vids. f v = m} + 1"
proof -
  have "{v \<in> vids. (f(V := m)) v = m} = insert V {v \<in> vids. f v = m}" using assms(1) by auto
  then show ?thesis using assms(2) by simp
qed

lemma count_remove:
  assumes "V \<in> vids" and "f V = m" and "k \<noteq> m"
  shows "card {v \<in> vids. f v = m} = card {v \<in> vids. (f(V := k)) v = m} + 1"
proof -
  have "{v \<in> vids. f v = m} = insert V {v \<in> vids. (f(V := k)) v = m}" using assms by auto
  then show ?thesis using assms(3) by simp
qed

subsection \<open>Leaving and joining an instance\<close>

lemma delete_instance:
  assumes "instances_ok w" and "b \<in> set (bridges w)" and "inst_id w b \<noteq> STP_CIST_ID" and "stp_stpm_delete b w = Some w'"
  shows "bridges w' = filter (\<lambda>c. c \<noteq> b) (bridges w)" and "g_CISTBRIDGE w' = g_CISTBRIDGE w"
    and "g_VID2MSTID w' = g_VID2MSTID w" and "next_bref w' = next_bref w" and "\<And>c. inst_id w' c = inst_id w c"
    and "\<And>c. br_vlan_map (bheap w' c) = br_vlan_map (bheap w c)"
proof -
  obtain rc u where en: "stp_stpm_enable b STP_DISABLED w = Some (rc, u)"
    and w': "w' = (let u = delete_ports b (ports (bheap u b)) u; same = (\<lambda>c. inst_id u c = inst_id u b) in
      if list_ex same (bridges u)
      then u\<lparr>bridges := remove_first same (bridges u),
             g_CISTBRIDGE := (if inst_id u b = STP_CIST_ID then None else g_CISTBRIDGE u)\<rparr> else u)"
    using assms(4) by (auto simp: stp_stpm_delete_def Let_def split: bind_splits)
  let ?u = "delete_ports b (ports (bheap u b)) u"
  have "vshape ?u = vshape w" by (simp add: vshape_simps vshape_enable [OF en])
  note v = vshapeD [OF this]
  have inj: "inst_id w c = inst_id w b \<longleftrightarrow> c = b" if "c \<in> set (bridges w)" for c
    using that assms(1,2) by (auto simp: instances_ok_def inj_on_def)
  have "remove_first (\<lambda>c. inst_id w c = inst_id w b) (bridges w) = filter (\<lambda>c. c \<noteq> b) (bridges w)"
  proof -
    have "remove_first (\<lambda>c. inst_id w c = inst_id w b) (bridges w) = remove_first (\<lambda>c. c = b) (bridges w)"
      unfolding remove_first_def by (intro arg_cong2 [of _ _ _ _ append] arg_cong [of _ _ tl] takeWhile_cong dropWhile_cong refl)
        (simp_all add: inj)
    then show ?thesis using assms(1) by (simp add: instances_ok_def remove_first_filter)
  qed
  moreover have "list_ex (\<lambda>c. inst_id w c = inst_id w b) (bridges w)" using assms(2) by (auto simp: list_ex_iff)
  ultimately show "bridges w' = filter (\<lambda>c. c \<noteq> b) (bridges w)" and "g_CISTBRIDGE w' = g_CISTBRIDGE w"
    and "g_VID2MSTID w' = g_VID2MSTID w" and "next_bref w' = next_bref w" and "\<And>c. inst_id w' c = inst_id w c"
    and "\<And>c. br_vlan_map (bheap w' c) = br_vlan_map (bheap w c)"
    unfolding w' using v assms(3) by (simp_all add: Let_def)
qed

lemma cistD:
  assumes "instances_ok w" and "g_CISTBRIDGE w = Some c"
  shows "c \<in> set (bridges w)" and "inst_id w c = STP_CIST_ID"
    and "\<And>b. b \<in> set (bridges w) \<Longrightarrow> inst_id w b = STP_CIST_ID \<longleftrightarrow> b = c"
  using assms by (auto simp: instances_ok_def inj_on_def)

lemma unmap_maps:
  assumes "instances_ok w" and "b \<in> set (bridges w)" and "g_CISTBRIDGE w = Some c"
  shows "br_vlan_map (bheap (unmap_vlan b V w) d) = (let m = br_vlan_map (bheap w d) in
     if d = b then (vmap_clear V m)\<lparr>ulcount := ulcount m - 1\<rparr>
     else if d = c \<and> inst_id w b \<noteq> STP_CIST_ID then (vmap_set V m)\<lparr>ulcount := ulcount m + 1\<rparr> else m)"
  using cistD(2) [OF assms(1,3)] cistD(3) [OF assms(1,3,2)] assms(3)
  by (cases "b = c") (simp_all add: unmap_vlan_def stp_mgmt_set_cist_vlan_map_def Let_def)

lemma map_maps:
  assumes "instances_ok w" and "b \<in> set (bridges w)" and "g_CISTBRIDGE w = Some c" and "V \<noteq> 0"
  shows "br_vlan_map (bheap (map_vlan b V w) d) = (let m = br_vlan_map (bheap w d) in
     if d = b then (vmap_set V m)\<lparr>ulcount := ulcount m + 1\<rparr>
     else if d = c \<and> inst_id w b \<noteq> STP_CIST_ID then (vmap_clear V m)\<lparr>ulcount := ulcount m - 1\<rparr> else m)"
  using cistD(2) [OF assms(1,3)] cistD(3) [OF assms(1,3,2)] assms(3,4)
  by (cases "b = c") (simp_all add: map_vlan_def stp_mgmt_set_cist_vlan_map_def Let_def)

lemma map_vlan_frame:
  assumes "g_CISTBRIDGE w = Some c"
  shows "bridges (map_vlan b V w) = bridges w" "g_CISTBRIDGE (map_vlan b V w) = g_CISTBRIDGE w"
    "g_VID2MSTID (map_vlan b V w) = g_VID2MSTID w" "next_bref (map_vlan b V w) = next_bref w"
    "inst_id (map_vlan b V w) d = inst_id w d"
    "bridges (unmap_vlan b V w) = bridges w" "g_CISTBRIDGE (unmap_vlan b V w) = g_CISTBRIDGE w"
    "g_VID2MSTID (unmap_vlan b V w) = g_VID2MSTID w" "next_bref (unmap_vlan b V w) = next_bref w"
    "inst_id (unmap_vlan b V w) d = inst_id w d"
  using assms by (simp_all add: map_vlan_def unmap_vlan_def stp_mgmt_set_cist_vlan_map_def Let_def updb_def)

lemma unmap_has:
  assumes io: "instances_ok w" and b: "b \<in> set (bridges w)" and c: "g_CISTBRIDGE w = Some c" and V: "V \<le> STP_MAX_VID"
    and d: "d \<in> set (bridges w)"
  shows "has_vlan (unmap_vlan b V w) d v \<longleftrightarrow>
      (if v = V \<and> d = b then False else if v = V \<and> d = c \<and> inst_id w b \<noteq> STP_CIST_ID then True else has_vlan w d v)"
proof -
  have "length (bmp (br_vlan_map (bheap w d))) = 512" using io d by (simp add: instances_ok_def)
  then show ?thesis
    unfolding unmap_maps [OF io b c] Let_def using V by (auto simp: vmap_clear_has vmap_set_has)
qed

lemma map_has:
  assumes io: "instances_ok w" and b: "b \<in> set (bridges w)" and c: "g_CISTBRIDGE w = Some c" and V: "V \<le> STP_MAX_VID" "V \<noteq> 0"
    and d: "d \<in> set (bridges w)"
  shows "has_vlan (map_vlan b V w) d v \<longleftrightarrow>
      (if v = V \<and> d = b then True else if v = V \<and> d = c \<and> inst_id w b \<noteq> STP_CIST_ID then False else has_vlan w d v)"
proof -
  have "length (bmp (br_vlan_map (bheap w d))) = 512" using io d by (simp add: instances_ok_def)
  then show ?thesis
    unfolding map_maps [OF io b c V(2)] Let_def using V by (auto simp: vmap_clear_has vmap_set_has)
qed

lemma map_instances_ok:
  assumes io: "instances_ok w" and b: "b \<in> set (bridges w)" and c: "g_CISTBRIDGE w = Some c"
  shows "instances_ok (unmap_vlan b V w)" and "V \<noteq> 0 \<Longrightarrow> instances_ok (map_vlan b V w)"
  using io c by (auto simp: instances_ok_def map_vlan_frame [OF c] inj_on_def
      unmap_maps [OF io b c] map_maps [OF io b c] Let_def)

text \<open>Between the two halves of a move: the VLAN is in no MSTI and the table has it at the CIST.\<close>

definition vlan_gap :: "nat \<Rightarrow> world \<Rightarrow> bool" where
  "vlan_gap V w \<longleftrightarrow> instances_ok w \<and> (\<forall>v \<in> vids - {V}. vlan_at w v) \<and> counts_ok w \<and>
     g_VID2MSTID w V = STP_CIST_ID \<and> (\<forall>b \<in> set (bridges w). inst_id w b \<noteq> STP_CIST_ID \<longrightarrow> \<not> has_vlan w b V)"

text \<open>The objects after a successful \<open>stp_mgmt_stpm_del_vlan\<close>; \<open>emptied\<close>: the instance has been deleted.\<close>

definition emptied :: "bref \<Rightarrow> nat \<Rightarrow> world \<Rightarrow> bool" where
  "emptied b V w \<longleftrightarrow> ulcount (br_vlan_map (bheap w b)) - 1 = 0 \<and> inst_id w b \<noteq> STP_CIST_ID"

definition unmapped :: "bref \<Rightarrow> nat \<Rightarrow> world \<Rightarrow> world \<Rightarrow> bool" where
  "unmapped b V w w' \<longleftrightarrow>
     bridges w' = (if emptied b V w then filter (\<lambda>d. d \<noteq> b) (bridges w) else bridges w) \<and> g_CISTBRIDGE w' = g_CISTBRIDGE w \<and>
     g_VID2MSTID w' = (g_VID2MSTID w)(V := STP_CIST_ID) \<and> next_bref w' = next_bref w \<and> (\<forall>d. inst_id w' d = inst_id w d) \<and>
     (\<forall>d. br_vlan_map (bheap w' d) = br_vlan_map (bheap (unmap_vlan b V w) d))"

lemma del_vlan_unmapped:
  assumes io: "instances_ok w" and V: "V \<in> vids" and b: "b \<in> set (bridges w)" and c: "g_CISTBRIDGE w = Some c"
    and run: "stp_mgmt_stpm_del_vlan x b V w = Some (STP_OK, w')"
  shows "unmapped b V w w'"
proof -
  define u where "u = snd (del_bits x b V (List.product [0 ..< 9] [0 ..< 8]) (unmap_vlan b V w))"
  have "vshape u = vshape (unmap_vlan b V w)" by (simp add: u_def vshape_simps)
  note s = vshapeD [OF this] map_vlan_frame [OF c]
  have iou: "instances_ok u" using map_instances_ok(1) [OF io b c, of V] by (simp add: instances_ok_def s inj_on_def)
  have e: "ulcount (br_vlan_map (bheap u b)) = 0 \<and> inst_id u b \<noteq> STP_CIST_ID \<longleftrightarrow> emptied b V w"
    by (simp add: emptied_def s unmap_maps [OF io b c] Let_def)
  obtain z where z: "(if emptied b V w then stp_stpm_delete b u else Some u) = Some z"
    and w': "w' = z\<lparr>g_VID2MSTID := (g_VID2MSTID z)(V := STP_CIST_ID)\<rparr>"
    using run V unfolding e [symmetric]
    by (auto simp: vids_def stp_mgmt_stpm_del_vlan_def u_def split_beta Let_def split: if_splits bind_splits)
  show ?thesis
  proof (cases "emptied b V w")
    case True
    then have "stp_stpm_delete b u = Some z" "inst_id u b \<noteq> STP_CIST_ID" using z e by simp_all
    moreover have "b \<in> set (bridges u)" using b by (simp add: s)
    ultimately show ?thesis using delete_instance [OF iou, of b z] True by (simp add: s w' unmapped_def)
  next
    case False
    then have zu: "z = u" using z by simp
    show ?thesis using False by (simp add: s w' unmapped_def zu)
  qed
qed

lemma del_vlan_gap:
  assumes ok: "vlan_ok w" and V: "V \<in> vids" and b: "b \<in> set (bridges w)" and bV: "inst_id w b = g_VID2MSTID w V"
    and un: "unmapped b V w w'"
  shows "vlan_gap V w'"
proof -
  have io: "instances_ok w" and Vm: "V \<le> STP_MAX_VID" using ok V by (simp_all add: vlan_ok_def vids_def)
  obtain c where c: "g_CISTBRIDGE w = Some c" using io by (auto simp: instances_ok_def)
  note cd = cistD [OF io c]
  have br: "bridges w' = (if emptied b V w then filter (\<lambda>d. d \<noteq> b) (bridges w) else bridges w)" "g_CISTBRIDGE w' = Some c"
    "next_bref w' = next_bref w" "\<And>d. inst_id w' d = inst_id w d"
    "\<And>d. br_vlan_map (bheap w' d) = br_vlan_map (bheap (unmap_vlan b V w) d)"
    and tab: "g_VID2MSTID w' = (g_VID2MSTID w)(V := STP_CIST_ID)" using un unfolding unmapped_def c by blast+
  have cb: "inst_id w b = STP_CIST_ID \<longleftrightarrow> b = c" using cd(3) b by simp
  have gc: "emptied b V w \<Longrightarrow> b \<noteq> c" using cb by (simp add: emptied_def)
  have at: "\<And>v. v \<in> vids \<Longrightarrow> vlan_at w v" and cnt: "counts_ok w" using ok by (simp_all add: vlan_ok_def)
  have inj: "inst_id w d = inst_id w b \<longleftrightarrow> d = b" if "d \<in> set (bridges w)" for d
    using that io b by (auto simp: instances_ok_def inj_on_def)
  have has: "has_vlan w' d v \<longleftrightarrow>
      (if v = V \<and> d = b then False else if v = V \<and> d = c \<and> inst_id w b \<noteq> STP_CIST_ID then True else has_vlan w d v)"
    if "d \<in> set (bridges w)" for d v
    unfolding br(5) by (rule unmap_has [OF io b c Vm that])
  have sub: "d \<in> set (bridges w') \<Longrightarrow> d \<in> set (bridges w)" for d by (auto simp: br(1) split: if_splits)
  have pos: "b \<noteq> c \<Longrightarrow> unat (ulcount (br_vlan_map (bheap w b))) = card {v \<in> vids. ((g_VID2MSTID w)(V := STP_CIST_ID)) v = inst_id w b} + 1"
    using count_remove [of V "g_VID2MSTID w" "inst_id w b" STP_CIST_ID] V bV cb cnt b by (auto simp: counts_ok_def)
  have gone_alone: "inst_id w b \<noteq> g_VID2MSTID w v" if "emptied b V w" "v \<in> vids - {V}" for v
  proof -
    have "ulcount (br_vlan_map (bheap w b)) - 1 = 0"
      using that(1) by (simp add: emptied_def)
    then have "unat (ulcount (br_vlan_map (bheap w b))) = 1" by simp
    then have "card {v \<in> vids. ((g_VID2MSTID w)(V := STP_CIST_ID)) v = inst_id w b} = 0" using pos gc that(1) by simp
    then show ?thesis using that(2) by (auto simp: card_eq_0_iff)
  qed
  have "instances_ok w'"
  proof -
    have "instances_ok (unmap_vlan b V w)" by (rule map_instances_ok(1) [OF io b c])
    then have l: "\<forall>d \<in> set (bridges w). d < next_bref w \<and> length (bmp (br_vlan_map (bheap (unmap_vlan b V w) d))) = 512"
      and i: "inj_on (inst_id w) (set (bridges w))" "distinct (bridges w)"
      unfolding instances_ok_def map_vlan_frame [OF c] by blast+
    have "inj_on (inst_id w) (set (bridges w'))" by (rule inj_on_subset [OF i(1)]) (use sub in blast)
    moreover have "distinct (bridges w')" using i(2) by (simp add: br(1))
    moreover have "c \<in> set (bridges w')" using cd(1) gc by (auto simp: br(1))
    ultimately show ?thesis using l sub cd(2) by (simp add: instances_ok_def br(2-5))
  qed
  moreover have "vlan_at w' v" if v: "v \<in> vids - {V}" for v
  proof -
    have "\<exists>d \<in> set (bridges w). inst_id w d = g_VID2MSTID w v" using at [of v] v by (auto simp: vlan_at_def)
    then have "\<exists>d \<in> set (bridges w'). inst_id w d = g_VID2MSTID w v" using gone_alone v by (auto simp: br(1))
    moreover have "has_vlan w' d v \<longleftrightarrow> inst_id w d = g_VID2MSTID w v" if "d \<in> set (bridges w')" for d
      using v at [of v] sub [OF that] has [of d v] by (simp add: vlan_at_def)
    ultimately show ?thesis using v by (simp add: vlan_at_def br(4) tab)
  qed
  moreover have "\<not> has_vlan w' d V" if "d \<in> set (bridges w')" "inst_id w' d \<noteq> STP_CIST_ID" for d
  proof (cases "d = b")
    case False
    have d: "d \<in> set (bridges w)" by (rule sub [OF that(1)])
    have "d \<noteq> c" using that(2) cd(2) by (auto simp: br(4))
    then have "has_vlan w' d V \<longleftrightarrow> has_vlan w d V" using has [OF d, of V] False by simp
    also have "\<dots> \<longleftrightarrow> inst_id w d = inst_id w b" using at [OF V] d by (simp add: vlan_at_def bV)
    finally show ?thesis using inj [OF d] False by simp
  qed (use has [OF b, of V] in simp)
  moreover have "counts_ok w'"
    unfolding counts_ok_def
  proof (intro ballI impI)
    fix d assume d: "d \<in> set (bridges w')" "inst_id w' d \<noteq> STP_CIST_ID"
    show "unat (ulcount (br_vlan_map (bheap w' d))) = card {v \<in> vids. g_VID2MSTID w' v = inst_id w' d}"
    proof (cases "d = b")
      case True
      then have "b \<noteq> c" using d(2) cb by (simp add: br(4))
      then have "ulcount (br_vlan_map (bheap w b)) \<noteq> 0" using pos by auto
      then show ?thesis
        using True pos [OF \<open>b \<noteq> c\<close>] by (simp add: br(4,5) tab unmap_maps [OF io b c] Let_def unat_minus_one)
    next
      case False
      then have "{v \<in> vids. g_VID2MSTID w' v = inst_id w' d} = {v \<in> vids. g_VID2MSTID w v = inst_id w d}"
        using d bV inj [of d] sub [of d] by (auto simp: tab br(4))
      moreover have "d \<noteq> c" using d(2) cd(2) by (auto simp: br(4))
      ultimately show ?thesis
        using False cnt d sub [of d] by (simp add: br(4,5) unmap_maps [OF io b c] Let_def counts_ok_def)
    qed
  qed
  ultimately show "vlan_gap V w'" by (simp add: vlan_gap_def tab)
qed

lemma unat_inc: "unat (x :: u32) \<le> STP_MAX_VID \<Longrightarrow> unat (x + 1) = unat x + 1"
  by (simp add: unat_word_ariths)

lemma add_vlan_ok:
  assumes gap: "vlan_gap V w" and V: "V \<in> vids" and b: "b \<in> set (bridges w)"
    and run: "stp_mgmt_stpm_add_vlan os b V w = Some (STP_OK, w')"
  shows "vlan_ok w'" and "g_VID2MSTID w' = (g_VID2MSTID w)(V := inst_id w b)"
    and "\<And>d. inst_id w' d = inst_id w d" "bridges w' = bridges w"
proof -
  have io: "instances_ok w" and Vm: "V \<le> STP_MAX_VID" "V \<noteq> 0" and gV: "g_VID2MSTID w V = STP_CIST_ID"
    using gap V by (simp_all add: vlan_gap_def vids_def)
  obtain c where c: "g_CISTBRIDGE w = Some c" using io by (auto simp: instances_ok_def)
  note cd = cistD [OF io c]
  define u where "u = snd (add_bytes os b V [0 ..< 9] (map_vlan b V w))"
  have "vshape u = vshape (map_vlan b V w)" by (simp add: u_def vshape_simps)
  note s = vshapeD [OF this] map_vlan_frame [OF c]
  have "w' = u\<lparr>g_VID2MSTID := (g_VID2MSTID u)(V := inst_id u b)\<rparr>"
    using run Vm by (auto simp: stp_mgmt_stpm_add_vlan_def u_def split_beta Let_def split: if_splits)
  then have br: "bridges w' = bridges w" "g_CISTBRIDGE w' = Some c" "next_bref w' = next_bref w"
    "\<And>d. inst_id w' d = inst_id w d" "\<And>d. br_vlan_map (bheap w' d) = br_vlan_map (bheap (map_vlan b V w) d)"
    and tab: "g_VID2MSTID w' = (g_VID2MSTID w)(V := inst_id w b)" by (simp_all add: s c)
  show "g_VID2MSTID w' = (g_VID2MSTID w)(V := inst_id w b)" "\<And>d. inst_id w' d = inst_id w d" "bridges w' = bridges w"
    by (fact tab br(4) br(1))+
  have cb: "inst_id w b = STP_CIST_ID \<longleftrightarrow> b = c" using cd(3) b by simp
  have inj: "inst_id w d = inst_id w b \<longleftrightarrow> d = b" if "d \<in> set (bridges w)" for d
    using that io b by (auto simp: instances_ok_def inj_on_def)
  have has: "has_vlan w' d v \<longleftrightarrow>
      (if v = V \<and> d = b then True else if v = V \<and> d = c \<and> inst_id w b \<noteq> STP_CIST_ID then False else has_vlan w d v)"
    if "d \<in> set (bridges w)" for d v
    unfolding br(5) by (rule map_has [OF io b c Vm that])
  have "instances_ok w'"
    using map_instances_ok(2) [OF io b c Vm(2)] unfolding instances_ok_def br map_vlan_frame [OF c] using c by simp
  moreover have "vlan_at w' v" if v: "v \<in> vids" for v
  proof (cases "v = V")
    case True
    have "has_vlan w' d V \<longleftrightarrow> inst_id w d = inst_id w b" if d: "d \<in> set (bridges w)" for d
      using has [OF d, of V] inj [OF d] gap d cd(3) [OF d] cb by (auto simp: vlan_gap_def)
    then show ?thesis using b True by (auto simp: vlan_at_def br tab)
  next
    case False
    then have "vlan_at w v" using gap v by (simp add: vlan_gap_def)
    then show ?thesis using False has [of _ v] by (simp add: vlan_at_def br tab)
  qed
  moreover have "counts_ok w'"
    unfolding counts_ok_def
  proof (intro ballI impI)
    fix d assume d: "d \<in> set (bridges w')" "inst_id w' d \<noteq> STP_CIST_ID"
    then have dc: "d \<noteq> c" using cd(2) by (auto simp: br(4))
    have cnt: "unat (ulcount (br_vlan_map (bheap w d))) = card {v \<in> vids. g_VID2MSTID w v = inst_id w d}"
      using gap d by (simp add: vlan_gap_def counts_ok_def br)
    show "unat (ulcount (br_vlan_map (bheap w' d))) = card {v \<in> vids. g_VID2MSTID w' v = inst_id w' d}"
    proof (cases "d = b")
      case True
      have "card {v \<in> vids. g_VID2MSTID w' v = inst_id w' d} = card {v \<in> vids. g_VID2MSTID w v = inst_id w d} + 1"
        unfolding tab br(4) True by (rule count_update [OF V]) (use gV d True in \<open>simp add: br(4)\<close>)
      moreover have "unat (ulcount (br_vlan_map (bheap w d)) + 1) = unat (ulcount (br_vlan_map (bheap w d))) + 1"
        by (rule unat_inc) (unfold cnt, rule card_vids)
      ultimately show ?thesis using True cnt by (simp add: br(5) map_maps [OF io b c Vm(2)] Let_def)
    next
      case False
      then have "{v \<in> vids. g_VID2MSTID w' v = inst_id w' d} = {v \<in> vids. g_VID2MSTID w v = inst_id w d}"
        using d gV inj [of d] by (auto simp: tab br)
      then show ?thesis using False dc cnt by (simp add: br(4,5) map_maps [OF io b c Vm(2)] Let_def)
    qed
  qed
  ultimately show "vlan_ok w'" by (simp add: vlan_ok_def)
qed

lemma get_instance_in:
  "stp_stpm_get_instance m w = Some b \<Longrightarrow> b \<in> set (bridges w) \<and> inst_id w b = m"
  "stp_stpm_get_instance m w = None \<Longrightarrow> b \<in> set (bridges w) \<Longrightarrow> inst_id w b \<noteq> m"
  by (auto simp: stp_stpm_get_instance_def find_Some_iff find_None_iff)

lemma insert_after_split:
  assumes "c \<in> set xs"
  obtains us vs where "xs = us @ c # vs" "insert_after c x xs = us @ c # x # vs"
proof -
  obtain us vs where *: "xs = us @ c # vs" "c \<notin> set us" using split_list_first [OF assms] by blast
  then have "\<forall>y \<in> set us. y \<noteq> c" by auto
  then have "takeWhile (\<lambda>y. y \<noteq> c) xs = us" "dropWhile (\<lambda>y. y \<noteq> c) xs = c # vs"
    using takeWhile_append2 [of us "\<lambda>y. y \<noteq> c" "c # vs"] dropWhile_append2 [of us "\<lambda>y. y \<noteq> c" "c # vs"]
    by (simp_all add: *(1))
  then show thesis using that * by (simp add: insert_after_def)
qed

lemma set_insert_after: "c \<in> set xs \<Longrightarrow> set (insert_after c x xs) = insert x (set xs)"
  by (erule insert_after_split [of c xs x]) auto

lemma distinct_insert_after: "c \<in> set xs \<Longrightarrow> distinct xs \<Longrightarrow> x \<notin> set xs \<Longrightarrow> distinct (insert_after c x xs)"
  by (erule insert_after_split [of c xs x]) auto

text \<open>A new MSTI starts with an empty map, and no VLAN named it before.\<close>

lemma create_ok:
  assumes ok: "vlan_ok w" and none: "stp_stpm_get_instance m w = None" and run: "stp_stpm_mst_create m name w = (Some b, w')"
  shows "vlan_ok w'" and "b \<in> set (bridges w')" and "inst_id w' b = m" and "g_VID2MSTID w' = g_VID2MSTID w"
proof -
  have io: "instances_ok w" using ok by (simp add: vlan_ok_def)
  obtain c where c: "g_CISTBRIDGE w = Some c" using io by (auto simp: instances_ok_def)
  note cd = cistD [OF io c]
  have m: "m \<noteq> STP_CIST_ID" using get_instance_in(2) [OF none cd(1)] cd(2) by simp
  have b: "b = next_bref w" and w': "w' = updb b (\<lambda>_. new_instance m name w) (w\<lparr>next_bref := b + 1, bridges := insert_after c b (bridges w)\<rparr>)"
    using run m c by (auto simp: stp_stpm_mst_create_def Let_def split: if_splits)
  have bn: "b \<notin> set (bridges w)" using io by (auto simp: b instances_ok_def)
  have old: "\<And>d. d \<in> set (bridges w) \<Longrightarrow> bheap w' d = bheap w d" using bn by (auto simp: w')
  have new: "inst_id w' b = m" "br_vlan_map (bheap w' b) = zero_vlan_map"
    using m by (simp_all add: w' new_instance_def Let_def zero_stpm_def split: option.split)
  have set: "set (bridges w') = insert b (set (bridges w))" "g_CISTBRIDGE w' = Some c" "g_VID2MSTID w' = g_VID2MSTID w"
    using cd(1) c by (simp_all add: w' set_insert_after updb_def)
  show "b \<in> set (bridges w')" "inst_id w' b = m" "g_VID2MSTID w' = g_VID2MSTID w" by (simp_all add: set new)
  have fresh: "inst_id w d \<noteq> m" if "d \<in> set (bridges w)" for d using get_instance_in(2) [OF none that] .
  have unnamed: "g_VID2MSTID w v \<noteq> m" if "v \<in> vids" for v
    using ok that fresh by (fastforce simp: vlan_ok_def vlan_at_def)
  have zero: "\<not> vmap_has v zero_vlan_map" if "v \<in> vids" for v
    using that vmap_bounds [of v] by (simp add: vids_def vmap_has_def zero_vlan_map_def)
  have nx: "next_bref w' = Suc b" and db: "distinct (bridges w')"
    using io bn cd(1) by (simp_all add: w' updb_def instances_ok_def distinct_insert_after)
  have lt: "d < b" "length (bmp (br_vlan_map (bheap w d))) = 512" if "d \<in> set (bridges w)" for d
    using io that by (simp_all add: instances_ok_def b)
  have "inj_on (inst_id w') (set (bridges w'))"
    unfolding set using io bn fresh by (auto simp: old new inj_on_def instances_ok_def)
  then have "instances_ok w'"
    using cd(1,2) lt db by (auto simp: instances_ok_def set old new nx zero_vlan_map_def less_SucI)
  moreover have "vlan_at w' v" if v: "v \<in> vids" for v
    using ok v old new unnamed [OF v] zero [OF v] by (auto simp: vlan_ok_def vlan_at_def set)
  moreover have "counts_ok w'"
    using ok old new unnamed by (auto simp: vlan_ok_def counts_ok_def set zero_vlan_map_def card_eq_0_iff)
  ultimately show "vlan_ok w'" by (simp add: vlan_ok_def)
qed


end
