(* ===== verification/StpDelete.thy ===== *)
theory StpDelete
  imports StpVlan
begin

text \<open>
  Deleting instances (\<open>stp_mgmt_stpm_delete_all\<close>, \<open>stp_mgmt_del_all_mst\<close>): the loops of the first one
  end, with every instance gone; the second one leaves every other MSTI behind.
\<close>

text \<open>The lists a deletion walks: each instance's ports are its own, without repetitions.\<close>

definition lists_ok :: "world \<Rightarrow> bool" where
  "lists_ok w \<longleftrightarrow> inj_on (inst_id w) (set (bridges w)) \<and> distinct (bridges w) \<and>
     (\<forall>b \<in> set (bridges w). \<forall>p \<in> set (ports (bheap w b)). owner (pheap w p) = b)"

lemma port_delete_head:
  assumes "ports (bheap w b) = p # ps" and "owner (pheap w p) = b"
  shows "ports (bheap (stp_port_delete p w) b) = ps" and "pheap (stp_port_delete p w) = pheap w"
    and "c \<noteq> b \<Longrightarrow> bheap (stp_port_delete p w) c = bheap w c" and "inst_id (stp_port_delete p w) c = inst_id w c"
    and "bridges (stp_port_delete p w) = bridges w" and "g_VID2MSTID (stp_port_delete p w) = g_VID2MSTID w"
    and "g_CISTPORT (stp_port_delete p w) = g_CISTPORT w"
  using assms by (simp_all add: stp_port_delete_def Let_def) (simp add: emit_def updb_def)

text \<open>Emptying an instance.\<close>

definition emptied_from :: "bref \<Rightarrow> world \<Rightarrow> world \<Rightarrow> bool" where
  "emptied_from b w w' \<longleftrightarrow> ports (bheap w' b) = [] \<and> pheap w' = pheap w \<and> (\<forall>c. c \<noteq> b \<longrightarrow> bheap w' c = bheap w c) \<and>
     (\<forall>c. inst_id w' c = inst_id w c) \<and> bridges w' = bridges w \<and> g_VID2MSTID w' = g_VID2MSTID w \<and> g_CISTPORT w' = g_CISTPORT w"

lemma drop_ports_returns:
  "ports (bheap w b) = ps \<Longrightarrow> \<forall>p \<in> set ps. owner (pheap w p) = b \<Longrightarrow>
   \<exists>w'. drop_ports b w = Some w' \<and> emptied_from b w w'"
proof (induction ps arbitrary: w)
  case Nil
  then show ?case by (subst drop_ports.simps) (simp add: emptied_from_def)
next
  case (Cons p ps)
  have o: "owner (pheap w p) = b" using Cons.prems(2) by simp
  note d = port_delete_head [OF Cons.prems(1) o]
  obtain w' where w': "drop_ports b (stp_port_delete p w) = Some w'" "emptied_from b (stp_port_delete p w) w'"
    using Cons.IH [OF d(1)] Cons.prems(2) by (auto simp: d(2))
  have "drop_ports b w = Some w'" using w'(1) by (subst drop_ports.simps) (simp add: Cons.prems(1))
  moreover have "emptied_from b w w'" using w'(2) by (simp add: emptied_from_def d)
  ultimately show ?case by blast
qed

lemma delete_empty:
  assumes "inj_on (inst_id w) (set (bridges w))" and "distinct (bridges w)" and "b \<in> set (bridges w)"
    and "ports (bheap w b) = []"
  shows "\<exists>w'. stp_stpm_delete b w = Some w' \<and> bridges w' = filter (\<lambda>c. c \<noteq> b) (bridges w) \<and> pheap w' = pheap w \<and>
     (\<forall>c. ports (bheap w' c) = ports (bheap w c) \<and> inst_id w' c = inst_id w c) \<and> g_CISTPORT w' = g_CISTPORT w \<and>
     g_VID2MSTID w' = g_VID2MSTID w"
proof -
  define u where "u = (if admin_state (bheap w b) = STP_DISABLED then w
    else stp_stpm_stop b (updb b (\<lambda>s. s\<lparr>admin_state := STP_DISABLED\<rparr>) w))"
  have en: "stp_stpm_enable b STP_DISABLED w = Some (0, u)" by (simp add: stp_stpm_enable_def u_def)
  have u: "bridges u = bridges w" "pheap u = pheap w" "\<And>c. ports (bheap u c) = ports (bheap w c)"
    "\<And>c. inst_id u c = inst_id w c" "g_CISTPORT u = g_CISTPORT w" "g_VID2MSTID u = g_VID2MSTID w"
    by (simp_all add: u_def stp_stpm_stop_def) (simp add: updb_def)
  have rf: "remove_first (\<lambda>c. inst_id w c = inst_id w b) (bridges w) = filter (\<lambda>c. c \<noteq> b) (bridges w)"
  proof -
    have "remove_first (\<lambda>c. inst_id w c = inst_id w b) (bridges w) = filter (\<lambda>c. inst_id w c \<noteq> inst_id w b) (bridges w)"
      by (rule remove_first_filter) (use assms(1,2) in \<open>simp add: distinct_map\<close>)
    also have "\<dots> = filter (\<lambda>c. c \<noteq> b) (bridges w)" using assms(1,3) by (intro filter_cong) (auto simp: inj_on_def)
    finally show ?thesis .
  qed
  have ex: "list_ex (\<lambda>c. inst_id w c = inst_id w b) (bridges w)" using assms(3) by (auto simp: list_ex_iff)
  show ?thesis using assms(4) by (simp add: stp_stpm_delete_def en u Let_def rf ex)
qed

text \<open>One round of either loop: an instance is emptied and deleted.\<close>

lemma delete_round:
  assumes "lists_ok w" and "b \<in> set (bridges w)"
  shows "\<exists>u v. drop_ports b w = Some u \<and> inst_id u b = inst_id w b \<and> stp_stpm_delete b u = Some v \<and> lists_ok v \<and>
    bridges v = filter (\<lambda>c. c \<noteq> b) (bridges w) \<and> (\<forall>c. inst_id v c = inst_id w c) \<and> (\<forall>c. c \<noteq> b \<longrightarrow> ports (bheap v c) = ports (bheap w c)) \<and>
    g_VID2MSTID v = g_VID2MSTID w \<and> g_CISTPORT v = g_CISTPORT w"
proof -
  obtain u where u: "drop_ports b w = Some u" "emptied_from b w u"
    using drop_ports_returns [OF refl, of w b] assms by (auto simp: lists_ok_def)
  have "inj_on (inst_id u) (set (bridges u))" "distinct (bridges u)" "b \<in> set (bridges u)" "ports (bheap u b) = []"
    using u(2) assms by (auto simp: emptied_from_def lists_ok_def inj_on_def)
  from delete_empty [OF this] obtain v where v: "stp_stpm_delete b u = Some v" "bridges v = filter (\<lambda>c. c \<noteq> b) (bridges u)"
    "pheap v = pheap u" "\<forall>c. ports (bheap v c) = ports (bheap u c) \<and> inst_id v c = inst_id u c"
    "g_CISTPORT v = g_CISTPORT u" "g_VID2MSTID v = g_VID2MSTID u" by auto
  have "lists_ok v" using assms(1) u(2) v(2-4) by (auto simp: lists_ok_def emptied_from_def inj_on_def)
  then show ?thesis using u v by (auto simp: emptied_from_def)
qed

lemma delete_list_returns:
  assumes "lists_ok w"
  shows "\<exists>w'. delete_list w = Some w' \<and> bridges w' = [] \<and> g_VID2MSTID w' = g_VID2MSTID w"
  using assms
proof (induction "length (bridges w)" arbitrary: w)
  case 0
  then show ?case by (subst delete_list.simps) simp
next
  case (Suc n)
  then obtain b bs where bs: "bridges w = b # bs" by (cases "bridges w") auto
  then obtain u v where r: "drop_ports b w = Some u" "stp_stpm_delete b u = Some v" "lists_ok v"
    "bridges v = filter (\<lambda>c. c \<noteq> b) (bridges w)" "g_VID2MSTID v = g_VID2MSTID w"
    using delete_round [OF Suc.prems, of b] by auto
  have "bridges v = bs" using r(4) Suc.prems by (auto simp: lists_ok_def bs filter_id_conv)
  then have "n = length (bridges v)" using Suc.hyps(2) by (simp add: bs)
  then obtain w' where "delete_list v = Some w'" "bridges w' = []" "g_VID2MSTID w' = g_VID2MSTID v"
    using Suc.hyps(1) r(3) by blast
  then show ?case using r by (subst delete_list.simps) (simp add: bs)
qed

text \<open>Deleting all instances terminates, whatever the instances and ports are. No instance and no entry of
  the port table is left. The VLAN table, however, is reset for VLANs below 2048 only: the \<open>memset\<close> counts
  bytes, and the entries have two.\<close>

theorem delete_all_returns:
  assumes "lists_ok w"
  shows "\<exists>w'. stp_mgmt_stpm_delete_all w = Some w' \<and> bridges w' = [] \<and> (\<forall>i. g_CISTPORT w' i = None) \<and>
    (\<forall>v. g_VID2MSTID w' v = (if v < 2048 then STP_CIST_ID else g_VID2MSTID w v))"
proof -
  obtain u where "delete_list w = Some u" "bridges u = []" "g_VID2MSTID u = g_VID2MSTID w"
    using delete_list_returns [OF assms] by blast
  then show ?thesis
    by (simp add: stp_mgmt_stpm_delete_all_def stp_port_clear_gloabl_portarray_def clear_vid2mstid_def)
qed

fun every_second :: "'a list \<Rightarrow> 'a list" where
  "every_second [] = []"
| "every_second [x] = []"
| "every_second (x # y # xs) = y # every_second xs"

lemma filter_absent: "x \<notin> set ys \<Longrightarrow> filter (\<lambda>c. c \<noteq> x) ys = ys"
  by (auto simp: filter_id_conv)

lemma del_mst_rest:
  "lists_ok w \<Longrightarrow> bridges w = pre @ ms \<Longrightarrow> \<forall>m \<in> set ms. inst_id w m \<noteq> STP_CIST_ID \<Longrightarrow>
   \<exists>w'. del_mst_list ms w = Some w' \<and> bridges w' = pre @ every_second ms \<and> g_CISTPORT w' = g_CISTPORT w \<and>
     (\<forall>c \<in> set pre. ports (bheap w' c) = ports (bheap w c))"
proof (induction ms arbitrary: w pre rule: every_second.induct)
  case 1
  then show ?case by simp
next
  case (2 x)
  then obtain u v where r: "drop_ports x w = Some u" "inst_id u x = inst_id w x" "stp_stpm_delete x u = Some v"
    "bridges v = filter (\<lambda>c. c \<noteq> x) (bridges w)" "g_CISTPORT v = g_CISTPORT w" "\<forall>c. c \<noteq> x \<longrightarrow> ports (bheap v c) = ports (bheap w c)"
    using delete_round [of w x] by auto
  have x: "x \<notin> set pre" using 2(1,2) by (simp add: lists_ok_def)
  then have "bridges v = pre" using r(4) 2(2) by (auto simp: filter_id_conv)
  then show ?case using r 2(3) x by auto
next
  case (3 x y xs)
  then obtain u v where r: "drop_ports x w = Some u" "inst_id u x = inst_id w x" "stp_stpm_delete x u = Some v" "lists_ok v"
    "bridges v = filter (\<lambda>c. c \<noteq> x) (bridges w)" "\<forall>c. inst_id v c = inst_id w c"
    "g_CISTPORT v = g_CISTPORT w" "\<forall>c. c \<noteq> x \<longrightarrow> ports (bheap v c) = ports (bheap w c)"
    using delete_round [of w x] by auto
  have d: "x \<notin> set pre" "x \<notin> set (y # xs)" using "3.prems"(1,2) by (auto simp: lists_ok_def)
  then have "bridges v = (pre @ [y]) @ xs" using r(5) "3.prems"(2) by (simp add: filter_absent)
  moreover have "\<forall>m \<in> set xs. inst_id v m \<noteq> STP_CIST_ID" using "3.prems"(3) r(6) by simp
  ultimately obtain w' where w': "del_mst_list xs v = Some w'" "bridges w' = (pre @ [y]) @ every_second xs"
    "g_CISTPORT w' = g_CISTPORT v" "\<forall>c \<in> set (pre @ [y]). ports (bheap w' c) = ports (bheap v c)"
    using "3.IH" [OF r(4)] by blast
  have "del_mst_list (x # y # xs) w = Some w'" using r(1-3) "3.prems"(3) w'(1) by simp
  moreover have "\<forall>c \<in> set pre. ports (bheap w' c) = ports (bheap w c)" using w'(4) r(8) d(1) by auto
  ultimately show ?case using w' r(7) by simp
qed

text \<open>\<open>stp_mgmt_del_all_mst\<close> steps to the next instance twice after a deletion: of the MSTIs behind the CIST it
  deletes the first, the third and so on and leaves the others. It also frees the ports of the CIST and
  keeps the table that points to them.\<close>

theorem del_all_mst_skips:
  assumes "lists_ok w" and "bridges w = c # ms" and "inst_id w c = STP_CIST_ID"
  shows "\<exists>w'. stp_mgmt_del_all_mst w = Some w' \<and> bridges w' = c # every_second ms \<and> ports (bheap w' c) = [] \<and>
    g_CISTPORT w' = g_CISTPORT w"
proof -
  have ms: "\<forall>m \<in> set ms. inst_id w m \<noteq> STP_CIST_ID"
    using assms by (auto simp: lists_ok_def inj_on_def)
  obtain u where u: "drop_ports c w = Some u" "emptied_from c w u"
    using drop_ports_returns [OF refl, of w c] assms by (auto simp: lists_ok_def)
  have "lists_ok u" "bridges u = [c] @ ms" using assms u(2) by (auto simp: lists_ok_def emptied_from_def inj_on_def)
  then obtain w' where "del_mst_list ms u = Some w'" "bridges w' = [c] @ every_second ms" "g_CISTPORT w' = g_CISTPORT u"
    "ports (bheap w' c) = ports (bheap u c)"
    using del_mst_rest [of u "[c]" ms] ms u(2) by (auto simp: emptied_from_def)
  then show ?thesis using u assms by (auto simp: stp_mgmt_del_all_mst_def emptied_from_def)
qed

end
