(* ===== verification/StpIn.thy ===== *)
theory StpIn
  imports StpDelete
begin

text \<open>
  The entry points of the engine (\<open>stp_in.c\<close>): enabling and disabling the protocol, VLANs and ports
  joining and leaving, received frames, the clock, and the configuration of bridges and ports with
  its validation. The critical-section macros are empty in this configuration, and the event counter
  \<open>tev\<close>/\<open>nev\<close> is only a debugging aid; both are left out.
\<close>

abbreviation (input) STP_Small_Bridge_Priority :: int where "STP_Small_Bridge_Priority \<equiv> 4"
abbreviation (input) STP_Large_Bridge_Priority :: int where "STP_Large_Bridge_Priority \<equiv> 5"
abbreviation (input) STP_Small_Hello_Time :: int where "STP_Small_Hello_Time \<equiv> 6"
abbreviation (input) STP_Large_Hello_Time :: int where "STP_Large_Hello_Time \<equiv> 7"
abbreviation (input) STP_Small_Max_Age :: int where "STP_Small_Max_Age \<equiv> 8"
abbreviation (input) STP_Large_Max_Age :: int where "STP_Large_Max_Age \<equiv> 9"
abbreviation (input) STP_Small_Forward_Delay :: int where "STP_Small_Forward_Delay \<equiv> 10"
abbreviation (input) STP_Large_Forward_Delay :: int where "STP_Large_Forward_Delay \<equiv> 11"
abbreviation (input) STP_Small_Max_Hops :: int where "STP_Small_Max_Hops \<equiv> 12"
abbreviation (input) STP_Large_Max_Hops :: int where "STP_Large_Max_Hops \<equiv> 13"
abbreviation (input) STP_Forward_Delay_And_Max_Age_Are_Inconsistent :: int
  where "STP_Forward_Delay_And_Max_Age_Are_Inconsistent \<equiv> 14"
abbreviation (input) STP_Hello_Time_And_Max_Age_Are_Inconsistent :: int
  where "STP_Hello_Time_And_Max_Age_Are_Inconsistent \<equiv> 15"
abbreviation (input) STP_Hello_Time_And_Forward_Delay_Are_Inconsistent :: int
  where "STP_Hello_Time_And_Forward_Delay_Are_Inconsistent \<equiv> 16"
abbreviation (input) STP_Vlan_Had_Not_Yet_Been_Created :: int where "STP_Vlan_Had_Not_Yet_Been_Created \<equiv> 17"
abbreviation (input) STP_Port_Is_Absent_In_The_Vlan :: int where "STP_Port_Is_Absent_In_The_Vlan \<equiv> 18"
abbreviation (input) STP_Had_Not_Yet_Been_Enabled_On_The_Vlan :: int
  where "STP_Had_Not_Yet_Been_Enabled_On_The_Vlan \<equiv> 25"

subsection \<open>The tables of the ports\<close>

definition default_admin_infos :: stp_admin_infos where
  "default_admin_infos =
     \<lparr>sai_stpEnable = False, sai_mstid = replicate 64 0,
      sai_pathcost = replicate 64 ADMIN_PORT_PATH_COST_AUTO, sai_prio = replicate 64 128,
      sai_p2p = 2, sai_edge = True, sai_nonstp = False\<rparr>"

text \<open>Each table is allocated once, the third one with its entries; allocation succeeds.\<close>

definition stp_in_port_global_init :: "world \<Rightarrow> world" where
  "stp_in_port_global_init w =
     (let w = (if port_speed_s w = None then w\<lparr>port_speed_s := Some (\<lambda>_. None)\<rparr> else w);
          w = (if port_duplex_mode_nodes w = None then w\<lparr>port_duplex_mode_nodes := Some (\<lambda>_. None)\<rparr> else w) in
      if stp_ports w = None
      then w\<lparr>stp_ports := Some (\<lambda>i. if i < PORT_INDEX_MAX then Some default_admin_infos else None)\<rparr> else w)"

definition stp_in_port_global_destroy :: "world \<Rightarrow> world" where
  "stp_in_port_global_destroy w = w\<lparr>port_speed_s := None, port_duplex_mode_nodes := None, stp_ports := None\<rparr>"

subsection \<open>The configuration of an instance\<close>

record UID_STP_CFG_T =
  field_mask :: u32
  stp_enabled :: UID_STP_MODE_T
  bridge_priority :: int
  max_age :: int
  hello_time :: int
  forward_delay :: int
  force_version :: PROTOCOL_VERSION_T
  hold_time :: int
  maxhops :: int

abbreviation (input) BR_CFG_STATE :: u32 where "BR_CFG_STATE \<equiv> 1"
abbreviation (input) BR_CFG_PRIO :: u32 where "BR_CFG_PRIO \<equiv> 2"
abbreviation (input) BR_CFG_AGE :: u32 where "BR_CFG_AGE \<equiv> 4"
abbreviation (input) BR_CFG_HELLO :: u32 where "BR_CFG_HELLO \<equiv> 8"
abbreviation (input) BR_CFG_DELAY :: u32 where "BR_CFG_DELAY \<equiv> 16"
abbreviation (input) BR_CFG_FORCE_VER :: u32 where "BR_CFG_FORCE_VER \<equiv> 32"
abbreviation (input) BR_CFG_MAX_HOPS :: u32 where "BR_CFG_MAX_HOPS \<equiv> 512"

definition asks :: "u32 \<Rightarrow> u32 \<Rightarrow> bool" where
  "asks k m \<longleftrightarrow> k AND m \<noteq> 0"

definition stp_in_check_stpm_config :: "UID_STP_CFG_T \<Rightarrow> nat \<Rightarrow> int" where
  "stp_in_check_stpm_config c mstid =
     (if bridge_priority c < 0 then STP_Small_Bridge_Priority
      else if bridge_priority c > 61440 then STP_Large_Bridge_Priority
      else if maxhops c < 6 then STP_Small_Max_Hops
      else if maxhops c > 40 then STP_Large_Max_Hops
      else if mstid \<noteq> STP_CIST_ID then STP_OK
      else if hello_time c < 1 then STP_Small_Hello_Time
      else if hello_time c > 10 then STP_Large_Hello_Time
      else if max_age c < 6 then STP_Small_Max_Age
      else if max_age c > 40 then STP_Large_Max_Age
      else if forward_delay c < 4 then STP_Small_Forward_Delay
      else if forward_delay c > 30 then STP_Large_Forward_Delay
      else if 2 * (forward_delay c - 1) < max_age c then STP_Forward_Delay_And_Max_Age_Are_Inconsistent
      else if max_age c < 2 * (hello_time c + 1) then STP_Hello_Time_And_Max_Age_Are_Inconsistent
      else if 2 * (hello_time c + 1) > 2 * (forward_delay c - 1)
        then STP_Hello_Time_And_Forward_Delay_Are_Inconsistent
      else STP_OK)"

definition stp_in_stpm_get_cfg :: "STPM_T \<Rightarrow> UID_STP_CFG_T" where
  "stp_in_stpm_get_cfg this =
     \<lparr>field_mask =
        (if admin_state this \<noteq> STP_DISABLED then BR_CFG_STATE else 0) OR
        (if prio (BrId this) \<noteq> DEF_BR_PRIO then BR_CFG_PRIO else 0) OR
        (if RemainingHops (BrTimes this) \<noteq> DEF_REMAINING_HOPS then BR_CFG_MAX_HOPS else 0) OR
        (if version_num (ForceVersion this) \<noteq> 2 then BR_CFG_FORCE_VER else 0) OR
        (if MaxAge (BrTimes this) \<noteq> DEF_BR_MAXAGE then BR_CFG_AGE else 0) OR
        (if HelloTime (BrTimes this) \<noteq> DEF_BR_HELLOT then BR_CFG_HELLO else 0) OR
        (if ForwardDelay (BrTimes this) \<noteq> DEF_BR_FWDELAY then BR_CFG_DELAY else 0),
      stp_enabled = admin_state this, bridge_priority = uint (prio (BrId this)),
      max_age = uint (MaxAge (BrTimes this)), hello_time = uint (HelloTime (BrTimes this)),
      forward_delay = uint (ForwardDelay (BrTimes this)), force_version = ForceVersion this,
      hold_time = 3, maxhops = uint (RemainingHops (BrTimes this))\<rparr>"

text \<open>The present configuration with the requested fields replaced.\<close>

definition merge_cfg :: "UID_STP_CFG_T \<Rightarrow> UID_STP_CFG_T \<Rightarrow> UID_STP_CFG_T" where
  "merge_cfg new old =
     (let m = field_mask new;
          old = (if asks BR_CFG_PRIO m then old\<lparr>bridge_priority := bridge_priority new\<rparr> else old);
          old = (if asks BR_CFG_AGE m then old\<lparr>max_age := max_age new\<rparr> else old);
          old = (if asks BR_CFG_HELLO m then old\<lparr>hello_time := hello_time new\<rparr> else old);
          old = (if asks BR_CFG_DELAY m then old\<lparr>forward_delay := forward_delay new\<rparr> else old);
          old = (if asks BR_CFG_FORCE_VER m then old\<lparr>force_version := force_version new\<rparr> else old) in
      if asks BR_CFG_MAX_HOPS m then old\<lparr>maxhops := maxhops new\<rparr> else old)"

text \<open>The stores behind the validation.\<close>

definition store_cfg :: "UID_STP_CFG_T \<Rightarrow> STPM_T \<Rightarrow> STPM_T" where
  "store_cfg c s =
     s\<lparr>BrId := (BrId s)\<lparr>prio := (prio (BrId s) AND 0xfff) + (of_int (bridge_priority c) AND 0xf000)\<rparr>,
       BrTimes := (BrTimes s)\<lparr>MaxAge := of_int (max_age c), HelloTime := of_int (hello_time c),
                   ForwardDelay := of_int (forward_delay c), RemainingHops := of_int (maxhops c)\<rparr>,
       ForceVersion := force_version c\<rparr>"

text \<open>\<open>mcheck\<close> is set before the request is validated.\<close>

definition ask_mcheck :: "bref \<Rightarrow> UID_STP_CFG_T \<Rightarrow> world \<Rightarrow> world" where
  "ask_mcheck b cfg w =
     (if asks BR_CFG_FORCE_VER (field_mask cfg) \<and> version_num (force_version cfg) \<ge> 2
      then upds (ports (bheap w b)) (\<lambda>t. t\<lparr>mcheck := True\<rparr>) w else w)"

text \<open>From the stores on. The test for enabling looks at the mask after the disabling branch, which has
  either returned or not been taken.\<close>

definition apply_cfg :: "bref \<Rightarrow> UID_STP_CFG_T \<Rightarrow> UID_STP_CFG_T \<Rightarrow> world \<Rightarrow> (int \<times> world) option" where
  "apply_cfg b cfg merged w =
     (let w = updb b (store_cfg merged) w in
      do { (rc, w) \<leftarrow>
             (if asks BR_CFG_STATE (field_mask cfg) \<and> stp_enabled cfg \<noteq> STP_DISABLED \<and>
                 admin_state (bheap w b) = STP_DISABLED
              then stp_stpm_enable b (stp_enabled cfg) w else Some (0, w));
           if rc \<noteq> 0 then Some (rc, w)
           else if admin_state (bheap w b) \<noteq> STP_DISABLED
           then map_option (\<lambda>w. (0, w)) (stp_stpm_mst_update None (stp_stpm_update_after_bridge_management b w))
           else Some (0, w) })"

text \<open>\<open>field_mask &= ! BR_CFG_STATE\<close> clears the whole mask, so that the function returns right after it has
  disabled the instance. \<open>stp_to_set_hardware_mode\<close> has no effect.\<close>

definition stp_in_stpm_set_cfg :: "bref option \<Rightarrow> UID_STP_CFG_T \<Rightarrow> world \<Rightarrow> (int \<times> world) option" where
  "stp_in_stpm_set_cfg this cfg w =
     (case this of
        None \<Rightarrow> Some (STP_Vlan_Had_Not_Yet_Been_Created, w)
      | Some b \<Rightarrow>
          let old = merge_cfg cfg (stp_in_stpm_get_cfg (bheap w b));
              w = ask_mcheck b cfg w;
              rc = stp_in_check_stpm_config old (br_vlan_id (bheap w b)) in
          if rc \<noteq> 0 then Some (rc, w)
          else if asks BR_CFG_STATE (field_mask cfg) \<and> stp_enabled cfg = STP_DISABLED
          then stp_stpm_enable b STP_DISABLED w
          else apply_cfg b cfg old w)"

subsection \<open>Enabling and disabling\<close>

definition state_cfg :: "UID_STP_MODE_T \<Rightarrow> UID_STP_CFG_T \<Rightarrow> UID_STP_CFG_T" where
  "state_cfg st stack = stack\<lparr>field_mask := BR_CFG_STATE, stp_enabled := st\<rparr>"

text \<open>Both functions build the request in an uninitialised local, \<open>stack\<close>. The error codes are or-ed.\<close>

primrec enable_list :: "UID_STP_CFG_T \<Rightarrow> bref list \<Rightarrow> int \<Rightarrow> world \<Rightarrow> (int \<times> world) option" where
  "enable_list stack [] ret w = Some (ret, w)"
| "enable_list stack (b # bs) ret w =
     do { (rc, w) \<leftarrow> stp_in_stpm_set_cfg (Some b) (state_cfg STP_ENABLED stack) (stp_in_port_global_init w);
          enable_list stack bs (ret OR rc) w }"

definition stp_in_global_enable :: "UID_STP_CFG_T \<Rightarrow> world \<Rightarrow> (int \<times> world) option" where
  "stp_in_global_enable stack w = enable_list stack (bridges w) 0 w"

definition stp_in_global_disable :: "UID_STP_CFG_T \<Rightarrow> world \<Rightarrow> (int \<times> world) option" where
  "stp_in_global_disable stack w =
     do { (ret, w) \<leftarrow>
            (case g_CISTBRIDGE w of
               None \<Rightarrow> Some (0, w)
             | Some b \<Rightarrow>
                 map_option (\<lambda>(ret, w). (ret, stp_in_port_global_destroy w))
                   (stp_in_stpm_set_cfg (Some b) (state_cfg STP_DISABLED stack) w));
          w \<leftarrow> stp_mgmt_stpm_delete_all w;
          Some (ret, w) }"

subsection \<open>VLANs and ports\<close>

definition stp_in_add_vlan_to_cist :: "os_env \<Rightarrow> MD5_CTX \<Rightarrow> nat \<Rightarrow> BITMAP_T \<Rightarrow> world \<Rightarrow> (int \<times> world) option" where
  "stp_in_add_vlan_to_cist os ctx vid port_bmp w =
     (let w = stp_mgmt_init_vlanpbmp vid port_bmp w in
      case g_CISTBRIDGE w of
        None \<Rightarrow> Some (STP_BRIDGE_NOTFOUND, w)
      | Some b \<Rightarrow>
          do { (rc, w) \<leftarrow> stp_mgmt_stpm_add_vlan os b vid w;
               if rc \<noteq> STP_OK then Some (rc, w) else Some (STP_OK, snd (stp_mgmt_build_configid_digest ctx w)) })"

definition stp_in_del_vlan_from_cist :: "int \<Rightarrow> MD5_CTX \<Rightarrow> nat \<Rightarrow> world \<Rightarrow> (int \<times> world) option" where
  "stp_in_del_vlan_from_cist stack_int ctx vid w =
     (let mstid = stp_mgmt_get_mstid vid w in
      if mstid = STP_CIST_ID then Some (STP_OK, w)
      else case stp_stpm_get_instance mstid w of
        None \<Rightarrow> Some (STP_Cannot_Create_Instance_For_Vlan, w)
      | Some b \<Rightarrow>
          do { (rc, w) \<leftarrow> stp_mgmt_stpm_del_vlan stack_int b vid w;
               if rc \<noteq> STP_OK then Some (rc, w) else Some (STP_OK, snd (stp_mgmt_build_configid_digest ctx w)) })"

definition stp_in_add_port_to_mstp :: "os_env \<Rightarrow> nat \<Rightarrow> nat \<Rightarrow> bool \<Rightarrow> world \<Rightarrow> int \<times> world" where
  "stp_in_add_port_to_mstp os vid pidx isWan w =
     (let MSTID = stp_mgmt_get_mstid vid w in
      if MSTID \<noteq> STP_CIST_ID
      then let (rc, w) = stp_port_mst_addport os MSTID pidx vid isWan w in
           (if rc \<noteq> STP_OK then STP_Cannot_Create_Instance_For_Port else STP_OK, w)
      else (STP_OK, w))"

definition stp_in_del_port_from_mstp :: "int \<Rightarrow> nat \<Rightarrow> nat \<Rightarrow> world \<Rightarrow> int \<times> world" where
  "stp_in_del_port_from_mstp stack_int vid pidx w =
     (let MSTID = stp_mgmt_get_mstid vid w in
      if MSTID \<noteq> STP_CIST_ID
      then let (rc, w) = stp_port_mst_delport stack_int MSTID pidx vid w in (if rc \<noteq> STP_OK then - 1 else STP_OK, w)
      else (STP_OK, w))"

definition stp_in_stpm_find :: "nat \<Rightarrow> world \<Rightarrow> bref option" where
  "stp_in_stpm_find vlan_id w = find (\<lambda>b. br_vlan_id (bheap w b) = vlan_id) (bridges w)"

definition stp_in_port_find :: "bref \<Rightarrow> nat \<Rightarrow> world \<Rightarrow> pref option" where
  "stp_in_port_find b pidx w = find (\<lambda>p. port_index (pheap w p) = pidx) (ports (bheap w b))"

definition stp_in_slot_port_find :: "bref \<Rightarrow> nat \<Rightarrow> nat \<Rightarrow> world \<Rightarrow> pref option" where
  "stp_in_slot_port_find b slot pno w =
     find (\<lambda>p. slot_no (pheap w p) = slot \<and> port_no (pheap w p) = pno) (ports (bheap w b))"

definition stp_in_init :: "nat \<Rightarrow> world \<Rightarrow> world" where
  "stp_in_init max_port_index w = w\<lparr>max_port := max_port_index\<rparr>"

subsection \<open>Enabling a port\<close>

text \<open>The body of the loop over the CIST port and its MSTI ports; \<open>False\<close> is the early return when the WAN
  interface is not in a bridge.\<close>

definition enable_one ::
  "os_env \<Rightarrow> pref \<Rightarrow> bool \<Rightarrow> bool \<Rightarrow> bool \<Rightarrow> nat \<Rightarrow> nat \<Rightarrow> world \<Rightarrow> bool \<times> world" where
  "enable_one os p link_down wan en slot pno w =
     (let w = upd p (\<lambda>t. t\<lparr>uptime := 0\<rparr>) w;
          w = (if en then upd p (\<lambda>t. t\<lparr>rx_cfg_bpdu_cnt := 0, rx_rstp_bpdu_cnt := 0, rx_tcn_bpdu_cnt := 0\<rparr>) w else w);
          w = upd p (\<lambda>t. t\<lparr>adminEnable := en \<and> \<not> link_down, isWAN := wan, slot_no := slot, port_no := pno\<rparr>) w;
          finish = (\<lambda>w. (True, upd p (\<lambda>t. t\<lparr>reselect := True, selected := False\<rparr>)
                           (stp_port_init p (owner (pheap w p)) False w))) in
      if wan
      then case sysfs_bridge_ifindex os slot pno 0 of
        None \<Rightarrow> (False, w)
      | Some br \<Rightarrow>
          let ifi = if_nametoindex os slot pno 0 in
          finish (emit (Npd_wan_state br ifi NAM_STP_PORT_STATE_DISCARD_E)
            (upd p (\<lambda>t. t\<lparr>port_ifindex := ifi, br_ifindex := br\<rparr>) w))
      else finish w)"

primrec enable_ports ::
  "os_env \<Rightarrow> pref list \<Rightarrow> bool \<Rightarrow> bool \<Rightarrow> bool \<Rightarrow> nat \<Rightarrow> nat \<Rightarrow> world \<Rightarrow> bool \<times> world" where
  "enable_ports os [] link_down wan en slot pno w = (True, w)"
| "enable_ports os (p # ps) link_down wan en slot pno w =
     (let (go_on, w) = enable_one os p link_down wan en slot pno w in
      if go_on then enable_ports os ps link_down wan en slot pno w else (False, w))"

definition note_enable :: "nat \<Rightarrow> bool \<Rightarrow> world \<Rightarrow> world" where
  "note_enable pidx en w =
     w\<lparr>stp_ports := map_option (\<lambda>nodes. nodes(pidx := map_option (\<lambda>s. s\<lparr>sai_stpEnable := en\<rparr>) (nodes pidx))) (stp_ports w)\<rparr>"

text \<open>\<open>stp_ports[port_index]\<close> is read before anything else, without a test of \<open>stp_ports\<close>.\<close>

definition stp_in_enable_port_inner ::
  "os_env \<Rightarrow> nat \<Rightarrow> bool \<Rightarrow> bool \<Rightarrow> bool \<Rightarrow> nat \<Rightarrow> nat \<Rightarrow> world \<Rightarrow> (int \<times> world) option" where
  "stp_in_enable_port_inner os pidx link_down wan en slot pno w =
     (if stp_ports w = None then Some (0, null_deref w)
      else case stp_port_mst_findport STP_CIST_ID pidx w of
        None \<Rightarrow> Some (1, w)
      | Some c \<Rightarrow>
          let (done_all, w) = enable_ports os (c # nextMst (pheap w c)) link_down wan en slot pno w in
          if \<not> done_all then Some (0, w)
          else do { w \<leftarrow> stp_stpm_mst_update (Some c) (note_enable pidx en w);
                    Some (0, if en then w else w\<lparr>sttrans_count := 0\<rparr>) })"

definition stp_in_enable_port_on_stpm ::
  "os_env \<Rightarrow> nat \<Rightarrow> bool \<Rightarrow> bool \<Rightarrow> STP_PORT_SPEED_ENT \<Rightarrow> bool \<Rightarrow> nat \<Rightarrow> nat \<Rightarrow> world \<Rightarrow> (int \<times> world) option" where
  "stp_in_enable_port_on_stpm os pidx en link_down speed wan slot pno w =
     (let w = (if en then
             (case port_speed_s w of
                None \<Rightarrow> w
              | Some nodes \<Rightarrow>
                  w\<lparr>port_speed_s := Some (nodes(pidx := Some \<lparr>psn_port_index = pidx, psn_port_speed = speed\<rparr>))\<rparr>)
           else w) in
      stp_in_enable_port_inner os pidx link_down wan en slot pno w)"

definition change_port :: "nat \<Rightarrow> (PORT_T \<Rightarrow> PORT_T) \<Rightarrow> bref \<Rightarrow> world \<Rightarrow> world" where
  "change_port pidx f b w =
     (if admin_state (bheap w b) \<noteq> STP_ENABLED then w
      else case stp_in_port_find b pidx w of
        None \<Rightarrow> w
      | Some p \<Rightarrow> upd p (\<lambda>t. (f t)\<lparr>reselect := True, selected := False\<rparr>) w)"

definition stp_in_change_port_speed :: "nat \<Rightarrow> u32 \<Rightarrow> world \<Rightarrow> world" where
  "stp_in_change_port_speed pidx speed w =
     fold (change_port pidx (\<lambda>t. t\<lparr>operSpeed := speed\<rparr>)) (bridges w) w"

definition stp_in_change_port_duplex :: "nat \<Rightarrow> world \<Rightarrow> world" where
  "stp_in_change_port_duplex pidx w =
     fold (change_port pidx (\<lambda>t. t\<lparr>p2p_recompute := True\<rparr>)) (bridges w) w"

subsection \<open>A received frame and the clock\<close>

text \<open>The debugging switch \<open>dbg_rstp_deny\<close>, which drops every frame, is off.\<close>

text \<open>What happens to the port before the frame is looked at.\<close>

definition leave_edge :: "pref \<Rightarrow> world \<Rightarrow> world" where
  "leave_edge p w =
     (let t = pheap w p;
          w = (if operEdge t \<and> lnkWhile t = 0 \<and> portEnabled t then upd p (\<lambda>t. t\<lparr>tc := True\<rparr>) w else w);
          w = (if operEdge t then upds (p # nextMst t) (\<lambda>t. t\<lparr>operEdge := False\<rparr>) w else w) in
      upd p (\<lambda>t. t\<lparr>wasInitBpdu := True\<rparr>) w)"

definition stp_in_rx_bpdu :: "u8 \<Rightarrow> nat \<Rightarrow> nat \<Rightarrow> nat \<Rightarrow> u8 list \<Rightarrow> nat \<Rightarrow> world \<Rightarrow> (int \<times> world) option" where
  "stp_in_rx_bpdu stack_byte pidx slot pno f len w =
     (case g_CISTBRIDGE w of
        None \<Rightarrow> Some (STP_Vlan_Had_Not_Yet_Been_Created, w)
      | Some b \<Rightarrow>
          if admin_state (bheap w b) = STP_DISABLED then Some (STP_Had_Not_Yet_Been_Enabled_On_The_Vlan, w)
          else case (if pidx \<noteq> 0 then stp_in_port_find b pidx w else stp_in_slot_port_find b slot pno w) of
            None \<Rightarrow> Some (STP_Port_Is_Absent_In_The_Vlan, w)
          | Some p \<Rightarrow>
              if skip_rx (pheap w p) > 0 then Some (STP_Nothing_To_Do, upd p (\<lambda>t. t\<lparr>skip_rx := skip_rx t - 1\<rparr>) w)
              else
                let (iret, w) = stp_port_rx_bpdu stack_byte p f len (leave_edge p w) in
                do { w \<leftarrow> (if iret = 0 then stp_stpm_mst_update (Some p) w else Some w);
                     Some (iret, stp_in_set_cur_bpdu None 0 False w) })"

definition stp_in_one_second :: "world \<Rightarrow> (world \<times> nat) option" where
  "stp_in_one_second w = map_option (\<lambda>(w, n). (w, n + 1)) (stp_stpm_one_second w)"

subsection \<open>The configuration of a port\<close>

definition port_cfg_fields :: "PROTOCOL_VERSION_T \<Rightarrow> UID_STP_PORT_CFG_T \<Rightarrow> (PORT_T \<Rightarrow> PORT_ID) \<Rightarrow> PORT_T \<Rightarrow> PORT_T" where
  "port_cfg_fields ver c new_id t =
     (let m = upc_field_mask c;
          t = (if asks PT_CFG_MCHECK m \<and> version_num ver \<ge> 2 then t\<lparr>mcheck := True\<rparr> else t);
          t = (if asks PT_CFG_COST m then t\<lparr>adminPCost := upc_admin_port_path_cost c\<rparr> else t);
          t = (if asks PT_CFG_PRIO m then t\<lparr>port_id := new_id t\<rparr> else t);
          t = (if asks PT_CFG_P2P m then t\<lparr>adminPointToPointMac := upc_admin_point2point c, p2p_recompute := True\<rparr> else t);
          t = (if asks PT_CFG_EDGE m then t\<lparr>adminEdge := upc_admin_edge c, operEdge := upc_admin_edge c\<rparr> else t);
          t = (if asks PT_CFG_NON_STP m then t\<lparr>admin_non_stp := upc_admin_non_stp c\<rparr> else t);
          t = (if asks PT_CFG_DBG_SKIP_RX m then t\<lparr>skip_rx := upc_skip_rx c\<rparr> else t);
          t = (if asks PT_CFG_DBG_SKIP_TX m then t\<lparr>skip_tx := upc_skip_tx c\<rparr> else t) in
      t\<lparr>reselect := True, selected := False\<rparr>)"

definition cfg_port_id :: "int \<Rightarrow> PORT_T \<Rightarrow> PORT_ID" where
  "cfg_port_id pr t = push_bit 8 (of_int pr AND 0xf0) + of_nat (port_index t)"

definition stp_in_set_port_cfg :: "pref \<Rightarrow> UID_STP_PORT_CFG_T \<Rightarrow> world \<Rightarrow> (int \<times> world) option" where
  "stp_in_set_port_cfg p c w =
     (let w = upd p (port_cfg_fields (ForceVersion (owner_of w p)) c (cfg_port_id (upc_port_priority c))) w in
      map_option (\<lambda>w. (0, w))
        (stp_stpm_mst_update (stp_port_mst_findport STP_CIST_ID (port_index (pheap w p)) w) w))"

text \<open>The second variant runs no machine; \<open>stack_no\<close> is its uninitialised \<open>port_no\<close>.\<close>

definition stp_in_reinit_port_cfg :: "int \<Rightarrow> nat \<Rightarrow> nat \<Rightarrow> UID_STP_PORT_CFG_T \<Rightarrow> world \<Rightarrow> int \<times> world" where
  "stp_in_reinit_port_cfg stack_no vlan_id pidx c w =
     (case stp_in_stpm_find vlan_id w of
        None \<Rightarrow> (STP_Vlan_Had_Not_Yet_Been_Created, w)
      | Some b \<Rightarrow>
          if ports (bheap w b) = [] then (- 1, w)
          else case stp_in_port_find b pidx w of
            None \<Rightarrow> (- 1, w)
          | Some p \<Rightarrow>
              (0, upd p (port_cfg_fields (ForceVersion (bheap w b)) c
                    (\<lambda>_. of_int (push_bit 8 (upc_port_priority c) + stack_no))) w))"

definition stp_in_set_vlan_2_instance ::
  "os_env \<Rightarrow> int \<Rightarrow> MD5_CTX \<Rightarrow> nat \<Rightarrow> nat \<Rightarrow> world \<Rightarrow> (int \<times> world) option" where
  "stp_in_set_vlan_2_instance os stack_int ctx vlan_id mstid w =
     stp_mgmt_stpm_update_instance os stack_int ctx mstid vlan_id w"

subsection \<open>The configuration is validated and stored\<close>

text \<open>The configured members of an instance.\<close>

definition cfg_of :: "STPM_T \<Rightarrow> _" where
  "cfg_of s = (br_vlan_id s, prio (BrId s), MaxAge (BrTimes s), HelloTime (BrTimes s), ForwardDelay (BrTimes s),
     RemainingHops (BrTimes s), ForceVersion s)"

definition cfgs :: "world \<Rightarrow> _" where
  "cfgs w = cfg_of \<circ> bheap w"

lemma shape_cfgs: "shape w = shape w' \<Longrightarrow> cfgs w = cfgs w'"
  by (auto simp: shape_def cfgs_def cfg_of_def bshape_def fun_eq_iff)

lemma cfgs_updb: "(\<And>s. cfg_of (f s) = cfg_of s) \<Longrightarrow> cfgs (updb b f w) = cfgs w"
  by (auto simp: cfgs_def updb_def fun_eq_iff)

lemma cfgs_basic: "cfgs (upd p f w) = cfgs w" "cfgs (null_deref w) = cfgs w"
  by (simp_all add: cfgs_def)

lemma cfgs_start_machines: "start_machines b w = Some w' \<Longrightarrow> cfgs w' = cfgs w"
  by (rule start_machines_keeps [of cfgs, OF shape_cfgs])
    (simp_all add: stp_stpm_init_data_def stp_port_init_def Let_def cfgs_updb cfgs_basic cfg_of_def)

lemma cfgs_share_address: "cfgs (share_address b w) = cfgs w"
proof -
  have "cfgs (copy_address b cs w) = cfgs w" for cs w
    by (induction cs arbitrary: w) (simp_all add: cfgs_updb cfg_of_def)
  then show ?thesis by (simp add: share_address_def cfgs_basic split: option.split)
qed

lemma cfgs_enable: "stp_stpm_enable b st w = Some (rc, w') \<Longrightarrow> cfgs w' = cfgs w"
  using cfgs_start_machines cfgs_share_address
  by (fastforce simp: stp_stpm_enable_def stp_stpm_stop_def stp_stpm_start_def stp_stpm_compute_bridge_id_def
      cfgs_updb cfg_of_def split: if_splits option.splits)

lemma cfgs_apply:
  assumes "apply_cfg b cfg m w = Some (0, w')"
  shows "cfgs w' = cfgs (updb b (store_cfg m) w)"
proof -
  let ?w = "updb b (store_cfg m) w"
  let ?on = "asks BR_CFG_STATE (field_mask cfg) \<and> stp_enabled cfg \<noteq> STP_DISABLED \<and> admin_state (bheap ?w b) = STP_DISABLED"
  obtain rc u where u: "(if ?on then stp_stpm_enable b (stp_enabled cfg) ?w else Some (0, ?w)) = Some (rc, u)"
    and r: "(if rc \<noteq> 0 then Some (rc, u) else if admin_state (bheap u b) \<noteq> STP_DISABLED
      then map_option (\<lambda>w. (0, w)) (stp_stpm_mst_update None (stp_stpm_update_after_bridge_management b u)) else Some (0, u)) = Some (0, w')"
    using assms unfolding apply_cfg_def Let_def by (auto split: bind_splits)
  have "cfgs u = cfgs ?w" using u cfgs_enable [of b "stp_enabled cfg" ?w rc u] by (auto split: if_splits)
  moreover have "shape w' = shape u"
    using r mst_update_shape [of None "stp_stpm_update_after_bridge_management b u" w']
    by (auto simp: stp_stpm_update_after_bridge_management_def shape_simps pshape_simps split: if_splits)
  ultimately show ?thesis using shape_cfgs [of w' u] by simp
qed

lemma check_cist:
  assumes "stp_in_check_stpm_config c STP_CIST_ID = 0"
  shows "0 \<le> bridge_priority c" "bridge_priority c \<le> 61440" "6 \<le> maxhops c" "maxhops c \<le> 40"
    "1 \<le> hello_time c" "hello_time c \<le> 10" "6 \<le> max_age c" "max_age c \<le> 40" "4 \<le> forward_delay c" "forward_delay c \<le> 30"
    "max_age c \<le> 2 * (forward_delay c - 1)" "2 * (hello_time c + 1) \<le> max_age c"
  using assms by (auto simp: stp_in_check_stpm_config_def split: if_splits)

lemma uint_of_int_small: "0 \<le> i \<Longrightarrow> i < 2 ^ LENGTH('a) \<Longrightarrow> uint (of_int i :: 'a::len word) = i"
  by (simp add: unsigned_of_int take_bit_int_eq_self_iff)


text \<open>C25: A request that fails the validation, on the CIST or on an MSTI, changes nothing but the \<open>mcheck\<close> flags of
  the instance's ports, which a request for the protocol version sets before the validation.\<close>

theorem set_cfg_rejected:
  assumes "rc = stp_in_check_stpm_config (merge_cfg cfg (stp_in_stpm_get_cfg (bheap w b))) (br_vlan_id (bheap w b))" and "rc \<noteq> 0"
  shows "\<exists>w'. stp_in_stpm_set_cfg (Some b) cfg w = Some (rc, w') \<and> bheap w' = bheap w \<and> shape w' = shape w \<and> out w' = out w \<and>
    (\<forall>p. (pheap w' p)\<lparr>mcheck := False\<rparr> = (pheap w p)\<lparr>mcheck := False\<rparr>)"
proof -
  let ?w = "ask_mcheck b cfg w"
  have "stp_in_stpm_set_cfg (Some b) cfg w = Some (rc, ?w)"
    using assms by (simp add: stp_in_stpm_set_cfg_def Let_def ask_mcheck_def)
  moreover have "bheap ?w = bheap w" "shape ?w = shape w" "out ?w = out w"
    by (simp_all add: ask_mcheck_def shape_simps pshape_simps)
  moreover have "\<forall>p. (pheap ?w p)\<lparr>mcheck := False\<rparr> = (pheap w p)\<lparr>mcheck := False\<rparr>"
    using upds_field [of "\<lambda>t. t\<lparr>mcheck := False\<rparr>" "\<lambda>t. t\<lparr>mcheck := True\<rparr>" "ports (bheap w b)" w] by (simp add: ask_mcheck_def)
  ultimately show ?thesis by blast
qed

text \<open>Once an MSTI has the highest priority value the code accepts, 61440, no request that leaves the priority
  alone is accepted any more, not even one to enable or to disable the instance: the stored priority
  contains the number of the instance, and the validation compares the sum with 61440.\<close>

theorem msti_priority_lockout:
  assumes "prio (BrId (bheap w b)) = 61440 + of_nat m" and "0 < m" and "m \<le> STP_MSTI_MAX"
    and "\<not> asks BR_CFG_PRIO (field_mask cfg)"
  shows "\<exists>w'. stp_in_stpm_set_cfg (Some b) cfg w = Some (STP_Large_Bridge_Priority, w') \<and> bheap w' = bheap w"
proof -
  have "uint (61440 + of_nat m :: u16) = 61440 + int m"
    using uint_of_int_small [where 'a = 16, of "61440 + int m"] assms(3) by simp
  then have "bridge_priority (merge_cfg cfg (stp_in_stpm_get_cfg (bheap w b))) = 61440 + int m"
    using assms(1,4) by (simp add: merge_cfg_def Let_def stp_in_stpm_get_cfg_def)
  then have "stp_in_check_stpm_config (merge_cfg cfg (stp_in_stpm_get_cfg (bheap w b))) i = STP_Large_Bridge_Priority" for i
    using assms(2) by (simp add: stp_in_check_stpm_config_def)
  then show ?thesis by (simp add: stp_in_stpm_set_cfg_def Let_def ask_mcheck_def)
qed

text \<open>A request that disables an instance and changes other members as well loses the other members: the
  expression meant to clear the state bit of the mask clears the mask, and the function returns.\<close>

theorem disable_drops_request:
  assumes "asks BR_CFG_STATE (field_mask cfg)" and "stp_enabled cfg = STP_DISABLED"
    and "stp_in_check_stpm_config (merge_cfg cfg (stp_in_stpm_get_cfg (bheap w b))) (br_vlan_id (bheap w b)) = 0"
  shows "\<exists>w'. stp_in_stpm_set_cfg (Some b) cfg w = Some (0, w') \<and> bheap w' b = (bheap w b)\<lparr>admin_state := STP_DISABLED\<rparr>"
  using assms
  by (cases "admin_state (bheap w b)")
    (auto simp: stp_in_stpm_set_cfg_def Let_def ask_mcheck_def stp_stpm_enable_def stp_stpm_stop_def)

subsection \<open>Events\<close>

lemma rx_accept_shape: "shape (rx_accept p f ty w) = shape w"
  by (simp add: rx_accept_def notify_topology_change_def stp_portinfo_send_tcn2npd_def stp_in_set_cur_bpdu_def Let_def
      shape_simps pshape_simps)

lemma rx_bpdu_shape: "shape (snd (stp_port_rx_bpdu y p f len w)) = shape w"
  by (simp add: stp_port_rx_bpdu_def stp_portinfo_rx_bpdu_def Let_def split_beta rx_accept_shape shape_simps pshape_simps)

lemma leave_edge_shape: "shape (leave_edge p w) = shape w"
  by (simp add: leave_edge_def Let_def shape_simps pshape_simps)

text \<open>C20: Neither a received frame, whatever it contains, nor a tick of the clock, for however many rounds the
  machines run on it, creates or removes a port or an instance, relinks the lists and tables, or
  changes the configuration: ports, instances, VLAN maps, priorities, times and versions are as they were.\<close>

theorem events_keep_structure:
  "(stp_in_rx_bpdu y pidx slot pno f len w = Some (rc, w') \<longrightarrow> shape w' = shape w) \<and>
   (stp_in_one_second w = Some (w'', n) \<longrightarrow> shape w'' = shape w)"
proof (intro conjI impI)
  assume "stp_in_rx_bpdu y pidx slot pno f len w = Some (rc, w')"
  then show "shape w' = shape w"
    using rx_bpdu_shape [of y _ f len] leave_edge_shape mst_update_shape
    by (fastforce simp: stp_in_rx_bpdu_def stp_in_set_cur_bpdu_def split_beta Let_def shape_simps pshape_simps
        split: option.splits if_splits bind_splits)
next
  assume "stp_in_one_second w = Some (w'', n)"
  then show "shape w'' = shape w" using one_second_shape by (auto simp: stp_in_one_second_def)
qed

end
