(* ===== verification/StpParam.thy ===== *)
theory StpParam
  imports StpIn
begin

text \<open>
  The parameters of the daemon (\<open>stp_param.c\<close>): switching the protocol and single ports on and off, one setter
  and one reset function per configurable value, the VLANs of an instance, and the text of the running
  configuration. The setters return the value of the last called function or nothing at all; \<open>stack_int\<close> is
  what the caller finds in the latter case. The debug mask is left out.
\<close>

abbreviation (input) STP_NOT_ENABLED :: int where "STP_NOT_ENABLED \<equiv> 0xff"
abbreviation (input) STP_HAVE_ENABLED :: int where "STP_HAVE_ENABLED \<equiv> 0xfe"
abbreviation (input) STP_PORT_NOT_ENABLE :: int where "STP_PORT_NOT_ENABLE \<equiv> 0xfd"
abbreviation (input) STP_PORT_HAVE_ENABLED :: int where "STP_PORT_HAVE_ENABLED \<equiv> 0xfc"
abbreviation (input) STP_Cannot_Find_Vlan :: int where "STP_Cannot_Find_Vlan \<equiv> 2"
abbreviation (input) STP_RETURN_CODE_SUCCESS :: int where "STP_RETURN_CODE_SUCCESS \<equiv> 0xF0001"
abbreviation (input) STP_RETURN_CODE_MSTP_NOT_ENABLED :: int where "STP_RETURN_CODE_MSTP_NOT_ENABLED \<equiv> 0xF0004"

subsection \<open>Switching on and off\<close>

definition stp_param_check_stp_state :: "world \<Rightarrow> bool" where
  "stp_param_check_stp_state w = g_flag w"

definition stp_param_set_stpm_enable :: "UID_STP_CFG_T \<Rightarrow> world \<Rightarrow> (int \<times> world) option" where
  "stp_param_set_stpm_enable stack w =
     (if \<not> g_flag w
      then do { (ret, w) \<leftarrow> stp_in_global_enable stack w;
                Some (ret, if ret = 0 then w\<lparr>g_flag := True, g_stp_state := STP_ENABLED\<rparr> else w) }
      else Some (STP_HAVE_ENABLED, w))"

definition stp_param_set_stpm_disable :: "UID_STP_CFG_T \<Rightarrow> MD5_CTX \<Rightarrow> world \<Rightarrow> (int \<times> world) option" where
  "stp_param_set_stpm_disable stack ctx w =
     (if g_flag w
      then do { (ret, w) \<leftarrow> stp_in_global_disable stack w;
                if ret = 0
                then let (ret, w) = stp_mgmt_stpm_create_cist ctx (w\<lparr>g_flag := False, g_stp_state := STP_DISABLED\<rparr>) in
                     Some (if ret \<noteq> STP_OK then - 1 else ret, w)
                else Some (ret, w) }
      else Some (STP_NOT_ENABLED, w))"

definition stp_param_set_running_mode :: "RUNNING_MODE \<Rightarrow> world \<Rightarrow> world" where
  "stp_param_set_running_mode md w = w\<lparr>current_mode := md\<rparr>"

definition stp_param_get_running_mode :: "world \<Rightarrow> RUNNING_MODE" where
  "stp_param_get_running_mode w = current_mode w"

text \<open>The entry of a port in \<open>stp_ports\<close>, if both pointers are there.\<close>

definition stp_info :: "nat \<Rightarrow> world \<Rightarrow> stp_admin_infos option" where
  "stp_info pidx w = Option.bind (stp_ports w) (\<lambda>nodes. nodes pidx)"

definition return_code :: "int \<Rightarrow> int" where
  "return_code rc = (if rc = 0 then STP_RETURN_CODE_SUCCESS else STP_RETURN_CODE_MSTP_NOT_ENABLED)"

definition stp_param_set_stpm_port_enable ::
  "os_env \<Rightarrow> nat \<Rightarrow> bool \<Rightarrow> STP_PORT_SPEED_ENT \<Rightarrow> bool \<Rightarrow> nat \<Rightarrow> nat \<Rightarrow> world \<Rightarrow> (int \<times> world) option" where
  "stp_param_set_stpm_port_enable os pidx link_down speed wan slot pno w =
     (if \<not> g_flag w \<or> stp_ports w = None then Some (STP_NOT_ENABLED, w)
      else
        let w = (if \<not> link_down then w\<lparr>enabled_ports := stp_bitmap_set_bit (platform w) (enabled_ports w) pidx\<rparr> else w) in
        if (case stp_info pidx w of None \<Rightarrow> False | Some s \<Rightarrow> sai_stpEnable s) then Some (STP_PORT_HAVE_ENABLED, w)
        else map_option (\<lambda>(rc, w). (return_code rc, w))
               (stp_in_enable_port_on_stpm os pidx True link_down speed wan slot pno w))"

definition stp_param_set_stpm_port_disable ::
  "os_env \<Rightarrow> nat \<Rightarrow> bool \<Rightarrow> STP_PORT_SPEED_ENT \<Rightarrow> bool \<Rightarrow> nat \<Rightarrow> nat \<Rightarrow> world \<Rightarrow> (int \<times> world) option" where
  "stp_param_set_stpm_port_disable os pidx link_down speed wan slot pno w =
     (if \<not> g_flag w then Some (STP_NOT_ENABLED, w)
      else case stp_info pidx w of
        None \<Rightarrow> Some (STP_NOT_ENABLED, w)
      | Some s \<Rightarrow>
          if \<not> sai_stpEnable s then Some (STP_PORT_NOT_ENABLE, w)
          else map_option (\<lambda>(rc, w). (return_code rc, w))
                 (stp_in_enable_port_on_stpm os pidx False link_down speed wan slot pno w))"

subsection \<open>VLANs\<close>

definition stp_param_add_vlan_to_mstp :: "os_env \<Rightarrow> MD5_CTX \<Rightarrow> nat \<Rightarrow> BITMAP_T \<Rightarrow> world \<Rightarrow> (int \<times> world) option" where
  "stp_param_add_vlan_to_mstp os ctx vid pbmp w = stp_in_add_vlan_to_cist os ctx vid pbmp w"

definition stp_param_mstp_init_vlan_info :: "nat \<Rightarrow> BITMAP_T \<Rightarrow> world \<Rightarrow> world" where
  "stp_param_mstp_init_vlan_info vid pbmp w = stp_mgmt_init_vlanpbmp vid pbmp w"

definition stp_param_set_vlan_to_instance ::
  "os_env \<Rightarrow> int \<Rightarrow> MD5_CTX \<Rightarrow> nat \<Rightarrow> nat \<Rightarrow> world \<Rightarrow> (int \<times> world) option" where
  "stp_param_set_vlan_to_instance os stack_int ctx vid mstid w = stp_in_set_vlan_2_instance os stack_int ctx vid mstid w"

subsection \<open>Region name and revision\<close>

text \<open>The name is copied with \<open>strcpy\<close> behind a \<open>memset\<close> of its 32 bytes. A longer name runs on into the two bytes of
  the revision level and the sixteen of the digest, the members that follow in the struct; beyond these the
  copy leaves the configuration identifier, which \<open>fault\<close> records.\<close>

definition overlay :: "u8 list \<Rightarrow> u8 list \<Rightarrow> u8 list" where
  "overlay new old = new @ drop (length new) old"

definition write_name :: "u8 list \<Rightarrow> MST_CFG_ID_S \<Rightarrow> MST_CFG_ID_S" where
  "write_name nm c =
     (let bytes = overlay (nm @ [0]) (replicate 32 0 @ RevisionLevel c @ ConfigurationDigest c) in
      c\<lparr>ConfigurationName := take 32 bytes, RevisionLevel := take 2 (drop 32 bytes),
        ConfigurationDigest := take 16 (drop 34 bytes)\<rparr>)"

definition stp_param_set_bridge_region_name :: "u8 list \<Rightarrow> world \<Rightarrow> int \<times> world" where
  "stp_param_set_bridge_region_name nm w =
     (case g_CISTBRIDGE w of
        None \<Rightarrow> (- 1, w)
      | Some b \<Rightarrow>
          (0, if length nm < 50 then updb b (\<lambda>s. s\<lparr>MstConfigId := write_name nm (MstConfigId s)\<rparr>) w else null_deref w))"

text \<open>A \<open>short\<close> written through a cast, in the byte order of the machine.\<close>

definition short_bytes :: "bool \<Rightarrow> u16 \<Rightarrow> u8 list" where
  "short_bytes big v = (if big then htons v else rev (htons v))"

definition short_at :: "bool \<Rightarrow> u8 list \<Rightarrow> u16" where
  "short_at big bs = (if big then ntohs bs else ntohs (rev bs))"

definition stp_param_set_bridge_revision :: "u16 \<Rightarrow> world \<Rightarrow> int \<times> world" where
  "stp_param_set_bridge_revision v w =
     (case g_CISTBRIDGE w of
        None \<Rightarrow> (- 1, w)
      | Some b \<Rightarrow>
          (0, updb b (\<lambda>s. s\<lparr>MstConfigId := (MstConfigId s)\<lparr>RevisionLevel := short_bytes (big_endian w) v\<rparr>\<rparr>) w))"

text \<open>A node that does not exist yet is created with mode 0, so that the ports recompute only when the mode
  differs from that.\<close>

definition stp_param_set_port_duplex_mode :: "nat \<Rightarrow> port_duplex_mode_t \<Rightarrow> world \<Rightarrow> int \<times> world" where
  "stp_param_set_port_duplex_mode pidx md w =
     (case port_duplex_mode_nodes w of
        None \<Rightarrow> (STP_OK, w)
      | Some nodes \<Rightarrow>
          let old = (case nodes pidx of None \<Rightarrow> DUPLEX_FULL | Some m \<Rightarrow> m);
              w = w\<lparr>port_duplex_mode_nodes := Some (nodes(pidx := Some md))\<rparr> in
          (STP_OK, if old \<noteq> md then stp_in_change_port_duplex pidx w else w))"

subsection \<open>The values of a bridge\<close>

text \<open>A value together with the mask that says which one it is; the callers, all in this file, pass no other masks.\<close>

datatype bridge_value =
    BR_STATE UID_STP_MODE_T | BR_PRIO int | BR_AGE int | BR_HELLO int | BR_DELAY int
  | BR_FORCE_VER PROTOCOL_VERSION_T | BR_MAX_HOPS int

definition zero_cfg :: UID_STP_CFG_T where
  "zero_cfg = \<lparr>field_mask = 0, stp_enabled = STP_DISABLED, bridge_priority = 0, max_age = 0, hello_time = 0,
     forward_delay = 0, force_version = FORCE_STP_COMPAT, hold_time = 0, maxhops = 0\<rparr>"

primrec bridge_cfg :: "bridge_value \<Rightarrow> UID_STP_CFG_T" where
  "bridge_cfg (BR_STATE v) = zero_cfg\<lparr>field_mask := BR_CFG_STATE, stp_enabled := v\<rparr>"
| "bridge_cfg (BR_PRIO v) = zero_cfg\<lparr>field_mask := BR_CFG_PRIO, bridge_priority := v\<rparr>"
| "bridge_cfg (BR_AGE v) = zero_cfg\<lparr>field_mask := BR_CFG_AGE, max_age := v\<rparr>"
| "bridge_cfg (BR_HELLO v) = zero_cfg\<lparr>field_mask := BR_CFG_HELLO, hello_time := v\<rparr>"
| "bridge_cfg (BR_DELAY v) = zero_cfg\<lparr>field_mask := BR_CFG_DELAY, forward_delay := v\<rparr>"
| "bridge_cfg (BR_FORCE_VER v) = zero_cfg\<lparr>field_mask := BR_CFG_FORCE_VER, force_version := v\<rparr>"
| "bridge_cfg (BR_MAX_HOPS v) = zero_cfg\<lparr>field_mask := BR_CFG_MAX_HOPS, maxhops := v\<rparr>"

text \<open>The hop count is set in every instance, up to the first error.\<close>

primrec set_cfg_list :: "UID_STP_CFG_T \<Rightarrow> bref list \<Rightarrow> int \<Rightarrow> world \<Rightarrow> (int \<times> world) option" where
  "set_cfg_list cfg [] rc w = Some (rc, w)"
| "set_cfg_list cfg (b # bs) rc w =
     do { (rc, w) \<leftarrow> stp_in_stpm_set_cfg (Some b) cfg w;
          if rc \<noteq> 0 then Some (rc, w) else set_cfg_list cfg bs rc w }"

text \<open>On success the function ends without a return statement.\<close>

definition stp_param_set_bridge_cfg_value :: "int \<Rightarrow> nat \<Rightarrow> bridge_value \<Rightarrow> world \<Rightarrow> (int \<times> world) option" where
  "stp_param_set_bridge_cfg_value stack_int mstid v w =
     do { (rc, w) \<leftarrow>
            (case v of
               BR_MAX_HOPS _ \<Rightarrow> set_cfg_list (bridge_cfg v) (bridges w) stack_int w
             | _ \<Rightarrow> (case stp_stpm_get_instance mstid w of
                      None \<Rightarrow> Some (STP_Vlan_Had_Not_Yet_Been_Created, w)
                    | Some b \<Rightarrow> stp_in_stpm_set_cfg (Some b) (bridge_cfg v) w));
          Some (if rc \<noteq> 0 then rc else stack_int, w) }"

definition stp_param_set_bridge_priority :: "int \<Rightarrow> nat \<Rightarrow> int \<Rightarrow> world \<Rightarrow> (int \<times> world) option" where
  "stp_param_set_bridge_priority stack_int mstid pr w =
     (if list_ex (\<lambda>b. br_vlan_id (bheap w b) = mstid) (bridges w)
      then stp_param_set_bridge_cfg_value stack_int mstid (BR_PRIO pr) w
      else Some (STP_Vlan_Had_Not_Yet_Been_Created, w))"

definition stp_param_reset_bridge_priority :: "int \<Rightarrow> nat \<Rightarrow> world \<Rightarrow> (int \<times> world) option" where
  "stp_param_reset_bridge_priority stack_int mstid w =
     stp_param_set_bridge_cfg_value stack_int mstid (BR_PRIO (uint (DEF_BR_PRIO :: u16))) w"

definition stp_param_set_bridge_maxage :: "int \<Rightarrow> int \<Rightarrow> world \<Rightarrow> (int \<times> world) option" where
  "stp_param_set_bridge_maxage stack_int v w = stp_param_set_bridge_cfg_value stack_int 0 (BR_AGE v) w"

definition stp_param_reset_bridge_maxage :: "int \<Rightarrow> nat \<Rightarrow> world \<Rightarrow> (int \<times> world) option" where
  "stp_param_reset_bridge_maxage stack_int mstid w = stp_param_set_bridge_cfg_value stack_int mstid (BR_AGE 20) w"

definition stp_param_set_bridge_fdelay :: "int \<Rightarrow> int \<Rightarrow> world \<Rightarrow> (int \<times> world) option" where
  "stp_param_set_bridge_fdelay stack_int v w = stp_param_set_bridge_cfg_value stack_int 0 (BR_DELAY v) w"

definition stp_param_reset_bridge_fdelay :: "int \<Rightarrow> nat \<Rightarrow> world \<Rightarrow> (int \<times> world) option" where
  "stp_param_reset_bridge_fdelay stack_int mstid w = stp_param_set_bridge_cfg_value stack_int mstid (BR_DELAY 15) w"

definition stp_param_set_bridge_fvers :: "int \<Rightarrow> PROTOCOL_VERSION_T \<Rightarrow> world \<Rightarrow> (int \<times> world) option" where
  "stp_param_set_bridge_fvers stack_int v w =
     stp_param_set_bridge_cfg_value stack_int 0 (BR_FORCE_VER v)
       (w\<lparr>current_mode := (case v of FORCE_STP_COMPAT \<Rightarrow> STP_MODE | NORMAL_RSTP \<Rightarrow> STP_MODE | NORMAL_MSTP \<Rightarrow> MST_MODE)\<rparr>)"

definition stp_param_reset_bridge_fvers :: "int \<Rightarrow> world \<Rightarrow> (int \<times> world) option" where
  "stp_param_reset_bridge_fvers stack_int w = stp_param_set_bridge_cfg_value stack_int 0 (BR_FORCE_VER NORMAL_RSTP) w"

definition stp_param_set_bridge_max_hops :: "int \<Rightarrow> int \<Rightarrow> world \<Rightarrow> (int \<times> world) option" where
  "stp_param_set_bridge_max_hops stack_int v w = stp_param_set_bridge_cfg_value stack_int 0 (BR_MAX_HOPS v) w"

definition stp_param_reset_bridge_max_hops :: "int \<Rightarrow> world \<Rightarrow> (int \<times> world) option" where
  "stp_param_reset_bridge_max_hops stack_int w = stp_param_set_bridge_cfg_value stack_int 0 (BR_MAX_HOPS 20) w"

definition stp_param_set_bridge_hello_time :: "int \<Rightarrow> int \<Rightarrow> world \<Rightarrow> (int \<times> world) option" where
  "stp_param_set_bridge_hello_time stack_int v w = stp_param_set_bridge_cfg_value stack_int 0 (BR_HELLO v) w"

definition stp_param_reset_bridge_hello_time :: "int \<Rightarrow> nat \<Rightarrow> world \<Rightarrow> (int \<times> world) option" where
  "stp_param_reset_bridge_hello_time stack_int mstid w = stp_param_set_bridge_cfg_value stack_int mstid (BR_HELLO 2) w"

text \<open>All results are ignored.\<close>

definition stp_param_set_bridge_nocfg :: "int \<Rightarrow> nat \<Rightarrow> world \<Rightarrow> (int \<times> world) option" where
  "stp_param_set_bridge_nocfg stack_int mstid w =
     do { (_, w) \<leftarrow> stp_param_reset_bridge_priority stack_int mstid w;
          (_, w) \<leftarrow> stp_param_reset_bridge_fdelay stack_int mstid w;
          (_, w) \<leftarrow> stp_param_reset_bridge_hello_time stack_int mstid w;
          (_, w) \<leftarrow> stp_param_reset_bridge_maxage stack_int mstid w;
          (_, w) \<leftarrow> stp_param_reset_bridge_max_hops stack_int w;
          (_, w) \<leftarrow> (case current_mode w of
                      MST_MODE \<Rightarrow> stp_param_set_bridge_cfg_value stack_int mstid (BR_FORCE_VER NORMAL_MSTP) w
                    | STP_MODE \<Rightarrow> stp_param_reset_bridge_fvers stack_int w
                    | NOT_MODE \<Rightarrow> Some (0, w));
          Some (0, w) }"

subsection \<open>The values of a port\<close>

datatype port_value =
    PT_MCHECK | PT_COST u32 | PT_PRIO int | PT_P2P ADMIN_P2P_T | PT_EDGE bool | PT_NON_STP bool

text \<open>The request is built in an uninitialised local, \<open>stack\<close>.\<close>

primrec port_cfg :: "UID_STP_PORT_CFG_T \<Rightarrow> port_value \<Rightarrow> UID_STP_PORT_CFG_T" where
  "port_cfg stack PT_MCHECK = stack\<lparr>upc_field_mask := PT_CFG_MCHECK\<rparr>"
| "port_cfg stack (PT_COST v) = stack\<lparr>upc_field_mask := PT_CFG_COST, upc_admin_port_path_cost := v\<rparr>"
| "port_cfg stack (PT_PRIO v) = stack\<lparr>upc_field_mask := PT_CFG_PRIO, upc_port_priority := v\<rparr>"
| "port_cfg stack (PT_P2P v) = stack\<lparr>upc_field_mask := PT_CFG_P2P, upc_admin_point2point := v\<rparr>"
| "port_cfg stack (PT_EDGE v) = stack\<lparr>upc_field_mask := PT_CFG_EDGE, upc_admin_edge := v\<rparr>"
| "port_cfg stack (PT_NON_STP v) = stack\<lparr>upc_field_mask := PT_CFG_NON_STP, upc_admin_non_stp := v\<rparr>"

text \<open>The chain of MSTI ports behind a port: all of them for a CIST port, the later ones for an MSTI port.\<close>

definition later_ports :: "pref \<Rightarrow> world \<Rightarrow> pref list" where
  "later_ports p w =
     (case stp_port_mst_findport STP_CIST_ID (port_index (pheap w p)) w of
        None \<Rightarrow> []
      | Some c \<Rightarrow> if c = p then nextMst (pheap w c) else tl (dropWhile (\<lambda>q. q \<noteq> p) (nextMst (pheap w c))))"

primrec set_port_list :: "UID_STP_PORT_CFG_T \<Rightarrow> pref list \<Rightarrow> int \<Rightarrow> world \<Rightarrow> (int \<times> world) option" where
  "set_port_list cfg [] rc w = Some (rc, w)"
| "set_port_list cfg (p # ps) rc w =
     do { (rc, w) \<leftarrow> stp_in_set_port_cfg p cfg w; set_port_list cfg ps rc w }"

text \<open>What the configuration file has to remember. The arrays have 64 elements and lie behind each other in the
  struct: instance 64 writes the first element of the next one, behind the last of them the point-to-point
  flag.\<close>

primrec remember_value :: "nat \<Rightarrow> port_value \<Rightarrow> stp_admin_infos \<Rightarrow> stp_admin_infos" where
  "remember_value m PT_MCHECK s = s"
| "remember_value m (PT_COST v) s =
     (if m < 64 then s\<lparr>sai_pathcost := (sai_pathcost s)[m := v]\<rparr> else s\<lparr>sai_prio := (sai_prio s)[m - 64 := v]\<rparr>)"
| "remember_value m (PT_PRIO v) s =
     (if m < 64 then s\<lparr>sai_prio := (sai_prio s)[m := of_int v]\<rparr> else s\<lparr>sai_p2p := of_int v\<rparr>)"
| "remember_value m (PT_P2P v) s = s\<lparr>sai_p2p := of_nat (p2p_num v)\<rparr>"
| "remember_value m (PT_EDGE v) s = s\<lparr>sai_edge := v\<rparr>"
| "remember_value m (PT_NON_STP v) s = s\<lparr>sai_nonstp := v\<rparr>"

definition remember_port :: "nat \<Rightarrow> nat \<Rightarrow> port_value \<Rightarrow> world \<Rightarrow> world" where
  "remember_port pidx m v w =
     (let w = note_mstid pidx m w in
      w\<lparr>stp_ports := map_option (\<lambda>nodes. nodes(pidx := map_option (remember_value m v) (nodes pidx))) (stp_ports w)\<rparr>)"

definition stp_param_set_port_cfg_value ::
  "UID_STP_PORT_CFG_T \<Rightarrow> int \<Rightarrow> nat \<Rightarrow> nat \<Rightarrow> port_value \<Rightarrow> world \<Rightarrow> (int \<times> world) option" where
  "stp_param_set_port_cfg_value stack stack_int mstid pidx v w =
     (case stp_port_mst_findport mstid pidx w of
        None \<Rightarrow> Some (STP_PORT_NOT_ENABLE, w)
      | Some p \<Rightarrow>
          let cfg = port_cfg stack v in
          do { (rc, w) \<leftarrow> stp_in_set_port_cfg p cfg w;
               (rc, w) \<leftarrow> (case v of
                             PT_EDGE _ \<Rightarrow> set_port_list cfg (later_ports p w) rc w
                           | PT_NON_STP _ \<Rightarrow> set_port_list cfg (later_ports p w) rc w
                           | PT_P2P _ \<Rightarrow> set_port_list cfg (later_ports p w) rc w
                           | _ \<Rightarrow> Some (rc, w));
               case stp_info (port_index (pheap w p)) w of
                 None \<Rightarrow> Some (rc, w)
               | Some _ \<Rightarrow> Some (if v = PT_MCHECK then stack_int else rc, remember_port (port_index (pheap w p)) mstid v w) })"

definition stp_param_set_port_past_cost ::
  "UID_STP_PORT_CFG_T \<Rightarrow> int \<Rightarrow> nat \<Rightarrow> nat \<Rightarrow> u32 \<Rightarrow> world \<Rightarrow> (int \<times> world) option" where
  "stp_param_set_port_past_cost stack si mstid pidx v w = stp_param_set_port_cfg_value stack si mstid pidx (PT_COST v) w"

text \<open>Most of these functions ignore the result and return zero.\<close>

definition zero_rc :: "(int \<times> world) option \<Rightarrow> (int \<times> world) option" where
  "zero_rc r = map_option (\<lambda>(_, w). (0, w)) r"

definition stp_param_reset_port_past_cost ::
  "UID_STP_PORT_CFG_T \<Rightarrow> int \<Rightarrow> nat \<Rightarrow> nat \<Rightarrow> world \<Rightarrow> (int \<times> world) option" where
  "stp_param_reset_port_past_cost stack si mstid pidx w =
     zero_rc (stp_param_set_port_cfg_value stack si mstid pidx (PT_COST ADMIN_PORT_PATH_COST_AUTO) w)"

definition stp_param_set_port_priority ::
  "UID_STP_PORT_CFG_T \<Rightarrow> int \<Rightarrow> nat \<Rightarrow> nat \<Rightarrow> int \<Rightarrow> world \<Rightarrow> (int \<times> world) option" where
  "stp_param_set_port_priority stack si mstid pidx v w = stp_param_set_port_cfg_value stack si mstid pidx (PT_PRIO v) w"

definition stp_param_reset_port_priority ::
  "UID_STP_PORT_CFG_T \<Rightarrow> int \<Rightarrow> nat \<Rightarrow> nat \<Rightarrow> world \<Rightarrow> (int \<times> world) option" where
  "stp_param_reset_port_priority stack si mstid pidx w = stp_param_set_port_cfg_value stack si mstid pidx (PT_PRIO 128) w"

definition stp_param_set_port_p2p ::
  "UID_STP_PORT_CFG_T \<Rightarrow> int \<Rightarrow> nat \<Rightarrow> nat \<Rightarrow> ADMIN_P2P_T \<Rightarrow> world \<Rightarrow> (int \<times> world) option" where
  "stp_param_set_port_p2p stack si mstid pidx v w = zero_rc (stp_param_set_port_cfg_value stack si mstid pidx (PT_P2P v) w)"

definition stp_param_reset_port_p2p ::
  "UID_STP_PORT_CFG_T \<Rightarrow> int \<Rightarrow> nat \<Rightarrow> nat \<Rightarrow> world \<Rightarrow> (int \<times> world) option" where
  "stp_param_reset_port_p2p stack si mstid pidx w =
     zero_rc (stp_param_set_port_cfg_value stack si mstid pidx (PT_P2P P2P_AUTO_E) w)"

definition stp_param_set_port_edge ::
  "UID_STP_PORT_CFG_T \<Rightarrow> int \<Rightarrow> nat \<Rightarrow> nat \<Rightarrow> bool \<Rightarrow> world \<Rightarrow> (int \<times> world) option" where
  "stp_param_set_port_edge stack si mstid pidx v w = zero_rc (stp_param_set_port_cfg_value stack si mstid pidx (PT_EDGE v) w)"

definition stp_param_reset_port_edge ::
  "UID_STP_PORT_CFG_T \<Rightarrow> int \<Rightarrow> nat \<Rightarrow> nat \<Rightarrow> world \<Rightarrow> (int \<times> world) option" where
  "stp_param_reset_port_edge stack si mstid pidx w =
     zero_rc (stp_param_set_port_cfg_value stack si mstid pidx (PT_EDGE True) w)"

definition stp_param_set_port_mcheck ::
  "UID_STP_PORT_CFG_T \<Rightarrow> int \<Rightarrow> nat \<Rightarrow> nat \<Rightarrow> world \<Rightarrow> (int \<times> world) option" where
  "stp_param_set_port_mcheck stack si mstid pidx w =
     zero_rc (stp_param_set_port_cfg_value stack si mstid pidx PT_MCHECK w)"

definition stp_param_set_port_non_stp ::
  "UID_STP_PORT_CFG_T \<Rightarrow> int \<Rightarrow> nat \<Rightarrow> nat \<Rightarrow> bool \<Rightarrow> world \<Rightarrow> (int \<times> world) option" where
  "stp_param_set_port_non_stp stack si mstid pidx v w =
     zero_rc (stp_param_set_port_cfg_value stack si mstid pidx (PT_NON_STP v) w)"

definition stp_param_reset_port_non_stp ::
  "UID_STP_PORT_CFG_T \<Rightarrow> int \<Rightarrow> nat \<Rightarrow> nat \<Rightarrow> world \<Rightarrow> (int \<times> world) option" where
  "stp_param_reset_port_non_stp stack si mstid pidx w =
     zero_rc (stp_param_set_port_cfg_value stack si mstid pidx (PT_NON_STP False) w)"

definition stp_param_set_port_cfg_defaultvalue ::
  "UID_STP_PORT_CFG_T \<Rightarrow> int \<Rightarrow> nat \<Rightarrow> nat \<Rightarrow> world \<Rightarrow> (int \<times> world) option" where
  "stp_param_set_port_cfg_defaultvalue stack si mstid pidx w =
     do { (r1, w) \<leftarrow> stp_param_reset_port_priority stack si mstid pidx w;
          (r2, w) \<leftarrow> stp_param_reset_port_past_cost stack si mstid pidx w;
          (r3, w) \<leftarrow> stp_param_reset_port_edge stack si mstid pidx w;
          (r4, w) \<leftarrow> stp_param_reset_port_p2p stack si mstid pidx w;
          (r5, w) \<leftarrow> stp_param_reset_port_non_stp stack si mstid pidx w;
          Some (r1 + r2 + r3 + r4 + r5, w) }"

text \<open>The report on a port; a port that does not exist is reported with fixed values in the members that are
  set (\<open>entry\<close> is what the caller passed); an MSTI port whose CIST port is gone sets the first few of them. The two bytes of \<open>port_id\<close> are both 128.\<close>

definition stp_param_get_port_state :: "nat \<Rightarrow> nat \<Rightarrow> UID_STP_PORT_STATE_T \<Rightarrow> world \<Rightarrow> UID_STP_PORT_STATE_T" where
  "stp_param_get_port_state mstid pidx entry w =
     (case stp_port_mst_findport mstid pidx w of
        None \<Rightarrow> entry\<lparr>ups_port_id := 0x8080, ups_linkState := False, ups_path_cost := 2000000, ups_oper_point2point := 2,
                 ups_oper_edge := False, ups_role := DisabledPort, ups_state := UID_PORT_DISABLED\<rparr>
      | Some p \<Rightarrow> (case stp_mgmt_get_port_state p w of
          None \<Rightarrow> (let t = pheap w p in
                    entry\<lparr>ups_port_id := port_id t, ups_state := report_state t, ups_linkState := adminEnable t,
                        ups_path_cost := adminPCost t, ups_designated_root := root_bridge (portPrio t)\<rparr>)
        | Some r \<Rightarrow> r))"

subsection \<open>The VLANs of an instance\<close>

text \<open>\<open>qsort\<close> is called on an array of \<open>unsigned short\<close> with a comparison that reads an \<open>int\<close> at each element, that is the
  element and its successor in memory; the order it produces is therefore the parameter \<open>qsort\<close>.\<close>

definition stp_param_get_mstp_vlan_map_info :: "(nat list \<Rightarrow> nat list) \<Rightarrow> nat \<Rightarrow> world \<Rightarrow> nat list" where
  "stp_param_get_mstp_vlan_map_info qsort mstid w =
     (case stp_stpm_get_instance mstid w of
        None \<Rightarrow> []
      | Some b \<Rightarrow> let vs = filter (\<lambda>i. vmap_has i (br_vlan_map (bheap w b))) [1 ..< 4095] in
                if vs = [] then [] else qsort vs)"

definition stp_param_check_port_if_in_mst :: "(nat list \<Rightarrow> nat list) \<Rightarrow> nat \<Rightarrow> nat \<Rightarrow> world \<Rightarrow> int" where
  "stp_param_check_port_if_in_mst qsort mstid pidx w =
     (let index = (case stp_port_global_index_parse (platform w) pidx of None \<Rightarrow> 2 ^ 32 - 1 | Some i \<Rightarrow> i) in
      if list_ex (\<lambda>vid. stp_bitmap_get_bit (platform w) (g_VlanPBMP w vid) index \<noteq> 0)
           (stp_param_get_mstp_vlan_map_info qsort mstid w)
      then STP_OK else STP_Cannot_Find_Vlan)"

end
