(* ===== verification/StpSave.thy ===== *)
theory StpSave
  imports StpParam "HOL-Library.Multiset"
begin

text \<open>
  The text of the running configuration (the end of \<open>stp_param.c\<close>), which is read back as commands when the
  device starts. The lines are computed from the state; \<open>put_lines\<close> writes them and models the tests of the
  remaining space the code makes between them.
\<close>

subsection \<open>Formatting\<close>

text \<open>\<open>%d\<close> of a non-negative and of any number, \<open>%02x\<close>, \<open>%s\<close>.\<close>

definition chars :: "u8 list \<Rightarrow> string" where
  "chars bs = map (\<lambda>b. char_of (unat b)) bs"

definition fmt_nat :: "nat \<Rightarrow> string" where
  "fmt_nat n = chars (decimal n)"

definition fmt_int :: "int \<Rightarrow> string" where
  "fmt_int i = (if i < 0 then ''-'' @ fmt_nat (nat (- i)) else fmt_nat (nat i))"

definition fmt_hex :: "u8 list \<Rightarrow> string" where
  "fmt_hex bs = chars (concat (map (\<lambda>x. [hex_digit (drop_bit 4 x), hex_digit (x AND 0x0f)]) bs))"

definition fmt_str :: "u8 list \<Rightarrow> string" where
  "fmt_str bs = chars (takeWhile (\<lambda>b. b \<noteq> 0) bs)"

subsection \<open>Lines\<close>

text \<open>A line written without a test; one after which the function returns unless that many bytes remain; one that
  is skipped unless more than that many bytes remain.\<close>

datatype cfg_line = Always string | Margin nat string | Room nat string

primrec put_lines :: "nat \<Rightarrow> cfg_line list \<Rightarrow> string \<Rightarrow> bool \<times> string" where
  "put_lines buflen [] sofar = (True, sofar)"
| "put_lines buflen (l # ls) sofar =
     (case l of
        Always s \<Rightarrow> put_lines buflen ls (sofar @ s)
      | Margin k s \<Rightarrow>
          if length (sofar @ s) + k > buflen then (False, sofar @ s) else put_lines buflen ls (sofar @ s)
      | Room k s \<Rightarrow> put_lines buflen ls (if length sofar + k < buflen then sofar @ s else sofar))"

definition unless_default :: "bool \<Rightarrow> cfg_line \<Rightarrow> cfg_line list" where
  "unless_default d l = (if d then [] else [l])"

text \<open>\<open>None\<close>: the index has no panel port on this product.\<close>

definition panel_port :: "world \<Rightarrow> nat \<Rightarrow> string option" where
  "panel_port w pidx =
     (let (ok, slot, pno) = stp_bitmap_get_panelport_from_portindex (platform w) (of_nat pidx) (0, 0) in
      if ok then Some (''eth-port '' @ fmt_nat (unat slot) @ ''/'' @ fmt_nat (unat pno)) else None)"

subsection \<open>STP mode\<close>

definition stp_bridge_lines :: "STPM_T \<Rightarrow> cfg_line list" where
  "stp_bridge_lines s =
     [Always '' config spanning-tree stp\<newline>'', Always '' config spanning-tree enable\<newline>''] @
     unless_default (prio (BrId s) = DEF_BR_PRIO)
       (Always ('' config spanning-tree priority '' @ fmt_nat (unat (prio (BrId s))) @ ''\<newline>'')) @
     unless_default (MaxAge (BrTimes s) = DEF_BR_MAXAGE)
       (Always ('' config spanning-tree max-age '' @ fmt_nat (unat (MaxAge (BrTimes s))) @ ''\<newline>'')) @
     unless_default (ForwardDelay (BrTimes s) = DEF_BR_FWDELAY)
       (Always ('' config spanning-tree forward-delay '' @ fmt_nat (unat (ForwardDelay (BrTimes s))) @ ''\<newline>'')) @
     unless_default (HelloTime (BrTimes s) = DEF_BR_HELLOT)
       (Always ('' config spanning-tree hello-time '' @ fmt_nat (unat (HelloTime (BrTimes s))) @ ''\<newline>'')) @
     unless_default (ForceVersion s = NORMAL_RSTP)
       (Always ('' config spanning-tree force-version '' @ fmt_nat (version_num (ForceVersion s)) @ ''\<newline>''))"

definition stp_port_lines :: "world \<Rightarrow> nat \<Rightarrow> cfg_line list" where
  "stp_port_lines w pidx =
     (case (stp_info pidx w, panel_port w pidx) of
        (Some s, Some pp) \<Rightarrow>
          unless_default (\<not> sai_stpEnable s) (Always ('' config spanning-tree '' @ pp @ '' enable\<newline>'')) @
          unless_default (sai_prio s ! 0 = 128)
            (Always ('' config spanning-tree '' @ pp @ '' priority '' @ fmt_int (sint (sai_prio s ! 0)) @ ''\<newline>'')) @
          unless_default (sai_pathcost s ! 0 = ADMIN_PORT_PATH_COST_AUTO)
            (Always ('' config spanning-tree '' @ pp @ '' path-cost '' @ fmt_int (sint (sai_pathcost s ! 0)) @ ''\<newline>'')) @
          unless_default (sai_edge s) (Always ('' config spanning-tree '' @ pp @ '' edge no\<newline>'')) @
          unless_default (sai_p2p s = 2)
            (Always ('' config spanning-tree '' @ pp @ '' p2p '' @ (if sai_p2p s \<noteq> 0 then ''yes'' else ''no'') @ ''\<newline>'')) @
          unless_default (\<not> sai_nonstp s) (Always (''config spanning-tree '' @ pp @ '' none-stp yes\<newline>''))
      | _ \<Rightarrow> [])"

text \<open>The only test of the space is made before the first line, against a constant, and holds.\<close>

definition stp_param_save_stp_mode_cfg :: "world \<Rightarrow> string" where
  "stp_param_save_stp_mode_cfg w =
     (case g_CISTBRIDGE w of
        None \<Rightarrow> []
      | Some b \<Rightarrow>
          snd (put_lines 0 (stp_bridge_lines (bheap w b) @ concat (map (stp_port_lines w) [0 ..< PORT_INDEX_MAX]) @
                 [Always '' exit\<newline>'']) []))"

subsection \<open>MST mode\<close>

text \<open>\<open>%s\<close> of the name runs on into the members behind it when the name fills its array.\<close>

definition region_name :: "MST_CFG_ID_S \<Rightarrow> string" where
  "region_name c = fmt_str (ConfigurationName c @ RevisionLevel c @ ConfigurationDigest c)"

definition mst_bridge_lines :: "bool \<Rightarrow> STPM_T \<Rightarrow> cfg_line list" where
  "mst_bridge_lines big s =
     [Always '' config spanning-tree mst\<newline>'', Always '' config spanning-tree enable\<newline>''] @
     unless_default (region_name (MstConfigId s) = [] \<or> region_name (MstConfigId s) = ''000000000000'')
       (Always ('' config spanning-tree region-name '' @ region_name (MstConfigId s) @ ''\<newline>'')) @
     unless_default (short_at big (RevisionLevel (MstConfigId s)) = 0)
       (Always ('' config spanning-tree revision '' @ fmt_int (sint (short_at big (RevisionLevel (MstConfigId s)))) @ ''\<newline>'')) @
     unless_default (MaxAge (BrTimes s) = DEF_BR_MAXAGE)
       (Always ('' config spanning-tree max-age '' @ fmt_nat (unat (MaxAge (BrTimes s))) @ ''\<newline>'')) @
     unless_default (ForwardDelay (BrTimes s) = DEF_BR_FWDELAY)
       (Always ('' config spanning-tree forward-delay '' @ fmt_nat (unat (ForwardDelay (BrTimes s))) @ ''\<newline>'')) @
     unless_default (HelloTime (BrTimes s) = DEF_BR_HELLOT)
       (Always ('' config spanning-tree hello-time '' @ fmt_nat (unat (HelloTime (BrTimes s))) @ ''\<newline>'')) @
     unless_default (RemainingHops (BrTimes s) = DEF_REMAINING_HOPS)
       (Always ('' config spanning-tree max-hops '' @ fmt_nat (unat (RemainingHops (BrTimes s))) @ ''\<newline>'')) @
     [Margin 30 []]"

definition map_line :: "nat \<Rightarrow> nat \<Rightarrow> string" where
  "map_line v m = '' config spanning-tree map '' @ fmt_nat v @ '' instance '' @ fmt_nat m @ ''\<newline>''"

text \<open>The priority without the number of the instance, an unsigned difference printed with \<open>%d\<close>.\<close>

definition mst_prio :: "STPM_T \<Rightarrow> u32" where
  "mst_prio s = ucast (prio (BrId s)) - (0xfff AND of_nat (br_vlan_id s))"

definition mst_instance_lines :: "(nat list \<Rightarrow> nat list) \<Rightarrow> world \<Rightarrow> bref \<Rightarrow> cfg_line list" where
  "mst_instance_lines qsort w b =
     (let m = br_vlan_id (bheap w b) in
      (if m \<noteq> 0 then map (\<lambda>v. Margin 30 (map_line v m)) (stp_param_get_mstp_vlan_map_info qsort m w) else []) @
      unless_default (mst_prio (bheap w b) = 32768)
        (Margin 30 ('' config spanning-tree '' @ fmt_nat m @ '' priority '' @ fmt_int (sint (mst_prio (bheap w b))) @ ''\<newline>'')))"

text \<open>The values of a port per instance, only for instances below 64.\<close>

definition mst_port_instance_lines :: "stp_admin_infos \<Rightarrow> string \<Rightarrow> nat \<Rightarrow> cfg_line list" where
  "mst_port_instance_lines s pp m =
     (if m < 64
      then
        unless_default (sai_prio s ! m = 128)
          (Margin 53 ('' config spanning-tree '' @ fmt_int (sint (sai_mstid s ! m)) @ '' '' @ pp @ '' priority '' @
             fmt_int (sint (sai_prio s ! m)) @ ''\<newline>'')) @
        unless_default (sai_pathcost s ! m = ADMIN_PORT_PATH_COST_AUTO)
          (Margin 53 ('' config spanning-tree '' @ fmt_int (sint (sai_mstid s ! m)) @ '' '' @ pp @ '' path-cost '' @
             fmt_int (sint (sai_pathcost s ! m)) @ ''\<newline>''))
      else [])"

definition mst_port_lines :: "world \<Rightarrow> nat \<Rightarrow> cfg_line list" where
  "mst_port_lines w pidx =
     (case (stp_info pidx w, panel_port w pidx) of
        (Some s, Some pp) \<Rightarrow>
          unless_default (\<not> sai_stpEnable s) (Margin 30 ('' config spanning-tree '' @ pp @ '' enable\<newline>'')) @
          concat (map (\<lambda>b. mst_port_instance_lines s pp (br_vlan_id (bheap w b))) (bridges w)) @
          unless_default (sai_edge s) (Margin 44 ('' config spanning-tree '' @ pp @ '' edge no\<newline>'')) @
          unless_default (sai_p2p s = 2)
            (Margin 30 ('' config spanning-tree '' @ pp @ '' p2p '' @ (if sai_p2p s \<noteq> 0 then ''yes'' else ''no'') @ ''\<newline>'')) @
          unless_default (\<not> sai_nonstp s) (Margin 30 ('' config spanning-tree '' @ pp @ '' none-stp yes\<newline>''))
      | _ \<Rightarrow> [])"

text \<open>The digest configured by the user, if its first byte is not zero, and the ports that take the digest from
  their neighbour; the number of the panel port is printed even when there is none.\<close>

definition digest_lines :: "STPM_T \<Rightarrow> cfg_line list" where
  "digest_lines s =
     unless_default (br_digest s ! 0 = 0)
       (Room 48 ('' config spanning-tree digest '' @ fmt_hex (take 16 (br_digest s)) @ ''\<newline>''))"

definition snooping_line :: "world \<Rightarrow> pref \<Rightarrow> cfg_line list" where
  "snooping_line w p =
     unless_default (\<not> configDigestSnp (pheap w p))
       (Room 60 ('' config spanning-tree '' @
          (let (_, slot, pno) = stp_bitmap_get_panelport_from_portindex (platform w) (of_nat (port_index (pheap w p))) (0, 0) in
           ''eth-port '' @ fmt_nat (unat slot) @ ''/'' @ fmt_nat (unat pno)) @ '' digest-snooping enable\<newline>''))"

definition mst_lines :: "(nat list \<Rightarrow> nat list) \<Rightarrow> world \<Rightarrow> bref \<Rightarrow> cfg_line list" where
  "mst_lines qsort w b =
     mst_bridge_lines (big_endian w) (bheap w b) @
     concat (map (mst_instance_lines qsort w) (bridges w)) @
     concat (map (mst_port_lines w) [0 ..< PORT_INDEX_MAX]) @
     (case stp_stpm_get_instance STP_CIST_ID w of
        None \<Rightarrow> []
      | Some c \<Rightarrow> digest_lines (bheap w c) @ concat (map (snooping_line w) (ports (bheap w c)))) @
     [Always '' exit\<newline>'']"

definition stp_param_save_mstp_mode_cfg :: "(nat list \<Rightarrow> nat list) \<Rightarrow> nat \<Rightarrow> world \<Rightarrow> string" where
  "stp_param_save_mstp_mode_cfg qsort buflen w =
     (case g_CISTBRIDGE w of
        None \<Rightarrow> []
      | Some b \<Rightarrow> snd (put_lines buflen (mst_lines qsort w b) []))"

definition stp_param_save_running_cfg :: "(nat list \<Rightarrow> nat list) \<Rightarrow> nat \<Rightarrow> world \<Rightarrow> int \<times> string" where
  "stp_param_save_running_cfg qsort buflen w =
     (if \<not> g_flag w then (STP_NOT_ENABLED, [])
      else (0, case current_mode w of
                 STP_MODE \<Rightarrow> stp_param_save_stp_mode_cfg w
               | MST_MODE \<Rightarrow> stp_param_save_mstp_mode_cfg qsort buflen w
               | NOT_MODE \<Rightarrow> []))"


subsection \<open>Lengths\<close>

primrec line_text :: "cfg_line \<Rightarrow> string" where
  "line_text (Always s) = s"
| "line_text (Margin k s) = s"
| "line_text (Room k s) = s"

lemma decimal_length: "n < 10 ^ k \<Longrightarrow> 0 < k \<Longrightarrow> length (decimal n) \<le> k"
proof (induction n arbitrary: k rule: decimal.induct)
  case (1 n)
  show ?case
  proof (cases "n < 10")
    case True
    then show ?thesis using 1(3) by (simp add: decimal.simps [of n])
  next
    case False
    then have "k \<noteq> 1" using 1(2) by auto
    then obtain j where k: "k = Suc j" "0 < j" using 1(3) by (cases k) auto
    then have "n div 10 < 10 ^ j" using 1(2) by (simp add: less_mult_imp_div_less)
    then show ?thesis using 1(1) [OF False, of j] k False by (simp add: decimal.simps [of n])
  qed
qed

lemma fmt_nat_length: "n < 10 ^ k \<Longrightarrow> 0 < k \<Longrightarrow> length (fmt_nat n) \<le> k"
  by (simp add: fmt_nat_def chars_def decimal_length)

lemma fmt_int_length:
  assumes "\<bar>i\<bar> < 10 ^ k" and "0 < k"
  shows "length (fmt_int i) \<le> Suc k"
proof -
  have "nat \<bar>i\<bar> < 10 ^ k" using assms(1) by (simp add: nat_less_iff)
  then have "length (fmt_nat (nat \<bar>i\<bar>)) \<le> k" using assms(2) by (rule fmt_nat_length)
  then show ?thesis by (auto simp: fmt_int_def abs_if split: if_splits)
qed

lemma fmt_u8_length: "length (fmt_nat (unat (x :: u8))) \<le> 3"
  using unsigned_less [of x, where 'a = nat] by (intro fmt_nat_length) simp_all

lemma fmt_u16_length: "length (fmt_nat (unat (x :: u16))) \<le> 5"
  using unsigned_less [of x, where 'a = nat] by (intro fmt_nat_length) simp_all

lemma fmt_s32_length: "length (fmt_int (sint (x :: u32))) \<le> 11"
  using sint_range_size [of x] by (intro fmt_int_length [of _ 10, simplified]) (auto simp: word_size abs_if)

lemma fmt_s16_length: "length (fmt_int (sint (x :: u16))) \<le> 6"
  using sint_range_size [of x] by (intro fmt_int_length [of _ 5, simplified]) (auto simp: word_size abs_if)

lemma fmt_version_length: "length (fmt_nat (version_num v)) \<le> 1"
  by (intro fmt_nat_length) (cases v; simp)+

lemma panel_port_length: "panel_port w i = Some pp \<Longrightarrow> length pp \<le> 16"
  by (auto simp: panel_port_def Let_def split: prod.splits if_splits
      intro!: add_mono [where b = 3 and d = "3 :: nat", simplified] fmt_u8_length)

lemmas fmt_lengths = fmt_u8_length fmt_u16_length fmt_s32_length fmt_s16_length fmt_version_length

text \<open>Lines without tests are written one after the other.\<close>

lemma put_always:
  assumes "\<forall>l \<in> set ls. \<exists>s. l = Always s"
  shows "put_lines n ls sofar = (True, sofar @ concat (map line_text ls))"
  using assms by (induction ls arbitrary: sofar) auto

lemma concat_length_le: "\<forall>l \<in> set ls. length (line_text l) \<le> k \<Longrightarrow> length (concat (map line_text ls)) \<le> k * length ls"
  by (induction ls) auto

lemma unless_default_set: "l \<in> set (unless_default d k) \<longleftrightarrow> \<not> d \<and> l = k"
  by (simp add: unless_default_def)

lemma unless_default_length: "length (unless_default d k) \<le> 1"
  by (simp add: unless_default_def)

lemma stp_bridge_lines_short:
  "l \<in> set (stp_bridge_lines s) \<Longrightarrow> \<exists>t. l = Always t \<and> length t \<le> 61"
  using fmt_u16_length [of "prio (BrId s)"] fmt_u16_length [of "MaxAge (BrTimes s)"] fmt_u16_length [of "ForwardDelay (BrTimes s)"]
    fmt_u16_length [of "HelloTime (BrTimes s)"] fmt_version_length [of "ForceVersion s"]
  by (auto simp: stp_bridge_lines_def unless_default_set)

lemma stp_port_lines_short:
  assumes "l \<in> set (stp_port_lines w i)"
  shows "\<exists>t. l = Always t \<and> length t \<le> 61"
proof (cases "stp_info i w")
  case (Some s)
  then obtain pp where pp: "panel_port w i = Some pp" using assms by (cases "panel_port w i") (auto simp: stp_port_lines_def)
  then show ?thesis
    using assms Some panel_port_length [OF pp] fmt_s32_length [of "sai_prio s ! 0"] fmt_s32_length [of "sai_pathcost s ! 0"]
    by (auto simp: stp_port_lines_def unless_default_set)
qed (use assms in \<open>simp add: stp_port_lines_def\<close>)

lemma stp_lines_number:
  "length (stp_bridge_lines s) \<le> 7" "length (stp_port_lines w i) \<le> 6"
  by (auto simp: stp_bridge_lines_def stp_port_lines_def unless_default_def split: option.split)

lemma concat_number: "(\<And>x. length (f x) \<le> k) \<Longrightarrow> length (concat (map f xs)) \<le> k * length xs"
  by (induction xs) (simp_all add: add_mono)

text \<open>C28: In STP mode the code writes the text of the configuration without looking at the space that is left. It
  is nevertheless short enough for the buffer of \<open>STP_RUNNING_CFG_MEM\<close> bytes the caller provides, with its
  terminating zero, whatever the bridge and its ports are configured to.\<close>

theorem stp_cfg_fits: "length (stp_param_save_stp_mode_cfg w) < 4 * 1024 * 1024"
proof (cases "g_CISTBRIDGE w")
  case (Some b)
  define ls where "ls = stp_bridge_lines (bheap w b) @ concat (map (stp_port_lines w) [0 ..< PORT_INDEX_MAX]) @ [Always '' exit\<newline>'']"
  have short: "\<forall>l \<in> set ls. \<exists>t. l = Always t \<and> length t \<le> 61"
    using stp_bridge_lines_short stp_port_lines_short by (fastforce simp: ls_def)
  have "length ls \<le> 7 + 6 * 640 + 1"
    using stp_lines_number(1) [of "bheap w b"] concat_number [of "stp_port_lines w" 6 "[0 ..< PORT_INDEX_MAX]", OF stp_lines_number(2)]
    by (simp add: ls_def)
  moreover have "length (concat (map line_text ls)) \<le> 61 * length ls" using short by (intro concat_length_le) auto
  ultimately have "length (concat (map line_text ls)) < 4 * 1024 * 1024" by linarith
  moreover have "stp_param_save_stp_mode_cfg w = concat (map line_text ls)"
    using Some short put_always [of ls 0 "[]"] by (fastforce simp: stp_param_save_stp_mode_cfg_def ls_def)
  ultimately show ?thesis by simp
qed (simp add: stp_param_save_stp_mode_cfg_def)

subsection \<open>The buffer in MST mode\<close>

lemma put_append:
  "put_lines n (xs @ ys) sofar = (let (go, t) = put_lines n xs sofar in if go then put_lines n ys t else (False, t))"
  by (induction xs arbitrary: sofar) (auto split: cfg_line.split)

lemma put_margins:
  assumes "\<forall>l \<in> set ls. \<exists>k s. l = Margin k s \<and> 30 \<le> k \<and> length s \<le> 73" and "length sofar + 30 \<le> n"
  shows "(fst (put_lines n ls sofar) \<longrightarrow> length (snd (put_lines n ls sofar)) + 30 \<le> n) \<and> length (snd (put_lines n ls sofar)) \<le> n + 43"
  using assms
proof (induction ls arbitrary: sofar)
  case (Cons l ls)
  then obtain k s where l: "l = Margin k s" "30 \<le> k" "length s \<le> 73" by auto
  show ?case
  proof (cases "length (sofar @ s) + k > n")
    case False
    then have "length (sofar @ s) + 30 \<le> n" using l(2) by simp
    then show ?thesis using Cons.IH [of "sofar @ s"] Cons.prems(1) l False by simp
  qed (use l Cons.prems(2) in simp)
qed simp

lemma put_rooms:
  assumes "\<forall>l \<in> set ls. \<exists>k s. l = Room k s \<and> length s \<le> k + 14" and "length sofar \<le> n + 14"
  shows "fst (put_lines n ls sofar) \<and> length (snd (put_lines n ls sofar)) \<le> n + 14"
  using assms
proof (induction ls arbitrary: sofar)
  case (Cons l ls)
  then obtain k s where l: "l = Room k s" "length s \<le> k + 14" by auto
  then have "length (if length sofar + k < n then sofar @ s else sofar) \<le> n + 14" using Cons.prems(2) by auto
  then show ?case using Cons.IH Cons.prems(1) l(1) by simp
qed simp

text \<open>The sizes of the members that are printed.\<close>

definition cfg_sizes_ok :: "world \<Rightarrow> bref \<Rightarrow> bool" where
  "cfg_sizes_ok w b \<longleftrightarrow>
     length (ConfigurationName (MstConfigId (bheap w b))) = 32 \<and> length (RevisionLevel (MstConfigId (bheap w b))) = 2 \<and>
     length (ConfigurationDigest (MstConfigId (bheap w b))) = 16 \<and> (\<forall>c \<in> set (bridges w). br_vlan_id (bheap w c) \<le> STP_MSTI_MAX)"

lemma region_name_length:
  "cfg_sizes_ok w b \<Longrightarrow> length (region_name (MstConfigId (bheap w b))) \<le> 50"
  using length_takeWhile_le [of "\<lambda>b. b \<noteq> 0"]
  by (fastforce simp: cfg_sizes_ok_def region_name_def fmt_str_def chars_def intro: le_trans)

lemma map_line_length: "v < 10000 \<Longrightarrow> m < 100 \<Longrightarrow> length (map_line v m) \<le> 73"
  using fmt_nat_length [of v 4] fmt_nat_length [of m 2] by (simp add: map_line_def)

definition mst_bridge_text :: "bool \<Rightarrow> STPM_T \<Rightarrow> cfg_line list" where
  "mst_bridge_text big s = butlast (mst_bridge_lines big s)"

lemma mst_bridge_lines_split: "mst_bridge_lines big s = mst_bridge_text big s @ [Margin 30 []]"
  by (simp add: mst_bridge_text_def mst_bridge_lines_def butlast_append)

lemma mst_bridge_text_short:
  assumes "cfg_sizes_ok w b" and "l \<in> set (mst_bridge_text big (bheap w b))"
  shows "\<exists>t. l = Always t \<and> length t \<le> 85"
  using assms(2) region_name_length [OF assms(1)] fmt_s16_length [of "short_at big (RevisionLevel (MstConfigId (bheap w b)))"]
    fmt_u16_length [of "MaxAge (BrTimes (bheap w b))"] fmt_u16_length [of "ForwardDelay (BrTimes (bheap w b))"]
    fmt_u16_length [of "HelloTime (BrTimes (bheap w b))"] fmt_u8_length [of "RemainingHops (BrTimes (bheap w b))"]
  by (auto simp: mst_bridge_text_def mst_bridge_lines_def butlast_append unless_default_set)

lemma mst_bridge_text_number: "length (mst_bridge_text big s) \<le> 8"
  by (simp add: mst_bridge_text_def mst_bridge_lines_def unless_default_def)

abbreviation permutes :: "('a list \<Rightarrow> 'a list) \<Rightarrow> bool" where
  "permutes f \<equiv> \<forall>xs. mset (f xs) = mset xs"

lemma vlan_map_info_set:
  assumes "permutes qsort"
  shows "set (stp_param_get_mstp_vlan_map_info qsort m w) =
    (case stp_stpm_get_instance m w of None \<Rightarrow> {} | Some b \<Rightarrow> {v \<in> vids. vmap_has v (br_vlan_map (bheap w b))})"
proof -
  have q: "set (qsort xs) = set xs" for xs using assms by (metis set_mset_mset)
  have e: "set (let vs = filter P xs in if vs = [] then [] else qsort vs) = {v \<in> set xs. P v}" for P xs
    by (cases "filter P xs = []") (simp_all add: q filter_empty_conv del: filter_False)
  have "set [1 ..< 4095] = vids" by (auto simp: vids_def)
  then show ?thesis unfolding stp_param_get_mstp_vlan_map_info_def using e [of _ "[1 ..< 4095]"]
    by (cases "stp_stpm_get_instance m w") (simp_all only: option.case empty_set)
qed

text \<open>A port is in an instance when one of the VLANs mapped there has its bit; the order of the VLANs is irrelevant.\<close>

lemma check_port_if_in_mst:
  assumes "permutes qsort" and "vlan_ok w" and "stp_port_global_index_parse (platform w) i = Some j"
  shows "stp_param_check_port_if_in_mst qsort m i w = STP_OK \<longleftrightarrow>
    (\<exists>v \<in> vids. g_VID2MSTID w v = m \<and> stp_bitmap_get_bit (platform w) (g_VlanPBMP w v) j \<noteq> 0)"
proof -
  have "set (stp_param_get_mstp_vlan_map_info qsort m w) = {v \<in> vids. g_VID2MSTID w v = m}"
  proof (cases "stp_stpm_get_instance m w")
    case None
    then have "\<forall>c \<in> set (bridges w). inst_id w c \<noteq> m" using get_instance_in(2) by blast
    then show ?thesis using assms(2) by (auto simp: vlan_map_info_set [OF assms(1)] None vlan_ok_def vlan_at_def)
  next
    case (Some c)
    then show ?thesis using get_instance_in(1) [OF Some] assms(2)
      by (auto simp: vlan_map_info_set [OF assms(1)] vlan_ok_def vlan_at_def)
  qed
  then show ?thesis by (auto simp: stp_param_check_port_if_in_mst_def assms(3) list_ex_iff)
qed

text \<open>A name that fits its array is read back as it was written and leaves its neighbours alone; a longer one
  overwrites the revision level.\<close>

lemma region_name_written:
  assumes "length nm < 32" and "0 \<notin> set nm" and "length (RevisionLevel c) = 2" and "length (ConfigurationDigest c) = 16"
  shows "region_name (write_name nm c) = chars nm" "RevisionLevel (write_name nm c) = RevisionLevel c"
    "ConfigurationDigest (write_name nm c) = ConfigurationDigest c"
proof -
  have "takeWhile (\<lambda>b. b \<noteq> 0) (nm @ 0 # xs) = nm" for xs using assms(2) by (subst takeWhile_append2) auto
  moreover have "take (32 - length nm) (0 # xs) = 0 # take (31 - length nm) xs" for xs :: "u8 list" using assms(1) by (simp add: take_Cons')
  ultimately show "region_name (write_name nm c) = chars nm"
    using assms by (simp add: region_name_def fmt_str_def write_name_def overlay_def)
  show "RevisionLevel (write_name nm c) = RevisionLevel c" "ConfigurationDigest (write_name nm c) = ConfigurationDigest c"
    using assms by (simp_all add: write_name_def overlay_def drop_Cons')
qed

lemma long_name_overruns:
  assumes "length nm = 33" and "length (RevisionLevel c) = 2"
  shows "RevisionLevel (write_name nm c) = [nm ! 32, 0]"
proof -
  have "drop 32 nm = [nm ! 32]" using assms(1) Cons_nth_drop_Suc [of 32 nm] by simp
  then show ?thesis using assms by (simp add: write_name_def overlay_def take_Cons')
qed

definition short_margin :: "cfg_line \<Rightarrow> bool" where
  "short_margin l \<longleftrightarrow> (\<exists>k s. l = Margin k s \<and> 30 \<le> k \<and> length s \<le> 73)"

lemma short_margin_intro: "30 \<le> k \<Longrightarrow> length s \<le> 73 \<Longrightarrow> short_margin (Margin k s)"
  by (simp add: short_margin_def)

lemma mst_instance_lines_short:
  assumes "permutes qsort" and "br_vlan_id (bheap w c) \<le> STP_MSTI_MAX" and "l \<in> set (mst_instance_lines qsort w c)"
  shows "short_margin l"
proof -
  let ?m = "br_vlan_id (bheap w c)"
  consider v where "v \<in> vids" "l = Margin 30 (map_line v ?m)"
    | "l = Margin 30 ('' config spanning-tree '' @ fmt_nat ?m @ '' priority '' @ fmt_int (sint (mst_prio (bheap w c))) @ ''\<newline>'')"
    using assms(3) vlan_map_info_set [OF assms(1), of ?m w]
    by (auto simp: mst_instance_lines_def Let_def unless_default_set split: if_splits option.splits)
  then show ?thesis
  proof cases
    case 1
    then show ?thesis using map_line_length [of v ?m] assms(2) by (simp add: short_margin_def vids_def)
  next
    case 2
    then show ?thesis using fmt_nat_length [of ?m 2] assms(2) fmt_s32_length [of "mst_prio (bheap w c)"]
      by (simp add: short_margin_def)
  qed
qed

lemma mst_port_instance_lines_short:
  assumes "length pp \<le> 16" and "l \<in> set (mst_port_instance_lines s pp m)"
  shows "short_margin l"
  using assms fmt_s32_length [of "sai_mstid s ! m"] fmt_s32_length [of "sai_prio s ! m"] fmt_s32_length [of "sai_pathcost s ! m"]
  by (auto simp: mst_port_instance_lines_def unless_default_set split: if_splits intro!: short_margin_intro)

lemma mst_port_lines_short:
  assumes "l \<in> set (mst_port_lines w i)"
  shows "short_margin l"
proof (cases "stp_info i w")
  case (Some s)
  then obtain pp where pp: "panel_port w i = Some pp" using assms by (cases "panel_port w i") (auto simp: mst_port_lines_def)
  then show ?thesis
    using assms Some panel_port_length [OF pp] mst_port_instance_lines_short [of pp l s]
    by (auto simp: mst_port_lines_def unless_default_set intro: short_margin_intro)
qed (use assms in \<open>simp add: mst_port_lines_def\<close>)

lemma fmt_hex_length: "length (fmt_hex bs) = 2 * length bs"
  by (induction bs) (simp_all add: fmt_hex_def chars_def)

lemma digest_lines_short: "l \<in> set (digest_lines s) \<Longrightarrow> \<exists>k t. l = Room k t \<and> length t \<le> k + 14"
  by (auto simp: digest_lines_def unless_default_set fmt_hex_length)

lemma snooping_line_short:
  assumes "l \<in> set (snooping_line w p)"
  shows "\<exists>k t. l = Room k t \<and> length t \<le> k + 14"
proof -
  obtain ok slot pno where
    "stp_bitmap_get_panelport_from_portindex (platform w) (of_nat (port_index (pheap w p))) (0, 0) = (ok, slot, pno)"
    by (cases "stp_bitmap_get_panelport_from_portindex (platform w) (of_nat (port_index (pheap w p))) (0, 0)") auto
  then show ?thesis using assms fmt_u8_length [of slot] fmt_u8_length [of pno]
    by (simp add: snooping_line_def unless_default_set)
qed

text \<open>C29: In MST mode the code looks at the remaining space after each line it has written and leaves room for 30 bytes
  or more, but a line can be longer than that. The text never exceeds the buffer by more than 43 bytes, if the
  buffer has room for the 680 bytes the lines before the first test can take.\<close>

theorem mst_cfg_overshoot:
  assumes "permutes qsort" and "g_CISTBRIDGE w = Some b" and "cfg_sizes_ok w b"
  shows "length (stp_param_save_mstp_mode_cfg qsort n w) \<le> max 680 (n + 43)"
proof -
  define hd where "hd = mst_bridge_text (big_endian w) (bheap w b)"
  define ms where "ms = concat (map (mst_instance_lines qsort w) (bridges w)) @ concat (map (mst_port_lines w) [0 ..< PORT_INDEX_MAX])"
  define rs where "rs = (case stp_stpm_get_instance STP_CIST_ID w of None \<Rightarrow> []
    | Some c \<Rightarrow> digest_lines (bheap w c) @ concat (map (snooping_line w) (ports (bheap w c))))"
  let ?h = "concat (map line_text hd)"
  have lines: "mst_lines qsort w b = hd @ [Margin 30 []] @ ms @ rs @ [Always '' exit\<newline>'']"
    by (simp add: mst_lines_def mst_bridge_lines_split hd_def ms_def rs_def)
  have head: "\<forall>l \<in> set hd. \<exists>t. l = Always t \<and> length t \<le> 85" using mst_bridge_text_short [OF assms(3)] by (auto simp: hd_def)
  then have "length ?h \<le> 85 * length hd" by (intro concat_length_le) auto
  then have h: "length ?h \<le> 680" using mst_bridge_text_number [of "big_endian w" "bheap w b"] by (simp add: hd_def)
  have put: "put_lines n (hd @ ls) [] = put_lines n ls ?h" for ls
    using head put_always [of hd n "[]"] by (fastforce simp: put_append)
  have ms: "\<forall>l \<in> set ms. \<exists>k s. l = Margin k s \<and> 30 \<le> k \<and> length s \<le> 73"
    using mst_instance_lines_short [OF assms(1)] mst_port_lines_short assms(3)
    by (auto simp: ms_def cfg_sizes_ok_def short_margin_def)
  have rs: "\<forall>l \<in> set rs. \<exists>k s. l = Room k s \<and> length s \<le> k + 14"
    using digest_lines_short snooping_line_short by (fastforce simp: rs_def split: option.split)
  have "length (snd (put_lines n (ms @ rs @ [Always '' exit\<newline>'']) ?h)) \<le> n + 43" if "length ?h + 30 \<le> n"
    using put_margins [OF ms that] put_rooms [OF rs, of "snd (put_lines n ms ?h)" n]
    by (auto simp: put_append split_beta Let_def)
  then show ?thesis using assms(2) h by (auto simp: stp_param_save_mstp_mode_cfg_def lines put)
qed

subsection \<open>The VLAN mapping in the text\<close>

definition num_of :: "string \<Rightarrow> nat" where
  "num_of s = foldl (\<lambda>a c. 10 * a + (of_char c - 48)) 0 s"

lemma fmt_nat_unfold:
  "fmt_nat n = (if n < 10 then [char_of (n + 48)] else fmt_nat (n div 10) @ [char_of (n mod 10 + 48)])"
proof -
  have "unat (of_nat k + 48 :: u8) = k + 48" if "k < 10" for k
    using that by (simp add: unat_word_ariths(1) unsigned_of_nat take_bit_nat_eq_self)
  then show ?thesis by (simp add: fmt_nat_def chars_def decimal.simps [of n])
qed

lemma num_of_fmt_nat: "num_of (fmt_nat n) = n"
proof (induction n rule: decimal.induct)
  case (1 n)
  have "of_char (char_of (k + 48 :: nat) :: char) = k + (48 :: nat)" if "k < 10" for k using that by simp
  then show ?case using 1 by (subst fmt_nat_unfold) (simp add: num_of_def mult.commute [of 10])
qed

lemma fmt_nat_digits: "c \<in> set (fmt_nat n) \<Longrightarrow> of_char c \<in> {48 .. (57 :: nat)}"
proof (induction n rule: decimal.induct)
  case (1 n)
  then show ?case by (subst (asm) (2) fmt_nat_unfold) (auto split: if_splits)
qed

lemma fmt_nat_no_space: "takeWhile (\<lambda>c. c \<noteq> CHR '' '') (fmt_nat n @ CHR '' '' # s) = fmt_nat n"
proof -
  have "CHR '' '' \<notin> set (fmt_nat n)" using fmt_nat_digits [of "CHR '' ''" n] by auto
  then show ?thesis by (subst takeWhile_append2) auto
qed

lemma fmt_nat_first: "fmt_nat n \<noteq> CHR ''m'' # s" "fmt_nat n @ t \<noteq> CHR ''m'' # s"
proof -
  have "fmt_nat n \<noteq> []" by (subst fmt_nat_unfold) simp
  then obtain c cs where f: "fmt_nat n = c # cs" by (cases "fmt_nat n") auto
  then have "c \<noteq> CHR ''m''" using fmt_nat_digits [of c n] by auto
  then show "fmt_nat n \<noteq> CHR ''m'' # s" "fmt_nat n @ t \<noteq> CHR ''m'' # s" by (simp_all add: f)
qed

lemma map_line_inj: "map_line v m = map_line v' m' \<longleftrightarrow> v = v' \<and> m = m'"
proof
  assume e: "map_line v m = map_line v' m'"
  let ?r = "\<lambda>m. ''instance '' @ fmt_nat m @ ''\<newline>''"
  have e': "fmt_nat v @ CHR '' '' # ?r m = fmt_nat v' @ CHR '' '' # ?r m'" using e by (simp add: map_line_def)
  then have "fmt_nat v = fmt_nat v'" using fmt_nat_no_space by metis
  then have "v = v'" by (metis num_of_fmt_nat)
  moreover have "fmt_nat m = fmt_nat m'" using e' \<open>fmt_nat v = fmt_nat v'\<close> by simp
  then have "m = m'" by (metis num_of_fmt_nat)
  ultimately show "v = v' \<and> m = m'" by simp
qed simp

text \<open>A line for a VLAN is none of the others.\<close>

lemma map_line_other:
  "Margin k (map_line v m) \<notin> set (mst_port_lines w i)"
  "Margin k (map_line v m) \<notin> set (digest_lines s)"
  "Margin k (map_line v m) \<notin> set (snooping_line w p)"
  "Margin k (map_line v m) \<notin> set (mst_bridge_lines big s)"
proof -
  have i: "fmt_int j @ t \<noteq> CHR ''m'' # s" for j t s using fmt_nat_first(2) by (simp add: fmt_int_def)
  have pp: "panel_port w i = Some pp \<Longrightarrow> \<exists>t. pp = CHR ''e'' # t" for pp
    by (auto simp: panel_port_def Let_def split: prod.splits if_splits)
  have pi: "Margin k (map_line v m) \<notin> set (mst_port_instance_lines s pp j)" for s pp j
    using i [THEN not_sym] by (auto simp: mst_port_instance_lines_def unless_default_set map_line_def)
  show "Margin k (map_line v m) \<notin> set (mst_port_lines w i)"
  proof (cases "panel_port w i")
    case (Some p)
    then obtain t where "p = CHR ''e'' # t" using pp by blast
    then show ?thesis using Some pi
      by (cases "stp_info i w") (auto simp: mst_port_lines_def unless_default_set map_line_def)
  qed (simp add: mst_port_lines_def split: option.split)
qed (auto simp: digest_lines_def snooping_line_def mst_bridge_lines_def unless_default_set map_line_def)

lemma map_line_instance:
  assumes "permutes qsort"
  shows "Margin 30 (map_line v m) \<in> set (mst_instance_lines qsort w c) \<longleftrightarrow>
    m \<noteq> 0 \<and> inst_id w c = m \<and> v \<in> set (stp_param_get_mstp_vlan_map_info qsort m w)"
proof -
  have "map_line v m \<noteq> '' config spanning-tree '' @ fmt_nat j @ t" for j t
    using fmt_nat_first(2) [of j t, THEN not_sym] by (simp add: map_line_def)
  then have "Margin 30 (map_line v m) \<notin>
      set (unless_default d (Margin 30 ('' config spanning-tree '' @ fmt_nat j @ '' priority '' @ t)))" for d j t
    by (simp only: unless_default_set cfg_line.inject) blast
  then show ?thesis unfolding mst_instance_lines_def Let_def set_append Un_iff
    by (auto simp del: append.simps simp add: map_line_inj)
qed

lemma put_lines_text:
  assumes "fst (put_lines n ls sofar)" and "Margin k s \<in> set ls"
  shows "\<exists>pre post. snd (put_lines n ls sofar) = pre @ s @ post"
proof -
  obtain xs ys where ls: "ls = (xs @ [Margin k s]) @ ys" using assms(2) by (auto simp: in_set_conv_decomp)
  have ext: "\<exists>t. snd (put_lines n zs u) = u @ t" for zs u
  proof (induction zs arbitrary: u)
    case (Cons z zs)
    show ?case
    proof (cases z)
      case (Always x)
      then show ?thesis using Cons.IH [of "u @ x"] by auto
    next
      case (Margin j x)
      then show ?thesis using Cons.IH [of "u @ x"] by auto
    next
      case (Room j x)
      then show ?thesis using Cons.IH [of "u @ x"] Cons.IH [of u] by auto
    qed
  qed simp
  have "fst (put_lines n xs sofar)" "length (snd (put_lines n xs sofar) @ s) + k \<le> n"
    using assms(1) by (auto simp: ls put_append split_beta Let_def split: if_splits)
  then have "snd (put_lines n ls sofar) = snd (put_lines n ys (snd (put_lines n xs sofar) @ s))"
    by (simp add: ls put_append split_beta Let_def)
  then show ?thesis using ext [of ys "snd (put_lines n xs sofar) @ s"] by auto
qed

lemma map_line_in:
  "Margin 30 (map_line v m) \<in> set (mst_lines qsort w b) \<longleftrightarrow>
    (\<exists>c \<in> set (bridges w). Margin 30 (map_line v m) \<in> set (mst_instance_lines qsort w c))"
  using map_line_other [of 30 v m] by (cases "stp_stpm_get_instance STP_CIST_ID w") (simp_all add: mst_lines_def)


end
