(* ===== verification/StpReset.thy ===== *)
theory StpReset
  imports StpParam
begin

text \<open>
  What the setters of \<open>stp_param.c\<close> do to the configuration of the CIST, and the function that resets it.
\<close>

subsection \<open>Back to the defaults\<close>

text \<open>The values the validation looks at.\<close>

definition cfg_values :: "UID_STP_CFG_T \<Rightarrow> int \<times> int \<times> int \<times> int \<times> int" where
  "cfg_values c = (bridge_priority c, max_age c, hello_time c, forward_delay c, maxhops c)"

abbreviation (input) values_of :: "STPM_T \<Rightarrow> int \<times> int \<times> int \<times> int \<times> int" where
  "values_of s \<equiv> cfg_values (stp_in_stpm_get_cfg s)"

primrec value_into :: "bridge_value \<Rightarrow> int \<times> int \<times> int \<times> int \<times> int \<Rightarrow> int \<times> int \<times> int \<times> int \<times> int" where
  "value_into (BR_STATE v) x = x"
| "value_into (BR_PRIO v) x = (case x of (p, a, h, f, k) \<Rightarrow> (v, a, h, f, k))"
| "value_into (BR_AGE v) x = (case x of (p, a, h, f, k) \<Rightarrow> (p, v, h, f, k))"
| "value_into (BR_HELLO v) x = (case x of (p, a, h, f, k) \<Rightarrow> (p, a, v, f, k))"
| "value_into (BR_DELAY v) x = (case x of (p, a, h, f, k) \<Rightarrow> (p, a, h, v, k))"
| "value_into (BR_FORCE_VER v) x = x"
| "value_into (BR_MAX_HOPS v) x = (case x of (p, a, h, f, k) \<Rightarrow> (p, a, h, f, v))"

definition cist_valid :: "int \<times> int \<times> int \<times> int \<times> int \<Rightarrow> bool" where
  "cist_valid x = (case x of (p, a, h, f, k) \<Rightarrow>
     0 \<le> p \<and> p \<le> 61440 \<and> 6 \<le> k \<and> k \<le> 40 \<and> 1 \<le> h \<and> h \<le> 10 \<and> 6 \<le> a \<and> a \<le> 40 \<and> 4 \<le> f \<and> f \<le> 30 \<and>
     a \<le> 2 * (f - 1) \<and> 2 * (h + 1) \<le> a)"

lemma check_cist_valid: "stp_in_check_stpm_config c STP_CIST_ID = 0 \<longleftrightarrow> cist_valid (cfg_values c)"
  by (simp add: stp_in_check_stpm_config_def cist_valid_def cfg_values_def)

lemma bridge_cfg_mask:
  "asks BR_CFG_STATE (field_mask (bridge_cfg v)) \<longleftrightarrow> (\<exists>x. v = BR_STATE x)"
  by (cases v) (simp_all add: asks_def zero_cfg_def)

lemma merge_value: "cfg_values (merge_cfg (bridge_cfg v) c) = value_into v (cfg_values c)"
  by (cases v) (simp_all add: merge_cfg_def cfg_values_def asks_def zero_cfg_def)

declare bridge_cfg.simps [simp del]

lemma store_values:
  assumes "cist_valid (cfg_values c)"
  shows "values_of (store_cfg c s) =
    (uint ((prio (BrId s) AND 0xfff) + (of_int (fst (cfg_values c)) AND 0xf000)), snd (cfg_values c))"
  using assms by (simp add: cist_valid_def cfg_values_def store_cfg_def stp_in_stpm_get_cfg_def uint_of_int_small)

text \<open>What one request does: it is stored if the resulting configuration is valid, and changes nothing otherwise.\<close>

lemma set_value_cfgs:
  fixes c
  assumes "\<not> (\<exists>x. v = BR_STATE x)" and run: "stp_in_stpm_set_cfg (Some c) (bridge_cfg v) w = Some (rc, w')"
  defines "want \<equiv> merge_cfg (bridge_cfg v) (stp_in_stpm_get_cfg (bheap w c))"
  defines "ok \<equiv> stp_in_check_stpm_config want (br_vlan_id (bheap w c)) = 0"
  shows "cfg_of (bheap w' d) = cfg_of (if ok \<and> d = c then store_cfg want (bheap w c) else bheap w d)"
    and "bridges w' = bridges w"
proof -
  let ?w = "ask_mcheck c (bridge_cfg v) w"
  have bh: "bheap ?w = bheap w" "bridges ?w = bridges w" by (simp_all add: ask_mcheck_def)
  have off: "\<not> asks BR_CFG_STATE (field_mask (bridge_cfg v))" using assms(1) by (simp add: bridge_cfg_mask)
  have "cfg_of (bheap w' d) = cfg_of (if ok \<and> d = c then store_cfg want (bheap w c) else bheap w d) \<and> bridges w' = bridges w"
  proof (cases ok)
    case True
    then have ap: "apply_cfg c (bridge_cfg v) want ?w = Some (rc, w')"
      using run off by (simp add: stp_in_stpm_set_cfg_def Let_def bh want_def ok_def)
    then have "rc = 0" using off by (auto simp: apply_cfg_def Let_def split: if_splits)
    then have "cfgs w' = cfgs (updb c (store_cfg want) ?w)" using ap cfgs_apply [of c "bridge_cfg v" want ?w w'] by simp
    then have "cfg_of (bheap w' d) = cfg_of (bheap (updb c (store_cfg want) ?w) d)" by (auto simp: cfgs_def fun_eq_iff)
    moreover have "shape w' = shape (updb c (store_cfg want) ?w)"
      using ap off mst_update_shape [of None "stp_stpm_update_after_bridge_management c (updb c (store_cfg want) ?w)" w']
      by (auto simp: apply_cfg_def Let_def stp_stpm_update_after_bridge_management_def shape_simps pshape_simps split: if_splits)
    ultimately show ?thesis using True by (simp add: shape_def bh)
  next
    case False
    then show ?thesis using run bh by (simp add: stp_in_stpm_set_cfg_def Let_def want_def ok_def)
  qed
  then show "cfg_of (bheap w' d) = cfg_of (if ok \<and> d = c then store_cfg want (bheap w c) else bheap w d)"
    and "bridges w' = bridges w" by blast+
qed

lemma cfg_of_values: "cfg_of s = cfg_of s' \<Longrightarrow> values_of s = values_of s' \<and> br_vlan_id s = br_vlan_id s'"
  by (simp add: cfg_of_def cfg_values_def stp_in_stpm_get_cfg_def)

lemma set_value_cist:
  assumes "br_vlan_id (bheap w b) = STP_CIST_ID" and "\<not> (\<exists>x. v = BR_STATE x)"
    and "stp_in_stpm_set_cfg (Some b) (bridge_cfg v) w = Some (rc, w')"
    and "prio (BrId (bheap w b)) AND 0xfff = 0"
  defines "x \<equiv> value_into v (values_of (bheap w b))"
  shows "values_of (bheap w' b) =
      (if cist_valid x then (uint (of_int (fst x) AND 0xf000 :: u16), snd x) else values_of (bheap w b)) \<and>
    bridges w' = bridges w \<and> br_vlan_id (bheap w' b) = STP_CIST_ID \<and> prio (BrId (bheap w' b)) AND 0xfff = 0"
proof -
  let ?want = "merge_cfg (bridge_cfg v) (stp_in_stpm_get_cfg (bheap w b))"
  note e = set_value_cfgs [OF assms(2,3)]
  have x: "cfg_values ?want = x" by (simp add: x_def merge_value)
  have c: "cfg_of (bheap w' b) = cfg_of (if cist_valid x then store_cfg ?want (bheap w b) else bheap w b)"
    using e(1) [of b] by (simp add: assms(1) check_cist_valid x)
  have low: "((y AND 0xf000 :: u16)) AND 0xfff = 0" for y by (simp add: and.assoc)
  show ?thesis
  proof (cases "cist_valid x")
    case True
    then have c': "cfg_of (bheap w' b) = cfg_of (store_cfg ?want (bheap w b))" using c by simp
    have "prio (BrId (bheap w' b)) = of_int (bridge_priority ?want) AND 0xf000"
      using c' assms(4) by (simp add: cfg_of_def store_cfg_def)
    moreover have "br_vlan_id (bheap w' b) = STP_CIST_ID" using c' assms(1) by (simp add: cfg_of_def store_cfg_def)
    moreover have "values_of (bheap w' b) = values_of (store_cfg ?want (bheap w b))" using cfg_of_values [OF c'] by blast
    moreover have "values_of (store_cfg ?want (bheap w b)) = (uint (of_int (fst x) AND 0xf000 :: u16), snd x)"
      using store_values [of ?want "bheap w b"] True assms(4) unfolding x by simp
    ultimately show ?thesis using True low e(2) by simp
  next
    case False
    then show ?thesis using c cfg_of_values [of "bheap w' b" "bheap w b"] assms(1,4) e(2) by (auto simp: cfg_of_def)
  qed
qed

text \<open>The steps of the reset, for the CIST.\<close>

definition cist_at :: "bref \<Rightarrow> world \<Rightarrow> bool" where
  "cist_at b w \<longleftrightarrow> (\<exists>bs. bridges w = b # bs \<and> b \<notin> set bs) \<and> br_vlan_id (bheap w b) = STP_CIST_ID \<and>
     prio (BrId (bheap w b)) AND 0xfff = 0"

lemma cist_at_instance: "cist_at b w \<Longrightarrow> stp_stpm_get_instance STP_CIST_ID w = Some b"
  by (auto simp: cist_at_def stp_stpm_get_instance_def)

lemma uint_and_prio: "uint (x AND 0xf000 :: u16) = uint x" if "x AND 0xfff = 0" for x :: u16
proof -
  have "(x AND 0xf000) + (0x0fff AND x) = x" by (rule priority_split)
  then show ?thesis using that by (simp add: and.commute)
qed

lemma set_bridge_value_effect:
  assumes "cist_at b w" and "\<not> (\<exists>x. v = BR_STATE x)" and "\<not> (\<exists>x. v = BR_MAX_HOPS x)"
    and "stp_param_set_bridge_cfg_value si STP_CIST_ID v w = Some (rc, w')"
  defines "x \<equiv> value_into v (values_of (bheap w b))"
  shows "cist_at b w' \<and> values_of (bheap w' b) =
      (if cist_valid x then (uint (of_int (fst x) AND 0xf000 :: u16), snd x) else values_of (bheap w b))"
proof -
  obtain rc' where "stp_in_stpm_set_cfg (Some b) (bridge_cfg v) w = Some (rc', w')"
    using assms(2-4) cist_at_instance [OF assms(1)]
    by (cases v) (auto simp: stp_param_set_bridge_cfg_value_def split: bind_splits)
  from set_value_cist [OF _ assms(2) this] show ?thesis using assms(1) by (auto simp: cist_at_def x_def)
qed

lemma set_list_others:
  assumes "set_cfg_list (bridge_cfg (BR_MAX_HOPS k)) cs rc w = Some (rc', w')" and "b \<notin> set cs"
  shows "cfg_of (bheap w' b) = cfg_of (bheap w b) \<and> bridges w' = bridges w"
  using assms
proof (induction cs arbitrary: rc w)
  case (Cons c cs)
  obtain r u where u: "stp_in_stpm_set_cfg (Some c) (bridge_cfg (BR_MAX_HOPS k)) w = Some (r, u)"
    and n: "(if r \<noteq> 0 then Some (r, u) else set_cfg_list (bridge_cfg (BR_MAX_HOPS k)) cs r u) = Some (rc', w')"
    using Cons.prems(1) by (auto split: bind_splits)
  have "cfg_of (bheap u b) = cfg_of (bheap w b)" "bridges u = bridges w"
    using set_value_cfgs(1) [OF _ u, where d = b] set_value_cfgs(2) [OF _ u] Cons.prems(2) by auto
  then show ?case using n Cons.IH [of r u] Cons.prems(2) by (cases "r = 0") auto
qed simp

lemma set_hops_effect:
  assumes "cist_at b w" and "stp_param_set_bridge_cfg_value si STP_CIST_ID (BR_MAX_HOPS k) w = Some (rc, w')"
  defines "x \<equiv> value_into (BR_MAX_HOPS k) (values_of (bheap w b))"
  shows "cist_at b w' \<and> values_of (bheap w' b) =
      (if cist_valid x then (uint (of_int (fst x) AND 0xf000 :: u16), snd x) else values_of (bheap w b))"
proof -
  obtain bs where bs: "bridges w = b # bs" "b \<notin> set bs" using assms(1) by (auto simp: cist_at_def)
  obtain r u where u: "stp_in_stpm_set_cfg (Some b) (bridge_cfg (BR_MAX_HOPS k)) w = Some (r, u)"
    and n: "r \<noteq> 0 \<and> w' = u \<or> (\<exists>r'. set_cfg_list (bridge_cfg (BR_MAX_HOPS k)) bs r u = Some (r', w'))"
    using assms(2) bs(1) by (auto simp: stp_param_set_bridge_cfg_value_def split: bind_splits if_splits)
  have a: "values_of (bheap u b) = (if cist_valid x then (uint (of_int (fst x) AND 0xf000 :: u16), snd x) else values_of (bheap w b)) \<and>
      bridges u = bridges w \<and> br_vlan_id (bheap u b) = STP_CIST_ID \<and> prio (BrId (bheap u b)) AND 0xfff = 0"
    unfolding x_def using assms(1) u by (intro set_value_cist) (auto simp: cist_at_def)
  moreover have "cfg_of (bheap w' b) = cfg_of (bheap u b) \<and> bridges w' = bridges u"
    using n set_list_others [of k bs r u _ w' b] bs(2) by auto
  ultimately show ?thesis using bs cfg_of_values [of "bheap w' b" "bheap u b"] by (auto simp: cist_at_def cfg_of_def)
qed

lemma nocfg_values:
  assumes "cist_at b w" and "cist_valid (values_of (bheap w b))" and "stp_param_set_bridge_nocfg si STP_CIST_ID w = Some (rc, w')"
  defines "old \<equiv> stp_in_stpm_get_cfg (bheap w b)"
  shows "values_of (bheap w' b) = (32768, 20, 2, if max_age old \<le> 28 then 15 else forward_delay old, 20)"
proof -
  obtain r1 w1 r2 w2 r3 w3 r4 w4 r5 w5 where
    s: "stp_param_set_bridge_cfg_value si STP_CIST_ID (BR_PRIO 32768) w = Some (r1, w1)"
       "stp_param_set_bridge_cfg_value si STP_CIST_ID (BR_DELAY 15) w1 = Some (r2, w2)"
       "stp_param_set_bridge_cfg_value si STP_CIST_ID (BR_HELLO 2) w2 = Some (r3, w3)"
       "stp_param_set_bridge_cfg_value si STP_CIST_ID (BR_AGE 20) w3 = Some (r4, w4)"
       "stp_param_set_bridge_cfg_value si STP_CIST_ID (BR_MAX_HOPS 20) w4 = Some (r5, w5)"
    and v: "w' = w5 \<or> (\<exists>x r6. stp_param_set_bridge_cfg_value si STP_CIST_ID (BR_FORCE_VER x) w5 = Some (r6, w'))"
    using assms(3) unfolding stp_param_set_bridge_nocfg_def stp_param_reset_bridge_priority_def stp_param_reset_bridge_fdelay_def
      stp_param_reset_bridge_hello_time_def stp_param_reset_bridge_maxage_def stp_param_reset_bridge_max_hops_def
      stp_param_reset_bridge_fvers_def
    by (auto split: bind_splits RUNNING_MODE.splits) blast+
  obtain p a h f k where x: "values_of (bheap w b) = (p, a, h, f, k)" by (cases "values_of (bheap w b)") auto
  let ?f = "if a \<le> 28 then 15 else f"
  have val: "cist_valid (p, a, h, f, k)" using assms(2) x by simp
  have "cist_at b w1 \<and> values_of (bheap w1 b) = (32768, a, h, f, k)"
    using set_bridge_value_effect [OF assms(1) _ _ s(1)] val by (simp add: x cist_valid_def)
  moreover from this have "cist_at b w2 \<and> values_of (bheap w2 b) = (32768, a, h, ?f, k)"
    using set_bridge_value_effect [OF _ _ _ s(2)] val by (auto simp: cist_valid_def)
  moreover from this have "cist_at b w3 \<and> values_of (bheap w3 b) = (32768, a, 2, ?f, k)"
    using set_bridge_value_effect [OF _ _ _ s(3)] val by (auto simp: cist_valid_def)
  moreover from this have "cist_at b w4 \<and> values_of (bheap w4 b) = (32768, 20, 2, ?f, k)"
    using set_bridge_value_effect [OF _ _ _ s(4)] val by (auto simp: cist_valid_def)
  moreover from this have w5: "cist_at b w5 \<and> values_of (bheap w5 b) = (32768, 20, 2, ?f, 20)"
    using set_hops_effect [OF _ s(5)] val by (auto simp: cist_valid_def)
  moreover from this have "values_of (bheap w' b) = (32768, 20, 2, ?f, 20)"
    using v set_bridge_value_effect [of b w5 "BR_FORCE_VER _" si _ w'] by auto
  moreover have "max_age old = a" "forward_delay old = f" using x by (simp_all add: cfg_values_def old_def)
  ultimately show ?thesis by simp
qed

text \<open>While the protocol is off no machine runs, and every request returns.\<close>

definition all_off :: "world \<Rightarrow> bool" where
  "all_off w \<longleftrightarrow> (\<forall>c \<in> set (bridges w). admin_state (bheap w c) = STP_DISABLED)"

lemma set_cfg_off:
  assumes "all_off w" and "c \<in> set (bridges w)" and "\<not> (\<exists>x. v = BR_STATE x)"
  shows "\<exists>rc w'. stp_in_stpm_set_cfg (Some c) (bridge_cfg v) w = Some (rc, w') \<and> all_off w' \<and> bridges w' = bridges w"
proof -
  have "bheap (ask_mcheck c (bridge_cfg v) w) = bheap w" "bridges (ask_mcheck c (bridge_cfg v) w) = bridges w"
    by (simp_all add: ask_mcheck_def)
  then show ?thesis using assms
    by (auto simp: stp_in_stpm_set_cfg_def Let_def apply_cfg_def bridge_cfg_mask all_off_def store_cfg_def)
qed

lemma set_list_off:
  assumes "all_off w" and "set cs \<subseteq> set (bridges w)"
  shows "\<exists>rc' w'. set_cfg_list (bridge_cfg (BR_MAX_HOPS k)) cs rc w = Some (rc', w') \<and> all_off w'"
  using assms
proof (induction cs arbitrary: rc w)
  case (Cons c cs)
  then obtain r u where "stp_in_stpm_set_cfg (Some c) (bridge_cfg (BR_MAX_HOPS k)) w = Some (r, u)" "all_off u" "bridges u = bridges w"
    using set_cfg_off [of w c "BR_MAX_HOPS k"] by auto
  then show ?case using Cons.IH [of u r] Cons.prems(2) by auto
qed simp

lemma set_value_off:
  assumes "all_off w" and "\<not> (\<exists>x. v = BR_STATE x)"
  shows "\<exists>rc w'. stp_param_set_bridge_cfg_value si m v w = Some (rc, w') \<and> all_off w'"
proof (cases "\<exists>k. v = BR_MAX_HOPS k")
  case True
  then obtain k where k: "v = BR_MAX_HOPS k" by blast
  obtain r u where "set_cfg_list (bridge_cfg v) (bridges w) si w = Some (r, u)" "all_off u"
    unfolding k using set_list_off [OF assms(1) subset_refl] by blast
  then show ?thesis by (simp add: stp_param_set_bridge_cfg_value_def k)
next
  case False
  have "stp_param_set_bridge_cfg_value si m v w =
      map_option (\<lambda>(rc, w). (if rc \<noteq> 0 then rc else si, w))
        (case stp_stpm_get_instance m w of None \<Rightarrow> Some (STP_Vlan_Had_Not_Yet_Been_Created, w)
         | Some b \<Rightarrow> stp_in_stpm_set_cfg (Some b) (bridge_cfg v) w)"
    using False by (cases v) (auto simp: stp_param_set_bridge_cfg_value_def map_option_case split: option.split)
  then show ?thesis using set_cfg_off [OF assms(1) _ assms(2)] get_instance_in(1) [of m w] assms(1)
    by (cases "stp_stpm_get_instance m w") fastforce+
qed


end
