(* ===== verification/StpScenes.thy ===== *)
theory StpScenes
  imports StpRoundtrip StpStpm StpSttrans
begin

text \<open>
  Concrete situations: a bridge with the CIST and one MSTI and one switch port (index 1) that both
  instances have. Every property with hypotheses is applied to such a situation.
\<close>

subsection \<open>A small bridge\<close>

definition scene_id :: "u16 \<Rightarrow> BRIDGE_ID" where
  "scene_id n = \<lparr>prio = n, addr = [0, 0x1f, 0x64, 1, 2, 3]\<rparr>"

definition scene_times :: TIMEVALUES_T where
  "scene_times = \<lparr>MessageAge = 0, MaxAge = 20, ForwardDelay = 15, HelloTime = 2, RemainingHops = 20\<rparr>"

definition scene_vector :: PRIO_VECTOR_T where
  "scene_vector = stp_vector_create (scene_id 0x1000) 20000 (scene_id 0x1000) 0 (scene_id 0x1000) 0x8001 0x8001"

definition scene_cist :: STPM_T where
  "scene_cist = zero_stpm\<lparr>ports := [0], ForceVersion := NORMAL_MSTP, BrId := scene_id 0x8000,
     BrTimes := scene_times, rootTimes := scene_times, admin_state := STP_ENABLED\<rparr>"

definition scene_msti :: STPM_T where
  "scene_msti = scene_cist\<lparr>ports := [1], br_vlan_id := 1, BrId := scene_id 0x8001\<rparr>"

definition scene_port :: PORT_T where
  "scene_port = zero_port\<lparr>nextMst := [1], owner := 0, port_index := 1, port_id := 0x8001,
     portPrio := scene_vector, portTimes := scene_times, portEnabled := True, adminEnable := True,
     selected := True, operPointToPointMac := True, sendRSTP := True, infoIs := Received\<rparr>"

definition scene_mport :: PORT_T where
  "scene_mport = scene_port\<lparr>nextMst := [], owner := 1, p_vlan_id := 1,
     portPrio := scene_vector\<lparr>region_root_bridge := scene_id 0x8001\<rparr>,
     p_vlan_map := zero_vlan_map\<lparr>ulcount := 1\<rparr>\<rparr>"

definition scene :: world where
  "scene = init_world\<lparr>pheap := (\<lambda>_. zero_port)(0 := scene_port, 1 := scene_mport),
     bheap := (\<lambda>_. zero_stpm)(0 := scene_cist, 1 := scene_msti), next_pref := 2, next_bref := 2,
     bridges := [0, 1], g_CISTBRIDGE := Some 0, g_CISTPORT := (\<lambda>_. None)(1 := Some 0),
     platform := \<lparr>productId = PRODUCT_ID_AX5K_E, stp_is_distributed = False, stp_slot_id = 0\<rparr>,
     g_flag := True\<rparr>"

lemma scene_simps [simp]:
  "pheap scene 0 = scene_port" "pheap scene (Suc 0) = scene_mport" "bheap scene 0 = scene_cist"
  "bheap scene (Suc 0) = scene_msti" "bridges scene = [0, 1]" "g_CISTBRIDGE scene = Some 0"
  "g_CISTPORT scene i = (if i = 1 then Some 0 else None)" "next_pref scene = 2" "next_bref scene = 2"
  "platform scene = \<lparr>productId = PRODUCT_ID_AX5K_E, stp_is_distributed = False, stp_slot_id = 0\<rparr>"
  "g_flag scene" "out scene = []" "sysMac scene = replicate 6 0" "g_curBPDU scene = g_curBPDU init_world"
  by (simp_all add: scene_def init_world_def)

lemma scene_objects [simp]:
  "ports scene_cist = [0]" "ports scene_msti = [Suc 0]" "br_vlan_id scene_cist = 0" "br_vlan_id scene_msti = 1"
  "ForceVersion scene_cist = NORMAL_MSTP" "ForceVersion scene_msti = NORMAL_MSTP"
  "BrId scene_cist = scene_id 0x8000" "BrId scene_msti = scene_id 0x8001"
  "rootTimes scene_cist = scene_times" "rootTimes scene_msti = scene_times" "admin_state scene_cist = STP_ENABLED"
  "admin_state scene_msti = STP_ENABLED" "nextMst scene_port = [Suc 0]" "nextMst scene_mport = []" "owner scene_port = 0"
  "owner scene_mport = Suc 0" "port_index scene_port = Suc 0" "port_index scene_mport = Suc 0" "port_id scene_port = 0x8001"
  "port_id scene_mport = 0x8001" "portPrio scene_port = scene_vector"
  "portPrio scene_mport = scene_vector\<lparr>region_root_bridge := scene_id 0x8001\<rparr>"
  "portTimes scene_port = scene_times" "portTimes scene_mport = scene_times" "p_vlan_id scene_port = 0"
  "p_vlan_id scene_mport = 1" "portEnabled scene_port" "adminEnable scene_port" "selected scene_port"
  "\<not> updtInfo scene_port" "\<not> admin_non_stp scene_port" "\<not> configDigestSnp scene_port" "infoIs scene_port = Received"
  "\<not> learn scene_port" "\<not> forward scene_port" "\<not> learning scene_port" "\<not> forwarding scene_port"
  "\<not> rcvdInternal scene_port" "txCount scene_port = 0" "skip_tx scene_port = 0" "helloWhen scene_port = 0"
  "role scene_port = DisabledPort" "selectedRole scene_port = DisabledPort" "MstConfigId scene_cist = MstConfigId zero_stpm"
  "roletrns scene_port = stp_statmch_create RT_BEGIN" "sttrans scene_port = stp_statmch_create ST_BEGIN"
  "transmit scene_port = stp_statmch_create TX_BEGIN" "info scene_port = stp_statmch_create INFO_BEGIN"
  "rolesel scene_cist = stp_statmch_create RS_BEGIN" "ulcount (p_vlan_map scene_mport) = 1"
  "msgTimes scene_port = zero_times" "operPCost scene_port = 0" "infoInternal scene_port = False"
  by (simp_all add: scene_cist_def scene_msti_def scene_port_def scene_mport_def zero_stpm_def zero_port_def)

lemma scene_values [simp]:
  "prio (scene_id n) = n" "addr (scene_id n) = [0, 0x1f, 0x64, 1, 2, 3]" "bridge_ok (scene_id n)"
  "HelloTime scene_times = 2" "ForwardDelay scene_times = 15" "MaxAge scene_times = 20" "MessageAge scene_times = 0"
  "RemainingHops scene_times = 20"
  "root_bridge scene_vector = scene_id 0x1000" "region_root_bridge scene_vector = scene_id 0x1000"
  "design_bridge scene_vector = scene_id 0x1000" "root_path_cost scene_vector = 20000"
  "region_root_path_cost scene_vector = 0" "design_port scene_vector = 0x8001" "bridge_port scene_vector = 0x8001"
  by (simp_all add: scene_id_def scene_times_def scene_vector_def stp_vector_create_def bridge_ok_def)

lemma scene_find [simp]:
  "stp_port_global_index_parse \<lparr>productId = PRODUCT_ID_AX5K_E, stp_is_distributed = False, stp_slot_id = 0\<rparr> i = Some i"
  "stp_port_mst_findport 0 (Suc 0) scene = Some 0"
  "stp_port_mst_findport (Suc 0) (Suc 0) scene = Some (Suc 0)"
  by (simp_all add: stp_port_global_index_parse_def stp_port_mst_findport_def au3k_family_def)

subsection \<open>State transitions and roles\<close>

definition pend :: "'s \<Rightarrow> 's STATE_MACH_T" where
  "pend s = \<lparr>changeState = True, State = s\<rparr>"

lemma pend_simps [simp]: "changeState (pend s)" "State (pend s) = s"
  by (simp_all add: pend_def)

theorem sttrans_settles_witness:
  "\<exists>w' n. stp_statmch_change_state (sttrans_machine 0) 0
      (upd 0 (\<lambda>t. t\<lparr>sttrans := pend DISCARDING, learn := True, forward := True\<rparr>) scene) = Some (w', n) \<and> n \<le> 5 \<and>
    State (sttrans (pheap w' 0)) = FORWARDING \<and> learning (pheap w' 0) \<and> forwarding (pheap w' 0)"
  using sttrans_settles [of "upd 0 (\<lambda>t. t\<lparr>sttrans := pend DISCARDING, learn := True, forward := True\<rparr>) scene" 0]
  by (simp add: sttrans_ok_def ordered_state_def)

theorem roletrns_returns_witness:
  "\<exists>w' n. stp_statmch_change_state (roletrns_machine 0) 0
      (upd 0 (\<lambda>t. t\<lparr>roletrns := pend ACTIVE_PORT, selectedRole := RootPort\<rparr>) scene) = Some (w', n) \<and> n \<le> 1810 \<and>
    \<not> changeState (roletrns (pheap w' 0)) \<and> (forward (pheap w' 0) \<longrightarrow> learn (pheap w' 0))"
  by (rule roletrns_returns) (simp_all add: roletrns_ok_def orders_ok_def roletrns_fd_def)

theorem roletrns_blocks_witness:
  "\<exists>w' n. stp_statmch_change_state (roletrns_machine 0) 0
      (fst (stp_statmch_check_condition (roletrns_machine 0)
        (upd 0 (\<lambda>t. t\<lparr>roletrns := stp_statmch_create ACTIVE_PORT, role := RootPort, selectedRole := AlternatePort,
          learn := True, forward := True\<rparr>) scene))) = Some (w', n) \<and>
    role (pheap w' 0) = AlternatePort \<and> \<not> learn (pheap w' 0) \<and> \<not> forward (pheap w' 0)"
  using roletrns_blocks [of 0 "upd 0 (\<lambda>t. t\<lparr>roletrns := stp_statmch_create ACTIVE_PORT, role := RootPort,
    selectedRole := AlternatePort, learn := True, forward := True\<rparr>) scene" 0]
  by (simp add: roletrns_ok_def roletrns_fd_def stp_statmch_create_def)

theorem roletrns_livelock_witness:
  "stp_statmch_change_state (roletrns_machine 0) 0
     (updb 0 (\<lambda>s. s\<lparr>rootTimes := scene_times\<lparr>ForwardDelay := 0\<rparr>\<rparr>)
       (upd 0 (\<lambda>t. t\<lparr>roletrns := pend ACTIVE_PORT, role := RootPort, selectedRole := RootPort, synced := True,
         agree := True, sync := False, proposed := False, rrWhile := 0\<rparr>) scene)) = None"
  by (rule roletrns_livelock) (simp add: reroot_loop_def roletrns_fd_def)


theorem cist_root_port_witness:
  "selectedRole (pheap (stp_rolesel_updtRolesCist 0 scene) 0) = RootPort"
proof -
  have "instance_ok 0 scene"
    by (simp add: instance_ok_def vec_ok_def root_path_prio_def Let_def)
  then show ?thesis
    using cist_root_port [of 0 scene 0]
    by (simp add: root_candidate_def root_path_prio_def own_vector_def stp_vector_create_def stp_vector_compare_def
        stp_vector_compare_bridge_id_def cost_diff_def port_diff_def Let_def)
qed


theorem rolesel_settles_witness:
  "\<exists>w' n. stp_statmch_change_state (rolesel_machine 0) 0
      (updb 0 (\<lambda>s. s\<lparr>rolesel := pend INIT_BRIDGE\<rparr>) scene) = Some (w', n) \<and> n \<le> 3 \<and>
    State (rolesel (bheap w' 0)) = RS_RECEIVE \<and> selected (pheap w' 0) \<and> \<not> reselect (pheap w' 0)"
  using rolesel_settles [of 0 "updb 0 (\<lambda>s. s\<lparr>rolesel := pend INIT_BRIDGE\<rparr>) scene"]
  by (auto simp: tree_disjoint_def)

subsection \<open>Received information\<close>

theorem received_info_bounded_witness:
  "unat (rcvdInfoWhile (pheap (stp_portinfo_updtRcvdInfoWhileCist 0 scene) 0)) \<le> 6"
  using received_info_bounded [of scene 0] by simp

theorem remaining_hops_wrap_witness:
  "RemainingHops (portTimes (pheap (stp_portinfo_updtRcvdInfoWhileCist 0
      (upd 0 (\<lambda>t. t\<lparr>rcvdInternal := True\<rparr>) scene)) 0)) = 255"
  using remaining_hops_wrap [of "upd 0 (\<lambda>t. t\<lparr>rcvdInternal := True\<rparr>) scene" 0]
  by (simp add: zero_times_def)

definition superior_scene :: world where
  "superior_scene = upd 0 (\<lambda>t. t\<lparr>info := pend INFO_RECEIVE, msgBpduType := BPDU_RSTP, msgFlags := 0x3c,
     msgPrio := scene_vector\<lparr>root_path_cost := 200\<rparr>, msgTimes := scene_times, rcvdMsg := True\<rparr>) scene"


subsection \<open>Reception\<close>

definition scene_frame :: "u8 list" where
  "scene_frame = mstp_bytes (mst_packet 0 scene)"

lemma scene_sender: "sender_ok 0 scene"
  by (simp add: sender_ok_def tx_port_ok_def mstcid_ok_def zero_stpm_def)

theorem mst_header_accepted_witness:
  "stp_in_check_bpdu_header scene_port scene_frame 135 = (0, Some BPDU_MSTP)"
  using mst_header_accepted [OF _ scene_sender, of scene_port] by (simp add: scene_frame_def)

theorem mst_frame_sent_witness:
  "filter is_tx (out (snd (stp_transmit_txMstp 0 scene))) = [Tx_bpdu 1 1 scene_frame 135 (isWAN scene_port) (slot_no scene_port) (port_no scene_port)]"
  using mst_frame_sent [OF _ _ _ scene_sender] by (simp add: scene_frame_def)


text \<open>A type 2 BPDU of version 3 with one MSTI record and the topology change flag, a topology change
  notification, and a frame whose length field is too large.\<close>

definition mstp_frame :: "u8 list" where
  "mstp_frame = replicate 13 0 @ [121, 0x42, 0x42, 3, 0, 0, 3, 2, 1] @ replicate 30 0 @ [0, 0, 80] @ replicate 80 0"

definition tcn_frame :: "u8 list" where
  "tcn_frame = replicate 13 0 @ [7, 0x42, 0x42, 3, 0, 0, 0, 0x80] @ replicate 40 0"

definition long_frame :: "u8 list" where
  "long_frame = replicate 12 0 @ [0xff, 0xff] @ replicate 40 0"

theorem mstp_records_in_frame_witness:
  "msti_bound (ntohs (version_3_length (mstp_view mstp_frame))) 16 \<le> 64"
proof -
  have "stp_in_check_bpdu_header scene_port mstp_frame 135 = (0, Some BPDU_MSTP)" by code_simp
  from mstp_records_in_frame [OF this] show ?thesis by simp
qed

theorem rx_rejected_only_counts_witness:
  "fst (stp_portinfo_rx_bpdu 0 0 tcn_frame 6 scene) = - 1"
proof -
  have "fst (stp_portinfo_rx_bpdu 0 0 tcn_frame 6 scene) \<noteq> 0"
    by (simp add: stp_portinfo_rx_bpdu_def stp_in_check_bpdu_header_def Let_def)
  from rx_rejected_only_counts [OF this] show ?thesis by simp
qed

theorem rx_accepted_witness:
  "\<exists>w'. stp_portinfo_rx_bpdu 0 0 tcn_frame 60 scene = (0, w') \<and> rcvdBpdu (pheap w' 0) \<and>
    stp_in_get_cur_bpdu w' = Some (tcn_frame, BPDU_TOPO_CHANGE_TYPE, False)"
proof -
  have "stp_in_check_bpdu_header scene_port tcn_frame 60 = (0, Some BPDU_TOPO_CHANGE_TYPE)" by code_simp
  then show ?thesis
    using rx_accepted [of scene 0 tcn_frame 60 BPDU_TOPO_CHANGE_TYPE 0] by auto
qed

theorem bad_length_accepted_witness:
  "\<exists>w'. stp_portinfo_rx_bpdu BPDU_CONFIG_TYPE 0 long_frame 54 scene = (0, w') \<and> rcvdBpdu (pheap w' 0)"
proof -
  have "1500 < unat (ntohs (len8023 (eth_view long_frame)))" by code_simp
  then show ?thesis using bad_length_accepted [of 54 long_frame scene 0] by auto
qed

theorem cist_tc_bit_ignored_witness:
  "b_flags (body_view mstp_frame) AND TOLPLOGY_CHANGE_BIT \<noteq> 0 \<and>
   \<not> rcvdTc (pheap (MSTP_receive_enter_state 0
      (stp_in_set_cur_bpdu (Some mstp_frame) BPDU_MSTP False (upd 0 (\<lambda>t. t\<lparr>receive := pend RX_RECEIVE, rcvdTc := False\<rparr>) scene))) 0)"
proof
  show "b_flags (body_view mstp_frame) AND TOLPLOGY_CHANGE_BIT \<noteq> 0" by code_simp
  show "\<not> rcvdTc (pheap (MSTP_receive_enter_state 0
      (stp_in_set_cur_bpdu (Some mstp_frame) BPDU_MSTP False (upd 0 (\<lambda>t. t\<lparr>receive := pend RX_RECEIVE, rcvdTc := False\<rparr>) scene))) 0)"
    by (subst cist_tc_bit_ignored) (simp_all add: stp_in_set_cur_bpdu_def)
qed

subsection \<open>Transmission\<close>

theorem transmit_returns_witness:
  "\<exists>w' n. stp_statmch_change_state (transmit_machine 0) 0 (upd 0 (\<lambda>t. t\<lparr>transmit := pend TRANSMIT_INIT\<rparr>) scene) = Some (w', n) \<and>
    \<not> changeState (transmit (pheap w' 0)) \<and> n \<le> 7"
  by (rule transmit_returns) simp

theorem transmit_livelock_witness:
  "stp_statmch_change_state (transmit_machine 0) 0
     (updb 0 (\<lambda>s. s\<lparr>rootTimes := zero_times\<rparr>) (upd 0 (\<lambda>t. t\<lparr>transmit := pend IDLE\<rparr>) scene)) = None"
  by (rule transmit_livelock) (simp_all add: zero_times_def)


theorem config_frame_overread_witness:
  "\<exists>bpdu. out (snd (stp_transmit_txConfig 0 scene)) =
    [Tx_bpdu 1 0 bpdu 81 (isWAN scene_port) (slot_no scene_port) (port_no scene_port)] \<and> length bpdu = 53"
  using config_frame_overread [of scene 0] by simp


text \<open>A second bridge of the same region receives the frame on its own port 1.\<close>

definition receiver_scene :: world where
  "receiver_scene = stp_in_set_cur_bpdu (Some scene_frame) BPDU_MSTP False
     (upd 0 (\<lambda>t. t\<lparr>rcvdInternal := True, port_id := 0x8007\<rparr>) scene)"

lemma receiver_simps [simp]:
  "port_index (pheap receiver_scene 0) = Suc 0" "port_id (pheap receiver_scene 0) = 0x8007"
  "stp_port_mst_findport (Suc 0) (Suc 0) receiver_scene = Some (Suc 0)"
  by (simp_all add: receiver_scene_def stp_in_set_cur_bpdu_def stp_port_mst_findport_def stp_port_global_index_parse_def
      au3k_family_def)

theorem cist_message_decoded_witness:
  "msgPrio (pheap (stp_receive_setRcvdMsgs 0 receiver_scene) 0) =
     stp_vector_create (scene_id 0x1000) 20000 (scene_id 0x1000) 0 (scene_id 0x8000) 0x8001 0x8007 \<and>
   msgTimes (pheap (stp_receive_setRcvdMsgs 0 receiver_scene) 0) = scene_times"
proof -
  have "receiver_of 0 scene 0 receiver_scene"
    by (auto simp: receiver_of_def) (auto simp: receiver_scene_def stp_in_set_cur_bpdu_def stp_in_get_cur_bpdu_def scene_frame_def)
  then show ?thesis
    using cist_message_decoded [of scene 0 0 receiver_scene] scene_sender
    by (simp add: wire_times_def Let_def)
qed

theorem msti_message_decoded_witness:
  "region_root_bridge (msgPrio (pheap (msti_message (\<lambda>f i. msti_region_root_id (msti_view i f)) (\<lambda>f i. msti_flags (msti_view i f))
      False 0 scene_frame 0 receiver_scene) 1)) = scene_id 0x8001"
  using msti_message_decoded [of scene 0 0 1 1 receiver_scene 0 1] scene_sender
  by (simp add: msti_ids_def scene_frame_def Let_def)

subsection \<open>Ports and instances\<close>

definition quiet_os :: os_env where
  "quiet_os = \<lparr>sysfs_bridge_ifindex = (\<lambda>_ _ _. None), if_nametoindex = (\<lambda>_ _ _. 0)\<rparr>"


theorem addport_null_deref_witness:
  "fault (snd (stp_port_mst_addport quiet_os 1 2 10 False scene))"
  using addport_null_deref [of 1 scene 2 2 1 quiet_os 10 False] by (simp add: stp_stpm_get_instance_def)

theorem delport_removes_witness:
  "\<exists>w'. stp_port_mst_delport 0 1 1 10 scene = (0, w') \<and> stp_port_mst_findport 1 1 w' = None \<and> ports (bheap w' 1) = []"
  using delport_removes [of 1 scene 1 1 1 0 10] by (simp add: port_lists_ok_def)

text \<open>Both instances before their role selection machines have started, and without ports.\<close>

definition bare_scene :: world where
  "bare_scene = scene\<lparr>bheap := (\<lambda>_. zero_stpm)(1 := zero_stpm\<lparr>br_vlan_id := 1\<rparr>)\<rparr>"

theorem do_update_quiescent_witness:
  "\<exists>w' n. stp_stpm_do_update 0 0 bare_scene = Some (w', n) \<and> n = 3 \<and> quiescent 0 w'"
proof -
  have "map_option snd (stp_stpm_do_update 0 0 bare_scene) = Some 3" by code_simp
  then obtain w' where "stp_stpm_do_update 0 0 bare_scene = Some (w', 3)" by auto
  then show ?thesis using do_update_quiescent [of 0 bare_scene] by blast
qed


theorem one_second_ticks_witness:
  "unat (fdWhile (pheap (fst (tick_all [0, 1] (upd 0 (\<lambda>t. t\<lparr>fdWhile := 15\<rparr>) scene))) 0)) = 14"
  using one_second_ticks [of "upd 0 (\<lambda>t. t\<lparr>fdWhile := 15\<rparr>) scene"] by simp

theorem mst_create_found_witness:
  "\<exists>b w'. stp_stpm_mst_create 7 None scene = (Some b, w') \<and> stp_stpm_get_instance 7 w' = Some b \<and>
    prio (BrId (bheap w' b)) = 0x8007"
  using mst_create_found [of 7 scene 0 None] by (auto simp: stp_stpm_get_instance_def)

theorem delete_odd_faults_witness:
  "\<exists>w'. stp_stpm_delete 1 scene = Some w' \<and> fault w'"
  by (rule delete_odd_faults) simp

end
