(* ===== verification/StpMgmtScenes.thy ===== *)
theory StpMgmtScenes
  imports StpIn
begin

text \<open>
  Concrete situations for the management: a bridge with the CIST only, all VLANs in it, and one with
  three MSTIs. Each property of the management is applied to one of them.
\<close>

definition blank_ctx :: MD5_CTX where
  "blank_ctx = \<lparr>i_lo = 0, i_hi = 0, buf = replicate 4 0, inbuf = replicate 64 0, digest = replicate 16 0\<rparr>"

theorem md5_digest_witness:
  "MD5 blank_ctx [0x61, 0x62, 0x63] = md5_ref [0x61, 0x62, 0x63] \<and>
   MD5 blank_ctx [0x61, 0x62, 0x63] =
     [0x90, 0x01, 0x50, 0x98, 0x3c, 0xd2, 0x4f, 0xb0, 0xd6, 0x96, 0x3f, 0x7d, 0x28, 0xe1, 0x7f, 0x72]"
proof -
  have "MD5 blank_ctx [0x61, 0x62, 0x63] = md5_ref [0x61, 0x62, 0x63]" by (rule md5_digest) (simp add: blank_ctx_def)
  moreover have "MD5 blank_ctx [0x61, 0x62, 0x63] =
     [0x90, 0x01, 0x50, 0x98, 0x3c, 0xd2, 0x4f, 0xb0, 0xd6, 0x96, 0x3f, 0x7d, 0x28, 0xe1, 0x7f, 0x72]" by code_simp
  ultimately show ?thesis by blast
qed

definition lone_cist :: STPM_T where
  "lone_cist = zero_stpm\<lparr>ForceVersion := NORMAL_MSTP, BrId := zero_bridge_id\<lparr>prio := 0x8000\<rparr>,
     BrTimes := \<lparr>MessageAge = 0, MaxAge = 20, ForwardDelay = 15, HelloTime = 2, RemainingHops = 20\<rparr>,
     br_vlan_map := \<lparr>bmp = replicate 512 0xff, ulcount = 4094\<rparr>\<rparr>"

definition lone :: world where
  "lone = init_world\<lparr>bheap := (\<lambda>_. lone_cist), next_bref := 1, bridges := [0], g_CISTBRIDGE := Some 0\<rparr>"

lemma lone_simps [simp]:
  "bheap lone b = lone_cist" "bridges lone = [0]" "next_bref lone = Suc 0" "g_CISTBRIDGE lone = Some 0"
  "g_VID2MSTID lone v = 0" "g_VlanPBMP lone v = replicate 9 0" "g_CISTPORT lone i = None" "g_stp_state lone = STP_DISABLED"
  "br_vlan_id lone_cist = 0" "ports lone_cist = []" "admin_state lone_cist = STP_DISABLED"
  "br_vlan_map lone_cist = \<lparr>bmp = replicate 512 0xff, ulcount = 4094\<rparr>"
  by (simp_all add: lone_def lone_cist_def zero_stpm_def init_world_def)


lemma lone_vlan_ok: "vlan_ok lone"
proof -
  have "vmap_has v \<lparr>bmp = replicate 512 0xff, ulcount = 4094\<rparr>" if "v \<in> vids" for v
  proof -
    have "(0xff :: u8) = - 1" by simp
    then have "bit (0xff :: u8) (v mod 8)" by (simp only: bit_minus_1_iff) simp
    then show ?thesis using that vmap_bounds [of v] by (simp add: vmap_has_bit vids_def)
  qed
  then show ?thesis by (simp add: vlan_ok_def instances_ok_def vlan_at_def counts_ok_def)
qed

text \<open>Without ports in the VLAN both loops have nothing to do.\<close>

lemma add_bytes_none:
  assumes "g_VlanPBMP w v = replicate 9 0" and "\<forall>y \<in> set ys. y < 9"
  shows "add_bytes os b v ys w = (STP_OK, w)"
  using assms by (induction ys) (simp_all add: stp_bitmap_get_portindex_from_bmp_def upt_rec)

lemma del_bits_none:
  assumes "g_VlanPBMP w v = replicate 9 0" and "\<forall>i. g_CISTPORT w i = None" and "\<forall>x \<in> set xs. fst x < 9"
  shows "del_bits z b v xs w = (STP_OK, w)"
  using assms
  by (induction xs) (simp_all add: stp_bitmap_get_portindex_from_bmp_def stp_port_mst_findport_def split: option.split)


definition no_os :: os_env where
  "no_os = \<lparr>sysfs_bridge_ifindex = (\<lambda>_ _ _. None), if_nametoindex = (\<lambda>_ _ _. 0)\<rparr>"

lemma calc_digest_state [simp]: "g_stp_state (stp_mgmt_calc_configid_digest ctx b w) = g_stp_state w"
  by (simp add: stp_mgmt_calc_configid_digest_def updb_def)


text \<open>Three MSTIs, every instance with a port.\<close>

definition four :: world where
  "four = lone\<lparr>bheap := (\<lambda>b. lone_cist\<lparr>br_vlan_id := b, ports := [b]\<rparr>), pheap := (\<lambda>p. zero_port\<lparr>owner := p\<rparr>),
     bridges := [0, 1, 2, 3], next_bref := 4, next_pref := 4, g_CISTPORT := (\<lambda>_. None)(0 := Some 0)\<rparr>"

lemma four_lists_ok: "lists_ok four"
  by (simp add: four_def lists_ok_def inj_on_def)

theorem delete_all_returns_witness:
  "\<exists>w'. stp_mgmt_stpm_delete_all four = Some w' \<and> bridges w' = [] \<and> (\<forall>i. g_CISTPORT w' i = None) \<and>
    (\<forall>v. g_VID2MSTID w' v = (if v < 2048 then STP_CIST_ID else g_VID2MSTID four v))"
  by (rule delete_all_returns [OF four_lists_ok])

theorem del_all_mst_skips_witness:
  "\<exists>w'. stp_mgmt_del_all_mst four = Some w' \<and> bridges w' = [0, 2] \<and> ports (bheap w' 0) = [] \<and> g_CISTPORT w' 0 = Some 0"
  using del_all_mst_skips [OF four_lists_ok, of 0 "[1, 2, 3]"] by (auto simp: four_def)

subsection \<open>Configuration requests\<close>

definition no_cfg :: UID_STP_CFG_T where
  "no_cfg = \<lparr>field_mask = 0, stp_enabled = STP_DISABLED, bridge_priority = 0, max_age = 0, hello_time = 0,
     forward_delay = 0, force_version = FORCE_STP_COMPAT, hold_time = 0, maxhops = 0\<rparr>"

lemma no_cfg_simps [simp]: "field_mask no_cfg = 0" "stp_enabled no_cfg = STP_DISABLED"
  by (simp_all add: no_cfg_def)

lemma lone_times [simp]:
  "BrTimes lone_cist = \<lparr>MessageAge = 0, MaxAge = 20, ForwardDelay = 15, HelloTime = 2, RemainingHops = 20\<rparr>"
  "prio (BrId lone_cist) = 0x8000" "ForceVersion lone_cist = NORMAL_MSTP"
  by (simp_all add: lone_cist_def zero_stpm_def)

definition age_10 :: UID_STP_CFG_T where
  "age_10 = no_cfg\<lparr>field_mask := BR_CFG_AGE OR BR_CFG_PRIO, max_age := 10, bridge_priority := 4096\<rparr>"

lemma asks_age_10: "asks 4 (field_mask age_10)" "asks 2 (field_mask age_10)" "\<not> asks 1 (field_mask age_10)" "\<not> asks 8 (field_mask age_10)"
  "\<not> asks 16 (field_mask age_10)" "\<not> asks 32 (field_mask age_10)" "\<not> asks 512 (field_mask age_10)"
  by (simp_all add: asks_def age_10_def)

lemma age_10_simps: "max_age age_10 = 10" "bridge_priority age_10 = 4096"
  by (simp_all add: age_10_def)

lemma want_age_10: "merge_cfg age_10 (stp_in_stpm_get_cfg lone_cist) =
    (stp_in_stpm_get_cfg lone_cist)\<lparr>bridge_priority := 4096, max_age := 10\<rparr>"
  by (simp add: merge_cfg_def Let_def asks_age_10 age_10_simps)


definition age_3 :: UID_STP_CFG_T where
  "age_3 = no_cfg\<lparr>field_mask := BR_CFG_AGE, max_age := 3\<rparr>"

theorem set_cfg_rejected_witness:
  "\<exists>w'. stp_in_stpm_set_cfg (Some 0) age_3 lone = Some (STP_Small_Max_Age, w') \<and> bheap w' = bheap lone \<and> shape w' = shape lone \<and>
    out w' = out lone"
  using set_cfg_rejected [OF refl, of age_3 lone 0]
  by (auto simp: stp_in_check_stpm_config_def merge_cfg_def Let_def asks_def age_3_def no_cfg_def stp_in_stpm_get_cfg_def)

definition top_priority :: world where
  "top_priority = lone\<lparr>bheap := (\<lambda>_. lone_cist\<lparr>br_vlan_id := 5, BrId := zero_bridge_id\<lparr>prio := 61445\<rparr>\<rparr>)\<rparr>"

theorem msti_priority_lockout_witness:
  "\<exists>w'. stp_in_stpm_set_cfg (Some 0) no_cfg top_priority = Some (STP_Large_Bridge_Priority, w') \<and> bheap w' = bheap top_priority"
  by (rule msti_priority_lockout [of _ _ 5]) (simp_all add: top_priority_def asks_def)

definition age_10_off :: UID_STP_CFG_T where
  "age_10_off = no_cfg\<lparr>field_mask := BR_CFG_STATE OR BR_CFG_AGE, max_age := 10\<rparr>"

theorem disable_drops_request_witness:
  "\<exists>w'. stp_in_stpm_set_cfg (Some 0) age_10_off lone = Some (0, w') \<and> MaxAge (BrTimes (bheap w' 0)) = 20"
  using disable_drops_request [of age_10_off lone 0]
  by (auto simp: stp_in_check_stpm_config_def merge_cfg_def Let_def asks_def age_10_off_def no_cfg_def stp_in_stpm_get_cfg_def)

text \<open>An empty frame and a tick on a bridge with one port.\<close>

definition on :: world where
  "on = four\<lparr>bheap := (\<lambda>b. lone_cist\<lparr>ports := [0], admin_state := STP_ENABLED\<rparr>), bridges := [0]\<rparr>"

theorem events_keep_structure_witness:
  "\<exists>w' w''. stp_in_rx_bpdu 0 0 0 0 [] 0 on = Some (- 1, w') \<and> shape w' = shape on \<and> wasInitBpdu (pheap w' 0) \<and>
    stp_in_one_second lone = Some (w'', 1) \<and> shape w'' = shape lone"
proof -
  have "\<exists>w'. stp_in_rx_bpdu 0 0 0 0 [] 0 on = Some (- 1, w') \<and> wasInitBpdu (pheap w' 0)"
    by (simp add: stp_in_rx_bpdu_def on_def four_def stp_in_slot_port_find_def zero_port_def stp_port_rx_bpdu_def
        stp_portinfo_rx_bpdu_def stp_in_check_bpdu_header_def leave_edge_def stp_in_set_cur_bpdu_def Let_def)
  moreover have "stp_in_one_second lone = Some (lone, 1)"
    by (simp add: stp_in_one_second_def stp_stpm_one_second_def)
  ultimately show ?thesis using events_keep_structure by blast
qed

end
