(* ===== verification/StpParamScenes.thy ===== *)
theory StpParamScenes
  imports StpMgmtScenes StpSave StpReset
begin

text \<open>
  Situations for \<open>stp_param.c\<close>: a bridge with one MSTI, to which VLAN 10 is mapped.
\<close>

definition two :: world where
  "two = lone\<lparr>bheap := (\<lambda>b. if b = 0 then lone_cist\<lparr>br_vlan_map := vmap_clear 10 (br_vlan_map lone_cist)\<rparr>
       else lone_cist\<lparr>br_vlan_id := 1, br_vlan_map := vmap_set 10 \<lparr>bmp = replicate 512 0, ulcount = 1\<rparr>\<rparr>),
     bridges := [0, 1], next_bref := 2, g_VID2MSTID := (\<lambda>_. 0)(10 := 1)\<rparr>"

lemma two_simps:
  "bheap two 0 = lone_cist\<lparr>br_vlan_map := vmap_clear 10 (br_vlan_map lone_cist)\<rparr>"
  "bheap two (Suc 0) = lone_cist\<lparr>br_vlan_id := 1, br_vlan_map := vmap_set 10 \<lparr>bmp = replicate 512 0, ulcount = 1\<rparr>\<rparr>"
  "bridges two = [0, 1]" "next_bref two = 2" "g_VID2MSTID two = (\<lambda>_. 0)(10 := 1)" "g_CISTBRIDGE two = Some 0"
  by (simp_all add: two_def)

lemma two_has_vlan:
  assumes "v \<in> vids"
  shows "has_vlan two 0 v \<longleftrightarrow> v \<noteq> 10" "has_vlan two (Suc 0) v \<longleftrightarrow> v = 10"
proof -
  have "(0xff :: u8) = - 1" by simp
  then have "bit (0xff :: u8) (v mod 8)" by (simp only: bit_minus_1_iff) simp
  then have "vmap_has v \<lparr>bmp = replicate 512 0xff, ulcount = 4094\<rparr>"
    using assms vmap_bounds [of v] by (simp add: vmap_has_bit vids_def)
  moreover have "\<not> vmap_has v \<lparr>bmp = replicate 512 0, ulcount = 1\<rparr>"
    using assms vmap_bounds [of v] by (simp add: vmap_has_bit vids_def)
  ultimately show "has_vlan two 0 v \<longleftrightarrow> v \<noteq> 10" "has_vlan two (Suc 0) v \<longleftrightarrow> v = 10"
    using assms by (simp_all add: two_simps vmap_clear_has vmap_set_has vids_def)
qed

lemma two_vlan_ok: "vlan_ok two"
proof -
  have "instances_ok two"
    by (simp add: instances_ok_def two_simps inj_on_def vmap_clear_def vmap_set_def)
  moreover have "\<forall>v \<in> vids. vlan_at two v"
    using two_has_vlan by (auto simp: vlan_at_def two_simps(3,5)) (auto simp: two_simps)
  moreover have "{v \<in> vids. g_VID2MSTID two v = 1} = {10}" by (auto simp: two_simps vids_def)
  then have "counts_ok two" by (simp add: counts_ok_def two_simps(1-3) vmap_set_def)
  ultimately show ?thesis by (simp add: vlan_ok_def)
qed


text \<open>With a buffer of 85 bytes the text of \<open>two\<close> runs ten bytes over its end.\<close>

lemma two_vlans: "stp_param_get_mstp_vlan_map_info id 1 two = [10]"
proof -
  have "[1 ..< 4095] = [1 ..< 10] @ [10] @ [11 ..< (4095 :: nat)]"
    using upt_add_eq_append [of 1 10 4085] upt_conv_Cons [of 10 4095] by simp
  moreover have "filter (\<lambda>v. has_vlan two (Suc 0) v) xs = filter (\<lambda>v. v = 10) xs" if "set xs \<subseteq> vids" for xs
    using that two_has_vlan(2) by (intro filter_cong) auto
  moreover have "set [1 ..< 4095] \<subseteq> vids" by (auto simp: vids_def)
  ultimately have "filter (\<lambda>v. has_vlan two (Suc 0) v) [1 ..< 4095] = filter (\<lambda>v. v = 10) ([1 ..< 10] @ [10] @ [11 ..< (4095 :: nat)])"
    by metis
  also have "\<dots> = [10]" by (simp del: upt_rec_numeral)
  finally show ?thesis
    by (simp add: stp_param_get_mstp_vlan_map_info_def stp_stpm_get_instance_def two_simps del: upt_rec_numeral)
qed

lemma two_lines:
  "\<exists>rest. mst_lines id two 0 =
     [Always '' config spanning-tree mst\<newline>'', Always '' config spanning-tree enable\<newline>'', Margin 30 [], Margin 30 (map_line 10 1)] @ rest"
proof -
  have "mst_bridge_lines (big_endian two) (bheap two 0) =
      [Always '' config spanning-tree mst\<newline>'', Always '' config spanning-tree enable\<newline>'', Margin 30 []]"
    by (simp add: two_simps mst_bridge_lines_def unless_default_def region_name_def fmt_str_def chars_def lone_cist_def zero_stpm_def
        short_at_def ntohs_def be16_def two_def lone_def init_world_def)
  moreover have "mst_instance_lines id two 0 = []"
    by (simp add: mst_instance_lines_def two_simps unless_default_def mst_prio_def)
  moreover obtain t where "mst_instance_lines id two 1 = Margin 30 (map_line 10 1) # t"
    using two_vlans by (simp add: mst_instance_lines_def two_simps)
  ultimately show ?thesis by (simp only: mst_lines_def two_simps(3) list.map concat.simps append.simps) blast
qed

theorem mst_cfg_overshoot_witness:
  "length (stp_param_save_mstp_mode_cfg id 2000 two) \<le> 2043 \<and> length (stp_param_save_mstp_mode_cfg id 85 two) = 95"
proof -
  have ok: "cfg_sizes_ok two 0" by (simp add: cfg_sizes_ok_def two_simps lone_cist_def zero_stpm_def)
  have "length (stp_param_save_mstp_mode_cfg id 2000 two) \<le> 2043"
    using mst_cfg_overshoot [OF _ two_simps(6) ok, of id 2000] by simp
  moreover have "length (stp_param_save_mstp_mode_cfg id 85 two) = 95"
    using two_lines by (auto simp: stp_param_save_mstp_mode_cfg_def two_simps(6) map_line_def fmt_nat_def chars_def decimal.simps)
  ultimately show ?thesis by blast
qed

definition slow :: world where
  "slow = lone\<lparr>bheap := (\<lambda>_. lone_cist\<lparr>BrTimes := (BrTimes lone_cist)\<lparr>MaxAge := 40, ForwardDelay := 30\<rparr>\<rparr>)\<rparr>"


end
