(* ===== verification/SnpHeap.thy ===== *)
theory SnpHeap
  imports Prelude
begin

text \<open>
  Singly linked lists in a store of C objects, as the DHCP snooping daemon keeps its hash
  buckets. An object is reached through its address, the store is a partial map (an address
  outside its domain is not allocated, or has been freed), and address 0 is the null pointer.
  A list is threaded through one link field of the objects; the binding entries of the daemon
  are on two lists at once, so the field is a parameter.

  A read through a dangling pointer and a walk that never ends are both the value \<open>None\<close>,
  so a lemma that an operation is \<open>Some\<close> shows that it neither faults nor hangs.

  The locale \<open>linked\<close> is the contract of a link field: writing it is read back, and leaves the
  rest of the object alone. Its lemmas give the effect of removing an element, and are
  interpreted for every link field of the model.
\<close>

type_synonym addr = nat

abbreviation NULL :: addr where
  "NULL \<equiv> 0"

subsection \<open>Chains\<close>

fun chain :: "(addr \<rightharpoonup> 'i) \<Rightarrow> ('i \<Rightarrow> addr) \<Rightarrow> addr \<Rightarrow> addr list \<Rightarrow> bool" where
  "chain h lnk p [] \<longleftrightarrow> p = NULL"
| "chain h lnk p (x # xs) \<longleftrightarrow>
     p = x \<and> x \<noteq> NULL \<and> (case h x of None \<Rightarrow> False | Some it \<Rightarrow> chain h lnk (lnk it) xs)"

text \<open>The first object of the list that satisfies a test, or the null pointer.\<close>

partial_function (option) walk ::
    "(addr \<rightharpoonup> 'i) \<Rightarrow> ('i \<Rightarrow> addr) \<Rightarrow> ('i \<Rightarrow> bool) \<Rightarrow> addr \<Rightarrow> addr option" where
  "walk h lnk P p =
     (if p = NULL then Some NULL
      else case h p of None \<Rightarrow> None
         | Some it \<Rightarrow> if P it then Some p else walk h lnk P (lnk it))"

text \<open>The object whose link is \<open>x\<close>, or the null pointer when the list ends first.\<close>

partial_function (option) before ::
    "(addr \<rightharpoonup> 'i) \<Rightarrow> ('i \<Rightarrow> addr) \<Rightarrow> addr \<Rightarrow> addr \<Rightarrow> addr option" where
  "before h lnk x p =
     (if p = NULL then Some NULL
      else case h p of None \<Rightarrow> None
         | Some it \<Rightarrow> if lnk it = NULL then Some NULL
             else if lnk it = x then Some p else before h lnk x (lnk it))"

text \<open>The object whose successor satisfies a test, or the null pointer.\<close>

partial_function (option) before_by ::
    "(addr \<rightharpoonup> 'i) \<Rightarrow> ('i \<Rightarrow> addr) \<Rightarrow> ('i \<Rightarrow> bool) \<Rightarrow> addr \<Rightarrow> addr option" where
  "before_by h lnk P p =
     (if p = NULL then Some NULL
      else case h p of None \<Rightarrow> None
         | Some it \<Rightarrow> if lnk it = NULL then Some NULL
             else case h (lnk it) of None \<Rightarrow> None
                | Some nx \<Rightarrow> if P nx then Some p else before_by h lnk P (lnk it))"

text \<open>
  Taking \<open>x\<close> off the list that starts at \<open>head\<close>: when it is the first, the head moves on to its
  successor, otherwise the predecessor is linked to the successor. The result is the store, the
  head, and whether \<open>x\<close> was there.
\<close>

definition unlink ::
    "(addr \<rightharpoonup> 'i) \<Rightarrow> ('i \<Rightarrow> addr) \<Rightarrow> (addr \<Rightarrow> 'i \<Rightarrow> 'i) \<Rightarrow> addr \<Rightarrow> addr
      \<Rightarrow> ((addr \<rightharpoonup> 'i) \<times> addr \<times> bool) option" where
  "unlink h lnk set_lnk head x =
     (case h x of None \<Rightarrow> None
      | Some itx \<Rightarrow>
          if head = x then Some (h, lnk itx, True)
          else case before h lnk x head of None \<Rightarrow> None
             | Some p \<Rightarrow>
                 if p = NULL then Some (h, head, False)
                 else case h p of None \<Rightarrow> None
                    | Some itp \<Rightarrow> Some (h(p \<mapsto> set_lnk (lnk itx) itp), head, True))"

lemma chain_Cons_iff:
  "chain h lnk p (x # xs) \<longleftrightarrow>
     p = x \<and> x \<noteq> NULL \<and> (\<exists>it. h x = Some it \<and> chain h lnk (lnk it) xs)"
  by (auto split: option.splits)

lemma chain_null [simp]: "chain h lnk NULL xs \<longleftrightarrow> xs = []"
  by (cases xs) auto

lemma chain_member: "chain h lnk p xs \<Longrightarrow> x \<in> set xs \<Longrightarrow> x \<noteq> NULL \<and> h x \<noteq> None"
  by (induction xs arbitrary: p) (auto simp: chain_Cons_iff simp del: chain.simps(2))

lemma chain_unique: "chain h lnk p xs \<Longrightarrow> chain h lnk p ys \<Longrightarrow> xs = ys"
proof (induction xs arbitrary: p ys)
  case (Cons x xs)
  then show ?case by (cases ys) (auto split: option.splits)
qed simp

lemma chain_append:
  "chain h lnk p (xs @ ys) \<Longrightarrow> \<exists>q. chain h lnk q ys"
  by (induction xs arbitrary: p) (auto simp: chain_Cons_iff simp del: chain.simps(2))

lemma chain_distinct: "chain h lnk p xs \<Longrightarrow> distinct xs"
proof (induction xs arbitrary: p)
  case (Cons x xs)
  then obtain it where it: "h x = Some it" "chain h lnk (lnk it) xs" and here: "chain h lnk x (x # xs)"
    by (auto simp: chain_Cons_iff simp del: chain.simps(2))
  have "x \<notin> set xs"
  proof
    assume "x \<in> set xs"
    then obtain us vs where xs: "xs = us @ x # vs" by (auto dest: split_list)
    have "chain h lnk x (x # vs)"
      using chain_append [of h lnk "lnk it" us "x # vs"] it(2) xs by auto
    then have "x # vs = x # xs" using here by (rule chain_unique)
    then show False using xs by simp
  qed
  then show ?case using Cons it by auto
qed simp

lemma chain_cong:
  "(\<And>x. x \<in> set xs \<Longrightarrow> map_option lnk (h' x) = map_option lnk (h x))
     \<Longrightarrow> chain h' lnk p xs \<longleftrightarrow> chain h lnk p xs"
proof (induction xs arbitrary: p)
  case (Cons x xs)
  have "chain h' lnk q xs \<longleftrightarrow> chain h lnk q xs" for q
    using Cons.IH Cons.prems by (meson list.set_intros(2))
  moreover have "map_option lnk (h' x) = map_option lnk (h x)" using Cons.prems by simp
  ultimately show ?case by (cases "h x"; cases "h' x") simp_all
qed simp

lemma chain_outside: "x \<notin> set xs \<Longrightarrow> chain (h(x := v)) lnk p xs \<longleftrightarrow> chain h lnk p xs"
  by (rule chain_cong) auto

lemma walk_chain:
  "chain h lnk p xs
     \<Longrightarrow> walk h lnk P p = Some (case find (\<lambda>x. P (the (h x))) xs of None \<Rightarrow> NULL | Some x \<Rightarrow> x)"
proof (induction xs arbitrary: p)
  case Nil
  then show ?case by (subst walk.simps) simp
next
  case (Cons x xs)
  then obtain it where "p = x" "x \<noteq> NULL" "h x = Some it" "chain h lnk (lnk it) xs"
    by (auto simp: chain_Cons_iff simp del: chain.simps(2))
  then show ?case using Cons.IH by (subst walk.simps) simp
qed

lemma walk_found:
  assumes "chain h lnk p xs" and "x \<in> set xs" and "P (the (h x))"
    and "\<And>y. y \<in> set xs \<Longrightarrow> P (the (h y)) \<Longrightarrow> y = x"
  shows "walk h lnk P p = Some x"
proof -
  have "find (\<lambda>x. P (the (h x))) xs = Some x"
    using assms(2-4) by (induction xs) fastforce+
  then show ?thesis using walk_chain [OF assms(1), of P] by simp
qed

lemma walk_missing:
  assumes "chain h lnk p xs" and "\<And>y. y \<in> set xs \<Longrightarrow> \<not> P (the (h y))"
  shows "walk h lnk P p = Some NULL"
proof -
  have "find (\<lambda>x. P (the (h x))) xs = None"
    using assms(2) by (simp add: find_None_iff)
  then show ?thesis using walk_chain [OF assms(1), of P] by simp
qed

lemma walk_cases:
  assumes "chain h lnk p xs"
  obtains "walk h lnk P p = Some NULL" and "\<And>y. y \<in> set xs \<Longrightarrow> \<not> P (the (h y))"
  | x where "walk h lnk P p = Some x" and "x \<in> set xs" and "P (the (h x))"
proof (cases "find (\<lambda>x. P (the (h x))) xs")
  case None
  then have "\<forall>y\<in>set xs. \<not> P (the (h y))" by (simp add: find_None_iff)
  then show ?thesis using walk_chain [OF assms, of P] that(1) None by auto
next
  case (Some x)
  then have "x \<in> set xs" "P (the (h x))" by (auto simp: find_Some_iff)
  then show ?thesis using walk_chain [OF assms, of P] that(2) Some by simp
qed

lemma before_chain:
  assumes "chain h lnk p (us @ y # x # vs)"
  shows "before h lnk x p = Some y"
  using assms
proof (induction us arbitrary: p)
  case Nil
  then show ?case by (subst before.simps) (auto split: option.splits)
next
  case (Cons u us)
  then obtain it where it: "p = u" "u \<noteq> NULL" "h u = Some it" "chain h lnk (lnk it) (us @ y # x # vs)"
    by (auto simp: chain_Cons_iff simp del: chain.simps(2))
  have "distinct (us @ y # x # vs)" using it(4) by (rule chain_distinct)
  then have "lnk it \<noteq> x" and "lnk it \<noteq> NULL"
    using it(4) by (cases us; auto split: option.splits)+
  then show ?case using it Cons.IH by (subst before.simps) simp
qed

lemma before_missing:
  "chain h lnk p xs \<Longrightarrow> x \<notin> set xs \<Longrightarrow> before h lnk x p = Some NULL"
proof (induction xs arbitrary: p)
  case Nil
  then show ?case by (subst before.simps) simp
next
  case (Cons u us)
  then obtain it where it: "p = u" "u \<noteq> NULL" "h u = Some it" "chain h lnk (lnk it) us"
    by (auto simp: chain_Cons_iff simp del: chain.simps(2))
  have "lnk it \<noteq> x \<or> lnk it = NULL" using it(4) Cons.prems(2) by (cases us) auto
  then show ?case using it Cons by (subst before.simps) auto
qed

lemma before_by_chain:
  assumes "chain h lnk p (us @ y # x # vs)" and "P (the (h x))" and "\<And>z. z \<in> set us \<Longrightarrow> \<not> P (the (h z))" and "\<not> P (the (h y))"
  shows "before_by h lnk P p = Some y"
  using assms
proof (induction us arbitrary: p)
  case Nil
  then show ?case by (subst before_by.simps) (auto split: option.splits)
next
  case (Cons u us)
  then obtain it where it: "p = u" "u \<noteq> NULL" "h u = Some it" "chain h lnk (lnk it) (us @ y # x # vs)"
    by (auto simp: chain_Cons_iff simp del: chain.simps(2))
  obtain w where w: "lnk it = w" "w \<noteq> NULL" "h w \<noteq> None" "w \<in> set (us @ [y])"
    using it(4) by (cases us) (auto split: option.splits)
  then have "\<not> P (the (h w))" using Cons.prems(3,4) by auto
  then show ?case using it w Cons by (subst before_by.simps) auto
qed

lemma split_before:
  assumes "chain h lnk p xs" and "x \<in> set xs" and "p \<noteq> x"
  shows "\<exists>us y vs. xs = us @ y # x # vs"
proof -
  obtain us vs where xs: "xs = us @ x # vs" using assms(2) split_list by fast
  then have "us \<noteq> []" using assms(1,3) by auto
  then show ?thesis using xs by (metis append.assoc append_Cons append_Nil rev_exhaust)
qed

lemma before_by_before:
  assumes c: "chain h lnk p xs" and x: "x \<in> set xs" and p: "p \<noteq> x"
    and P: "P (the (h x))" "\<And>y. y \<in> set xs \<Longrightarrow> P (the (h y)) \<Longrightarrow> y = x"
  shows "\<exists>y it. before_by h lnk P p = Some y \<and> before h lnk x p = Some y \<and> y \<noteq> NULL
           \<and> h y = Some it \<and> lnk it = x"
proof -
  obtain us y vs where xs: "xs = us @ y # x # vs" using split_before [OF c x p] by blast
  have c': "chain h lnk p (us @ y # x # vs)" using c xs by simp
  have n: "x \<notin> set (us @ [y])" using chain_distinct [OF c'] by auto
  obtain q where "chain h lnk q (y # x # vs)" using chain_append [OF c'] by blast
  then obtain it where "y \<noteq> NULL" "h y = Some it" "lnk it = x" by (auto split: option.splits)
  moreover have "before_by h lnk P p = Some y"
    by (rule before_by_chain [where P = P and us = us and vs = vs and x = x, OF c' P(1)]) (use P(2) xs n in auto)
  ultimately show ?thesis using before_chain [OF c'] by blast
qed

lemma before_by_missing:
  "chain h lnk p xs \<Longrightarrow> (\<And>y. y \<in> set xs \<Longrightarrow> \<not> P (the (h y))) \<Longrightarrow> before_by h lnk P p = Some NULL"
proof (induction xs arbitrary: p)
  case Nil
  then show ?case by (subst before_by.simps) simp
next
  case (Cons u us)
  then obtain it where it: "p = u" "u \<noteq> NULL" "h u = Some it" "chain h lnk (lnk it) us"
    by (auto simp: chain_Cons_iff simp del: chain.simps(2))
  have "lnk it = NULL \<or> h (lnk it) \<noteq> None \<and> \<not> P (the (h (lnk it)))"
    using it(4) Cons.prems(2) by (cases us) (auto split: option.splits)
  then show ?case using it Cons by (subst before_by.simps) auto
qed

lemma unlink_missing:
  "chain h lnk p xs \<Longrightarrow> x \<notin> set xs \<Longrightarrow> x \<noteq> NULL \<Longrightarrow> h x = Some it
     \<Longrightarrow> unlink h lnk set_lnk p x = Some (h, p, False)"
  using before_missing [of h lnk p xs x] by (cases xs) (auto simp: unlink_def)

subsection \<open>The contract of a link field\<close>

locale linked =
  fixes lnk :: "'i \<Rightarrow> addr" and set_lnk :: "addr \<Rightarrow> 'i \<Rightarrow> 'i" and rest :: "'i \<Rightarrow> 'r"
  assumes lnk_set: "lnk (set_lnk a i) = a"
    and rest_set: "rest (set_lnk a i) = rest i"
begin

lemma chain_skip:
  assumes "chain h lnk p (us @ y # x # vs)"
  shows "\<exists>itx ity. h x = Some itx \<and> h y = Some ity
           \<and> chain (h(y \<mapsto> set_lnk (lnk itx) ity)) lnk p (us @ y # vs)"
  using assms
proof (induction us arbitrary: p)
  case Nil
  then obtain itx ity where h: "h x = Some itx" "h y = Some ity" "p = y" "y \<noteq> NULL"
    "chain h lnk (lnk itx) vs"
    by (auto simp: chain_Cons_iff simp del: chain.simps(2))
  have "y \<notin> set vs" using chain_distinct [OF Nil] by simp
  then have "chain (h(y \<mapsto> set_lnk (lnk itx) ity)) lnk (lnk itx) vs" 
    using h(5) by (rule iffD2 [OF chain_outside])
  then show ?case using h by (simp add: lnk_set fun_upd_def)
next
  case (Cons u us)
  then obtain it where it: "p = u" "u \<noteq> NULL" "h u = Some it" "chain h lnk (lnk it) (us @ y # x # vs)"
    by (auto simp: chain_Cons_iff simp del: chain.simps(2))
  have "u \<noteq> y" using chain_distinct [OF Cons.prems] by simp
  then show ?case using it Cons.IH [OF it(4)] by auto
qed

lemma unlink_chain:
  assumes c: "chain h lnk p xs" and x: "x \<in> set xs"
  shows "\<exists>h' p'. unlink h lnk set_lnk p x = Some (h', p', True)
           \<and> chain h' lnk p' (remove1 x xs)
           \<and> (\<forall>y. map_option rest (h' y) = map_option rest (h y))
           \<and> (\<forall>y. y \<notin> set xs \<longrightarrow> h' y = h y)
           \<and> h' x = h x"
proof (cases xs)
  case Nil
  then show ?thesis using x by simp
next
  case (Cons z zs)
  show ?thesis
  proof (cases "z = x")
    case True
    then show ?thesis using c Cons by (auto simp: unlink_def split: option.splits)
  next
    case False
    then have "x \<in> set zs" using x Cons by simp
    then obtain us vs where zs: "zs = us @ x # vs" and notin: "x \<notin> set us"
      by (meson split_list_first)
    obtain ws y where "z # us = ws @ [y]" by (metis list.distinct(1) rev_exhaust)
    then have xs: "xs = ws @ y # x # vs" using Cons zs by (metis append.assoc append_Cons append_Nil)
    have "distinct xs" using c by (rule chain_distinct)
    have skip: "chain h lnk p (ws @ y # x # vs)" using c xs by simp
    obtain itx ity where h: "h x = Some itx" "h y = Some ity"
      "chain (h(y \<mapsto> set_lnk (lnk itx) ity)) lnk p (ws @ y # vs)"
      using chain_skip [OF skip] by blast
    have p: "p \<noteq> x" using c Cons False by simp
    have "y \<noteq> NULL" using chain_member [OF c, of y] xs by simp
    then have "unlink h lnk set_lnk p x = Some (h(y \<mapsto> set_lnk (lnk itx) ity), p, True)"
      using h p before_chain [OF skip] by (simp add: unlink_def)
    moreover have "remove1 x xs = ws @ y # vs" using \<open>distinct xs\<close> xs by (simp add: remove1_append)
    ultimately show ?thesis using h \<open>distinct xs\<close> xs by (auto simp: rest_set)
  qed
qed

end

end
