(* ===== verification/SnpTbl.thy ===== *)
theory SnpTbl
  imports SnpHeap
begin

text \<open>
  The binding table of the DHCP snooping daemon (\<open>dhcp_snp_tbl.c\<close>, IPv4): entries that bind a
  client's hardware address to the address it was leased. An entry is an object on two hash
  chains, one by hardware address through \<open>next\<close> (here \<open>nxt\<close>) and one by IP address through
  \<open>ip_next\<close>; an entry without an address is on the first only.

  The store, the two tables and the calls made into the kernel are a record \<open>snp\<close>, passed
  through the operations. What the operations ask of the system (the clocks, whether memory is
  available, what the database and the netlink socket answer, whether an interface index still
  has a name, what memory holds beyond a hardware address or in a local variable that is not
  set) is the parameter \<open>env\<close>. Null checks of arguments that are addresses of local
  variables are left out; those of entry pointers are kept.

  The predicate \<open>tbl\<close> says which entries are on which chain and that the two tables agree. The
  abstraction functions \<open>binding\<close> and \<open>holder\<close> read the table as a map from hardware addresses
  to entries and a map from IP addresses to hardware addresses.
\<close>

subsection \<open>Data\<close>

record NPD_DHCP_SNP_USER_ITEM_T =
  u_bind_type :: u32
  u_state :: u8
  u_haddr_len :: u8
  u_chaddr :: "u8 list"
  u_vlanId :: u16
  u_ip_addr :: u32
  u_lease_time :: u32
  u_sys_escape :: u32
  u_cur_expire :: u32
  u_ifindex :: u32
  u_flags :: u32

record NPD_DHCP_SNP_TBL_ITEM_T =
  nxt :: addr
  ip_next :: addr
  bind_type :: u32
  state :: u8
  haddr_len :: u8
  chaddr :: "u8 list"
  vlanId :: u16
  ip_addr :: u32
  lease_time :: u32
  sys_escape :: u32
  cur_expire :: u32
  ifindex :: u32
  flags :: u32

type_synonym user = NPD_DHCP_SNP_USER_ITEM_T
type_synonym item = NPD_DHCP_SNP_TBL_ITEM_T

definition STATE_REQUEST :: u8 where "STATE_REQUEST = 0"
definition STATE_BOUND :: u8 where "STATE_BOUND = 1"
definition TYPE_DYNAMIC :: u32 where "TYPE_DYNAMIC = 0"
definition TYPE_STATIC :: u32 where "TYPE_STATIC = 1"

definition CODE_OK :: u32 where "CODE_OK = 0x160000"
definition CODE_ERROR :: u32 where "CODE_ERROR = 0x160001"
definition CODE_FOUND :: u32 where "CODE_FOUND = 0x160008"
definition CODE_NOT_FOUND :: u32 where "CODE_NOT_FOUND = 0x160009"
definition CODE_PARAM_NULL :: u32 where "CODE_PARAM_NULL = 0x16000B"

definition NPD_DHCP_SNP_REQUEST_TIMEOUT :: u32 where "NPD_DHCP_SNP_REQUEST_TIMEOUT = 60"

lemmas snp_codes = STATE_REQUEST_def STATE_BOUND_def TYPE_DYNAMIC_def TYPE_STATIC_def
  CODE_OK_def CODE_ERROR_def CODE_FOUND_def CODE_NOT_FOUND_def CODE_PARAM_NULL_def NPD_DHCP_SNP_REQUEST_TIMEOUT_def

text \<open>The calls of the operations into the kernel and to other daemons.\<close>

datatype neigh_op = IPNEIGH_ADD | IPNEIGH_DEL
datatype route_op = ROUTE_ADD | ROUTE_DEL

datatype snp_call =
    Ipneigh neigh_op u32 u32 "u8 list"
  | Ebtables neigh_op "u8 list" u32
  | Route route_op u32 u32
  | Arp_solicit u32 "u8 list" u32
  | Notify_portal u32 "u8 list"

record snp_env =
  time0 :: u32
  uptime :: u32
  malloc_ok :: bool
  db_delete :: "item \<Rightarrow> u32"
  if_indextoname :: "u32 \<Rightarrow> bool"
  do_ipneigh :: "neigh_op \<Rightarrow> u32 \<Rightarrow> u32 \<Rightarrow> u8 list \<Rightarrow> u32"
  after_mac :: "item \<Rightarrow> user \<Rightarrow> bool"
  stack_user :: user

record snp =
  items :: "addr \<rightharpoonup> item"
  mac_tab :: "nat \<Rightarrow> addr"
  ip_tab :: "nat \<Rightarrow> addr"
  brk :: addr
  calls :: "snp_call list"

definition snp_emit :: "snp_call \<Rightarrow> snp \<Rightarrow> snp" where
  "snp_emit c st = st\<lparr>calls := calls st @ [c]\<rparr>"

subsection \<open>Operations\<close>

definition HASH_TABLE_SIZE :: nat where
  "HASH_TABLE_SIZE = 1024"

definition dhcp_snp_tbl_hash :: "u8 list \<Rightarrow> nat" where
  "dhcp_snp_tbl_hash mac =
     (let accum = push_bit 16 (ucast (mac ! 0)) XOR push_bit 8 (ucast (mac ! 1)) XOR ucast (mac ! 2)
                    XOR push_bit 16 (ucast (mac ! 3)) XOR push_bit 8 (ucast (mac ! 4))
                    XOR ucast (mac ! 5) :: u32
      in unat accum mod HASH_TABLE_SIZE)"

definition dhcp_snp_tbl_ip_hash :: "u32 \<Rightarrow> nat" where
  "dhcp_snp_tbl_ip_hash ip = unat ip mod HASH_TABLE_SIZE"

definition dhcp_snp_tbl_item_find :: "snp \<Rightarrow> user \<Rightarrow> addr option" where
  "dhcp_snp_tbl_item_find st u =
     walk (items st) nxt (\<lambda>it. memcmp 6 (chaddr it) (u_chaddr u) = 0)
       (mac_tab st (dhcp_snp_tbl_hash (u_chaddr u)))"

definition dhcp_snp_tbl_item_find_by_ip :: "snp \<Rightarrow> u32 \<Rightarrow> addr option" where
  "dhcp_snp_tbl_item_find_by_ip st ip =
     (if ip = 0 then Some NULL
      else walk (items st) ip_next (\<lambda>it. ip_addr it = ip) (ip_tab st (dhcp_snp_tbl_ip_hash ip)))"

definition dhcp_snp_tbl_fill_item :: "snp_env \<Rightarrow> user \<Rightarrow> item \<Rightarrow> item" where
  "dhcp_snp_tbl_fill_item env u it =
     it\<lparr>chaddr := take 6 (u_chaddr u), haddr_len := u_haddr_len u, bind_type := u_bind_type u,
        state := u_state u, ifindex := u_ifindex u, ip_addr := u_ip_addr u,
        lease_time := u_lease_time u, vlanId := u_vlanId u, sys_escape := time0 env,
        cur_expire := uptime env + u_lease_time u\<rparr>"

definition zero_item :: item where
  "zero_item = \<lparr>nxt = NULL, ip_next = NULL, bind_type = 0, state = 0, haddr_len = 0,
     chaddr = replicate 6 0, vlanId = 0, ip_addr = 0, lease_time = 0, sys_escape = 0,
     cur_expire = 0, ifindex = 0, flags = 0\<rparr>"

definition dhcp_snp_tbl_item_insert :: "snp_env \<Rightarrow> snp \<Rightarrow> user \<Rightarrow> snp \<times> addr" where
  "dhcp_snp_tbl_item_insert env st u =
     (if \<not> malloc_ok env then (st, NULL)
      else let p = brk st;
               it = dhcp_snp_tbl_fill_item env u zero_item;
               key = dhcp_snp_tbl_hash (u_chaddr u)
           in (st\<lparr>brk := Suc p, items := (items st)(p \<mapsto> it\<lparr>nxt := mac_tab st key\<rparr>),
                  mac_tab := (mac_tab st)(key := p)\<rparr>, p))"

definition set_nxt :: "addr \<Rightarrow> item \<Rightarrow> item" where
  "set_nxt a it = it\<lparr>nxt := a\<rparr>"

definition set_ip_next :: "addr \<Rightarrow> item \<Rightarrow> item" where
  "set_ip_next a it = it\<lparr>ip_next := a\<rparr>"

definition dhcp_snp_tbl_item_delete_iphash :: "snp \<Rightarrow> addr \<Rightarrow> (snp \<times> u32) option" where
  "dhcp_snp_tbl_item_delete_iphash st p =
     (if p = NULL then Some (st, CODE_PARAM_NULL)
      else case items st p of None \<Rightarrow> None
      | Some it \<Rightarrow>
          if ip_addr it = 0 then Some (st, CODE_OK)
          else let key = dhcp_snp_tbl_ip_hash (ip_addr it) in
            case unlink (items st) ip_next set_ip_next (ip_tab st key) p of None \<Rightarrow> None
            | Some (h, head, found) \<Rightarrow>
                if found
                then Some (st\<lparr>items := h(p := map_option (set_ip_next NULL) (h p)),
                              ip_tab := (ip_tab st)(key := head)\<rparr>, CODE_OK)
                else Some (st, CODE_ERROR))"

partial_function (option) evict_ip :: "u32 \<Rightarrow> snp \<Rightarrow> snp option" where
  "evict_ip ip st =
     (case dhcp_snp_tbl_item_find_by_ip st ip of None \<Rightarrow> None
      | Some tmp \<Rightarrow>
          if tmp = NULL then Some st
          else case dhcp_snp_tbl_item_delete_iphash st tmp of None \<Rightarrow> None
             | Some (st, ret) \<Rightarrow> evict_ip ip st)"

definition dhcp_snp_tbl_item_insert_ip_hash :: "snp \<Rightarrow> addr \<Rightarrow> (snp \<times> addr) option" where
  "dhcp_snp_tbl_item_insert_ip_hash st p =
     (if p = NULL then Some (st, NULL)
      else case items st p of None \<Rightarrow> None
      | Some it \<Rightarrow>
          if ip_addr it = 0 then Some (st, NULL)
          else case evict_ip (ip_addr it) st of None \<Rightarrow> None
          | Some st \<Rightarrow>
              let key = dhcp_snp_tbl_ip_hash (ip_addr it) in
              Some (st\<lparr>items := (items st)(p := map_option (set_ip_next (ip_tab st key)) (items st p)),
                       ip_tab := (ip_tab st)(key := p)\<rparr>, p))"

definition dhcp_snp_tbl_item_delete :: "snp_env \<Rightarrow> snp \<Rightarrow> addr \<Rightarrow> (snp \<times> u32) option" where
  "dhcp_snp_tbl_item_delete env st p =
     (if p = NULL then Some (st, CODE_PARAM_NULL)
      else case items st p of None \<Rightarrow> None
      | Some it \<Rightarrow>
          case (if ip_addr it = 0 then Some st
                else map_option fst (dhcp_snp_tbl_item_delete_iphash st p)) of None \<Rightarrow> None
          | Some st \<Rightarrow>
              let key = dhcp_snp_tbl_hash (chaddr it) in
              case unlink (items st) nxt set_nxt (mac_tab st key) p of None \<Rightarrow> None
              | Some (h, head, found) \<Rightarrow>
                  if \<not> found then Some (st, CODE_ERROR)
                  else if db_delete env it \<noteq> CODE_OK
                  then Some (st\<lparr>items := h, mac_tab := (mac_tab st)(key := head)\<rparr>, CODE_ERROR)
                  else Some (st\<lparr>items := h(p := None), mac_tab := (mac_tab st)(key := head)\<rparr>, CODE_OK))"

subsection \<open>The shape of the table\<close>

text \<open>An entry without its links, and the entries of the store.\<close>

definition entry :: "item \<Rightarrow> item" where
  "entry it = it\<lparr>nxt := NULL, ip_next := NULL\<rparr>"

definition entries :: "snp \<Rightarrow> addr \<rightharpoonup> item" where
  "entries st x = map_option entry (items st x)"

text \<open>
  The entries on the chains: each is in the bucket of its hardware address, and hardware
  addresses are not repeated; the IP chains hold entries of the table that have an address, in
  its bucket, and addresses are not repeated.
\<close>

definition macs_ok :: "(addr \<rightharpoonup> item) \<Rightarrow> (nat \<Rightarrow> addr list) \<Rightarrow> bool" where
  "macs_ok d ms \<longleftrightarrow>
     (\<forall>k. \<forall>x\<in>set (ms k). \<exists>e. d x = Some e \<and> dhcp_snp_tbl_hash (chaddr e) = k \<and> length (chaddr e) = 6)
     \<and> (\<forall>k. \<forall>x\<in>set (ms k). \<forall>y\<in>set (ms k). chaddr (the (d x)) = chaddr (the (d y)) \<longrightarrow> x = y)"

definition ip_ok :: "(addr \<rightharpoonup> item) \<Rightarrow> (nat \<Rightarrow> addr list) \<Rightarrow> (nat \<Rightarrow> addr list) \<Rightarrow> bool" where
  "ip_ok d ms ips \<longleftrightarrow>
     (\<forall>k. \<forall>x\<in>set (ips k). \<exists>e. d x = Some e \<and> ip_addr e \<noteq> 0 \<and> dhcp_snp_tbl_ip_hash (ip_addr e) = k
        \<and> x \<in> set (ms (dhcp_snp_tbl_hash (chaddr e))))
     \<and> (\<forall>k. \<forall>x\<in>set (ips k). \<forall>y\<in>set (ips k). ip_addr (the (d x)) = ip_addr (the (d y)) \<longrightarrow> x = y)"

definition tbl :: "snp \<Rightarrow> (nat \<Rightarrow> addr list) \<Rightarrow> (nat \<Rightarrow> addr list) \<Rightarrow> bool" where
  "tbl st ms ips \<longleftrightarrow>
     (\<forall>k. chain (items st) nxt (mac_tab st k) (ms k))
     \<and> (\<forall>k. chain (items st) ip_next (ip_tab st k) (ips k))
     \<and> macs_ok (entries st) ms \<and> ip_ok (entries st) ms ips
     \<and> NULL < brk st \<and> (\<forall>x. brk st \<le> x \<longrightarrow> items st x = None)"

definition tbl_ok :: "snp \<Rightarrow> bool" where
  "tbl_ok st \<longleftrightarrow> (\<exists>ms ips. tbl st ms ips)"

text \<open>The table as two maps.\<close>

definition entry_at :: "snp \<Rightarrow> addr option \<Rightarrow> item option" where
  "entry_at st r = (case r of None \<Rightarrow> None | Some p \<Rightarrow> if p = NULL then None else entries st p)"

definition binding :: "snp \<Rightarrow> u8 list \<Rightarrow> item option" where
  "binding st mac = (if length mac = 6 then
     entry_at st (walk (items st) nxt (\<lambda>it. memcmp 6 (chaddr it) mac = 0) (mac_tab st (dhcp_snp_tbl_hash mac)))
     else None)"

definition holder :: "snp \<Rightarrow> u32 \<Rightarrow> u8 list option" where
  "holder st ip = map_option chaddr (entry_at st (dhcp_snp_tbl_item_find_by_ip st ip))"

lemma entry_simps [simp]:
  "chaddr (entry it) = chaddr it" "ip_addr (entry it) = ip_addr it" "vlanId (entry it) = vlanId it"
  "state (entry it) = state it" "bind_type (entry it) = bind_type it" "ifindex (entry it) = ifindex it"
  "haddr_len (entry it) = haddr_len it" "cur_expire (entry it) = cur_expire it"
  "entry (entry it) = entry it" "entry (set_nxt a it) = entry it" "entry (set_ip_next a it) = entry it"
  "lease_time (entry it) = lease_time it"
  by (simp_all add: entry_def set_nxt_def set_ip_next_def)

lemma link_simps [simp]:
  "nxt (set_nxt a it) = a" "ip_next (set_ip_next a it) = a"
  "nxt (set_ip_next a it) = nxt it" "ip_next (set_nxt a it) = ip_next it"
  by (simp_all add: set_nxt_def set_ip_next_def)

interpretation mac_list: linked nxt set_nxt "\<lambda>it. it\<lparr>nxt := NULL\<rparr>"
  by unfold_locales (simp_all add: set_nxt_def)

interpretation ip_list: linked ip_next set_ip_next "\<lambda>it. it\<lparr>ip_next := NULL\<rparr>"
  by unfold_locales (simp_all add: set_ip_next_def)

lemma entry_alt: "entry it = (it\<lparr>nxt := NULL\<rparr>)\<lparr>ip_next := NULL\<rparr>" "entry it = (it\<lparr>ip_next := NULL\<rparr>)\<lparr>nxt := NULL\<rparr>"
  by (simp_all add: entry_def)

lemma hash_bounds:
  "dhcp_snp_tbl_hash mac < HASH_TABLE_SIZE" "dhcp_snp_tbl_ip_hash ip < HASH_TABLE_SIZE"
  by (simp_all add: dhcp_snp_tbl_hash_def dhcp_snp_tbl_ip_hash_def HASH_TABLE_SIZE_def Let_def)

lemma tblD:
  assumes "tbl st ms ips"
  shows "chain (items st) nxt (mac_tab st k) (ms k)" "chain (items st) ip_next (ip_tab st k) (ips k)"
    "macs_ok (entries st) ms" "ip_ok (entries st) ms ips" "NULL < brk st" "brk st \<le> x \<Longrightarrow> items st x = None"
  using assms by (simp_all add: tbl_def)

lemma macs_ok_some: "macs_ok d ms \<Longrightarrow> x \<in> set (ms k) \<Longrightarrow> \<exists>e. d x = Some e"
  unfolding macs_ok_def by blast

lemma macs_ok_entry:
  "macs_ok d ms \<Longrightarrow> x \<in> set (ms k) \<Longrightarrow> d x = Some e
     \<Longrightarrow> dhcp_snp_tbl_hash (chaddr e) = k \<and> length (chaddr e) = 6"
  unfolding macs_ok_def by fastforce

lemma macs_ok_eq:
  assumes "macs_ok d ms" and "x \<in> set (ms k)" and "y \<in> set (ms j)"
    and "d x = Some e" and "d y = Some f" and "chaddr e = chaddr f"
  shows "x = y"
proof -
  have "k = j" using macs_ok_entry assms by metis
  then show ?thesis using assms unfolding macs_ok_def by fastforce
qed

lemma ip_ok_some: "ip_ok d ms ips \<Longrightarrow> x \<in> set (ips k) \<Longrightarrow> \<exists>e. d x = Some e"
  unfolding ip_ok_def by blast

lemma ip_ok_entry:
  "ip_ok d ms ips \<Longrightarrow> x \<in> set (ips k) \<Longrightarrow> d x = Some e
     \<Longrightarrow> ip_addr e \<noteq> 0 \<and> dhcp_snp_tbl_ip_hash (ip_addr e) = k \<and> x \<in> set (ms (dhcp_snp_tbl_hash (chaddr e)))"
  unfolding ip_ok_def by fastforce

lemma ip_ok_eq:
  assumes "ip_ok d ms ips" and "x \<in> set (ips k)" and "y \<in> set (ips j)"
    and "d x = Some e" and "d y = Some f" and "ip_addr e = ip_addr f"
  shows "x = y"
proof -
  have "k = j" using ip_ok_entry assms by metis
  then show ?thesis using assms unfolding ip_ok_def by fastforce
qed

lemma entries_item: "entries st x = Some e \<Longrightarrow> \<exists>it. items st x = Some it \<and> e = entry it"
  by (auto simp: entries_def)

text \<open>The maps, read off the chains.\<close>

lemma binding_iff:
  assumes t: "tbl st ms ips"
  shows "binding st mac = Some e \<longleftrightarrow> (\<exists>k. \<exists>x\<in>set (ms k). entries st x = Some e \<and> chaddr e = mac)"
proof (cases "length mac = 6")
  case True
  let ?k = "dhcp_snp_tbl_hash mac"
  note c = tblD(1) [OF t, of ?k] and m = tblD(3) [OF t]
  have same: "memcmp 6 (chaddr (the (items st x))) mac = 0 \<longleftrightarrow> chaddr e = mac"
    if "x \<in> set (ms k)" "entries st x = Some e" for x k e
    using macs_ok_entry [OF m that] entries_item [OF that(2)] True by (auto simp: memcmp_zero_iff)
  have bucket: "k = ?k" if "x \<in> set (ms k)" "entries st x = Some e" "chaddr e = mac" for x k
    using macs_ok_entry [OF m that(1,2)] that(3) by simp
  show ?thesis
  proof (cases rule: walk_cases [OF c, of "\<lambda>it. memcmp 6 (chaddr it) mac = 0"])
    case 1
    have "\<not> (x \<in> set (ms k) \<and> entries st x = Some e \<and> chaddr e = mac)" for k x
    proof
      assume x: "x \<in> set (ms k) \<and> entries st x = Some e \<and> chaddr e = mac"
      then have "x \<in> set (ms ?k)" using bucket [of x k] by simp
      then show False using 1(2) [of x] same [of x ?k e] x by simp
    qed
    then have "\<not> (\<exists>k. \<exists>x\<in>set (ms k). entries st x = Some e \<and> chaddr e = mac)" by blast
    then show ?thesis using 1(1) True by (simp add: binding_def entry_at_def)
  next
    case (2 x)
    then have "x \<noteq> NULL" using chain_member [OF c] by blast
    obtain f where f: "entries st x = Some f" using macs_ok_some [OF m 2(2)] by blast
    have "chaddr f = mac" using 2 same f by blast
    then have "entries st y = Some e \<and> chaddr e = mac \<longrightarrow> y = x" if "y \<in> set (ms k)" for y k
      using macs_ok_eq [OF m that 2(2) _ f] by auto
    moreover have "binding st mac = Some f"
      using 2(1) True f \<open>x \<noteq> NULL\<close> by (simp add: binding_def entry_at_def)
    ultimately show ?thesis using 2(2) f \<open>chaddr f = mac\<close> by (metis option.inject)
  qed
next
  case False
  then show ?thesis using macs_ok_entry [OF tblD(3) [OF t]] by (auto simp: binding_def)
qed

lemma holder_iff:
  assumes t: "tbl st ms ips"
  shows "holder st ip = Some mac \<longleftrightarrow>
    (\<exists>k. \<exists>x\<in>set (ips k). \<exists>e. entries st x = Some e \<and> ip_addr e = ip \<and> chaddr e = mac)"
proof (cases "ip = 0")
  case True
  then show ?thesis using ip_ok_entry [OF tblD(4) [OF t]]
    by (auto simp: holder_def dhcp_snp_tbl_item_find_by_ip_def entry_at_def)
next
  case False
  let ?k = "dhcp_snp_tbl_ip_hash ip"
  note c = tblD(2) [OF t, of ?k] and i = tblD(4) [OF t]
  have same: "ip_addr (the (items st x)) = ip \<longleftrightarrow> ip_addr e = ip" if "entries st x = Some e" for x e
    using entries_item [OF that] by auto
  have bucket: "k = ?k" if "x \<in> set (ips k)" "entries st x = Some e" "ip_addr e = ip" for x k e
    using ip_ok_entry [OF i that(1,2)] that(3) by simp
  show ?thesis
  proof (cases rule: walk_cases [OF c, of "\<lambda>it. ip_addr it = ip"])
    case 1
    have "\<not> (x \<in> set (ips k) \<and> entries st x = Some e \<and> ip_addr e = ip)" for k x e
      using 1(2) [of x] same [of x e] bucket [of x k e] by blast
    then show ?thesis
      using 1(1) False by (auto simp: holder_def dhcp_snp_tbl_item_find_by_ip_def entry_at_def)
  next
    case (2 x)
    then have "x \<noteq> NULL" using chain_member [OF c] by blast
    obtain f where f: "entries st x = Some f" using ip_ok_some [OF i 2(2)] by blast
    have "ip_addr f = ip" using 2 same f by blast
    then have only: "entries st y = Some e \<and> ip_addr e = ip \<longrightarrow> y = x" if "y \<in> set (ips k)" for y k e
      using ip_ok_eq [OF i that 2(2) _ f] by auto
    have "holder st ip = Some (chaddr f)"
      using 2 False f \<open>x \<noteq> NULL\<close> by (simp add: holder_def dhcp_snp_tbl_item_find_by_ip_def entry_at_def)
    then show ?thesis using only 2 f \<open>ip_addr f = ip\<close> by (metis option.inject)
  qed
qed

lemma option_map_eqI: "(\<And>x y. f x = Some y \<longleftrightarrow> g x = Some y) \<Longrightarrow> f = g"
  by (rule ext) (metis not_None_eq)

subsection \<open>Taking an entry off its IP chain\<close>

lemma strip_ip:
  assumes "map_option (\<lambda>it. it\<lparr>ip_next := NULL\<rparr>) a = map_option (\<lambda>it. it\<lparr>ip_next := NULL\<rparr>) b"
  shows "map_option nxt a = map_option nxt b" "map_option entry a = map_option entry b"
proof -
  have n: "nxt it = nxt (it\<lparr>ip_next := NULL\<rparr>)" for it :: item by simp
  show "map_option nxt a = map_option nxt b" "map_option entry a = map_option entry b"
    using assms by (cases a; cases b; metis entry_alt(2) n option.map(1,2) option.inject option.distinct(1))+
qed

lemma strip_nxt:
  assumes "map_option (\<lambda>it. it\<lparr>nxt := NULL\<rparr>) a = map_option (\<lambda>it. it\<lparr>nxt := NULL\<rparr>) b"
  shows "map_option ip_next a = map_option ip_next b" "map_option entry a = map_option entry b"
proof -
  have n: "ip_next it = ip_next (it\<lparr>nxt := NULL\<rparr>)" for it :: item by simp
  show "map_option ip_next a = map_option ip_next b" "map_option entry a = map_option entry b"
    using assms by (cases a; cases b; metis entry_alt(1) n option.map(1,2) option.inject option.distinct(1))+
qed

lemma tbl_ip_change:
  assumes t: "tbl st ms ips"
    and rest: "\<And>y. map_option (\<lambda>it. it\<lparr>ip_next := NULL\<rparr>) (h y)
                   = map_option (\<lambda>it. it\<lparr>ip_next := NULL\<rparr>) (items st y)"
    and c: "chain h ip_next p xs"
    and others: "\<And>j y. j \<noteq> k \<Longrightarrow> y \<in> set (ips j) \<Longrightarrow> h y = items st y"
    and ok: "ip_ok (entries st) ms (ips(k := xs))"
  shows "tbl (st\<lparr>items := h, ip_tab := (ip_tab st)(k := p)\<rparr>) ms (ips(k := xs))"
    and "entries (st\<lparr>items := h, ip_tab := (ip_tab st)(k := p)\<rparr>) = entries st"
proof -
  let ?st = "st\<lparr>items := h, ip_tab := (ip_tab st)(k := p)\<rparr>"
  show e: "entries ?st = entries st"
    by (rule ext) (simp add: entries_def strip_ip(2) [OF rest])
  have m: "chain h nxt q ys \<longleftrightarrow> chain (items st) nxt q ys" for q ys
    by (rule chain_cong) (rule strip_ip(1) [OF rest])
  have i: "chain h ip_next (((ip_tab st)(k := p)) j) ((ips(k := xs)) j)" for j
  proof (cases "j = k")
    case False
    then have "chain h ip_next q (ips j) \<longleftrightarrow> chain (items st) ip_next q (ips j)" for q
      by (intro chain_cong) (simp add: others)
    then show ?thesis using False tblD(2) [OF t, of j] by simp
  qed (simp add: c)
  have fresh: "brk st \<le> x \<Longrightarrow> h x = None" for x
    using rest [of x] tblD(6) [OF t, of x] by simp
  show "tbl ?st ms (ips(k := xs))"
    unfolding tbl_def e using tblD [OF t] m i ok fresh by simp
qed

lemma ip_disjoint: "tbl st ms ips \<Longrightarrow> x \<in> set (ips k) \<Longrightarrow> x \<in> set (ips j) \<Longrightarrow> j = k"
  using ip_ok_entry ip_ok_some tblD(4) by metis

lemma mac_disjoint: "tbl st ms ips \<Longrightarrow> x \<in> set (ms k) \<Longrightarrow> x \<in> set (ms j) \<Longrightarrow> j = k"
  using macs_ok_entry macs_ok_some tblD(3) by metis

lemma ip_ok_sub: "ip_ok d ms ips \<Longrightarrow> (\<And>k. set (ips' k) \<subseteq> set (ips k)) \<Longrightarrow> ip_ok d ms ips'"
  unfolding ip_ok_def by (meson subsetD)

lemma delete_iphash_tbl:
  assumes t: "tbl st ms ips" and x: "x \<in> set (ips k)"
  shows "\<exists>st'. dhcp_snp_tbl_item_delete_iphash st x = Some (st', CODE_OK)
           \<and> tbl st' ms (ips(k := remove1 x (ips k))) \<and> entries st' = entries st
           \<and> calls st' = calls st \<and> brk st' = brk st"
proof -
  note c = tblD(2) [OF t, of k]
  obtain e where e: "entries st x = Some e" using ip_ok_some [OF tblD(4) [OF t] x] by blast
  then obtain it where it: "items st x = Some it" "e = entry it" using entries_item by blast
  have ip: "ip_addr it \<noteq> 0" "dhcp_snp_tbl_ip_hash (ip_addr it) = k"
    using ip_ok_entry [OF tblD(4) [OF t] x e] it by simp_all
  have "x \<noteq> NULL" using chain_member [OF c x] by simp
  obtain h p where h: "unlink (items st) ip_next set_ip_next (ip_tab st k) x = Some (h, p, True)"
      "chain h ip_next p (remove1 x (ips k))"
      "\<And>y. map_option (\<lambda>it. it\<lparr>ip_next := NULL\<rparr>) (h y) = map_option (\<lambda>it. it\<lparr>ip_next := NULL\<rparr>) (items st y)"
      "\<And>y. y \<notin> set (ips k) \<Longrightarrow> h y = items st y" "h x = items st x"
    using ip_list.unlink_chain [OF c x] by blast
  let ?h = "h(x := map_option (set_ip_next NULL) (h x))"
  let ?st = "st\<lparr>items := ?h, ip_tab := (ip_tab st)(k := p)\<rparr>"
  have "x \<notin> set (remove1 x (ips k))" using chain_distinct [OF c] by (simp add: set_remove1_eq)
  then have "chain ?h ip_next p (remove1 x (ips k))" using h(2) chain_outside by metis
  moreover have "map_option (\<lambda>it. it\<lparr>ip_next := NULL\<rparr>) (?h y) = map_option (\<lambda>it. it\<lparr>ip_next := NULL\<rparr>) (items st y)" for y
    using h(3) [of y] it h(5) by (simp add: set_ip_next_def)
  moreover have "?h y = items st y" if "j \<noteq> k" "y \<in> set (ips j)" for j y
    using that x h(4) [of y] ip_disjoint [OF t] by (metis fun_upd_other)
  moreover have "ip_ok (entries st) ms (ips(k := remove1 x (ips k)))"
    by (rule ip_ok_sub [OF tblD(4) [OF t]]) (auto dest: set_remove1_subset [THEN subsetD] split: if_splits)
  ultimately have "tbl ?st ms (ips(k := remove1 x (ips k)))" "entries ?st = entries st"
    using tbl_ip_change [OF t, where h = ?h and p = p and k = k] by blast+
  moreover have "dhcp_snp_tbl_item_delete_iphash st x = Some (?st, CODE_OK)"
    using \<open>x \<noteq> NULL\<close> it ip h(1) by (simp add: dhcp_snp_tbl_item_delete_iphash_def)
  ultimately show ?thesis by simp
qed

lemma delete_iphash_off:
  assumes t: "tbl st ms ips" and x: "items st x = Some it" "x \<noteq> NULL" "\<And>k. x \<notin> set (ips k)"
  shows "\<exists>ret. dhcp_snp_tbl_item_delete_iphash st x = Some (st, ret)"
  using x unlink_missing [OF tblD(2) [OF t], of x] by (simp add: dhcp_snp_tbl_item_delete_iphash_def Let_def)

subsection \<open>Making room for an address\<close>

text \<open>Evicting an address returns, with every entry that had it off the IP chains.\<close>

definition without_ip :: "(addr \<rightharpoonup> item) \<Rightarrow> u32 \<Rightarrow> (nat \<Rightarrow> addr list) \<Rightarrow> nat \<Rightarrow> addr list" where
  "without_ip d ip ips k = filter (\<lambda>x. ip_addr (the (d x)) \<noteq> ip) (ips k)"

lemma find_by_ip_cases:
  assumes t: "tbl st ms ips"
  obtains "dhcp_snp_tbl_item_find_by_ip st ip = Some NULL"
      and "\<And>k x e. x \<in> set (ips k) \<Longrightarrow> entries st x = Some e \<Longrightarrow> ip_addr e \<noteq> ip"
  | x e where "dhcp_snp_tbl_item_find_by_ip st ip = Some x" and "x \<noteq> NULL"
      and "x \<in> set (ips (dhcp_snp_tbl_ip_hash ip))" and "entries st x = Some e" and "ip_addr e = ip"
      and "\<And>k y f. y \<in> set (ips k) \<Longrightarrow> entries st y = Some f \<Longrightarrow> ip_addr f = ip \<Longrightarrow> y = x"
proof (cases "ip = 0")
  case True
  show ?thesis
  proof (rule that(1))
    show "dhcp_snp_tbl_item_find_by_ip st ip = Some NULL"
      using True by (simp add: dhcp_snp_tbl_item_find_by_ip_def)
    show "ip_addr e \<noteq> ip" if "x \<in> set (ips k)" "entries st x = Some e" for k x e
      using ip_ok_entry [OF tblD(4) [OF t] that] True by simp
  qed
next
  case False
  note c = tblD(2) [OF t, of "dhcp_snp_tbl_ip_hash ip"] and i = tblD(4) [OF t]
  have same: "ip_addr (the (items st x)) = ip \<longleftrightarrow> ip_addr e = ip" if "entries st x = Some e" for x e
    using entries_item [OF that] by auto
  show ?thesis
  proof (cases rule: walk_cases [OF c, of "\<lambda>it. ip_addr it = ip"])
    case 1
    show ?thesis
    proof (rule that(1))
      show "dhcp_snp_tbl_item_find_by_ip st ip = Some NULL"
        using False 1(1) by (simp add: dhcp_snp_tbl_item_find_by_ip_def)
      show "ip_addr e \<noteq> ip" if "x \<in> set (ips k)" "entries st x = Some e" for k x e
        using ip_ok_entry [OF i that] 1(2) [of x] same [OF that(2)] that(1) by auto
    qed
  next
    case (2 x)
    obtain f where f: "entries st x = Some f" using ip_ok_some [OF i 2(2)] by blast
    then have "ip_addr f = ip" using 2(3) same by blast
    show ?thesis
    proof (rule that(2) [of x f])
      show "dhcp_snp_tbl_item_find_by_ip st ip = Some x"
        using False 2(1) by (simp add: dhcp_snp_tbl_item_find_by_ip_def)
      show "x \<noteq> NULL" using chain_member [OF c 2(2)] by simp
      show "y = x" if "y \<in> set (ips k)" "entries st y = Some g" "ip_addr g = ip" for k y g
        using ip_ok_eq [OF i that(1) 2(2) that(2) f] that(3) \<open>ip_addr f = ip\<close> by simp
    qed (use 2 f \<open>ip_addr f = ip\<close> in simp_all)
  qed
qed

lemma without_ip_same:
  assumes "tbl st ms ips" and "\<And>k x e. x \<in> set (ips k) \<Longrightarrow> entries st x = Some e \<Longrightarrow> ip_addr e \<noteq> ip"
  shows "without_ip (entries st) ip ips = ips"
proof
  fix k
  have "ip_addr (the (entries st x)) \<noteq> ip" if "x \<in> set (ips k)" for x
    using ip_ok_some [OF tblD(4) [OF assms(1)] that] assms(2) [OF that] by auto
  then show "without_ip (entries st) ip ips k = ips k" by (simp add: without_ip_def)
qed

lemma without_ip_one:
  assumes t: "tbl st ms ips" and x: "x \<in> set (ips k)" and e: "entries st x = Some e" "ip_addr e = ip"
    and only: "\<And>k y f. y \<in> set (ips k) \<Longrightarrow> entries st y = Some f \<Longrightarrow> ip_addr f = ip \<Longrightarrow> y = x"
  shows "without_ip (entries st) ip ips = ips(k := remove1 x (ips k))"
proof
  fix j
  have keep: "ip_addr (the (entries st y)) \<noteq> ip \<longleftrightarrow> y \<noteq> x" if "y \<in> set (ips j)" for y
    using ip_ok_some [OF tblD(4) [OF t] that] only [OF that] e by auto
  then have f: "without_ip (entries st) ip ips j = filter (\<lambda>y. y \<noteq> x) (ips j)"
    unfolding without_ip_def by (rule filter_cong [OF refl])
  show "without_ip (entries st) ip ips j = (ips(k := remove1 x (ips k))) j"
  proof (cases "j = k")
    case True
    then show ?thesis using f chain_distinct [OF tblD(2) [OF t]] by (simp add: distinct_remove1_removeAll removeAll_filter_not_eq eq_commute)
  next
    case False
    then have "x \<notin> set (ips j)" using ip_disjoint [OF t x] by blast
    then show ?thesis using f False by (auto simp: filter_id_conv)
  qed
qed

lemma evict_ip_tbl:
  assumes t: "tbl st ms ips"
  shows "\<exists>st'. evict_ip ip st = Some st' \<and> tbl st' ms (without_ip (entries st) ip ips)
           \<and> entries st' = entries st \<and> calls st' = calls st \<and> brk st' = brk st"
proof (cases rule: find_by_ip_cases [OF t, of ip])
  case 1
  then show ?thesis using t without_ip_same [OF t 1(2)] by (subst evict_ip.simps) simp
next
  case (2 x e)
  let ?k = "dhcp_snp_tbl_ip_hash ip"
  obtain st' where st': "dhcp_snp_tbl_item_delete_iphash st x = Some (st', CODE_OK)"
      "tbl st' ms (ips(?k := remove1 x (ips ?k)))" "entries st' = entries st" "calls st' = calls st" "brk st' = brk st"
    using delete_iphash_tbl [OF t 2(3)] by blast
  have w: "without_ip (entries st) ip ips = ips(?k := remove1 x (ips ?k))"
    by (rule without_ip_one [OF t 2(3,4,5,6)])
  have gone: "ip_addr f \<noteq> ip" if "y \<in> set ((without_ip (entries st) ip ips) k)" "entries st' y = Some f" for k y f
    using that st'(3) by (auto simp: without_ip_def)
  have t': "tbl st' ms (without_ip (entries st) ip ips)" using st'(2) w by simp
  have "dhcp_snp_tbl_item_find_by_ip st' ip = Some NULL"
  proof (cases rule: find_by_ip_cases [OF t', of ip])
    case (2 y f)
    then show ?thesis using gone by blast
  qed
  then have "evict_ip ip st' = Some st'" by (subst evict_ip.simps) simp
  then have "evict_ip ip st = Some st'" using 2(1,2) st'(1) by (subst evict_ip.simps) simp
  then show ?thesis using st' w by simp
qed

subsection \<open>Entering an address\<close>

definition with_ip :: "(addr \<rightharpoonup> item) \<Rightarrow> u32 \<Rightarrow> addr \<Rightarrow> (nat \<Rightarrow> addr list) \<Rightarrow> nat \<Rightarrow> addr list" where
  "with_ip d ip x ips =
     (let ips = without_ip d ip ips; k = dhcp_snp_tbl_ip_hash ip in ips(k := x # ips k))"

lemma with_ip_ok:
  assumes ok: "ip_ok d ms ips" and x: "x \<in> set (ms k)" "d x = Some e" "ip_addr e = ip" "ip \<noteq> 0"
    and k: "dhcp_snp_tbl_hash (chaddr e) = k"
  shows "ip_ok d ms (with_ip d ip x ips)"
proof -
  let ?w = "with_ip d ip x ips"
  have inI: "y = x \<and> j = dhcp_snp_tbl_ip_hash ip \<or> y \<in> set (ips j) \<and> ip_addr (the (d y)) \<noteq> ip"
    if "y \<in> set (?w j)" for j y
    using that by (auto simp: with_ip_def without_ip_def Let_def split: if_splits)
  show ?thesis
    unfolding ip_ok_def
  proof (intro conjI allI ballI impI)
    fix j y assume y: "y \<in> set (?w j)"
    show "\<exists>e. d y = Some e \<and> ip_addr e \<noteq> 0 \<and> dhcp_snp_tbl_ip_hash (ip_addr e) = j
            \<and> y \<in> set (ms (dhcp_snp_tbl_hash (chaddr e)))"
    proof (cases "y = x \<and> j = dhcp_snp_tbl_ip_hash ip")
      case True
      then show ?thesis using x k by auto
    next
      case False
      then have "y \<in> set (ips j)" using inI [OF y] by blast
      then show ?thesis using ok unfolding ip_ok_def by blast
    qed
  next
    fix j y z assume y: "y \<in> set (?w j)" and z: "z \<in> set (?w j)"
      and eq: "ip_addr (the (d y)) = ip_addr (the (d z))"
    have "y = z" if "y \<in> set (ips j)" "z \<in> set (ips j)"
      using ok that eq unfolding ip_ok_def by blast
    then show "y = z" using inI [OF y] inI [OF z] eq x by auto
  qed
qed

lemma insert_ip_hash_tbl:
  assumes t: "tbl st ms ips" and x: "x \<in> set (ms k)" and e: "entries st x = Some e" and ip: "ip_addr e \<noteq> 0"
  shows "\<exists>st'. dhcp_snp_tbl_item_insert_ip_hash st x = Some (st', x)
           \<and> tbl st' ms (with_ip (entries st) (ip_addr e) x ips) \<and> entries st' = entries st
           \<and> calls st' = calls st \<and> brk st' = brk st"
proof -
  let ?ip = "ip_addr e" and ?k = "dhcp_snp_tbl_ip_hash (ip_addr e)"
  let ?w = "without_ip (entries st) ?ip ips"
  obtain it where it: "items st x = Some it" "e = entry it" using entries_item [OF e] by blast
  have "x \<noteq> NULL" using chain_member [OF tblD(1) [OF t] x] by simp
  obtain st1 where st1: "evict_ip ?ip st = Some st1" "tbl st1 ms ?w" "entries st1 = entries st"
      "calls st1 = calls st" "brk st1 = brk st"
    using evict_ip_tbl [OF t] by blast
  obtain it1 where it1: "items st1 x = Some it1" using st1(3) e entries_item by metis
  let ?h = "(items st1)(x := map_option (set_ip_next (ip_tab st1 ?k)) (items st1 x))"
  let ?st = "st1\<lparr>items := ?h, ip_tab := (ip_tab st1)(?k := x)\<rparr>"
  have off: "x \<notin> set (?w j)" for j using e by (simp add: without_ip_def)
  have "chain ?h ip_next (ip_tab st1 ?k) (?w ?k)"
    by (rule iffD2 [OF chain_outside [OF off] tblD(2) [OF st1(2)]])
  then have c: "chain ?h ip_next x (x # ?w ?k)" using it1 \<open>x \<noteq> NULL\<close> by (simp add: fun_upd_def)
  have rest: "map_option (\<lambda>it. it\<lparr>ip_next := NULL\<rparr>) (?h y) = map_option (\<lambda>it. it\<lparr>ip_next := NULL\<rparr>) (items st1 y)" for y
    using it1 by (simp add: set_ip_next_def)
  have others: "?h y = items st1 y" if "y \<in> set (?w j)" for j y using off that by auto
  have "dhcp_snp_tbl_hash (chaddr e) = k" using macs_ok_entry [OF tblD(3) [OF t] x e] by simp
  then have ok: "ip_ok (entries st1) ms (?w(?k := x # ?w ?k))"
    using with_ip_ok [OF tblD(4) [OF t] x e refl ip] st1(3) by (simp add: with_ip_def Let_def)
  have "tbl ?st ms (with_ip (entries st) ?ip x ips)" "entries ?st = entries st"
    using tbl_ip_change [OF st1(2), where h = ?h and p = x and k = ?k and xs = "x # ?w ?k"]
      rest c others ok st1(3) by (simp_all only: with_ip_def Let_def)
  moreover have "dhcp_snp_tbl_item_insert_ip_hash st x = Some (?st, x)"
    using \<open>x \<noteq> NULL\<close> it ip st1(1) by (simp add: dhcp_snp_tbl_item_insert_ip_hash_def Let_def)
  ultimately show ?thesis using st1(4,5) by simp
qed

subsection \<open>Deleting an entry\<close>

lemma tbl_mac_remove:
  assumes t: "tbl st ms ips" and x: "x \<in> set (ms k)" and off: "\<And>j. x \<notin> set (ips j)"
  obtains h p where "unlink (items st) nxt set_nxt (mac_tab st k) x = Some (h, p, True)"
    and "\<And>v. v = h x \<or> v = None \<Longrightarrow>
      tbl (st\<lparr>items := h(x := v), mac_tab := (mac_tab st)(k := p)\<rparr>) (ms(k := remove1 x (ms k))) ips"
    and "\<And>y. map_option entry (h y) = entries st y"
proof -
  note c = tblD(1) [OF t, of k]
  obtain h p where h: "unlink (items st) nxt set_nxt (mac_tab st k) x = Some (h, p, True)"
      "chain h nxt p (remove1 x (ms k))"
      "\<And>y. map_option (\<lambda>it. it\<lparr>nxt := NULL\<rparr>) (h y) = map_option (\<lambda>it. it\<lparr>nxt := NULL\<rparr>) (items st y)"
      "\<And>y. y \<notin> set (ms k) \<Longrightarrow> h y = items st y" "h x = items st x"
    using mac_list.unlink_chain [OF c x] by blast
  let ?ms = "ms(k := remove1 x (ms k))"
  have e: "map_option entry (h y) = entries st y" for y
    by (simp add: entries_def strip_nxt(2) [OF h(3)])
  have only: "y \<noteq> x \<and> y \<in> set (ms j)" if "y \<in> set (?ms j)" for y j
    using that mac_disjoint [OF t x] chain_distinct [OF c]
    by (cases "j = k") (auto simp: set_remove1_eq)
  have "tbl (st\<lparr>items := h(x := v), mac_tab := (mac_tab st)(k := p)\<rparr>) ?ms ips" (is "tbl ?st _ _")
    if v: "v = h x \<or> v = None" for v
  proof -
    have e': "entries ?st y = entries st y" if "y \<noteq> x" for y
      using that e by (simp add: entries_def)
    have "chain (h(x := v)) nxt (((mac_tab st)(k := p)) j) (?ms j)" for j
    proof (cases "j = k")
      case True
      have "x \<notin> set (remove1 x (ms k))" using chain_distinct [OF c] by (simp add: set_remove1_eq)
      from iffD2 [OF chain_outside [OF this] h(2)] show ?thesis using True by simp
    next
      case False
      have "h y = items st y" if "y \<in> set (ms j)" for y
        using h(4) mac_disjoint [OF t that] False by blast
      then have "chain h nxt q (ms j) \<longleftrightarrow> chain (items st) nxt q (ms j)" for q by (intro chain_cong) simp
      moreover have "x \<notin> set (ms j)" using mac_disjoint [OF t x] False by blast
      ultimately have "chain (h(x := v)) nxt (mac_tab st j) (ms j)"
        using tblD(1) [OF t, of j] by (intro iffD2 [OF chain_outside]) blast+
      then show ?thesis using False by simp
    qed
    moreover have "chain (h(x := v)) ip_next (ip_tab st j) (ips j)" for j
    proof -
      have "chain h ip_next (ip_tab st j) (ips j)"
        using tblD(2) [OF t, of j] chain_cong [of "ips j" ip_next h "items st"] strip_nxt(1) [OF h(3)] by blast
      then show ?thesis using off chain_outside by metis
    qed
    moreover have "macs_ok (entries ?st) ?ms"
      using tblD(3) [OF t] only e' unfolding macs_ok_def by metis
    moreover have "ip_ok (entries ?st) ?ms ips"
    proof -
      have stay: "y \<in> set (?ms j)" if "y \<in> set (ms j)" "y \<noteq> x" for y j
        using that by (auto simp: in_set_remove1)
      have "y \<noteq> x" if "y \<in> set (ips j)" for y j using off that by blast
      then show ?thesis using tblD(4) [OF t] e' stay unfolding ip_ok_def by metis
    qed
    moreover have "(h(x := v)) y = None" if "brk st \<le> y" for y
      using v h(3) [of y] tblD(6) [OF t that] by (auto split: if_splits)
    ultimately show ?thesis using tblD(5) [OF t] unfolding tbl_def by simp
  qed
  then show ?thesis using that h(1) e by blast
qed

lemma remove_everywhere:
  assumes "tbl st ms ips"
  shows "(\<exists>k. x \<in> set (ips k) \<and> (\<lambda>j. remove1 x (ips j)) = ips(k := remove1 x (ips k)))
       \<or> (\<forall>k. x \<notin> set (ips k)) \<and> (\<lambda>j. remove1 x (ips j)) = ips"
proof (cases "\<exists>k. x \<in> set (ips k)")
  case True
  then obtain k where k: "x \<in> set (ips k)" by blast
  then have "j \<noteq> k \<Longrightarrow> x \<notin> set (ips j)" for j using ip_disjoint [OF assms] by blast
  then have "(\<lambda>j. remove1 x (ips j)) = ips(k := remove1 x (ips k))"
    by (auto simp: fun_eq_iff remove1_idem)
  then show ?thesis using k by blast
next
  case False
  then show ?thesis by (simp add: remove1_idem)
qed

lemma clear_iphash:
  assumes t: "tbl st ms ips" and x: "items st x = Some it" "x \<noteq> NULL"
  shows "\<exists>st'. (if ip_addr it = 0 then Some st else map_option fst (dhcp_snp_tbl_item_delete_iphash st x)) = Some st'
           \<and> tbl st' ms (\<lambda>j. remove1 x (ips j)) \<and> entries st' = entries st
           \<and> calls st' = calls st \<and> brk st' = brk st"
  using remove_everywhere [OF t, of x]
proof (elim disjE exE conjE)
  fix k assume k: "x \<in> set (ips k)" and eq: "(\<lambda>j. remove1 x (ips j)) = ips(k := remove1 x (ips k))"
  have "entries st x = Some (entry it)" using x by (simp add: entries_def)
  then have "ip_addr it \<noteq> 0" using ip_ok_entry [OF tblD(4) [OF t] k] by auto
  then show ?thesis using delete_iphash_tbl [OF t k] eq by auto
next
  assume "\<forall>k. x \<notin> set (ips k)" "(\<lambda>j. remove1 x (ips j)) = ips"
  then show ?thesis using delete_iphash_off [OF t x] t by auto
qed

lemma item_delete_tbl:
  assumes t: "tbl st ms ips" and x: "x \<in> set (ms k)" and it: "items st x = Some it"
  shows "\<exists>st' ret. dhcp_snp_tbl_item_delete env st x = Some (st', ret)
           \<and> ret = (if db_delete env it = CODE_OK then CODE_OK else CODE_ERROR)
           \<and> tbl st' (ms(k := remove1 x (ms k))) (\<lambda>j. remove1 x (ips j))
           \<and> (\<forall>y. y \<noteq> x \<longrightarrow> entries st' y = entries st y)
           \<and> calls st' = calls st \<and> brk st' = brk st"
proof -
  have "x \<noteq> NULL" using chain_member [OF tblD(1) [OF t] x] by simp
  have key: "dhcp_snp_tbl_hash (chaddr it) = k"
    using macs_ok_entry [OF tblD(3) [OF t] x, of "entry it"] it by (simp add: entries_def)
  obtain st1 where st1: "(if ip_addr it = 0 then Some st else map_option fst (dhcp_snp_tbl_item_delete_iphash st x)) = Some st1"
      "tbl st1 ms (\<lambda>j. remove1 x (ips j))" "entries st1 = entries st" "calls st1 = calls st" "brk st1 = brk st"
    using clear_iphash [OF t it \<open>x \<noteq> NULL\<close>] by blast
  have off: "x \<notin> set (remove1 x (ips j))" for j
    using chain_distinct [OF tblD(2) [OF t]] by (simp add: set_remove1_eq)
  obtain h p where h: "unlink (items st1) nxt set_nxt (mac_tab st1 k) x = Some (h, p, True)"
      "\<And>v. v = h x \<or> v = None \<Longrightarrow>
        tbl (st1\<lparr>items := h(x := v), mac_tab := (mac_tab st1)(k := p)\<rparr>) (ms(k := remove1 x (ms k))) (\<lambda>j. remove1 x (ips j))"
      "\<And>y. map_option entry (h y) = entries st1 y"
    by (rule tbl_mac_remove [OF st1(2) x off]) (rule that)
  let ?v = "if db_delete env it = CODE_OK then None else h x"
  let ?st = "st1\<lparr>items := h(x := ?v), mac_tab := (mac_tab st1)(k := p)\<rparr>"
  have "dhcp_snp_tbl_item_delete env st x = Some (?st, if db_delete env it = CODE_OK then CODE_OK else CODE_ERROR)"
    using \<open>x \<noteq> NULL\<close> it st1(1) key h(1)
    by (simp add: dhcp_snp_tbl_item_delete_def Let_def)
  moreover have "tbl ?st (ms(k := remove1 x (ms k))) (\<lambda>j. remove1 x (ips j))" by (rule h(2)) simp
  moreover have "y \<noteq> x \<Longrightarrow> entries ?st y = entries st y" for y
    using h(3) [of y] st1(3) by (simp add: entries_def)
  ultimately show ?thesis using st1(4,5) by simp
qed

subsection \<open>Inserting an entry\<close>

lemma fill_item_simps [simp]:
  "nxt (dhcp_snp_tbl_fill_item env u it) = nxt it" "ip_next (dhcp_snp_tbl_fill_item env u it) = ip_next it"
  "chaddr (dhcp_snp_tbl_fill_item env u it) = take 6 (u_chaddr u)"
  "ip_addr (dhcp_snp_tbl_fill_item env u it) = u_ip_addr u"
  by (simp_all add: dhcp_snp_tbl_fill_item_def)

lemma item_insert_tbl:
  assumes t: "tbl st ms ips" and len: "length (u_chaddr u) = 6" and m: "malloc_ok env"
    and new: "\<And>k x e. x \<in> set (ms k) \<Longrightarrow> entries st x = Some e \<Longrightarrow> chaddr e \<noteq> u_chaddr u"
    and k: "k = dhcp_snp_tbl_hash (u_chaddr u)"
  shows "\<exists>st'. dhcp_snp_tbl_item_insert env st u = (st', brk st)
           \<and> tbl st' (ms(k := brk st # ms k)) ips
           \<and> entries st' = (entries st)(brk st \<mapsto> entry (dhcp_snp_tbl_fill_item env u zero_item))
           \<and> calls st' = calls st"
proof -
  let ?p = "brk st" and ?it = "dhcp_snp_tbl_fill_item env u zero_item"
  let ?h = "(items st)(?p \<mapsto> ?it\<lparr>nxt := mac_tab st k\<rparr>)"
  let ?st = "st\<lparr>brk := Suc ?p, items := ?h, mac_tab := (mac_tab st)(k := ?p)\<rparr>"
  let ?ms = "ms(k := ?p # ms k)"
  have fresh: "?p \<notin> set (ms j)" "?p \<notin> set (ips j)" for j
    using chain_member [OF tblD(1) [OF t]] chain_member [OF tblD(2) [OF t]] tblD(6) [OF t, of ?p] by blast+
  have e: "entries ?st = (entries st)(?p \<mapsto> entry ?it)"
    by (rule ext) (simp add: entries_def entry_def)
  have c: "chain ?h nxt (mac_tab st j) (ms j)" "chain ?h ip_next (ip_tab st j) (ips j)" for j
    using iffD2 [OF chain_outside [OF fresh(1)] tblD(1) [OF t]] iffD2 [OF chain_outside [OF fresh(2)] tblD(2) [OF t]]
    by blast+
  have "chain ?h nxt (((mac_tab st)(k := ?p)) j) (?ms j)" for j
    using c(1) [of j] tblD(5) [OF t] by (cases "j = k") (simp_all add: fun_upd_def)
  moreover have "macs_ok (entries ?st) ?ms"
    unfolding macs_ok_def
  proof (intro conjI allI ballI impI)
    fix j x assume x: "x \<in> set (?ms j)"
    show "\<exists>e. entries ?st x = Some e \<and> dhcp_snp_tbl_hash (chaddr e) = j \<and> length (chaddr e) = 6"
    proof (cases "x = ?p")
      case True
      then show ?thesis using x fresh len k unfolding e by (auto split: if_splits)
    next
      case False
      then have "x \<in> set (ms j)" using x by (auto split: if_splits)
      then show ?thesis using tblD(3) [OF t] False unfolding macs_ok_def e by simp
    qed
  next
    fix j x y assume xy: "x \<in> set (?ms j)" "y \<in> set (?ms j)"
      and eq: "chaddr (the (entries ?st x)) = chaddr (the (entries ?st y))"
    have old: "z \<in> set (ms j)" "\<exists>f. entries st z = Some f" "chaddr (the (entries st z)) \<noteq> u_chaddr u"
      if "z \<in> set (?ms j)" "z \<noteq> ?p" for z
    proof -
      show "z \<in> set (ms j)" using that by (auto split: if_splits)
      then show "\<exists>f. entries st z = Some f" using macs_ok_some [OF tblD(3) [OF t]] by blast
      then show "chaddr (the (entries st z)) \<noteq> u_chaddr u" using new \<open>z \<in> set (ms j)\<close> by auto
    qed
    have "x = y" if "x \<noteq> ?p" "y \<noteq> ?p"
      using tblD(3) [OF t] old(1) [OF xy(1) that(1)] old(1) [OF xy(2) that(2)] eq that
      unfolding macs_ok_def e by simp
    then show "x = y" using old(3) [OF xy(1)] old(3) [OF xy(2)] eq len unfolding e by (auto split: if_splits)
  qed
  moreover have "ip_ok (entries ?st) ?ms ips"
  proof -
    have "entries ?st x = entries st x" if "x \<in> set (ips j)" for x j
      using that fresh(2) [of j] unfolding e by auto
    moreover have "x \<in> set (?ms j)" if "x \<in> set (ms j)" for x j using that by auto
    ultimately show ?thesis using tblD(4) [OF t] unfolding ip_ok_def by metis
  qed
  ultimately have "tbl ?st ?ms ips"
    using c(2) tblD(5,6) [OF t] unfolding tbl_def by simp
  moreover have "dhcp_snp_tbl_item_insert env st u = (?st, ?p)"
    using m k by (simp add: dhcp_snp_tbl_item_insert_def Let_def)
  ultimately show ?thesis using e by simp
qed

subsection \<open>The operations on the maps\<close>

lemma binding_find:
  "length (u_chaddr u) = 6 \<Longrightarrow> binding st (u_chaddr u) = entry_at st (dhcp_snp_tbl_item_find st u)"
  by (simp add: binding_def dhcp_snp_tbl_item_find_def)

lemma item_find_returns: "tbl st ms ips \<Longrightarrow> \<exists>p. dhcp_snp_tbl_item_find st u = Some p"
  unfolding dhcp_snp_tbl_item_find_def using walk_chain [OF tblD(1)] by blast

lemma item_find_cases:
  assumes t: "tbl st ms ips" and len: "length (u_chaddr u) = 6"
  obtains "dhcp_snp_tbl_item_find st u = Some NULL" and "binding st (u_chaddr u) = None"
      and "\<And>k x e. x \<in> set (ms k) \<Longrightarrow> entries st x = Some e \<Longrightarrow> chaddr e \<noteq> u_chaddr u"
  | x e where "dhcp_snp_tbl_item_find st u = Some x" and "x \<noteq> NULL"
      and "x \<in> set (ms (dhcp_snp_tbl_hash (u_chaddr u)))" and "entries st x = Some e"
      and "chaddr e = u_chaddr u" and "binding st (u_chaddr u) = Some e"
proof -
  obtain p where p: "dhcp_snp_tbl_item_find st u = Some p" using item_find_returns [OF t] by blast
  show ?thesis
  proof (cases "p = NULL")
    case True
    have none: "binding st (u_chaddr u) = None" using p True len by (simp add: binding_find entry_at_def)
    show ?thesis
    proof (rule that(1))
      show "chaddr e \<noteq> u_chaddr u" if "x \<in> set (ms k)" "entries st x = Some e" for k x e
        using binding_iff [OF t, of "u_chaddr u" e] none that by auto
    qed (use p True none in simp_all)
  next
    case False
    let ?k = "dhcp_snp_tbl_hash (u_chaddr u)"
    have "p \<in> set (ms ?k)"
      using p False walk_cases [OF tblD(1) [OF t, of ?k]] unfolding dhcp_snp_tbl_item_find_def
      by (metis option.inject)
    moreover from this obtain e where e: "entries st p = Some e"
      using macs_ok_some [OF tblD(3) [OF t]] by blast
    moreover have b: "binding st (u_chaddr u) = Some e"
      using p False len e by (simp add: binding_find entry_at_def)
    moreover have "chaddr e = u_chaddr u" using binding_iff [OF t] b by blast
    ultimately show ?thesis using that(2) [of p e] p False by simp
  qed
qed

lemma holder_keeps:
  assumes "tbl st ms ips" and "tbl st' ms' ips"
    and "\<And>k x. x \<in> set (ips k) \<Longrightarrow> entries st' x = entries st x"
  shows "holder st' = holder st"
  by (rule option_map_eqI) (use assms(3) in \<open>auto simp: holder_iff [OF assms(1)] holder_iff [OF assms(2)]\<close>)

lemma item_insert_maps:
  assumes "tbl_ok st" and "length (u_chaddr u) = 6" and "malloc_ok env"
    and "binding st (u_chaddr u) = None"
    and "dhcp_snp_tbl_item_insert env st u = (st', p)"
  shows "tbl_ok st' \<and> p \<noteq> NULL \<and> dhcp_snp_tbl_item_find st' u = Some p
    \<and> binding st' = (binding st)(u_chaddr u \<mapsto> entry (dhcp_snp_tbl_fill_item env u zero_item))
    \<and> holder st' = holder st"
proof -
  obtain ms ips where t: "tbl st ms ips" using assms(1) tbl_ok_def by blast
  let ?k = "dhcp_snp_tbl_hash (u_chaddr u)" and ?e = "entry (dhcp_snp_tbl_fill_item env u zero_item)"
  have new: "chaddr e \<noteq> u_chaddr u" if "x \<in> set (ms k)" "entries st x = Some e" for k x e
    using binding_iff [OF t, of "u_chaddr u" e] that assms(4) by auto
  have p: "p = brk st" and t': "tbl st' (ms(?k := brk st # ms ?k)) ips"
    and e: "entries st' = (entries st)(brk st \<mapsto> ?e)"
    using item_insert_tbl [OF t assms(2,3) new refl] assms(5) by auto
  have mac: "chaddr ?e = u_chaddr u" using assms(2) by simp
  have fresh: "brk st \<notin> set (ms k)" "brk st \<notin> set (ips k)" for k
    using chain_member [OF tblD(1) [OF t]] chain_member [OF tblD(2) [OF t]] tblD(6) [OF t, of "brk st"] by blast+
  have b: "binding st' = (binding st)(u_chaddr u \<mapsto> ?e)"
  proof (rule option_map_eqI)
    fix m f
    have "binding st' m = Some f \<longleftrightarrow> f = ?e \<and> m = u_chaddr u
            \<or> (\<exists>k. \<exists>x\<in>set (ms k). entries st x = Some f \<and> chaddr f = m)"
      unfolding binding_iff [OF t'] e using mac fresh(1) by (auto split: if_splits) metis
    then show "binding st' m = Some f \<longleftrightarrow> ((binding st)(u_chaddr u \<mapsto> ?e)) m = Some f"
      using binding_iff [OF t, of m f] new by auto
  qed
  moreover have "holder st' = holder st"
    by (rule holder_keeps [OF t t']) (use fresh(2) e in auto)
  moreover have "dhcp_snp_tbl_item_find st' u = Some p"
  proof (cases rule: item_find_cases [OF t' assms(2)])
    case 1
    then show ?thesis using b by simp
  next
    case (2 x f)
    then have "f = ?e" using b by simp
    then have "x = brk st"
      using 2(3-5) new [of x _ f] e by (auto split: if_splits)
    then show ?thesis using 2(1) p by simp
  qed
  ultimately show ?thesis using t' p tblD(5) [OF t] unfolding tbl_ok_def by blast
qed

text \<open>C30: Inserting a client that has no entry, while memory is available,
  is the update of a map: the new entry is found under its hardware address, every other
  hardware address keeps what it had, no IP address changes hands, and the two tables still
  agree.\<close>

theorem item_insert_refines:
  assumes "tbl_ok st" and "length (u_chaddr u) = 6" and "malloc_ok env"
    and "binding st (u_chaddr u) = None"
    and "dhcp_snp_tbl_item_insert env st u = (st', p)"
  shows "tbl_ok st' \<and> p \<noteq> NULL \<and> dhcp_snp_tbl_item_find st' u = Some p
    \<and> binding st' = (binding st)(u_chaddr u \<mapsto> entry (dhcp_snp_tbl_fill_item env u zero_item))
    \<and> holder st' = holder st"
  using assms by (rule item_insert_maps)

lemma binding_keeps:
  assumes "tbl st ms ips" and "tbl st' ms ips'" and "entries st' = entries st"
  shows "binding st' = binding st"
  by (rule option_map_eqI) (simp add: binding_iff [OF assms(1)] binding_iff [OF assms(2)] assms(3))

lemma delete_iphash_maps:
  assumes t: "tbl st ms ips" and x: "x \<in> set (ips k)" and e: "entries st x = Some e"
  shows "\<exists>st'. dhcp_snp_tbl_item_delete_iphash st x = Some (st', CODE_OK)
    \<and> tbl st' ms (ips(k := remove1 x (ips k))) \<and> entries st' = entries st
    \<and> calls st' = calls st \<and> binding st' = binding st \<and> holder st' = (holder st)(ip_addr e := None)"
proof -
  obtain st' where st': "dhcp_snp_tbl_item_delete_iphash st x = Some (st', CODE_OK)"
      "tbl st' ms (ips(k := remove1 x (ips k)))" "entries st' = entries st" "calls st' = calls st"
    using delete_iphash_tbl [OF t x] by blast
  have in_ips: "y \<in> set ((ips(k := remove1 x (ips k))) j) \<longleftrightarrow> y \<in> set (ips j) \<and> y \<noteq> x" for y j
    using chain_distinct [OF tblD(2) [OF t, of k]] ip_disjoint [OF t x, of j]
    by (cases "j = k") (auto simp: set_remove1_eq)
  have other: "y \<noteq> x \<longleftrightarrow> ip_addr f \<noteq> ip_addr e" if "y \<in> set (ips j)" "entries st y = Some f" for y j f
    using ip_ok_eq [OF tblD(4) [OF t] that(1) x that(2) e] that(2) e by auto
  have "holder st' = (holder st)(ip_addr e := None)"
  proof (rule option_map_eqI)
    fix ip m
    have "holder st' ip = Some m \<longleftrightarrow>
        (\<exists>j. \<exists>y\<in>set (ips j). \<exists>f. y \<noteq> x \<and> entries st y = Some f \<and> ip_addr f = ip \<and> chaddr f = m)"
      unfolding holder_iff [OF st'(2)] Bex_def in_ips by (simp add: st'(3) conj_assoc)
    also have "\<dots> \<longleftrightarrow> ip \<noteq> ip_addr e \<and> holder st ip = Some m"
      unfolding holder_iff [OF t] using other by blast
    finally show "holder st' ip = Some m \<longleftrightarrow> ((holder st)(ip_addr e := None)) ip = Some m" by auto
  qed
  then show ?thesis using st' binding_keeps [OF t st'(2,3)] by blast
qed

lemma insert_ip_hash_maps:
  assumes t: "tbl st ms ips" and x: "x \<in> set (ms k)" and e: "entries st x = Some e" and ip: "ip_addr e \<noteq> 0"
  shows "\<exists>st' ips'. dhcp_snp_tbl_item_insert_ip_hash st x = Some (st', x)
    \<and> tbl st' ms ips' \<and> entries st' = entries st \<and> calls st' = calls st
    \<and> binding st' = binding st \<and> holder st' = (holder st)(ip_addr e \<mapsto> chaddr e)"
proof -
  obtain st' where st': "dhcp_snp_tbl_item_insert_ip_hash st x = Some (st', x)"
      "tbl st' ms (with_ip (entries st) (ip_addr e) x ips)" "entries st' = entries st" "calls st' = calls st"
    using insert_ip_hash_tbl [OF t x e ip] by blast
  have in_ips: "y \<in> set (with_ip (entries st) (ip_addr e) x ips j) \<longleftrightarrow>
      y = x \<and> j = dhcp_snp_tbl_ip_hash (ip_addr e) \<or> y \<in> set (ips j) \<and> ip_addr (the (entries st y)) \<noteq> ip_addr e" for y j
    by (auto simp: with_ip_def without_ip_def Let_def)
  have "holder st' = (holder st)(ip_addr e \<mapsto> chaddr e)"
  proof (rule option_map_eqI)
    fix i m
    have "holder st' i = Some m \<longleftrightarrow> i = ip_addr e \<and> m = chaddr e
        \<or> i \<noteq> ip_addr e \<and> (\<exists>j. \<exists>y\<in>set (ips j). \<exists>f. entries st y = Some f \<and> ip_addr f = i \<and> chaddr f = m)"
      unfolding holder_iff [OF st'(2)] st'(3) Bex_def in_ips using e by auto (metis option.sel)
    then show "holder st' i = Some m \<longleftrightarrow> ((holder st)(ip_addr e \<mapsto> chaddr e)) i = Some m"
      using holder_iff [OF t, of i m] by auto
  qed
  then show ?thesis using st' binding_keeps [OF t st'(2,3)] by blast
qed

lemma item_delete_maps:
  assumes t: "tbl st ms ips" and x: "x \<in> set (ms k)" and e: "entries st x = Some e"
  shows "\<exists>st' ret. dhcp_snp_tbl_item_delete env st x = Some (st', ret)
    \<and> ret = (if db_delete env (the (items st x)) = CODE_OK then CODE_OK else CODE_ERROR)
    \<and> tbl st' (ms(k := remove1 x (ms k))) (\<lambda>j. remove1 x (ips j))
    \<and> (\<forall>y. y \<noteq> x \<longrightarrow> entries st' y = entries st y) \<and> calls st' = calls st
    \<and> binding st' = (binding st)(chaddr e := None)
    \<and> holder st' = (\<lambda>ip. if holder st ip = Some (chaddr e) then None else holder st ip)"
proof -
  obtain it where it: "items st x = Some it" using entries_item [OF e] by blast
  obtain st' ret where st': "dhcp_snp_tbl_item_delete env st x = Some (st', ret)"
      "ret = (if db_delete env it = CODE_OK then CODE_OK else CODE_ERROR)"
      "tbl st' (ms(k := remove1 x (ms k))) (\<lambda>j. remove1 x (ips j))"
      "\<And>y. y \<noteq> x \<Longrightarrow> entries st' y = entries st y" "calls st' = calls st"
    using item_delete_tbl [OF t x it] by blast
  have in_ms: "y \<in> set ((ms(k := remove1 x (ms k))) j) \<longleftrightarrow> y \<in> set (ms j) \<and> y \<noteq> x" for y j
    using chain_distinct [OF tblD(1) [OF t, of k]] mac_disjoint [OF t x, of j]
    by (cases "j = k") (auto simp: set_remove1_eq)
  have in_ips: "y \<in> set (remove1 x (ips j)) \<longleftrightarrow> y \<in> set (ips j) \<and> y \<noteq> x" for y j
    using chain_distinct [OF tblD(2) [OF t, of j]] by (auto simp: set_remove1_eq)
  have other: "y \<noteq> x \<longleftrightarrow> chaddr f \<noteq> chaddr e" if "y \<in> set (ms j)" "entries st y = Some f" for y j f
    using macs_ok_eq [OF tblD(3) [OF t] that(1) x that(2) e] that(2) e by auto
  have other_ip: "y \<noteq> x \<longleftrightarrow> chaddr f \<noteq> chaddr e" if "y \<in> set (ips j)" "entries st y = Some f" for y j f
    using ip_ok_entry [OF tblD(4) [OF t] that] other that(2) by blast
  have "binding st' = (binding st)(chaddr e := None)"
  proof (rule option_map_eqI)
    fix m f
    have "binding st' m = Some f \<longleftrightarrow> (\<exists>j. \<exists>y\<in>set (ms j). y \<noteq> x \<and> entries st y = Some f \<and> chaddr f = m)"
      unfolding binding_iff [OF st'(3)] Bex_def in_ms by (simp add: st'(4) conj_assoc cong: conj_cong)
    also have "\<dots> \<longleftrightarrow> m \<noteq> chaddr e \<and> binding st m = Some f"
      unfolding binding_iff [OF t] using other by blast
    finally show "binding st' m = Some f \<longleftrightarrow> ((binding st)(chaddr e := None)) m = Some f" by auto
  qed
  moreover have "holder st' = (\<lambda>ip. if holder st ip = Some (chaddr e) then None else holder st ip)"
  proof (rule option_map_eqI)
    fix ip m
    have "holder st' ip = Some m \<longleftrightarrow>
        (\<exists>j. \<exists>y\<in>set (ips j). \<exists>f. y \<noteq> x \<and> entries st y = Some f \<and> ip_addr f = ip \<and> chaddr f = m)"
      unfolding holder_iff [OF st'(3)] Bex_def in_ips by (simp add: st'(4) conj_assoc cong: conj_cong)
    also have "\<dots> \<longleftrightarrow> m \<noteq> chaddr e \<and> holder st ip = Some m"
      unfolding holder_iff [OF t] using other_ip by blast
    finally show "holder st' ip = Some m \<longleftrightarrow>
        (if holder st ip = Some (chaddr e) then None else holder st ip) = Some m" by auto
  qed
  ultimately show ?thesis using st' it by auto
qed

text \<open>C31: Deleting an entry that a lookup found returns, takes the client's
  hardware address out of the first map and its address out of the second, and changes nothing
  else of either, also when the database reports an error; the result says whether it did.\<close>

theorem item_delete_refines:
  assumes "tbl_ok st" and "length (u_chaddr u) = 6"
    and "dhcp_snp_tbl_item_find st u = Some p" and "p \<noteq> NULL"
  shows "\<exists>st' ret. dhcp_snp_tbl_item_delete env st p = Some (st', ret) \<and> tbl_ok st'
    \<and> ret = (if db_delete env (the (items st p)) = CODE_OK then CODE_OK else CODE_ERROR)
    \<and> binding st' = (binding st)(u_chaddr u := None)
    \<and> holder st' = (\<lambda>ip. if holder st ip = Some (u_chaddr u) then None else holder st ip)"
proof -
  obtain ms ips where t: "tbl st ms ips" using assms(1) tbl_ok_def by blast
  obtain e where x: "p \<in> set (ms (dhcp_snp_tbl_hash (u_chaddr u)))"
    and e: "entries st p = Some e" and mac: "chaddr e = u_chaddr u"
    by (cases rule: item_find_cases [OF t assms(2)]) (use assms(3,4) in auto)
  show ?thesis using item_delete_maps [OF t x e, of env] mac unfolding tbl_ok_def by fastforce
qed

end
