(* ===== verification/SnpBind.thy ===== *)
theory SnpBind
  imports SnpTbl "HOL-Library.Monad_Syntax"
begin

text \<open>
  Binding an address to a client and ageing the bindings (\<open>dhcp_snp_tbl_refresh_bind\<close> and
  \<open>dhcp_snp_aging_mechanism\<close> of \<open>dhcp_snp_tbl.c\<close>, the address check of \<open>dhcp_snp_pkt.c\<close>).

  The steps that may leave the caller early return a sum: \<open>Inl\<close> is the state and the code the
  caller returns, \<open>Inr\<close> the state it goes on with.
\<close>

type_synonym 'a step = "(snp \<times> u32) + 'a"

record dhcp_snp_listener =
  no_arp :: bool
  add_router :: bool

subsection \<open>The address check\<close>

text \<open>The macros compare \<open>htonl\<close> of the address, masked, with \<open>htonl\<close> of the network: a
  comparison of the four bytes in memory, whatever the byte order of the host.\<close>

definition in_net :: "u32 \<Rightarrow> u32 \<Rightarrow> u32 \<Rightarrow> bool" where
  "in_net ip m net \<longleftrightarrow> map2 (AND) (htonl ip) (htonl m) = htonl net"

definition dhcp_snp_u32ip_check :: "u32 \<Rightarrow> int" where
  "dhcp_snp_u32ip_check ip =
     (if in_net ip 0xFFFF0000 0xA9FE0000 \<or> in_net ip 0xff000000 0x7f000000
         \<or> in_net ip 0xf0000000 0xe0000000 \<or> in_net ip 0xf0000000 0xf0000000
         \<or> in_net ip 0xff000000 0x00000000
      then - 1 else 0)"

lemma in_net_iff: "in_net ip m net \<longleftrightarrow> ip AND m = net"
proof -
  have "map2 (AND) (htonl ip) (htonl m) = htonl (ip AND m)"
    by (auto simp: htonl_def htons_def bit_simps intro!: bit_word_eqI)
  moreover have "htonl a = htonl b \<longleftrightarrow> a = b" for a b by (metis ntohl_htonl')
  ultimately show ?thesis by (simp add: in_net_def)
qed

lemma u32ip_check_nonzero: "dhcp_snp_u32ip_check ip = 0 \<Longrightarrow> ip \<noteq> 0"
  by (auto simp: dhcp_snp_u32ip_check_def in_net_iff)

subsection \<open>Binding an address\<close>

definition dhcp_snp_tbl_fill_bind :: "snp_env \<Rightarrow> user \<Rightarrow> item \<Rightarrow> item" where
  "dhcp_snp_tbl_fill_bind env u it =
     (let it = (if u_lease_time u \<noteq> NPD_DHCP_SNP_REQUEST_TIMEOUT
                then it\<lparr>cur_expire := uptime env + u_lease_time u, lease_time := u_lease_time u\<rparr> else it)
      in it\<lparr>ifindex := u_ifindex u, state := u_state u, ip_addr := u_ip_addr u, sys_escape := time0 env\<rparr>)"

definition host_bound :: "item \<Rightarrow> bool" where
  "host_bound it \<longleftrightarrow> vlanId it = 0xFFFF \<and> state it = STATE_BOUND"

text \<open>Removing the neighbour of an entry; adding or removing its host route.\<close>

definition drop_neigh :: "snp_env \<Rightarrow> dhcp_snp_listener \<Rightarrow> item \<Rightarrow> snp \<Rightarrow> snp step" where
  "drop_neigh env node it st =
     (if no_arp node \<and> host_bound it
      then let ret = do_ipneigh env IPNEIGH_DEL (ifindex it) (ip_addr it) (chaddr it);
               st = snp_emit (Ipneigh IPNEIGH_DEL (ifindex it) (ip_addr it) (chaddr it)) st
           in if ret \<noteq> CODE_OK then Inl (st, ret)
              else Inr (snp_emit (Ebtables IPNEIGH_DEL (chaddr it) (ip_addr it)) st)
      else Inr st)"

definition host_route :: "route_op \<Rightarrow> snp_env \<Rightarrow> dhcp_snp_listener \<Rightarrow> item \<Rightarrow> snp \<Rightarrow> snp step" where
  "host_route op env node it st =
     (if add_router node \<and> host_bound it
      then if if_indextoname env (ifindex it)
           then Inr (snp_emit (Route op (ifindex it) (ip_addr it)) st)
           else Inl (st, CODE_ERROR)
      else Inr st)"

text \<open>The loop that takes the address away from every entry that has it: the entry of another
  client is deleted, the client's own entry only leaves the IP chain.\<close>

partial_function (option) drop_holders ::
    "snp_env \<Rightarrow> dhcp_snp_listener \<Rightarrow> user \<Rightarrow> snp \<Rightarrow> snp step option" where
  "drop_holders env node u st =
     do {
       tmp \<leftarrow> dhcp_snp_tbl_item_find_by_ip st (u_ip_addr u);
       if tmp = NULL then Some (Inr st)
       else do {
         it \<leftarrow> items st tmp;
         if memcmp 6 (chaddr it) (u_chaddr u) \<noteq> 0
         then case host_route ROUTE_DEL env node it st of
             Inl r \<Rightarrow> Some (Inl r)
           | Inr st \<Rightarrow> do { (st, _) \<leftarrow> dhcp_snp_tbl_item_delete env st tmp; drop_holders env node u st }
         else do { (st, _) \<leftarrow> dhcp_snp_tbl_item_delete_iphash st tmp; drop_holders env node u st }
       }
     }"

text \<open>The entry is rebound: off its old IP chain, filled, and onto the chain of its address.\<close>

definition rebind :: "snp_env \<Rightarrow> user \<Rightarrow> addr \<Rightarrow> snp \<Rightarrow> snp option" where
  "rebind env u p st =
     do {
       it \<leftarrow> items st p;
       st \<leftarrow> (if ip_addr it = 0 then Some st else map_option fst (dhcp_snp_tbl_item_delete_iphash st p));
       it \<leftarrow> items st p;
       let it = dhcp_snp_tbl_fill_bind env u it;
       let st = st\<lparr>items := (items st)(p \<mapsto> it)\<rparr>;
       (if ip_addr it = 0 then Some st else map_option fst (dhcp_snp_tbl_item_insert_ip_hash st p))
     }"

definition add_neigh :: "snp_env \<Rightarrow> dhcp_snp_listener \<Rightarrow> item \<Rightarrow> snp \<Rightarrow> snp step" where
  "add_neigh env node it st =
     (if no_arp node \<and> vlanId it = 0xFFFF
      then let ret = do_ipneigh env IPNEIGH_ADD (ifindex it) (ip_addr it) (chaddr it);
               st = snp_emit (Ipneigh IPNEIGH_ADD (ifindex it) (ip_addr it) (chaddr it)) st
           in if ret \<noteq> CODE_OK then Inl (st, ret)
              else Inr (snp_emit (Arp_solicit (ifindex it) (chaddr it) (ip_addr it))
                     (snp_emit (Ebtables IPNEIGH_ADD (chaddr it) (ip_addr it)) st))
      else Inr st)"

text \<open>The neighbour and the route of the old binding go, those of the new one come.\<close>

definition leave_old :: "snp_env \<Rightarrow> dhcp_snp_listener \<Rightarrow> item \<Rightarrow> snp \<Rightarrow> snp step" where
  "leave_old env node it st =
     (case drop_neigh env node it st of Inl r \<Rightarrow> Inl r | Inr st \<Rightarrow> host_route ROUTE_DEL env node it st)"

definition enter_new :: "snp_env \<Rightarrow> dhcp_snp_listener \<Rightarrow> item \<Rightarrow> snp \<Rightarrow> snp step" where
  "enter_new env node it st =
     (case add_neigh env node it st of Inl r \<Rightarrow> Inl r | Inr st \<Rightarrow> host_route ROUTE_ADD env node it st)"

definition dhcp_snp_tbl_refresh_bind ::
    "snp_env \<Rightarrow> dhcp_snp_listener \<Rightarrow> snp \<Rightarrow> user \<Rightarrow> addr \<Rightarrow> (snp \<times> u32) option" where
  "dhcp_snp_tbl_refresh_bind env node st u p =
     (if p = NULL then Some (st, CODE_PARAM_NULL)
      else if dhcp_snp_u32ip_check (u_ip_addr u) \<noteq> 0 then Some (st, CODE_ERROR)
      else do {
        it \<leftarrow> items st p;
        case leave_old env node it st of Inl r \<Rightarrow> Some r | Inr st \<Rightarrow> do {
          s \<leftarrow> (if u_ip_addr u = 0 then Some (Inr st) else drop_holders env node u st);
          case s of Inl r \<Rightarrow> Some r | Inr st \<Rightarrow> do {
            st \<leftarrow> rebind env u p st;
            it \<leftarrow> items st p;
            case enter_new env node it st of Inl r \<Rightarrow> Some r | Inr st \<Rightarrow> Some (st, CODE_OK)
          }
        }
      })"

subsection \<open>Calls leave the tables alone\<close>

lemma emit_fields [simp]:
  "items (snp_emit c st) = items st" "mac_tab (snp_emit c st) = mac_tab st" "ip_tab (snp_emit c st) = ip_tab st"
  "brk (snp_emit c st) = brk st" "entries (snp_emit c st) = entries st"
  by (simp_all add: snp_emit_def entries_def fun_eq_iff)

text \<open>Two states with the same tables.\<close>

definition same_tbl :: "snp \<Rightarrow> snp \<Rightarrow> bool" where
  "same_tbl st st' \<longleftrightarrow> items st' = items st \<and> mac_tab st' = mac_tab st \<and> ip_tab st' = ip_tab st \<and> brk st' = brk st"

lemma same_tblD:
  assumes "same_tbl st st'"
  shows "tbl st' ms ips \<longleftrightarrow> tbl st ms ips" "entries st' = entries st" "items st' = items st"
    "binding st' = binding st" "holder st' = holder st" "tbl_ok st' \<longleftrightarrow> tbl_ok st"
proof -
  have e: "entries st' = entries st" using assms by (simp add: same_tbl_def entries_def fun_eq_iff)
  then show "entries st' = entries st" "items st' = items st" "tbl st' ms ips \<longleftrightarrow> tbl st ms ips"
    using assms by (simp_all add: same_tbl_def tbl_def)
  show "binding st' = binding st" "holder st' = holder st"
    using assms e
    by (auto simp: same_tbl_def binding_def holder_def entry_at_def dhcp_snp_tbl_item_find_by_ip_def
        intro!: ext split: option.splits)
  show "tbl_ok st' \<longleftrightarrow> tbl_ok st"
    using assms e by (simp add: same_tbl_def tbl_ok_def tbl_def)
qed

lemma same_tbl_refl [simp]: "same_tbl st st"
  by (simp add: same_tbl_def)

lemma same_tbl_emit [simp]: "same_tbl st (snp_emit c st') \<longleftrightarrow> same_tbl st st'"
  by (simp add: same_tbl_def)

text \<open>The kernel does what it is asked: no netlink error, every interface has a name.\<close>

definition answers :: "snp_env \<Rightarrow> bool" where
  "answers env \<longleftrightarrow> do_ipneigh env = (\<lambda>op i ip m. CODE_OK) \<and> if_indextoname env = (\<lambda>i. True)"

text \<open>A step that only makes calls, and returns early only with an error the kernel caused.\<close>

definition only_calls :: "snp_env \<Rightarrow> snp \<Rightarrow> snp step \<Rightarrow> bool" where
  "only_calls env st r \<longleftrightarrow>
     (case r of Inl (st', ret) \<Rightarrow> same_tbl st st' \<and> ret \<noteq> CODE_OK \<and> \<not> answers env | Inr st' \<Rightarrow> same_tbl st st')"

lemma neigh_only_calls: "only_calls env st (drop_neigh env node it st)" "only_calls env st (add_neigh env node it st)"
  by (auto simp: only_calls_def drop_neigh_def add_neigh_def Let_def answers_def)

lemma host_route_only_calls: "only_calls env st (host_route op env node it st)"
  by (auto simp: only_calls_def host_route_def answers_def snp_codes)

lemma same_tbl_trans: "same_tbl a b \<Longrightarrow> same_tbl b c \<Longrightarrow> same_tbl a c"
  by (simp add: same_tbl_def)

lemma only_calls_then:
  assumes "only_calls env st r" and "\<And>st'. only_calls env st' (f st')"
  shows "only_calls env st (case r of Inl x \<Rightarrow> Inl x | Inr st' \<Rightarrow> f st')"
proof (cases r)
  case (Inr st')
  then show ?thesis
    using assms(1) assms(2) [of st'] same_tbl_trans by (auto simp: only_calls_def split: sum.splits)
qed (use assms(1) in simp)

lemma old_new_only_calls: "only_calls env st (leave_old env node it st)" "only_calls env st (enter_new env node it st)"
  unfolding leave_old_def enter_new_def
  by (rule only_calls_then [OF neigh_only_calls(1) host_route_only_calls]
      only_calls_then [OF neigh_only_calls(2) host_route_only_calls])+

lemma host_route_blocked: "host_route op env node it st = Inl r \<Longrightarrow> r = (st, CODE_ERROR) \<and> (\<exists>i. \<not> if_indextoname env i)"
  by (auto simp: host_route_def split: if_splits)

subsection \<open>The effect of a rebinding\<close>

lemma holder_inj:
  assumes t: "tbl st ms ips" and "holder st i = Some m" and "holder st j = Some m"
  shows "i = j"
proof -
  obtain k x e where x: "x \<in> set (ips k)" "entries st x = Some e" "ip_addr e = i" "chaddr e = m"
    using assms(2) unfolding holder_iff [OF t] by blast
  obtain l y f where y: "y \<in> set (ips l)" "entries st y = Some f" "ip_addr f = j" "chaddr f = m"
    using assms(3) unfolding holder_iff [OF t] by blast
  have "x \<in> set (ms (dhcp_snp_tbl_hash m))" "y \<in> set (ms (dhcp_snp_tbl_hash m))"
    using ip_ok_entry [OF tblD(4) [OF t] x(1,2)] ip_ok_entry [OF tblD(4) [OF t] y(1,2)] x(4) y(4) by simp_all
  then have "x = y" using macs_ok_eq [OF tblD(3) [OF t] _ _ x(2) y(2)] x(4) y(4) by metis
  then show ?thesis using x y by simp
qed

lemma find_by_ip_none:
  assumes t: "tbl st ms ips" and "holder st ip = None"
  shows "dhcp_snp_tbl_item_find_by_ip st ip = Some NULL"
proof (cases rule: find_by_ip_cases [OF t, of ip])
  case (2 x e)
  then have "holder st ip = Some (chaddr e)" unfolding holder_iff [OF t] by blast
  then show ?thesis using assms(2) by simp
qed

text \<open>What the loop leaves: the entry at \<open>p\<close> stays, the address has no holder, and a holder
  other than the client has lost its entry.\<close>

definition dropped :: "snp \<Rightarrow> user \<Rightarrow> addr \<Rightarrow> nat \<Rightarrow> item \<Rightarrow> snp \<Rightarrow> bool" where
  "dropped st u p k e st' \<longleftrightarrow>
     (\<exists>ms ips. tbl st' ms ips \<and> p \<in> set (ms k) \<and> entries st' p = Some e)
     \<and> binding st' = (\<lambda>m. if holder st (u_ip_addr u) = Some m \<and> m \<noteq> u_chaddr u then None else binding st m)
     \<and> holder st' = (holder st)(u_ip_addr u := None)"

lemma drop_holders_step:
  assumes t: "tbl st ms ips" and p: "p \<in> set (ms k)" "entries st p = Some e" "chaddr e = u_chaddr u"
    and x: "x \<in> set (ips j)" "entries st x = Some f" "ip_addr f = u_ip_addr u" "chaddr f \<noteq> u_chaddr u"
  shows "\<exists>st' ret. dhcp_snp_tbl_item_delete env st x = Some (st', ret) \<and> dropped st u p k e st'"
proof -
  have h: "holder st (u_ip_addr u) = Some (chaddr f)" unfolding holder_iff [OF t] using x by blast
  have mx: "x \<in> set (ms (dhcp_snp_tbl_hash (chaddr f)))" using ip_ok_entry [OF tblD(4) [OF t] x(1,2)] by simp
  have "x \<noteq> p" using x p by auto
  obtain st' ret where st': "dhcp_snp_tbl_item_delete env st x = Some (st', ret)"
    and t': "tbl st' (ms(dhcp_snp_tbl_hash (chaddr f) := remove1 x (ms (dhcp_snp_tbl_hash (chaddr f))))) (\<lambda>j. remove1 x (ips j))"
      (is "tbl st' ?ms ?ips")
    and e': "\<forall>y. y \<noteq> x \<longrightarrow> entries st' y = entries st y"
    and b: "binding st' = (binding st)(chaddr f := None)"
    and hl: "holder st' = (\<lambda>ip. if holder st ip = Some (chaddr f) then None else holder st ip)"
    using item_delete_maps [OF t mx x(2), of env] by blast
  have "holder st i = Some (chaddr f) \<longleftrightarrow> i = u_ip_addr u" for i using h holder_inj [OF t _ h] by blast
  then have "holder st' = (holder st)(u_ip_addr u := None)"
    unfolding hl by (simp add: fun_eq_iff)
  moreover have "p \<in> set (?ms k)" using p(1) \<open>x \<noteq> p\<close> by (auto simp: in_set_remove1)
  moreover have "entries st' p = Some e" using e' p(2) \<open>x \<noteq> p\<close> by auto
  moreover have "binding st' = (\<lambda>m. if holder st (u_ip_addr u) = Some m \<and> m \<noteq> u_chaddr u then None else binding st m)"
    unfolding b h using x(4) by (simp add: fun_eq_iff)
  ultimately have "dropped st u p k e st'" unfolding dropped_def using t' by blast
  then show ?thesis using st' by blast
qed

lemma drop_holders_ends:
  assumes "tbl st ms ips" and "holder st (u_ip_addr u) = None"
  shows "drop_holders env node u st = Some (Inr st)"
  using find_by_ip_none [OF assms] by (subst drop_holders.simps) simp

lemma drop_holders_maps:
  assumes t: "tbl st ms ips" and len: "length (u_chaddr u) = 6"
    and p: "p \<in> set (ms k)" "entries st p = Some e" "chaddr e = u_chaddr u"
  shows "\<exists>r. drop_holders env node u st = Some r
    \<and> (case r of Inl (st', ret) \<Rightarrow> same_tbl st st' \<and> ret = CODE_ERROR \<and> (\<exists>i. \<not> if_indextoname env i)
       | Inr st' \<Rightarrow> dropped st u p k e st')"
proof (cases rule: find_by_ip_cases [OF t, of "u_ip_addr u"])
  case 1
  have "holder st (u_ip_addr u) = None"
    using 1(1) by (simp add: holder_def entry_at_def)
  then show ?thesis
    using drop_holders_ends [OF t] t p by (auto simp: dropped_def fun_eq_iff)
next
  case (2 x f)
  obtain it where it: "items st x = Some it" "f = entry it" using entries_item [OF 2(4)] by blast
  have h: "holder st (u_ip_addr u) = Some (chaddr f)" unfolding holder_iff [OF t] using 2 by blast
  have "length (chaddr f) = 6"
    using macs_ok_entry [OF tblD(3) [OF t]] ip_ok_entry [OF tblD(4) [OF t] 2(3,4)] 2(4) by blast
  then have cmp: "memcmp 6 (chaddr it) (u_chaddr u) = 0 \<longleftrightarrow> chaddr f = u_chaddr u"
    using len it by (simp add: memcmp_zero_iff)
  show ?thesis
  proof (cases "chaddr f = u_chaddr u")
    case True
    obtain st' where st': "dhcp_snp_tbl_item_delete_iphash st x = Some (st', CODE_OK)"
      and t': "tbl st' ms (ips(dhcp_snp_tbl_ip_hash (u_ip_addr u) := remove1 x (ips (dhcp_snp_tbl_ip_hash (u_ip_addr u)))))"
      and m: "entries st' = entries st" "binding st' = binding st" "holder st' = (holder st)(ip_addr f := None)"
      using delete_iphash_maps [OF t 2(3,4)] by blast
    have "drop_holders env node u st' = Some (Inr st')"
      using drop_holders_ends [OF t'] m(3) 2(5) by simp
    then have "drop_holders env node u st = Some (Inr st')"
      using 2(1,2) it cmp True st' by (subst drop_holders.simps) simp
    moreover have "dropped st u p k e st'"
      unfolding dropped_def m using t' p m(1) 2(5) h True by auto
    ultimately show ?thesis by simp
  next
    case False
    show ?thesis
    proof (cases "host_route ROUTE_DEL env node it st")
      case (Inl r)
      then have "r = (st, CODE_ERROR)" "\<exists>i. \<not> if_indextoname env i"
        using host_route_blocked by blast+
      moreover have "drop_holders env node u st = Some (Inl r)"
        using 2(1,2) it cmp False Inl by (subst drop_holders.simps) simp
      ultimately show ?thesis by auto
    next
      case (Inr st1)
      then have s: "same_tbl st st1" using host_route_only_calls [of env st ROUTE_DEL node it] by (simp add: only_calls_def)
      note s' = same_tblD [OF s]
      have t1: "tbl st1 ms ips" using t s'(1) by simp
      obtain st' ret where st': "dhcp_snp_tbl_item_delete env st1 x = Some (st', ret)" "dropped st1 u p k e st'"
        using drop_holders_step [OF t1 p(1) _ p(3) 2(3) _ 2(5) False] p(2) 2(4) s'(2) by metis
      have d: "dropped st u p k e st'" using st'(2) unfolding dropped_def s' .
      then have "drop_holders env node u st' = Some (Inr st')"
        unfolding dropped_def using drop_holders_ends by force
      then have "drop_holders env node u st = Some (Inr st')"
        using 2(1,2) it cmp False Inr st'(1) by (subst drop_holders.simps) simp
      then show ?thesis using d by simp
    qed
  qed
qed

lemma fill_bind_simps [simp]:
  "nxt (dhcp_snp_tbl_fill_bind env u it) = nxt it" "ip_next (dhcp_snp_tbl_fill_bind env u it) = ip_next it"
  "chaddr (dhcp_snp_tbl_fill_bind env u it) = chaddr it"
  "ip_addr (dhcp_snp_tbl_fill_bind env u it) = u_ip_addr u"
  "state (dhcp_snp_tbl_fill_bind env u it) = u_state u"
  "vlanId (dhcp_snp_tbl_fill_bind env u it) = vlanId it"
  "bind_type (dhcp_snp_tbl_fill_bind env u it) = bind_type it"
  "ifindex (dhcp_snp_tbl_fill_bind env u it) = u_ifindex u"
  "entry (dhcp_snp_tbl_fill_bind env u it) = dhcp_snp_tbl_fill_bind env u (entry it)"
  by (simp_all add: dhcp_snp_tbl_fill_bind_def Let_def entry_def)

lemma entry_update_maps:
  assumes t: "tbl st ms ips" and x: "x \<in> set (ms k)" and it: "items st x = Some it"
    and off: "\<And>j. x \<notin> set (ips j)" and same: "nxt it' = nxt it" "chaddr it' = chaddr it"
  defines "st' \<equiv> st\<lparr>items := (items st)(x \<mapsto> it')\<rparr>"
  shows "tbl st' ms ips" and "entries st' = (entries st)(x \<mapsto> entry it')"
    and "binding st' = (binding st)(chaddr it \<mapsto> entry it')" and "holder st' = holder st"
proof -
  show e: "entries st' = (entries st)(x \<mapsto> entry it')" by (auto simp: entries_def st'_def)
  have o: "entries st x = Some (entry it)" using it by (simp add: entries_def)
  have "chain (items st') nxt q ys \<longleftrightarrow> chain (items st) nxt q ys" for q ys
    by (rule chain_cong) (simp add: st'_def it same)
  moreover have "chain (items st') ip_next (ip_tab st j) (ips j)" for j
    unfolding st'_def by (simp add: iffD2 [OF chain_outside [OF off] tblD(2) [OF t]])
  moreover have m: "chaddr (the (entries st' y)) = chaddr (the (entries st y))" for y
    using o same(2) by (simp add: e)
  have own: "dhcp_snp_tbl_hash (chaddr it) = j \<and> length (chaddr it) = 6" if "x \<in> set (ms j)" for j
    using macs_ok_entry [OF tblD(3) [OF t] that o] by simp
  have "macs_ok (entries st') ms"
    using tblD(3) [OF t] o same(2) own unfolding macs_ok_def m by (auto simp: e)
  moreover have "ip_ok (entries st') ms ips"
  proof -
    have "entries st' y = entries st y" if "y \<in> set (ips j)" for y j using that off by (auto simp: e)
    then show ?thesis using tblD(4) [OF t] unfolding ip_ok_def by metis
  qed
  moreover have "brk st \<le> y \<Longrightarrow> items st' y = None" for y
    using tblD(6) [OF t, of y] it by (auto simp: st'_def)
  ultimately show t': "tbl st' ms ips"
    using tblD(1,5) [OF t] unfolding tbl_def by (simp add: st'_def)
  show "binding st' = (binding st)(chaddr it \<mapsto> entry it')"
  proof (rule option_map_eqI)
    fix m f
    have other: "y \<noteq> x \<longleftrightarrow> chaddr g \<noteq> chaddr it" if "y \<in> set (ms j)" "entries st y = Some g" for y j g
      using macs_ok_eq [OF tblD(3) [OF t] that(1) x that(2) o] that(2) o by auto
    have "binding st' m = Some f \<longleftrightarrow> m = chaddr it \<and> f = entry it'
        \<or> (\<exists>j. \<exists>y\<in>set (ms j). y \<noteq> x \<and> entries st y = Some f \<and> chaddr f = m)"
      unfolding binding_iff [OF t'] e using x same(2) by (auto split: if_splits)
    also have "\<dots> \<longleftrightarrow> m = chaddr it \<and> f = entry it' \<or> m \<noteq> chaddr it \<and> binding st m = Some f"
      unfolding binding_iff [OF t] using other by blast
    finally show "binding st' m = Some f \<longleftrightarrow> ((binding st)(chaddr it \<mapsto> entry it')) m = Some f" by auto
  qed
  show "holder st' = holder st"
    by (rule holder_keeps [OF t t']) (use off e in auto)
qed

lemma clear_iphash_maps:
  assumes t: "tbl st ms ips" and x: "x \<in> set (ms k)" and it: "items st x = Some it"
  shows "\<exists>st' ips'. (if ip_addr it = 0 then Some st else map_option fst (dhcp_snp_tbl_item_delete_iphash st x)) = Some st'
    \<and> tbl st' ms ips' \<and> (\<forall>j. x \<notin> set (ips' j)) \<and> entries st' = entries st
    \<and> calls st' = calls st \<and> binding st' = binding st
    \<and> holder st' = (\<lambda>i. if holder st i = Some (chaddr it) then None else holder st i)"
proof -
  have "x \<noteq> NULL" using chain_member [OF tblD(1) [OF t] x] by simp
  have e: "entries st x = Some (entry it)" using it by (simp add: entries_def)
  obtain st' where st': "(if ip_addr it = 0 then Some st else map_option fst (dhcp_snp_tbl_item_delete_iphash st x)) = Some st'"
    and t': "tbl st' ms (\<lambda>j. remove1 x (ips j))" and ee: "entries st' = entries st" and cc: "calls st' = calls st"
    using clear_iphash [OF t it \<open>x \<noteq> NULL\<close>] by blast
  have in_ips: "y \<in> set (remove1 x (ips j)) \<longleftrightarrow> y \<in> set (ips j) \<and> y \<noteq> x" for y j
    using chain_distinct [OF tblD(2) [OF t, of j]] by (auto simp: set_remove1_eq)
  have other: "y \<noteq> x \<longleftrightarrow> chaddr f \<noteq> chaddr it" if "y \<in> set (ips j)" "entries st y = Some f" for y j f
    using ip_ok_entry [OF tblD(4) [OF t] that] macs_ok_eq [OF tblD(3) [OF t] _ x that(2) e] that(2) e by auto
  have "holder st' = (\<lambda>i. if holder st i = Some (chaddr it) then None else holder st i)"
  proof (rule option_map_eqI)
    fix ip m
    have "holder st' ip = Some m \<longleftrightarrow>
        (\<exists>j. \<exists>y\<in>set (ips j). \<exists>f. y \<noteq> x \<and> entries st y = Some f \<and> ip_addr f = ip \<and> chaddr f = m)"
      unfolding holder_iff [OF t'] Bex_def in_ips by (simp add: ee conj_assoc)
    also have "\<dots> \<longleftrightarrow> m \<noteq> chaddr it \<and> holder st ip = Some m"
      unfolding holder_iff [OF t] using other by blast
    finally show "holder st' ip = Some m \<longleftrightarrow>
        (if holder st ip = Some (chaddr it) then None else holder st ip) = Some m" by auto
  qed
  then show ?thesis using st' t' ee cc in_ips binding_keeps [OF t t' ee] by blast
qed

lemma rebind_maps:
  assumes t: "tbl st ms ips" and x: "x \<in> set (ms k)" and e: "entries st x = Some e" and ip: "u_ip_addr u \<noteq> 0"
  shows "\<exists>st'. rebind env u x st = Some st' \<and> tbl_ok st' \<and> calls st' = calls st
    \<and> entries st' x = Some (dhcp_snp_tbl_fill_bind env u e)
    \<and> binding st' = (binding st)(chaddr e \<mapsto> dhcp_snp_tbl_fill_bind env u e)
    \<and> holder st' = (\<lambda>i. if holder st i = Some (chaddr e) then None else holder st i)(u_ip_addr u \<mapsto> chaddr e)"
proof -
  obtain it where it: "items st x = Some it" "e = entry it" using entries_item [OF e] by blast
  obtain st1 ips1 where st1: "(if ip_addr it = 0 then Some st else map_option fst (dhcp_snp_tbl_item_delete_iphash st x)) = Some st1"
      "tbl st1 ms ips1" "\<And>j. x \<notin> set (ips1 j)" "entries st1 = entries st" "calls st1 = calls st" "binding st1 = binding st"
      "holder st1 = (\<lambda>i. if holder st i = Some (chaddr it) then None else holder st i)"
    using clear_iphash_maps [OF t x it(1)] by blast
  obtain it1 where it1: "items st1 x = Some it1" "e = entry it1" using st1(4) e entries_item by metis
  let ?it = "dhcp_snp_tbl_fill_bind env u it1"
  define st2 where "st2 = st1\<lparr>items := (items st1)(x \<mapsto> ?it)\<rparr>"
  have st2: "tbl st2 ms ips1" "entries st2 = (entries st1)(x \<mapsto> entry ?it)"
      "binding st2 = (binding st1)(chaddr it1 \<mapsto> entry ?it)" "holder st2 = holder st1"
    unfolding st2_def using entry_update_maps [OF st1(2) x it1(1) st1(3), of ?it] by simp_all
  have e2: "entries st2 x = Some (dhcp_snp_tbl_fill_bind env u e)" using st2(2) it1(2) by simp
  obtain st3 ips3 where st3: "dhcp_snp_tbl_item_insert_ip_hash st2 x = Some (st3, x)" "tbl st3 ms ips3"
      "entries st3 = entries st2" "calls st3 = calls st2" "binding st3 = binding st2"
      "holder st3 = (holder st2)(u_ip_addr u \<mapsto> chaddr e)"
    using insert_ip_hash_maps [OF st2(1) x e2] ip it1(2) by auto
  have "rebind env u x st = Some st3"
    using it(1) st1(1) it1(1) ip st3(1) by (simp add: rebind_def Let_def st2_def)
  moreover have "tbl_ok st3" using st3(2) tbl_ok_def by blast
  moreover have "calls st3 = calls st" using st3(4) st1(5) by (simp add: st2_def)
  moreover have "binding st3 = (binding st)(chaddr e \<mapsto> dhcp_snp_tbl_fill_bind env u e)"
    using st3(5) st2(3) st1(6) it1(2) by simp
  ultimately show ?thesis using st3(3,6) st2(4) st1(7) e2 it(2) by simp
qed

text \<open>The maps after a successful binding of the user's address to its entry \<open>e\<close>.\<close>

definition bound_maps :: "snp_env \<Rightarrow> user \<Rightarrow> item \<Rightarrow> snp \<Rightarrow> snp \<Rightarrow> bool" where
  "bound_maps env u e st st' \<longleftrightarrow>
     binding st' = (\<lambda>m. if holder st (u_ip_addr u) = Some m \<and> m \<noteq> u_chaddr u then None else binding st m)
                     (u_chaddr u \<mapsto> dhcp_snp_tbl_fill_bind env u e)
     \<and> holder st' = (\<lambda>i. if holder st i = Some (u_chaddr u) then None else holder st i)(u_ip_addr u \<mapsto> u_chaddr u)"

lemma dropped_rebind:
  assumes d: "dropped st u p k e st'" and mac: "chaddr e = u_chaddr u" and ip: "u_ip_addr u \<noteq> 0"
  shows "\<exists>st''. rebind env u p st' = Some st'' \<and> tbl_ok st'' \<and> bound_maps env u e st st''
    \<and> entries st'' p = Some (dhcp_snp_tbl_fill_bind env u e)"
proof -
  obtain ms ips where t: "tbl st' ms ips" "p \<in> set (ms k)" "entries st' p = Some e"
    using d unfolding dropped_def by blast
  obtain st'' where st'': "rebind env u p st' = Some st''" "tbl_ok st''"
      "entries st'' p = Some (dhcp_snp_tbl_fill_bind env u e)"
      "binding st'' = (binding st')(chaddr e \<mapsto> dhcp_snp_tbl_fill_bind env u e)"
      "holder st'' = (\<lambda>i. if holder st' i = Some (chaddr e) then None else holder st' i)(u_ip_addr u \<mapsto> chaddr e)"
    using rebind_maps [OF t ip] by blast
  have "bound_maps env u e st st''"
    using d unfolding bound_maps_def dropped_def st''(4,5) mac by (auto simp: fun_eq_iff)
  then show ?thesis using st'' by blast
qed

text \<open>The outcome of a refresh: refused with the tables as they were, or the address bound.\<close>

lemma refresh_bind_cases:
  assumes t: "tbl st ms ips" and len: "length (u_chaddr u) = 6"
    and p: "p \<in> set (ms k)" "entries st p = Some e" "chaddr e = u_chaddr u"
  obtains (refused) st' ret where "dhcp_snp_tbl_refresh_bind env node st u p = Some (st', ret)"
      and "same_tbl st st'" and "ret \<noteq> CODE_OK"
      and "dhcp_snp_u32ip_check (u_ip_addr u) \<noteq> 0 \<or> \<not> answers env"
  | (bound) st' ret where "dhcp_snp_tbl_refresh_bind env node st u p = Some (st', ret)"
      and "dhcp_snp_u32ip_check (u_ip_addr u) = 0" and "tbl_ok st'" and "bound_maps env u e st st'"
      and "entries st' p = Some (dhcp_snp_tbl_fill_bind env u e)" and "ret = CODE_OK \<or> \<not> answers env"
proof -
  have "p \<noteq> NULL" using chain_member [OF tblD(1) [OF t] p(1)] by simp
  obtain it where it: "items st p = Some it" "e = entry it" using entries_item [OF p(2)] by blast
  note def = dhcp_snp_tbl_refresh_bind_def
  show ?thesis
  proof (cases "dhcp_snp_u32ip_check (u_ip_addr u) = 0")
    case False
    then show ?thesis
      using refused [of st CODE_ERROR] \<open>p \<noteq> NULL\<close> by (simp add: def snp_codes)
  next
    case True
    then have ip: "u_ip_addr u \<noteq> 0" by (rule u32ip_check_nonzero)
    show ?thesis
    proof (cases "leave_old env node it st")
      case (Inl r)
      then show ?thesis
        using refused [of "fst r" "snd r"] old_new_only_calls(1) [of env st node it] True \<open>p \<noteq> NULL\<close> it
        by (simp add: def only_calls_def split_beta)
    next
      case old: (Inr st1)
      then have s1: "same_tbl st st1" using old_new_only_calls(1) [of env st node it] by (simp add: only_calls_def)
      note s1' = same_tblD [OF s1]
      have t1: "tbl st1 ms ips" and e1: "entries st1 p = Some e" using t p(2) s1' by simp_all
      obtain r where r: "drop_holders env node u st1 = Some r"
        "case r of Inl (st', ret) \<Rightarrow> same_tbl st1 st' \<and> ret = CODE_ERROR \<and> (\<exists>i. \<not> if_indextoname env i)
         | Inr st' \<Rightarrow> dropped st1 u p k e st'"
        using drop_holders_maps [OF t1 len p(1) e1 p(3)] by blast
      show ?thesis
      proof (cases r)
        case (Inl x)
        then have x: "snd x = CODE_ERROR" "same_tbl st (fst x)" "\<not> answers env"
          using r(2) s1 same_tbl_trans by (auto simp: answers_def)
        then show ?thesis
          using refused [of "fst x" CODE_ERROR] True \<open>p \<noteq> NULL\<close> it ip old r(1) Inl
          by (cases x) (simp add: def snp_codes)
      next
        case (Inr st2)
        then have "dropped st u p k e st2" using r(2) unfolding dropped_def s1'(4,5) by simp
        then obtain st3 where st3: "rebind env u p st2 = Some st3" "tbl_ok st3" "bound_maps env u e st st3"
            "entries st3 p = Some (dhcp_snp_tbl_fill_bind env u e)"
          using dropped_rebind p(3) ip by blast
        obtain it3 where it3: "items st3 p = Some it3" using entries_item [OF st3(4)] by blast
        define fin where "fin = (case enter_new env node it3 st3 of Inl r \<Rightarrow> r | Inr st \<Rightarrow> (st, CODE_OK))"
        have "dhcp_snp_tbl_refresh_bind env node st u p = Some (fst fin, snd fin)"
          using True \<open>p \<noteq> NULL\<close> it ip old r(1) Inr st3(1) it3 by (simp add: def fin_def split: sum.splits)
        moreover have "same_tbl st3 (fst fin)" "snd fin = CODE_OK \<or> \<not> answers env"
          using old_new_only_calls(2) [of env st3 node it3]
          by (auto simp: only_calls_def fin_def split: sum.splits)
        ultimately show ?thesis
          using bound [of "fst fin" "snd fin"] True st3(2-4) same_tblD [of st3 "fst fin"]
          unfolding bound_maps_def by simp
      qed
    qed
  qed
qed

text \<open>C4: Refreshing the entry of a client returns and keeps the two tables in
  agreement. Either it is refused, with an error code and both maps as they were, or the
  address is bound: the client's entry is filled, the address is the client's and no longer
  that of anybody else, whose entry is gone, and the client has no other address. It is bound,
  with success, whenever the address is valid and the kernel does what it is asked.\<close>

theorem refresh_bind_refines:
  assumes "tbl_ok st" and "length (u_chaddr u) = 6"
    and "dhcp_snp_tbl_item_find st u = Some p" and "p \<noteq> NULL" and "binding st (u_chaddr u) = Some e"
  shows "\<exists>st' ret. dhcp_snp_tbl_refresh_bind env node st u p = Some (st', ret) \<and> tbl_ok st'
    \<and> (ret \<noteq> CODE_OK \<and> binding st' = binding st \<and> holder st' = holder st \<or> bound_maps env u e st st')
    \<and> (dhcp_snp_u32ip_check (u_ip_addr u) = 0 \<and> answers env \<longrightarrow> ret = CODE_OK \<and> bound_maps env u e st st')"
proof -
  obtain ms ips where t: "tbl st ms ips" using assms(1) tbl_ok_def by blast
  have p: "p \<in> set (ms (dhcp_snp_tbl_hash (u_chaddr u)))" "entries st p = Some e" "chaddr e = u_chaddr u"
    by (cases rule: item_find_cases [OF t assms(2)]; use assms(3-5) in simp)+
  show ?thesis
  proof (cases rule: refresh_bind_cases [OF t assms(2) p, of env node])
    case (1 st' ret)
    then show ?thesis using same_tblD [OF 1(2)] assms(1) by auto
  next
    case (2 st' ret)
    then show ?thesis by auto
  qed
qed

end
