(* ===== verification/SnpAge.thy ===== *)
theory SnpAge
  imports SnpBind
begin

text \<open>
  Ageing of the bindings (\<open>dhcp_snp_aging_mechanism\<close> of \<open>dhcp_snp_tbl.c\<close>): every bucket is
  walked, and the dynamic entries whose lease has run out are deleted, together with the
  neighbour, the route and the filter rule of a host entry. The walk leaves the function when
  the interface of such an entry has no name any more.
\<close>

subsection \<open>The pass over the buckets\<close>

definition expired :: "snp_env \<Rightarrow> item \<Rightarrow> bool" where
  "expired env it \<longleftrightarrow> bind_type it = TYPE_DYNAMIC \<and> uptime env > cur_expire it"

definition age_host :: "snp_env \<Rightarrow> item \<Rightarrow> snp \<Rightarrow> snp step" where
  "age_host env it st =
     (if ip_addr it \<noteq> 0 \<and> host_bound it
      then let st = snp_emit (Ipneigh IPNEIGH_DEL (ifindex it) (ip_addr it) (chaddr it)) st in
           if \<not> if_indextoname env (ifindex it) then Inl (st, CODE_ERROR)
           else Inr (snp_emit (Ebtables IPNEIGH_DEL (chaddr it) (ip_addr it))
                  (snp_emit (Route ROUTE_DEL (ifindex it) (ip_addr it)) st))
      else Inr st)"

partial_function (option) age_bucket :: "snp_env \<Rightarrow> addr \<Rightarrow> snp \<Rightarrow> snp step option" where
  "age_bucket env p st =
     (if p = NULL then Some (Inr st)
      else do {
        it \<leftarrow> items st p;
        if expired env it
        then case age_host env it st of Inl r \<Rightarrow> Some (Inl r)
           | Inr st \<Rightarrow> do { (st, _) \<leftarrow> dhcp_snp_tbl_item_delete env st p; age_bucket env (nxt it) st }
        else age_bucket env (nxt it) st
      })"

fun age_buckets :: "snp_env \<Rightarrow> nat list \<Rightarrow> snp \<Rightarrow> snp step option" where
  "age_buckets env [] st = Some (Inr st)"
| "age_buckets env (key # keys) st =
     do {
       r \<leftarrow> age_bucket env (mac_tab st key) st;
       case r of Inl x \<Rightarrow> Some (Inl x) | Inr st \<Rightarrow> age_buckets env keys st
     }"

definition dhcp_snp_aging_mechanism :: "snp_env \<Rightarrow> snp \<Rightarrow> (snp \<times> u32) option" where
  "dhcp_snp_aging_mechanism env st =
     do {
       r \<leftarrow> age_buckets env [0..<HASH_TABLE_SIZE] st;
       Some (case r of Inl x \<Rightarrow> x | Inr st \<Rightarrow> (st, 0))
     }"

subsection \<open>One bucket\<close>

definition first :: "addr list \<Rightarrow> addr" where
  "first xs = (case xs of [] \<Rightarrow> NULL | x # _ \<Rightarrow> x)"

lemma chain_first: "chain h lnk p xs \<Longrightarrow> p = first xs"
  by (cases xs) (simp_all add: first_def)

lemma chain_suffix: "chain h lnk p (xs @ ys) \<Longrightarrow> chain h lnk (first ys) ys"
  using chain_append chain_first by metis

lemma chain_head:
  assumes "chain h lnk p (ys @ x # zs)"
  obtains it where "h x = Some it" and "lnk it = first zs" and "x \<noteq> NULL"
  using chain_suffix [OF assms] chain_first [of h lnk _ zs]
  by (auto simp: chain_Cons_iff simp del: chain.simps(2))

text \<open>An entry that stops the pass: expired, a host entry, and its interface has no name.\<close>

definition stuck :: "snp_env \<Rightarrow> item \<Rightarrow> bool" where
  "stuck env e \<longleftrightarrow> expired env e \<and> ip_addr e \<noteq> 0 \<and> host_bound e \<and> \<not> if_indextoname env (ifindex e)"

text \<open>The entries of a set of hardware addresses are gone, and nothing else has changed.\<close>

definition removed :: "u8 list set \<Rightarrow> snp \<Rightarrow> snp \<Rightarrow> bool" where
  "removed D st st' \<longleftrightarrow>
     (\<forall>m. binding st' m = (if m \<in> D then None else binding st m))
     \<and> (\<forall>i. holder st' i = (case holder st i of None \<Rightarrow> None | Some m \<Rightarrow> if m \<in> D then None else Some m))"

lemma removed_none: "same_tbl st st' \<Longrightarrow> removed {} st st'"
  using same_tblD [of st st'] by (auto simp: removed_def split: option.splits)

lemma removed_trans: "removed D st st' \<Longrightarrow> removed D' st' st'' \<Longrightarrow> removed (D \<union> D') st st''"
  by (auto simp: removed_def split: option.splits)

definition macs :: "snp \<Rightarrow> (item \<Rightarrow> bool) \<Rightarrow> addr list \<Rightarrow> u8 list set" where
  "macs st P xs = {chaddr e | x e. x \<in> set xs \<and> entries st x = Some e \<and> P e}"

lemma macs_Cons: "entries st x = Some e \<Longrightarrow> macs st P (x # xs) = (if P e then {chaddr e} else {}) \<union> macs st P xs"
  by (auto simp: macs_def)

lemma macs_cong: "(\<And>x. x \<in> set xs \<Longrightarrow> entries st' x = entries st x) \<Longrightarrow> macs st' P xs = macs st P xs"
  unfolding macs_def by (rule Collect_cong) metis

lemma entry_tests [simp]:
  "expired env (entry it) = expired env it" "host_bound (entry it) = host_bound it"
  by (simp_all add: expired_def host_bound_def)

lemma age_host_cases:
  "(case age_host env it st of
      Inl (st', ret) \<Rightarrow> same_tbl st st' \<and> ret = CODE_ERROR \<and> (expired env it \<longrightarrow> stuck env (entry it))
    | Inr st' \<Rightarrow> same_tbl st st' \<and> \<not> stuck env (entry it))"
  by (auto simp: age_host_def stuck_def Let_def)

text \<open>What a walk over the rest \<open>xs\<close> of a bucket does.\<close>

definition aged :: "snp_env \<Rightarrow> snp \<Rightarrow> addr list \<Rightarrow> snp step \<Rightarrow> bool" where
  "aged env st xs r \<longleftrightarrow> (case r of
      Inr st' \<Rightarrow> tbl_ok st' \<and> removed (macs st (expired env) xs) st st' \<and> macs st (stuck env) xs = {}
    | Inl (st', ret) \<Rightarrow> tbl_ok st' \<and> ret = CODE_ERROR \<and> macs st (stuck env) xs \<noteq> {}
        \<and> (\<exists>D. removed D st st' \<and> D \<subseteq> macs st (expired env) xs - macs st (stuck env) xs))"

lemma age_delete_step:
  assumes t: "tbl st ms ips" and ms: "ms k = ys @ x # xs" and it: "items st x = Some it" and s: "same_tbl st st1"
  shows "\<exists>st2 ret ms2 ips2. dhcp_snp_tbl_item_delete env st1 x = Some (st2, ret)
    \<and> tbl st2 ms2 ips2 \<and> ms2 k = ys @ xs \<and> removed {chaddr it} st st2
    \<and> (\<forall>P. macs st2 P xs = macs st P xs)"
proof -
  note s' = same_tblD [OF s]
  have x: "x \<in> set (ms k)" and d: "distinct (ys @ x # xs)"
    using ms chain_distinct [OF tblD(1) [OF t, of k]] by simp_all
  have t1: "tbl st1 ms ips" and e1: "entries st1 x = Some (entry it)"
    using t it s' by (simp_all add: entries_def)
  obtain st2 ret where st2: "dhcp_snp_tbl_item_delete env st1 x = Some (st2, ret)"
    "tbl st2 (ms(k := remove1 x (ms k))) (\<lambda>j. remove1 x (ips j))"
    "\<And>y. y \<noteq> x \<Longrightarrow> entries st2 y = entries st1 y"
    "binding st2 = (binding st1)(chaddr it := None)"
    "holder st2 = (\<lambda>ip. if holder st1 ip = Some (chaddr it) then None else holder st1 ip)"
    using item_delete_maps [OF t1 x e1, of env] by auto
  have "removed {chaddr it} st st2" unfolding removed_def st2(4,5) s'(4,5) by (auto split: option.splits)
  moreover have "(ms(k := remove1 x (ms k))) k = ys @ xs" using ms d by (simp add: remove1_append)
  moreover have "macs st2 P xs = macs st P xs" for P
    using st2(3) s'(2) d by (intro macs_cong) (metis distinct.simps(2) distinct_append)
  ultimately show ?thesis using st2(1,2) by blast
qed

lemma aged_skip:
  "aged env st xs r \<Longrightarrow> entries st x = Some e \<Longrightarrow> \<not> expired env e \<Longrightarrow> aged env st (x # xs) r"
  by (simp add: aged_def macs_Cons stuck_def cong: sum.case_cong)

lemma aged_stop:
  assumes "tbl st ms ips" and "entries st x = Some e" and "stuck env e" and "same_tbl st (fst r)" and "snd r = CODE_ERROR"
  shows "aged env st (x # xs) (Inl r)"
proof -
  have "tbl_ok (fst r)" using assms(1) same_tblD(6) [OF assms(4)] unfolding tbl_ok_def by blast
  moreover have "chaddr e \<in> macs st (stuck env) (x # xs)" using assms(2,3) by (simp add: macs_Cons)
  ultimately show ?thesis
    unfolding aged_def using assms(5) removed_none [OF assms(4)] by (auto split: prod.splits)
qed

lemma aged_delete:
  assumes r: "aged env st' xs r" and d: "removed {chaddr e} st st'" and m: "\<forall>P. macs st' P xs = macs st P xs"
    and e: "entries st x = Some e" "expired env e" "\<not> stuck env e"
    and others: "\<And>y f. y \<in> set xs \<Longrightarrow> entries st y = Some f \<Longrightarrow> chaddr f \<noteq> chaddr e"
  shows "aged env st (x # xs) r"
proof -
  have "chaddr e \<notin> macs st (stuck env) xs" using others unfolding macs_def by fastforce
  moreover have "macs st (expired env) (x # xs) = insert (chaddr e) (macs st (expired env) xs)"
      "macs st (stuck env) (x # xs) = macs st (stuck env) xs"
    using e by (simp_all add: macs_Cons)
  ultimately show ?thesis
    using r removed_trans [OF d] unfolding aged_def by (fastforce simp: m split: sum.splits prod.splits)
qed

lemma age_bucket_tbl:
  "tbl st ms ips \<Longrightarrow> ms k = ys @ xs \<Longrightarrow> \<exists>r. age_bucket env (first xs) st = Some r \<and> aged env st xs r"
proof (induction xs arbitrary: st ms ips ys)
  case Nil
  then show ?case
    using removed_none [of st st] by (subst age_bucket.simps) (auto simp: aged_def first_def macs_def tbl_ok_def)
next
  case (Cons x xs)
  note t = Cons.prems(1)
  have x: "x \<in> set (ms k)" using Cons.prems(2) by simp
  have c: "chain (items st) nxt (mac_tab st k) (ys @ x # xs)" using tblD(1) [OF t, of k] Cons.prems(2) by simp
  obtain it where it: "items st x = Some it" "nxt it = first xs" "x \<noteq> NULL" using chain_head [OF c] by blast
  have e: "entries st x = Some (entry it)" using it by (simp add: entries_def)
  have p: "first (x # xs) = x" by (simp add: first_def)
  have others: "chaddr f \<noteq> chaddr it" if "y \<in> set xs" "entries st y = Some f" for y f
    using macs_ok_eq [OF tblD(3) [OF t] _ x that(2) e, of k] that Cons.prems(2) chain_distinct [OF c] by auto
  note host = age_host_cases [where env = env and it = it and st = st]
  show ?case
  proof (cases "expired env it")
    case False
    have "ms k = (ys @ [x]) @ xs" using Cons.prems(2) by simp
    then obtain r where r: "age_bucket env (first xs) st = Some r" "aged env st xs r" using Cons.IH [OF t] by blast
    then show ?thesis using aged_skip [OF r(2) e] p it False by (subst age_bucket.simps) simp
  next
    case True
    show ?thesis
    proof (cases "age_host env it st")
      case (Inl r)
      then have "same_tbl st (fst r)" "snd r = CODE_ERROR" "stuck env (entry it)"
        using host True by (auto split: prod.splits)
      then show ?thesis using aged_stop [OF t e] p it True Inl by (subst age_bucket.simps) simp
    next
      case (Inr st1)
      then have s: "same_tbl st st1" and ns: "\<not> stuck env (entry it)" using host by auto
      obtain st2 ret ms2 ips2 where st2: "dhcp_snp_tbl_item_delete env st1 x = Some (st2, ret)"
        "tbl st2 ms2 ips2" "ms2 k = ys @ xs" "removed {chaddr it} st st2" "\<forall>P. macs st2 P xs = macs st P xs"
        using age_delete_step [OF t Cons.prems(2) it(1) s] by blast
      obtain r where r: "age_bucket env (first xs) st2 = Some r" "aged env st2 xs r"
        using Cons.IH [OF st2(2,3)] by blast
      have "aged env st (x # xs) r" using aged_delete [OF r(2) _ st2(5) e] st2(4) True ns others by simp
      then show ?thesis using p it True Inr st2(1) r(1) by (subst age_bucket.simps) simp
    qed
  qed
qed

subsection \<open>All buckets\<close>

text \<open>The hardware addresses of the buckets \<open>K\<close> whose entry satisfies a test.\<close>

definition bound_in :: "snp \<Rightarrow> (item \<Rightarrow> bool) \<Rightarrow> nat set \<Rightarrow> u8 list set" where
  "bound_in st P K = {m. dhcp_snp_tbl_hash m \<in> K \<and> (\<exists>e. binding st m = Some e \<and> P e)}"

lemma macs_bucket:
  assumes t: "tbl st ms ips"
  shows "macs st P (ms k) = bound_in st P {k}"
proof -
  have "m \<in> macs st P (ms k) \<longleftrightarrow> m \<in> bound_in st P {k}" for m
    using macs_ok_entry [OF tblD(3) [OF t]] unfolding macs_def bound_in_def binding_iff [OF t] by auto blast
  then show ?thesis by blast
qed

lemma bound_in_removed:
  assumes "removed D st st'" and "D \<inter> bound_in st P K = {}"
  shows "bound_in st' P K = bound_in st P K"
  using assms by (auto simp: removed_def bound_in_def split: if_splits)

definition aged_keys :: "snp_env \<Rightarrow> snp \<Rightarrow> nat list \<Rightarrow> snp step \<Rightarrow> bool" where
  "aged_keys env st keys r \<longleftrightarrow> (case r of
      Inr st' \<Rightarrow> tbl_ok st' \<and> removed (bound_in st (expired env) (set keys)) st st'
        \<and> bound_in st (stuck env) (set keys) = {}
    | Inl x \<Rightarrow> tbl_ok (fst x) \<and> snd x = CODE_ERROR
        \<and> (\<exists>D ks k ks'. keys = ks @ k # ks' \<and> removed D st (fst x)
            \<and> bound_in st (stuck env) (set ks) = {} \<and> bound_in st (stuck env) {k} \<noteq> {}
            \<and> D \<subseteq> bound_in st (expired env) (insert k (set ks)) - bound_in st (stuck env) {k}))"

lemma bound_in_insert: "bound_in st P (insert k K) = bound_in st P {k} \<union> bound_in st P K"
  by (auto simp: bound_in_def)

lemma bound_in_disjoint: "k \<notin> K \<Longrightarrow> bound_in st P {k} \<inter> bound_in st Q K = {}"
  by (auto simp: bound_in_def)

lemma aged_keys_Cons:
  assumes r: "aged_keys env st' keys r" and d: "removed (bound_in st (expired env) {k}) st st'"
    and k: "k \<notin> set keys" "bound_in st (stuck env) {k} = {}"
  shows "aged_keys env st (k # keys) r"
proof -
  have same: "bound_in st' P K = bound_in st P K" if "k \<notin> K" for P K
    by (rule bound_in_removed [OF d bound_in_disjoint [OF that]])
  show ?thesis
  proof (cases r)
    case (Inr s)
    then show ?thesis
      using r k same [of "set keys"] removed_trans [OF d] unfolding aged_keys_def
      by (simp add: bound_in_insert [of _ _ k "set keys"])
  next
    case (Inl x)
    from r [unfolded Inl aged_keys_def sum.case]
    obtain D ks j ks' where D: "tbl_ok (fst x)" "snd x = CODE_ERROR" "keys = ks @ j # ks'" "removed D st' (fst x)"
      "bound_in st' (stuck env) (set ks) = {}" "bound_in st' (stuck env) {j} \<noteq> {}"
      "D \<subseteq> bound_in st' (expired env) (insert j (set ks)) - bound_in st' (stuck env) {j}"
      by blast
    let ?E = "bound_in st (expired env) {k} \<union> D"
    have n: "k \<notin> set ks" "k \<noteq> j" "k \<notin> insert j (set ks)" using k(1) D(3) by auto
    have "removed ?E st (fst x)" by (rule removed_trans [OF d D(4)])
    moreover have "bound_in st (stuck env) (set (k # ks)) = {}"
      using k(2) D(5) same [OF n(1)] by (simp add: bound_in_insert [of _ _ k "set ks"])
    moreover have "?E \<subseteq> bound_in st (expired env) (insert j (set (k # ks))) - bound_in st (stuck env) {j}"
      using D(7) same [OF n(3)] same [of "{j}"] n(2) by (auto simp: bound_in_def)
    moreover have "bound_in st (stuck env) {j} \<noteq> {}" using D(6) same [of "{j}"] n(2) by simp
    moreover have "k # keys = (k # ks) @ j # ks'" using D(3) by simp
    ultimately show ?thesis unfolding aged_keys_def Inl sum.case using D(1,2) by blast
  qed
qed

lemma age_buckets_tbl:
  "tbl_ok st \<Longrightarrow> distinct keys \<Longrightarrow> \<exists>r. age_buckets env keys st = Some r \<and> aged_keys env st keys r"
proof (induction keys arbitrary: st)
  case Nil
  then show ?case using removed_none [of st st] by (simp add: aged_keys_def bound_in_def)
next
  case (Cons k keys)
  obtain ms ips where t: "tbl st ms ips" using Cons.prems(1) tbl_ok_def by blast
  have "mac_tab st k = first (ms k)" using chain_first tblD(1) [OF t] by blast
  then obtain r where r: "age_bucket env (mac_tab st k) st = Some r" "aged env st (ms k) r"
    using age_bucket_tbl [OF t, of k "[]" "ms k"] by auto
  note m = macs_bucket [OF t, of _ k]
  show ?case
  proof (cases r)
    case (Inl x)
    then have "aged_keys env st (k # keys) (Inl x)"
      using r(2) unfolding aged_def aged_keys_def m
      by (fastforce split: prod.splits simp: bound_in_def)
    then show ?thesis using r(1) Inl by simp
  next
    case (Inr st')
    then have d: "tbl_ok st'" "removed (bound_in st (expired env) {k}) st st'" "bound_in st (stuck env) {k} = {}"
      using r(2) unfolding aged_def m by simp_all
    obtain r' where "age_buckets env keys st' = Some r'" "aged_keys env st' keys r'"
      using Cons.IH [OF d(1)] Cons.prems(2) by auto
    then show ?thesis using aged_keys_Cons [OF _ d(2)] d(3) Cons.prems(2) r(1) Inr by simp
  qed
qed

text \<open>C32: When no expired host entry is on an interface that has gone, a pass
  of the ageing thread returns 0, keeps the tables in agreement and removes exactly the
  dynamic entries whose expiry lies before the current uptime, with their addresses; every
  other entry stays as it was.\<close>

theorem aging_removes_expired:
  assumes "tbl_ok st" and "\<And>m e. binding st m = Some e \<Longrightarrow> \<not> stuck env e"
  shows "\<exists>st'. dhcp_snp_aging_mechanism env st = Some (st', 0) \<and> tbl_ok st'
    \<and> (\<forall>m. binding st' m = (case binding st m of None \<Rightarrow> None | Some e \<Rightarrow> if expired env e then None else Some e))
    \<and> (\<forall>i. holder st' i = (case holder st i of None \<Rightarrow> None
          | Some m \<Rightarrow> if \<exists>e. binding st m = Some e \<and> expired env e then None else Some m))"
proof -
  obtain r where r: "age_buckets env [0..<HASH_TABLE_SIZE] st = Some r" "aged_keys env st [0..<HASH_TABLE_SIZE] r"
    using age_buckets_tbl [OF assms(1) distinct_upt] by blast
  have none: "bound_in st (stuck env) K = {}" for K using assms(2) by (auto simp: bound_in_def)
  have all: "m \<in> bound_in st P (set [0..<HASH_TABLE_SIZE]) \<longleftrightarrow> (\<exists>e. binding st m = Some e \<and> P e)" for m P
    using hash_bounds(1) [of m] by (auto simp: bound_in_def)
  show ?thesis
  proof (cases r)
    case (Inr st')
    then have "tbl_ok st'" "removed (bound_in st (expired env) (set [0..<HASH_TABLE_SIZE])) st st'"
      using r(2) by (simp_all add: aged_keys_def)
    then show ?thesis
      using r(1) Inr unfolding removed_def all
      by (auto simp: dhcp_snp_aging_mechanism_def split: option.splits)
  next
    case (Inl x)
    then show ?thesis using r(2) none by (simp add: aged_keys_def)
  qed
qed

text \<open>An expired host entry whose interface has gone stops the pass: it returns the
  error code, the entry is not removed, and no entry of a later bucket is, however long its
  lease has run out. The entry is as stuck in the next pass, so ageing has stopped for good in
  those buckets.\<close>

theorem aging_blocked:
  assumes "tbl_ok st" and "binding st m = Some e" and "stuck env e"
  shows "\<exists>st'. dhcp_snp_aging_mechanism env st = Some (st', CODE_ERROR) \<and> tbl_ok st' \<and> binding st' m = Some e
    \<and> (\<forall>m'. dhcp_snp_tbl_hash m < dhcp_snp_tbl_hash m' \<longrightarrow> binding st' m' = binding st m')"
proof -
  obtain r where r: "age_buckets env [0..<HASH_TABLE_SIZE] st = Some r" "aged_keys env st [0..<HASH_TABLE_SIZE] r"
    using age_buckets_tbl [OF assms(1) distinct_upt] by blast
  have m: "m \<in> bound_in st (stuck env) K \<longleftrightarrow> dhcp_snp_tbl_hash m \<in> K" for K
    using assms(2,3) by (auto simp: bound_in_def)
  show ?thesis
  proof (cases r)
    case (Inr st')
    then have "bound_in st (stuck env) (set [0..<HASH_TABLE_SIZE]) = {}" using r(2) by (simp add: aged_keys_def)
    then show ?thesis using m [of "set [0..<HASH_TABLE_SIZE]"] hash_bounds(1) [of m] by simp
  next
    case (Inl x)
    from r(2) [unfolded Inl aged_keys_def sum.case]
    obtain D ks k ks' where D: "tbl_ok (fst x)" "snd x = CODE_ERROR" "[0..<HASH_TABLE_SIZE] = ks @ k # ks'"
      "removed D st (fst x)" "bound_in st (stuck env) (set ks) = {}"
      "D \<subseteq> bound_in st (expired env) (insert k (set ks)) - bound_in st (stuck env) {k}"
      by blast
    have "sorted (ks @ k # ks')" unfolding D(3) [symmetric] by simp
    then have le: "\<forall>j\<in>set ks. j \<le> k" and le': "\<forall>j\<in>set ks'. k \<le> j" by (auto simp: sorted_append)
    have "dhcp_snp_tbl_hash m \<in> set (ks @ k # ks')" unfolding D(3) [symmetric] using hash_bounds(1) [of m] by simp
    then have "k \<le> dhcp_snp_tbl_hash m" using m [of "set ks"] D(5) le' by auto
    moreover have "dhcp_snp_tbl_hash m' \<le> k" if "m' \<in> D" for m' using D(6) that le by (auto simp: bound_in_def)
    ultimately have "m' \<notin> D" if "dhcp_snp_tbl_hash m < dhcp_snp_tbl_hash m'" for m' using that by fastforce
    moreover have "m \<notin> D"
    proof
      assume "m \<in> D"
      then have "dhcp_snp_tbl_hash m \<in> insert k (set ks)" "m \<notin> bound_in st (stuck env) {k}"
        using D(6) by (auto simp: bound_in_def)
      then show False using m [of "set ks"] m [of "{k}"] D(5) by auto
    qed
    ultimately show ?thesis
      using r(1) Inl D(1,2,4) assms(2) by (cases x) (auto simp: dhcp_snp_aging_mechanism_def removed_def)
  qed
qed

end
