(* ===== verification/SnpOpt.thy ===== *)
theory SnpOpt
  imports SnpBind
begin

text \<open>
  Reading a DHCP message: the option scanner \<open>dhcp_snp_get_option\<close> of \<open>dhcp_snp_com.c\<close> and
  \<open>dhcp_snp_get_item_from_pkt\<close> of \<open>dhcp_snp_pkt.c\<close>. A message is the memory from its first
  byte on, a function from offsets to bytes, so that a read past the end of the structure is a
  read of whatever lies there. The offsets are those of \<open>NPD_DHCP_MESSAGE_T\<close>. A pointer into
  the message is an offset, and 0 the null pointer (offset 0 is the \<open>op\<close> field, which is never
  the result).
\<close>

type_synonym packet = "nat \<Rightarrow> u8"

definition pkt_bytes :: "packet \<Rightarrow> nat \<Rightarrow> nat \<Rightarrow> u8 list" where
  "pkt_bytes pk off n = map pk [off..<off + n]"

definition pkt_op :: "packet \<Rightarrow> u8" where "pkt_op pk = pk 0"
definition pkt_hlen :: "packet \<Rightarrow> u8" where "pkt_hlen pk = pk 2"
definition pkt_ciaddr :: "packet \<Rightarrow> u8 list" where "pkt_ciaddr pk = pkt_bytes pk 12 4"
definition pkt_yiaddr :: "packet \<Rightarrow> u8 list" where "pkt_yiaddr pk = pkt_bytes pk 16 4"
definition pkt_chaddr :: "packet \<Rightarrow> u8 list" where "pkt_chaddr pk = pkt_bytes pk 28 16"

datatype opt_area = OPTION_FIELD | FILE_FIELD | SNAME_FIELD

fun area_base :: "opt_area \<Rightarrow> nat" where
  "area_base OPTION_FIELD = 240"
| "area_base FILE_FIELD = 108"
| "area_base SNAME_FIELD = 44"

fun area_len :: "opt_area \<Rightarrow> nat" where
  "area_len OPTION_FIELD = 1500"
| "area_len FILE_FIELD = 128"
| "area_len SNAME_FIELD = 64"

fun area_rank :: "opt_area \<Rightarrow> nat" where
  "area_rank OPTION_FIELD = 2"
| "area_rank FILE_FIELD = 1"
| "area_rank SNAME_FIELD = 0"

subsection \<open>The option scanner\<close>

text \<open>The loop, from position \<open>i\<close> of the field \<open>a\<close>, with \<open>over\<close> the overload byte read so far.
  The overload case takes the byte at \<open>i + 3\<close> for the value of the option, which is at \<open>i + 2\<close>,
  and advances by the length byte at the start of the field.\<close>

function opt_scan :: "packet \<Rightarrow> u8 \<Rightarrow> opt_area \<Rightarrow> u8 \<Rightarrow> nat \<Rightarrow> nat" where
  "opt_scan pk code a over i =
     (let at = (\<lambda>j. pk (area_base a + j)); len = area_len a in
      if i \<ge> len then 0
      else if at i = code then
        (if i + 1 + unat (at (i + 1)) \<ge> len then 0 else area_base a + i + 2)
      else if at i = 0x00 then opt_scan pk code a over (i + 1)
      else if at i = 0x34 then
        (if i + 1 + unat (at (i + 1)) \<ge> len then 0
         else opt_scan pk code a (at (i + 3)) (i + unat (at 1) + 2))
      else if at i = 0xFF then
        (if a = OPTION_FIELD \<and> over AND 1 \<noteq> 0 then opt_scan pk code FILE_FIELD over 0
         else if a = FILE_FIELD \<and> over AND 2 \<noteq> 0 then opt_scan pk code SNAME_FIELD over 0
         else 0)
      else opt_scan pk code a over (i + unat (at (i + 1)) + 2))"
  by pat_completeness auto

termination
  by (relation "measures [\<lambda>(pk, code, a, over, i). area_rank a, \<lambda>(pk, code, a, over, i). area_len a - i]") auto

declare opt_scan.simps [simp del]

definition dhcp_snp_get_option :: "packet \<Rightarrow> u8 \<Rightarrow> nat" where
  "dhcp_snp_get_option pk code = opt_scan pk code OPTION_FIELD 0 0"

text \<open>The data at \<open>p\<close> are those of an option \<open>code\<close>, within one of the three fields.\<close>

definition option_at :: "packet \<Rightarrow> u8 \<Rightarrow> nat \<Rightarrow> bool" where
  "option_at pk code p \<longleftrightarrow>
     (\<exists>b. area_base b + 2 \<le> p \<and> pk (p - 2) = code \<and> p + unat (pk (p - 1)) \<le> area_base b + area_len b)"

definition in_field :: "packet \<Rightarrow> u8 \<Rightarrow> nat \<Rightarrow> bool" where
  "in_field pk code p \<longleftrightarrow> p = 0 \<or> option_at pk code p"

lemma in_field_if: "(c \<Longrightarrow> in_field pk code p) \<Longrightarrow> (\<not> c \<Longrightarrow> in_field pk code q) \<Longrightarrow> in_field pk code (if c then p else q)"
  by simp

lemma opt_scan_in_field: "in_field pk code (opt_scan pk code a over i)"
proof (induction pk code a over i rule: opt_scan.induct)
  case (1 pk code a over i)
  note IH = 1 [OF refl refl]
  have found: "in_field pk code (area_base a + i + 2)"
    if "pk (area_base a + i) = code" "\<not> area_len a \<le> i + 1 + unat (pk (area_base a + (i + 1)))"
    unfolding option_at_def in_field_def using that by (intro disjI2 exI [of _ a]) simp
  have none: "in_field pk code 0" by (simp add: in_field_def)
  show ?case
    by (subst opt_scan.simps, unfold Let_def) (intro in_field_if none found IH; assumption)
qed

text \<open>C39: The option scanner ends on every message, and an option it finds lies
  within the field it was found in, the options, the boot file or the server name: its code is
  two bytes before the data, and the data with the length that precedes it does not pass the
  end of the field.\<close>

theorem get_option_in_field:
  assumes "dhcp_snp_get_option pk code = p" and "p \<noteq> 0"
  shows "\<exists>b. area_base b + 2 \<le> p \<and> pk (p - 2) = code \<and> p + unat (pk (p - 1)) \<le> area_base b + area_len b"
  using opt_scan_in_field [of pk code OPTION_FIELD 0 0] assms
  by (simp add: dhcp_snp_get_option_def in_field_def option_at_def)

subsection \<open>The binding a message asks for\<close>

definition BOOTREQUEST :: u8 where "BOOTREQUEST = 1"
definition BOOTREPLY :: u8 where "BOOTREPLY = 2"

datatype dhcp_packet_type = DISCOVER | OFFER | REQUEST | DECLINE | ACK | NAK | RELEASE | INFORM

definition LEASE_TIME :: u8 where "LEASE_TIME = 0x33"
definition MESSAGE_TYPE :: u8 where "MESSAGE_TYPE = 0x35"

text \<open>The user structure is filled field by field, so the fields the function does not set keep
  what the caller's structure held (two callers pass one that was not cleared).\<close>

definition dhcp_snp_get_item_from_pkt ::
    "u16 \<Rightarrow> u32 \<Rightarrow> dhcp_packet_type \<Rightarrow> packet \<Rightarrow> user \<Rightarrow> user \<times> u32" where
  "dhcp_snp_get_item_from_pkt vlanid ifi type pk u =
     (let u = u\<lparr>u_vlanId := vlanid, u_haddr_len := pkt_hlen pk,
                u_chaddr := take 6 (pkt_chaddr pk), u_ifindex := ifi\<rparr> in
      if pkt_op pk = BOOTREPLY then
        let u = u\<lparr>u_ip_addr := ntohl (pkt_yiaddr pk)\<rparr>; temp = dhcp_snp_get_option pk LEASE_TIME in
        if temp = 0 then (u, CODE_ERROR)
        else (u\<lparr>u_lease_time := ntohl (pkt_bytes pk temp 4)\<rparr>, CODE_OK)
      else if pkt_op pk = BOOTREQUEST \<and> type = INFORM then
        (u\<lparr>u_ip_addr := ntohl (pkt_ciaddr pk), u_lease_time := NPD_DHCP_SNP_REQUEST_TIMEOUT\<rparr>, CODE_OK)
      else (u\<lparr>u_ip_addr := 0, u_lease_time := NPD_DHCP_SNP_REQUEST_TIMEOUT\<rparr>, CODE_OK))"

lemma length_pkt_bytes [simp]: "length (pkt_bytes pk off n) = n"
  by (simp add: pkt_bytes_def)

lemma get_item_mac:
  "dhcp_snp_get_item_from_pkt vlanid ifi type pk u = (u', ret) \<Longrightarrow> u_chaddr u' = pkt_bytes pk 28 6"
  by (auto simp: dhcp_snp_get_item_from_pkt_def pkt_chaddr_def pkt_bytes_def take_map Let_def split: if_splits)

lemma get_item_length:
  "dhcp_snp_get_item_from_pkt vlanid ifi type pk u = (u', ret) \<Longrightarrow> length (u_chaddr u') = 6"
  using get_item_mac by fastforce

end
