(* ===== verification/SnpOpt82.thy ===== *)
theory SnpOpt82
  imports SnpOpt
begin

text \<open>
  Option 82 of a DHCP message (\<open>dhcp_snp_options.c\<close>): whether a message has it, taking it off,
  and appending one. The loops of the check and of the removal are the loop of the option scanner
  with other results; here they are one function \<open>opt_find\<close>, which says where the option is, and
  the scanner of \<open>SnpOpt\<close> is shown to be the same search.

  An option string is a list of bytes. Its length byte is read as a \<open>char\<close>, which is signed; a
  copy of a negative length faults, which is \<open>None\<close>.
\<close>

subsection \<open>Searching an option\<close>

datatype opt_found = Bogus | Absent | At opt_area nat

function opt_find :: "packet \<Rightarrow> u8 \<Rightarrow> opt_area \<Rightarrow> u8 \<Rightarrow> nat \<Rightarrow> opt_found" where
  "opt_find pk code a over i =
     (let at = (\<lambda>j. pk (area_base a + j)); len = area_len a in
      if i \<ge> len then Bogus
      else if at i = code then
        (if i + 1 + unat (at (i + 1)) \<ge> len then Bogus else At a i)
      else if at i = 0x00 then opt_find pk code a over (i + 1)
      else if at i = 0x34 then
        (if i + 1 + unat (at (i + 1)) \<ge> len then Bogus
         else opt_find pk code a (at (i + 3)) (i + unat (at 1) + 2))
      else if at i = 0xFF then
        (if a = OPTION_FIELD \<and> over AND 1 \<noteq> 0 then opt_find pk code FILE_FIELD over 0
         else if a = FILE_FIELD \<and> over AND 2 \<noteq> 0 then opt_find pk code SNAME_FIELD over 0
         else Absent)
      else opt_find pk code a over (i + unat (at (i + 1)) + 2))"
  by pat_completeness auto

termination
  by (relation "measures [\<lambda>(pk, code, a, over, i). area_rank a, \<lambda>(pk, code, a, over, i). area_len a - i]") auto

declare opt_find.simps [simp del]

definition dhcp_snp_check_opt82 :: "packet \<Rightarrow> u8 \<Rightarrow> u32" where
  "dhcp_snp_check_opt82 pk code =
     (case opt_find pk code OPTION_FIELD 0 0 of At a i \<Rightarrow> CODE_FOUND | _ \<Rightarrow> CODE_NOT_FOUND)"

text \<open>Copying \<open>n\<close> bytes down in memory, first byte first.\<close>

definition copy_down :: "packet \<Rightarrow> nat \<Rightarrow> nat \<Rightarrow> nat \<Rightarrow> packet" where
  "copy_down pk dst src n = (\<lambda>x. if dst \<le> x \<and> x < dst + n then pk (x - dst + src) else pk x)"

text \<open>The message, the number of bytes taken out if it is set, and the result. The length used is
  that of the first option of the field. The number of bytes to copy is an unsigned difference, so it
  is huge when \<open>opt_len\<close> is too small.\<close>

definition dhcp_snp_remove_opt82 :: "packet \<Rightarrow> u8 \<Rightarrow> u32 \<Rightarrow> packet \<times> u32 option \<times> u32" where
  "dhcp_snp_remove_opt82 pk code opt_len =
     (case opt_find pk code OPTION_FIELD 0 0 of
        Bogus \<Rightarrow> (pk, None, CODE_ERROR)
      | Absent \<Rightarrow> (pk, Some 0, CODE_OK)
      | At a i \<Rightarrow>
          let len = unat (pk (area_base a + 1)); n = unat (opt_len - of_nat (i + len + 2)) in
          (copy_down pk (area_base a + i) (area_base a + i + len + 2) n, Some (of_nat (len + 2)), CODE_OK))"

text \<open>The position of the end option; there is no bound, so the search may not end.\<close>

partial_function (option) end_from :: "packet \<Rightarrow> nat \<Rightarrow> nat \<Rightarrow> nat option" where
  "end_from pk base i =
     (if pk (base + i) = 0xFF then Some i
      else if pk (base + i) = 0x00 then end_from pk base (i + 1)
      else end_from pk base (i + unat (pk (base + i + 1)) + 2))"

definition dhcp_snp_end_option :: "packet \<Rightarrow> nat \<Rightarrow> nat option" where
  "dhcp_snp_end_option pk base = end_from pk base 0"

definition write_bytes :: "packet \<Rightarrow> nat \<Rightarrow> u8 list \<Rightarrow> packet" where
  "write_bytes pk a bs = (\<lambda>x. if a \<le> x \<and> x < a + length bs then bs ! (x - a) else pk x)"

definition char_val :: "u8 \<Rightarrow> int" where
  "char_val b = sint b"

text \<open>The sum in the bounds check is computed on unsigned words.\<close>

definition dhcp_snp_attach_opt82_string :: "packet \<Rightarrow> u8 list \<Rightarrow> (packet \<times> u32) option" where
  "dhcp_snp_attach_opt82_string pk str =
     (let len = char_val (str ! 1) in
      case dhcp_snp_end_option pk 240 of None \<Rightarrow> None
      | Some end_pos \<Rightarrow>
          if (of_nat end_pos + of_int len + 2 + 1 :: u32) \<ge> 1500 then Some (pk, CODE_ERROR)
          else if len + 2 < 0 then None
          else let n = nat (len + 2) in
            Some ((write_bytes pk (240 + end_pos) (take n str))(240 + end_pos + n := 0xFF), CODE_OK))"

definition dhcp_snp_cat_opt82_sting :: "u8 list \<Rightarrow> u8 list \<Rightarrow> u8 list option" where
  "dhcp_snp_cat_opt82_sting circuitid_str remoteid_str =
     (let c = char_val (circuitid_str ! 1) + 2; r = char_val (remoteid_str ! 1) + 2 in
      if c < 0 \<or> r < 0 then None
      else Some ([0x52, of_int (c + r)] @ take (nat c) circuitid_str @ take (nat r) remoteid_str))"

subsection \<open>The searches agree\<close>

definition same_hit :: "nat \<Rightarrow> opt_found \<Rightarrow> bool" where
  "same_hit p f \<longleftrightarrow> p = (case f of At b j \<Rightarrow> area_base b + j + 2 | _ \<Rightarrow> 0)"

lemma same_hit_if: "(c \<Longrightarrow> same_hit p f) \<Longrightarrow> (\<not> c \<Longrightarrow> same_hit q g) \<Longrightarrow> same_hit (if c then p else q) (if c then f else g)"
  by simp

lemma same_hit_intros: "same_hit 0 Bogus" "same_hit 0 Absent" "same_hit (area_base b + j + 2) (At b j)"
  by (simp_all add: same_hit_def)

lemma opt_scan_find: "same_hit (opt_scan pk code a over i) (opt_find pk code a over i)"
proof (induction pk code a over i rule: opt_scan.induct)
  case (1 pk code a over i)
  note IH = 1 [OF refl refl]
  show ?case
    by (subst opt_scan.simps, subst opt_find.simps, unfold Let_def)
      (intro same_hit_if same_hit_intros IH; assumption)
qed

text \<open>C40: The check for an option and the option scanner find the same: the check
  answers that the option is there exactly when the scanner returns its data.\<close>

theorem check_opt82_iff:
  "dhcp_snp_check_opt82 pk code = (if dhcp_snp_get_option pk code = 0 then CODE_NOT_FOUND else CODE_FOUND)"
  using opt_scan_find [of pk code OPTION_FIELD 0 0]
  by (simp add: dhcp_snp_check_opt82_def dhcp_snp_get_option_def same_hit_def split: opt_found.split)

subsection \<open>Lists of options\<close>

datatype opt = Pad | Opt u8 "u8 list"

fun enc1 :: "opt \<Rightarrow> u8 list" where
  "enc1 Pad = [0x00]"
| "enc1 (Opt c d) = c # of_nat (length d) # d"

definition enc :: "opt list \<Rightarrow> u8 list" where
  "enc os = concat (map enc1 os)"

fun opt_ok :: "opt \<Rightarrow> bool" where
  "opt_ok Pad \<longleftrightarrow> True"
| "opt_ok (Opt c d) \<longleftrightarrow> c \<noteq> 0x00 \<and> c \<noteq> 0xFF \<and> length d < 256"

text \<open>The bytes at an address.\<close>

definition holds_bytes :: "packet \<Rightarrow> nat \<Rightarrow> u8 list \<Rightarrow> bool" where
  "holds_bytes pk a bs \<longleftrightarrow> pkt_bytes pk a (length bs) = bs"

lemma pkt_bytes_add: "pkt_bytes pk a (m + n) = pkt_bytes pk a m @ pkt_bytes pk (a + m) n"
proof -
  have "[a..<a + (m + n)] = [a..<a + m] @ [a + m..<a + m + n]"
    using upt_add_eq_append [of a "a + m" n] by (simp add: add.assoc)
  then show ?thesis by (simp add: pkt_bytes_def)
qed

lemma holds_bytes_append [simp]: "holds_bytes pk a (xs @ ys) \<longleftrightarrow> holds_bytes pk a xs \<and> holds_bytes pk (a + length xs) ys"
  by (simp add: holds_bytes_def pkt_bytes_add)

lemma holds_bytes_Nil [simp]: "holds_bytes pk a []"
  by (simp add: holds_bytes_def pkt_bytes_def)

lemma holds_bytes_Cons [simp]: "holds_bytes pk a (x # xs) \<longleftrightarrow> pk a = x \<and> holds_bytes pk (Suc a) xs"
  using holds_bytes_append [of pk a "[x]" xs] by (simp add: holds_bytes_def pkt_bytes_def)

lemma enc_simps [simp]: "enc [] = []" "enc (x # xs) = enc1 x @ enc xs" "enc (xs @ ys) = enc xs @ enc ys"
  by (simp_all add: enc_def)

lemma unat_len: "length d < 256 \<Longrightarrow> unat (of_nat (length d) :: u8) = length d"
  by (simp add: unat_of_nat)

lemma end_from_enc:
  "holds_bytes pk (base + i) (enc os @ [0xFF]) \<Longrightarrow> list_all opt_ok os \<Longrightarrow> end_from pk base i = Some (i + length (enc os))"
proof (induction os arbitrary: i)
  case Nil
  then show ?case by (subst end_from.simps) simp
next
  case (Cons x os)
  show ?case
  proof (cases x)
    case Pad
    then show ?thesis using Cons by (subst end_from.simps) simp
  next
    case (Opt c d)
    have "end_from pk base (i + length d + 2) = Some (i + length d + 2 + length (enc os))"
      using Cons.IH [of "i + length d + 2"] Cons.prems Opt by (simp add: add.assoc)
    then show ?thesis using Cons.prems Opt by (subst end_from.simps) (simp add: unat_len)
  qed
qed

lemma end_option_enc:
  "holds_bytes pk base (enc os @ [0xFF]) \<Longrightarrow> list_all opt_ok os \<Longrightarrow> dhcp_snp_end_option pk base = Some (length (enc os))"
  using end_from_enc [of pk base 0 os] by (simp add: dhcp_snp_end_option_def)

text \<open>An option without the code that is searched and without the overload code is passed.\<close>

fun passed :: "u8 \<Rightarrow> opt \<Rightarrow> bool" where
  "passed code Pad \<longleftrightarrow> code \<noteq> 0x00"
| "passed code (Opt c d) \<longleftrightarrow> opt_ok (Opt c d) \<and> c \<noteq> code \<and> c \<noteq> 0x34"

lemma passed_ok: "list_all (passed code) os \<Longrightarrow> list_all opt_ok os"
  by (induction os) (auto elim: passed.elims)

lemma opt_find_pass:
  assumes "list_all (passed code) os" and "holds_bytes pk (240 + i) (enc os)" and "i + length (enc os) \<le> 1500"
  shows "opt_find pk code OPTION_FIELD over i = opt_find pk code OPTION_FIELD over (i + length (enc os))"
  using assms
proof (induction os arbitrary: i)
  case (Cons x os)
  show ?case
  proof (cases x)
    case Pad
    then show ?thesis using Cons by (subst opt_find.simps) (simp add: Let_def)
  next
    case (Opt c e)
    have "opt_find pk code OPTION_FIELD over (i + length e + 2)
        = opt_find pk code OPTION_FIELD over (i + length e + 2 + length (enc os))"
      using Cons.IH [of "i + length e + 2"] Cons.prems Opt by (simp add: add.assoc)
    then show ?thesis using Cons.prems Opt by (subst opt_find.simps) (simp add: Let_def unat_len add.assoc)
  qed
qed simp

lemma opt_find_enc:
  assumes "list_all (passed code) os" and "length d < 256"
    and "holds_bytes pk (240 + i) (enc os @ code # of_nat (length d) # d)" and "i + length (enc os) + 1 + length d < 1500"
  shows "opt_find pk code OPTION_FIELD over i = At OPTION_FIELD (i + length (enc os))"
proof -
  have "opt_find pk code OPTION_FIELD over (i + length (enc os)) = At OPTION_FIELD (i + length (enc os))"
    using assms(2-4) by (subst opt_find.simps) (simp add: Let_def unat_len add.assoc)
  then show ?thesis using opt_find_pass [OF assms(1)] assms(3,4) by simp
qed

lemma opt_find_absent:
  assumes "list_all (passed code) os" and "code \<noteq> 0xFF"
    and "holds_bytes pk 240 (enc os @ [0xFF])" and "length (enc os) < 1500"
  shows "opt_find pk code OPTION_FIELD 0 0 = Absent"
proof -
  have "opt_find pk code OPTION_FIELD 0 (length (enc os)) = Absent"
    using assms(2-4) by (subst opt_find.simps) (simp add: Let_def)
  then show ?thesis using opt_find_pass [OF assms(1), of pk 0 0] assms(3,4) by simp
qed

text \<open>Reading back the last option of a list.\<close>

lemma get_option_enc:
  assumes "list_all (passed code) os" and "length d < 256"
    and "holds_bytes pk 240 (enc (os @ [Opt code d]) @ [0xFF])" and "length (enc os) + 1 + length d < 1500"
  shows "holds_bytes pk (dhcp_snp_get_option pk code) d"
proof -
  have "opt_find pk code OPTION_FIELD 0 0 = At OPTION_FIELD (length (enc os))"
    using opt_find_enc [OF assms(1,2), where pk = pk and i = 0 and over = 0] assms(3,4) by simp
  then have "dhcp_snp_get_option pk code = 240 + length (enc os) + 2"
    using opt_scan_find [of pk code OPTION_FIELD 0 0] by (simp add: dhcp_snp_get_option_def same_hit_def)
  then show ?thesis using assms(3) by simp
qed

subsection \<open>Appending option 82\<close>

lemma holds_bytes_iff: "holds_bytes pk a bs \<longleftrightarrow> (\<forall>j<length bs. pk (a + j) = bs ! j)"
  unfolding holds_bytes_def pkt_bytes_def by (subst list_eq_iff_nth_eq) simp

lemma holds_bytes_cong: "(\<And>x. a \<le> x \<Longrightarrow> x < a + length bs \<Longrightarrow> pk' x = pk x) \<Longrightarrow> holds_bytes pk' a bs \<longleftrightarrow> holds_bytes pk a bs"
proof -
  assume same: "\<And>x. a \<le> x \<Longrightarrow> x < a + length bs \<Longrightarrow> pk' x = pk x"
  have "pk' (a + j) = pk (a + j)" if "j < length bs" for j by (rule same) (use that in simp_all)
  then show ?thesis by (simp add: holds_bytes_iff)
qed

lemma holds_bytes_write: "holds_bytes (write_bytes pk a bs) a bs"
  by (simp add: holds_bytes_iff write_bytes_def)

lemma word_below: "n < 1500 \<Longrightarrow> \<not> (of_nat n :: u32) \<ge> 1500"
  by (simp add: word_le_nat_alt unat_of_nat)

lemma char_len: "length d < 128 \<Longrightarrow> char_val (of_nat (length d)) = int (length d)"
  by (simp add: char_val_def signed_of_nat signed_take_bit_int_eq_self)

lemma attach_options:
  assumes "holds_bytes pk 240 (enc os @ [0xFF])" and "list_all opt_ok os" and "length d < 128"
    and "length (enc os) + length d + 3 < 1500"
  shows "\<exists>pk'. dhcp_snp_attach_opt82_string pk (0x52 # of_nat (length d) # d) = Some (pk', CODE_OK)
    \<and> holds_bytes pk' 240 (enc (os @ [Opt 0x52 d]) @ [0xFF])
    \<and> (\<forall>x. x < 240 + length (enc os) \<or> 240 + length (enc os) + length d + 2 < x \<longrightarrow> pk' x = pk x)"
proof -
  let ?str = "0x52 # of_nat (length d) # d" and ?e = "240 + length (enc os)"
  define pk' where "pk' = (write_bytes pk ?e ?str)(?e + length d + 2 := 0xFF)"
  have e: "dhcp_snp_end_option pk 240 = Some (length (enc os))" by (rule end_option_enc [OF assms(1,2)])
  have len: "char_val (?str ! 1) = int (length d)" using char_len [OF assms(3)] by simp
  have sum: "(of_nat (length (enc os)) + of_int (int (length d)) + 2 + 1 :: u32) = of_nat (length (enc os) + length d + 3)"
    by simp
  have "\<not> (of_nat (length (enc os) + length d + 3) :: u32) \<ge> 1500" by (rule word_below [OF assms(4)])
  then have "dhcp_snp_attach_opt82_string pk ?str = Some (pk', CODE_OK)"
    unfolding dhcp_snp_attach_opt82_string_def Let_def len e option.case sum
    by (simp add: pk'_def nat_add_distrib ac_simps)
  moreover have same: "pk' x = pk x" if "x < ?e \<or> ?e + length d + 2 < x" for x
    using that by (auto simp: pk'_def write_bytes_def)
  moreover have "holds_bytes pk' 240 (enc os)" using assms(1) same by (subst holds_bytes_cong [of _ _ pk' pk]) auto
  moreover have "holds_bytes pk' ?e ?str"
    using holds_bytes_write [of pk ?e ?str] by (subst holds_bytes_cong [of _ _ pk' "write_bytes pk ?e ?str"]) (auto simp: pk'_def)
  moreover have "pk' (?e + length d + 2) = 0xFF" by (simp add: pk'_def)
  ultimately show ?thesis by (intro exI [of _ pk']) (simp add: ac_simps)
qed

text \<open>The two sub-options, concatenated, are an option string of the form that is appended.\<close>

lemma cat_opt82_string:
  assumes "length c < 126" and "length r < 126"
  shows "dhcp_snp_cat_opt82_sting (t1 # of_nat (length c) # c) (t2 # of_nat (length r) # r)
    = Some (0x52 # of_nat (length (t1 # of_nat (length c) # c @ t2 # of_nat (length r) # r))
        # t1 # of_nat (length c) # c @ t2 # of_nat (length r) # r)"
  using char_len [of c] char_len [of r] assms
  by (simp add: dhcp_snp_cat_opt82_sting_def Let_def nat_add_distrib)

text \<open>Appending option 82 to a message that has none, and whose options are
  well formed, fit and use no overload, succeeds; the options of the result are those of the
  message with option 82 at the end, nothing else of the message changes, and reading option
  82 back returns the data that were appended.\<close>

theorem attach_opt82_found:
  assumes "holds_bytes pk 240 (enc os @ [0xFF])" and "list_all (passed 0x52) os" and "length d < 128"
    and "length (enc os) + length d + 3 < 1500"
  shows "\<exists>pk'. dhcp_snp_attach_opt82_string pk (0x52 # of_nat (length d) # d) = Some (pk', CODE_OK)
    \<and> holds_bytes pk' 240 (enc (os @ [Opt 0x52 d]) @ [0xFF])
    \<and> (\<forall>x<240. pk' x = pk x)
    \<and> holds_bytes pk' (dhcp_snp_get_option pk' 0x52) d"
proof -
  obtain pk' where pk': "dhcp_snp_attach_opt82_string pk (0x52 # of_nat (length d) # d) = Some (pk', CODE_OK)"
    "holds_bytes pk' 240 (enc (os @ [Opt 0x52 d]) @ [0xFF])"
    "\<forall>x. x < 240 + length (enc os) \<or> 240 + length (enc os) + length d + 2 < x \<longrightarrow> pk' x = pk x"
    using attach_options [OF assms(1) passed_ok [OF assms(2)] assms(3,4)] by blast
  have "holds_bytes pk' (dhcp_snp_get_option pk' 0x52) d"
    by (rule get_option_enc [OF assms(2) _ pk'(2)]) (use assms(3,4) in simp_all)
  then show ?thesis using pk' by simp
qed

text \<open>Taking option 82 off removes as many bytes as the first option of
  the message has, not as many as option 82 has: unless the two lengths happen to be equal, the
  rest of option 82 stays in the message in place of an option, or options after it are lost.\<close>

theorem remove_opt82_wrong_length:
  assumes "holds_bytes pk 240 (enc (Opt c e # os @ [Opt 0x52 d] @ os') @ [0xFF])"
    and "list_all (passed 0x52) (Opt c e # os)" and "length d < 256"
    and "length (enc (Opt c e # os)) + 1 + length d < 1500"
  shows "\<exists>pk'. dhcp_snp_remove_opt82 pk 0x52 opt_len = (pk', Some (of_nat (length e + 2)), CODE_OK)"
proof -
  have f: "opt_find pk 0x52 OPTION_FIELD 0 0 = At OPTION_FIELD (length (enc (Opt c e # os)))"
    using opt_find_enc [OF assms(2,3), where pk = pk and i = 0 and over = 0] assms(1,4) by simp
  have "unat (pk 241) = length e" using assms(1,2) by (auto simp: unat_len)
  then show ?thesis using f by (simp add: dhcp_snp_remove_opt82_def Let_def)
qed

end
