(* ===== verification/SnpHdr.thy ===== *)
theory SnpHdr
  imports SnpOpt82
begin

text \<open>
  Option 82 in a frame: \<open>dhcp_snp_attach_opt82\<close> of \<open>dhcp_snp_options.c\<close>, which puts the option
  into the DHCP message and then rewrites the lengths and checksums of the IP and UDP headers
  around it, with \<open>dhcp_snp_checksum\<close> of \<open>dhcp_snp_pkt.c\<close>. The frame has an Ethernet header of 14
  bytes, an IP header that is taken to have 20, a UDP header of 8, and the message from byte 42.

  The strategy of the port and its two identifiers come from the configuration of the VLAN in
  builds that have it; they are arguments here. In the stand-alone daemon there is no such
  configuration, the look-up fails, and the identifiers stay as they were initialised.
\<close>

subsection \<open>The Internet checksum\<close>

text \<open>The sum is a signed integer of 32 bits. The shorts are read in the byte order of the host, the
  left-over byte is the first of a short.\<close>

definition add_int :: "int \<Rightarrow> int \<Rightarrow> int" where
  "add_int a b = signed_take_bit 31 (a + b)"

fun sum_shorts :: "packet \<Rightarrow> nat \<Rightarrow> nat \<Rightarrow> int \<Rightarrow> int" where
  "sum_shorts pk a count acc =
     (if count > 1 then sum_shorts pk (a + 2) (count - 2) (add_int acc (uint (ntohs (pkt_bytes pk a 2))))
      else if count > 0 then add_int acc (uint (ntohs [pk a, 0]))
      else acc)"

declare sum_shorts.simps [simp del]

text \<open>Folding the sum; the shift of a negative sum is arithmetic.\<close>

function fold_sum :: "int \<Rightarrow> int" where
  "fold_sum s = (if s div 65536 = 0 then s else fold_sum (s mod 65536 + s div 65536))"
  by pat_completeness auto

definition fold_rank :: "int \<Rightarrow> nat" where
  "fold_rank s = (if 0 \<le> s then nat s else if - 65535 \<le> s then 65536 else 65536 + nat (- s))"

lemma fold_rank_decr:
  assumes "s div 65536 \<noteq> 0"
  shows "fold_rank (s mod 65536 + s div 65536) < fold_rank s"
proof -
  define q r where qr: "q = s div 65536" "r = s mod 65536"
  have s: "s = 65536 * q + r" "0 \<le> r" "r < 65536" "q \<noteq> 0" using assms by (auto simp: qr)
  show ?thesis
  proof (cases "0 \<le> s")
    case True
    then have "1 \<le> q" using s by auto
    then show ?thesis using True s by (simp add: fold_rank_def qr [symmetric])
  next
    case False
    then have "q \<le> - 1" using s by auto
    then show ?thesis using False s by (auto simp: fold_rank_def qr [symmetric])
  qed
qed

termination fold_sum
  by (relation "measure fold_rank") (simp_all add: fold_rank_decr)

declare fold_sum.simps [simp del]

definition dhcp_snp_checksum :: "packet \<Rightarrow> nat \<Rightarrow> nat \<Rightarrow> u16" where
  "dhcp_snp_checksum pk a count = NOT (word_of_int (fold_sum (sum_shorts pk a count 0)))"

subsection \<open>Attaching option 82 to a frame\<close>

datatype opt82_strategy = STRATEGY_REPLACE | STRATEGY_DROP | STRATEGY_KEEP | STRATEGY_INVALID

definition CODE_PKT_DROP :: u32 where "CODE_PKT_DROP = 0x16000A"
definition CODE_VLAN_PORT_NO_EXIST :: u32 where "CODE_VLAN_PORT_NO_EXIST = 0x160013"

text \<open>The look-ups of the stand-alone daemon.\<close>

definition dhcp_snp_get_opt82_port_strategy :: "opt82_strategy \<times> u32" where
  "dhcp_snp_get_opt82_port_strategy = (STRATEGY_INVALID, CODE_VLAN_PORT_NO_EXIST)"

definition dhcp_snp_get_opt82_port_circuitid :: "u8 list \<times> u32" where
  "dhcp_snp_get_opt82_port_circuitid = (replicate 68 0, CODE_OK)"

definition dhcp_snp_get_opt82_port_remoteid :: "u8 list \<times> u32" where
  "dhcp_snp_get_opt82_port_remoteid = (replicate 68 0, CODE_OK)"

text \<open>The message in a frame.\<close>

definition msg_of :: "packet \<Rightarrow> packet" where
  "msg_of fr = (\<lambda>i. fr (42 + i))"

definition with_msg :: "packet \<Rightarrow> packet \<Rightarrow> packet" where
  "with_msg fr pk = (\<lambda>i. if i < 42 then fr i else pk (i - 42))"

text \<open>The option strings of the message: an old option 82 goes, the new one is appended. The result is
  the message, the number of bytes taken out, and the result code.\<close>

definition replace_opt82 :: "u8 list \<Rightarrow> packet \<Rightarrow> (packet \<times> u32 \<times> u32) option" where
  "replace_opt82 str pk =
     (if dhcp_snp_check_opt82 pk 0x52 = CODE_FOUND
      then do {
        endposition \<leftarrow> dhcp_snp_end_option pk 240;
        let (pk, del_len, ret) = dhcp_snp_remove_opt82 pk 0x52 (of_nat endposition);
        let del_len = (case del_len of None \<Rightarrow> 0 | Some l \<Rightarrow> l);
        (if ret \<noteq> CODE_OK then Some (pk, del_len, CODE_ERROR)
         else do {
           (pk, ret) \<leftarrow> dhcp_snp_attach_opt82_string pk str;
           Some (pk, del_len, if ret \<noteq> CODE_OK then CODE_ERROR else CODE_OK)
         })
      }
      else do {
        (pk, ret) \<leftarrow> dhcp_snp_attach_opt82_string pk str;
        Some (pk, 0, if ret \<noteq> CODE_OK then CODE_ERROR else CODE_OK)
      })"

text \<open>The lengths grow when the options would not fit the length of the datagram.\<close>

definition grow_lengths :: "u8 list \<Rightarrow> u32 \<Rightarrow> nat \<Rightarrow> packet \<Rightarrow> u32 \<Rightarrow> packet \<times> u32" where
  "grow_lengths str del_len endposition fr bufflen =
     (let originlen = ucast (ntohs (pkt_bytes fr 38 2)) :: u32; add = of_int (char_val (str ! 1)) + 2 in
      if 248 + of_nat endposition + 1 > originlen
      then let udp_len = ucast (originlen - del_len + add) :: u16;
               fr = write_bytes fr 38 (htons udp_len);
               fr = write_bytes fr 16 (htons (udp_len + 20))
           in (fr, bufflen - del_len + add)
      else (fr, bufflen))"

text \<open>The UDP checksum is computed over the datagram with the pseudo header in place of the IP header,
  unless it was not in use; then the IP header is restored and its checksum computed.\<close>

definition pseudo_header :: "packet \<Rightarrow> packet" where
  "pseudo_header fr =
     write_bytes fr 14 ([0, 0] @ pkt_bytes fr 38 2 @ replicate 5 0 @ [17] @ [0, 0] @ pkt_bytes fr 26 8)"

definition udp_checked :: "packet \<Rightarrow> packet" where
  "udp_checked fr =
     (let ps = pseudo_header (write_bytes fr 40 [0, 0]) in
      if ntohs (pkt_bytes fr 40 2) = 0 then ps
      else write_bytes ps 40 (htons (dhcp_snp_checksum ps 14 (unat (ntohs (pkt_bytes fr 38 2)) + 20))))"

definition ip_checked :: "packet \<Rightarrow> packet" where
  "ip_checked fr =
     (let fr = write_bytes fr 24 [0, 0] in write_bytes fr 24 (htons (dhcp_snp_checksum fr 14 20)))"

definition fix_checksums :: "packet \<Rightarrow> packet" where
  "fix_checksums fr = ip_checked (write_bytes (udp_checked fr) 14 (pkt_bytes fr 14 20))"

text \<open>The frame, its length and the result; a look-up is its answer and its result code.\<close>

definition dhcp_snp_attach_opt82 ::
    "opt82_strategy \<times> u32 \<Rightarrow> u8 list \<times> u32 \<Rightarrow> u8 list \<times> u32 \<Rightarrow> packet \<Rightarrow> u32 \<Rightarrow> (packet \<times> u32 \<times> u32) option" where
  "dhcp_snp_attach_opt82 strategy circuitid remoteid fr bufflen =
     (if snd strategy \<noteq> CODE_OK then Some (fr, bufflen, CODE_ERROR)
      else case fst strategy of
        STRATEGY_REPLACE \<Rightarrow>
          if snd circuitid \<noteq> CODE_OK then Some (fr, bufflen, CODE_ERROR)
          else if snd remoteid \<noteq> CODE_OK then Some (fr, bufflen, CODE_ERROR)
          else do {
            str \<leftarrow> dhcp_snp_cat_opt82_sting (fst circuitid) (fst remoteid);
            (pk, del_len, ret) \<leftarrow> replace_opt82 str (msg_of fr);
            let fr = with_msg fr pk;
            (if ret \<noteq> CODE_OK then Some (fr, bufflen, CODE_ERROR)
             else do {
               endposition \<leftarrow> dhcp_snp_end_option (msg_of fr) 240;
               let (fr, bufflen) = grow_lengths str del_len endposition fr bufflen;
               Some (fix_checksums fr, bufflen, CODE_OK)
             })
          }
      | STRATEGY_KEEP \<Rightarrow> Some (fr, bufflen, CODE_OK)
      | STRATEGY_DROP \<Rightarrow> Some (fr, bufflen, CODE_PKT_DROP)
      | STRATEGY_INVALID \<Rightarrow> Some (fr, bufflen, CODE_OK))"

subsection \<open>What the checksum is\<close>

text \<open>The sum of the bytes at their weight, and the sum of the code as long as it does not overflow.\<close>

definition weighted :: "packet \<Rightarrow> nat \<Rightarrow> nat \<Rightarrow> int" where
  "weighted pk a n = (\<Sum>j<n. (if even j then 256 else 1) * uint (pk (a + j)))"

lemma uint_ntohs: "uint (ntohs [x, y]) = 256 * uint x + uint y"
proof -
  have "push_bit 8 (ucast x :: u16) AND ucast y = 0" by (rule bit_word_eqI) (auto simp: bit_simps dest: bit_imp_le_length)
  then have "ntohs [x, y] = push_bit 8 (ucast x) + ucast y"
    by (simp add: ntohs_def be16_def disjunctive_add_eq_or)
  moreover have "uint x < 256" "uint y < 256" using uint_lt2p [of x] uint_lt2p [of y] by simp_all
  ultimately show ?thesis by (simp add: push_bit_eq_mult uint_word_ariths unsigned_ucast_eq take_bit_eq_mod)
qed

lemma weighted_nonneg: "0 \<le> weighted pk a n"
  unfolding weighted_def by (intro sum_nonneg) simp

lemma weighted_step: "weighted pk a (n + 2) = uint (ntohs (pkt_bytes pk a 2)) + weighted pk (a + 2) n"
proof -
  have "weighted pk a (n + 2) = 256 * uint (pk a) + uint (pk (a + 1)) + weighted pk (a + 2) n"
    unfolding weighted_def by (simp add: sum.lessThan_Suc_shift del: sum.lessThan_Suc)
  then show ?thesis by (simp add: pkt_bytes_def uint_ntohs)
qed

lemma sum_shorts_weighted:
  assumes "0 \<le> acc" and "acc + weighted pk a n < 2 ^ 31"
  shows "sum_shorts pk a n acc = acc + weighted pk a n"
  using assms
proof (induction pk a n acc rule: sum_shorts.induct)
  case (1 pk a n acc)
  have add: "add_int x y = x + y" if "0 \<le> x" "0 \<le> y" "x + y < 2 ^ 31" for x y
    using that by (simp add: add_int_def signed_take_bit_int_eq_self)
  consider (more) m where "n = m + 2" | (one) "n = 1" | (none) "n = 0"
    by (metis One_nat_def add.commute add_2_eq_Suc' le_Suc_ex less_2_cases not_less)
  then show ?case
  proof cases
    case more
    have w: "weighted pk a n = uint (ntohs (pkt_bytes pk a 2)) + weighted pk (a + 2) m" using more weighted_step by simp
    then have "add_int acc (uint (ntohs (pkt_bytes pk a 2))) = acc + uint (ntohs (pkt_bytes pk a 2))"
      using "1.prems" weighted_nonneg [of pk "a + 2" m] by (intro add) simp_all
    then show ?thesis
      using "1.IH" "1.prems" more w by (subst sum_shorts.simps) (simp add: add.assoc)
  next
    case one
    then show ?thesis using "1.prems" add [of acc "256 * uint (pk a)"]
      by (subst sum_shorts.simps) (simp add: weighted_def uint_ntohs)
  next
    case none
    then show ?thesis by (subst sum_shorts.simps) (simp add: weighted_def)
  qed
qed

lemma weighted_le: "weighted pk a n \<le> 65280 * int n"
proof -
  have "(if even j then 256 else 1) * uint (pk (a + j)) \<le> 65280" for j
    using uint_lt2p [of "pk (a + j)"] by simp
  then have "weighted pk a n \<le> (\<Sum>j<n. 65280)" unfolding weighted_def by (intro sum_mono) simp
  then show ?thesis by simp
qed

lemma fold_sum_props:
  assumes "0 \<le> s"
  shows "fold_sum s mod 65535 = s mod 65535 \<and> 0 \<le> fold_sum s \<and> fold_sum s < 65536 \<and> (0 < s \<longrightarrow> 0 < fold_sum s)"
  using assms
proof (induction s rule: fold_sum.induct)
  case (1 s)
  show ?case
  proof (cases "s div 65536 = 0")
    case True
    then show ?thesis using 1(2) by (simp add: fold_sum.simps [of s] div_eq_0_iff)
  next
    case False
    have "s = (s mod 65536 + s div 65536) + 65535 * (s div 65536)"
      using minus_mult_div_eq_mod [of s 65536] by simp
    then have "(s mod 65536 + s div 65536) mod 65535 = s mod 65535" by (metis mod_mult_self2)
    moreover have "0 < s div 65536" using False 1(2) by (simp add: order_less_le pos_imp_zdiv_nonneg_iff)
    moreover have "fold_sum s = fold_sum (s mod 65536 + s div 65536)" using False by (subst fold_sum.simps) simp
    ultimately show ?thesis using 1(1) [OF False] 1(2) by (simp add: add_nonneg_pos)
  qed
qed

text \<open>Storing a short where the bytes were zero.\<close>

lemma weighted_write:
  assumes "pk (a + 2 * k) = 0" and "pk (a + 2 * k + 1) = 0" and "2 * k + 1 < n"
  shows "weighted (write_bytes pk (a + 2 * k) (htons c)) a n = weighted pk a n + uint c"
proof -
  obtain x y where xy: "htons c = [x, y]" by (simp add: htons_def)
  have "uint c = 256 * uint x + uint y" using uint_ntohs [of x y] ntohs_htons' [of c] xy by simp
  moreover have "(if even j then 256 else 1) * uint (write_bytes pk (a + 2 * k) [x, y] (a + j))
      = (if even j then 256 else 1) * uint (pk (a + j))
        + ((if j = 2 * k then 256 * uint x else 0) + (if j = 2 * k + 1 then uint y else 0))" for j
  proof -
    consider "j = 2 * k" | "j = 2 * k + 1" | "j < 2 * k \<or> 2 * k + 1 < j" by linarith
    then show ?thesis using assms(1,2) by cases (auto simp: write_bytes_def)
  qed
  ultimately show ?thesis
    using assms(3) by (simp add: xy weighted_def sum.distrib sum.delta)
qed

lemma checksum_alt:
  assumes "n < 32768"
  shows "uint (dhcp_snp_checksum pk a n) = 65535 - fold_sum (weighted pk a n)"
proof -
  let ?f = "fold_sum (weighted pk a n)"
  have "sum_shorts pk a n 0 = weighted pk a n"
    using weighted_le [of pk a n] assms sum_shorts_weighted [of 0 pk a n] by simp
  moreover have "0 \<le> ?f" "?f < 65536" using fold_sum_props [OF weighted_nonneg [of pk a n]] by simp_all
  moreover have "NOT (word_of_int ?f :: u16) = word_of_int (65535 - ?f)" by (simp add: not_eq_complement)
  ultimately show ?thesis by (simp add: dhcp_snp_checksum_def uint_word_of_int del: of_int_diff)
qed

lemma all_ones: "0 < x \<Longrightarrow> x < 65536 \<Longrightarrow> 65535 dvd x \<Longrightarrow> x = 65535" for x :: int
  using zdvd_imp_le [of 65535 x] by simp

lemma fold_dvd: "0 \<le> s \<Longrightarrow> 65535 dvd fold_sum s - s"
  using fold_sum_props [of s] by (simp add: mod_eq_dvd_iff)

lemma checksum_fills:
  assumes "pk (a + 2 * k) = 0" and "pk (a + 2 * k + 1) = 0" and "2 * k + 1 < n" and "n < 32768"
  shows "dhcp_snp_checksum (write_bytes pk (a + 2 * k) (htons (dhcp_snp_checksum pk a n))) a n = 0"
proof -
  define s where "s = weighted pk a n"
  define pk' where "pk' = write_bytes pk (a + 2 * k) (htons (dhcp_snp_checksum pk a n))"
  define t where "t = weighted pk' a n"
  have s: "0 \<le> s" by (simp add: s_def weighted_nonneg)
  have t: "t = s + (65535 - fold_sum s)"
    unfolding t_def pk'_def s_def weighted_write [OF assms(1-3)] checksum_alt [OF assms(4)] ..
  have "0 < t" using fold_sum_props [OF s] s by (cases "s = 0") (simp_all add: t fold_sum.simps [of 0])
  moreover have "65535 dvd t" using dvd_diff [OF dvd_refl fold_dvd [OF s]] by (simp add: t algebra_simps)
  ultimately have "65535 dvd fold_sum t"
    using dvd_add [OF fold_dvd [of t], of t] by simp
  then have "fold_sum t = 65535" using fold_sum_props [of t] \<open>0 < t\<close> by (intro all_ones) simp_all
  then show ?thesis using checksum_alt [OF assms(4), of pk' a] by (simp add: t_def pk'_def uint_0_iff)
qed

subsection \<open>The frame after option 82 is attached\<close>

lemma pkt_bytes_cong: "(\<And>x. a \<le> x \<Longrightarrow> x < a + n \<Longrightarrow> pk' x = pk x) \<Longrightarrow> pkt_bytes pk' a n = pkt_bytes pk a n"
  by (simp add: pkt_bytes_def)

lemma ip_checked_valid: "dhcp_snp_checksum (ip_checked fr) 14 20 = 0"
proof -
  have "write_bytes fr 24 [0, 0] (14 + 2 * 5) = 0" "write_bytes fr 24 [0, 0] (14 + 2 * 5 + 1) = 0"
    by (simp_all add: write_bytes_def)
  from checksum_fills [OF this, of 20] show ?thesis by (simp add: ip_checked_def Let_def)
qed

lemma udp_checked_valid:
  assumes "ntohs (pkt_bytes fr 40 2) \<noteq> 0" and "unat (ntohs (pkt_bytes fr 38 2)) < 32000" and "8 \<le> unat (ntohs (pkt_bytes fr 38 2))"
  shows "dhcp_snp_checksum (udp_checked fr) 14 (unat (ntohs (pkt_bytes fr 38 2)) + 20) = 0"
proof -
  let ?ps = "pseudo_header (write_bytes fr 40 [0, 0])"
  have "?ps (14 + 2 * 13) = 0" "?ps (14 + 2 * 13 + 1) = 0"
    by (simp_all add: pseudo_header_def write_bytes_def)
  from checksum_fills [OF this, of "unat (ntohs (pkt_bytes fr 38 2)) + 20"] show ?thesis
    using assms by (simp add: udp_checked_def Let_def)
qed

lemma write_bytes_other: "x < a \<or> a + length bs \<le> x \<Longrightarrow> write_bytes pk a bs x = pk x"
  by (auto simp: write_bytes_def)

lemma write_bytes_in: "a \<le> x \<Longrightarrow> x < a + length bs \<Longrightarrow> write_bytes pk a bs x = bs ! (x - a)"
  by (simp add: write_bytes_def)

lemma pkt_bytes_write: "length bs = n \<Longrightarrow> pkt_bytes (write_bytes pk a bs) a n = bs"
  by (rule nth_equalityI) (simp_all add: pkt_bytes_def write_bytes_def)

lemma pkt_bytes_write_other:
  "a + n \<le> b \<or> b + length bs \<le> a \<Longrightarrow> pkt_bytes (write_bytes pk b bs) a n = pkt_bytes pk a n"
  by (rule pkt_bytes_cong) (auto simp: write_bytes_other)

lemma write_bytes_copy: "write_bytes pk b (pkt_bytes fr b n) x = (if b \<le> x \<and> x < b + n then fr x else pk x)"
  by (auto simp: write_bytes_def pkt_bytes_def)

lemma udp_checked_outside: "x < 14 \<or> 34 \<le> x \<and> x \<noteq> 40 \<and> x \<noteq> 41 \<Longrightarrow> udp_checked fr x = fr x"
  by (auto simp: udp_checked_def Let_def pseudo_header_def write_bytes_def pkt_bytes_def)

lemma fix_checksums_outside: "x < 24 \<or> 26 \<le> x \<and> x \<noteq> 40 \<and> x \<noteq> 41 \<Longrightarrow> fix_checksums fr x = fr x"
  by (auto simp: fix_checksums_def ip_checked_def Let_def write_bytes_other write_bytes_copy udp_checked_outside)

lemma fix_checksums_udp: "34 \<le> x \<Longrightarrow> fix_checksums fr x = udp_checked fr x"
  by (auto simp: fix_checksums_def ip_checked_def Let_def write_bytes_other write_bytes_copy)

text \<open>The datagram of the finished frame, with the pseudo header, is what the checksum was computed over.\<close>

lemma pseudo_of_fixed: "pseudo_header (fix_checksums fr) = udp_checked fr"
proof
  fix x :: nat
  have b: "pkt_bytes (fix_checksums fr) 38 2 = pkt_bytes fr 38 2" "pkt_bytes (fix_checksums fr) 26 8 = pkt_bytes fr 26 8"
    by (rule pkt_bytes_cong, simp add: fix_checksums_outside)+
  have c: "pkt_bytes (write_bytes fr 40 [0, 0]) 38 2 = pkt_bytes fr 38 2" "pkt_bytes (write_bytes fr 40 [0, 0]) 26 8 = pkt_bytes fr 26 8"
    by (rule pkt_bytes_write_other, simp)+
  consider "x < 14" | "14 \<le> x" "x < 34" | "34 \<le> x" by linarith
  then show "pseudo_header (fix_checksums fr) x = udp_checked fr x"
  proof cases
    case 1
    then show ?thesis
      by (simp add: pseudo_header_def write_bytes_other fix_checksums_outside udp_checked_outside)
  next
    case 2
    then show ?thesis
      by (simp add: udp_checked_def Let_def write_bytes_other) (simp add: pseudo_header_def b c write_bytes_in)
  next
    case 3
    then show ?thesis by (simp add: pseudo_header_def write_bytes_def pkt_bytes_def fix_checksums_udp)
  qed
qed

lemma msg_of_with_msg [simp]: "msg_of (with_msg fr pk) = pk"
  by (simp add: msg_of_def with_msg_def)

lemma replace_absent:
  assumes "holds_bytes pk 240 (enc os @ [0xFF])" and "list_all (passed 0x52) os" and "length d < 128"
    and "length (enc os) + length d + 3 < 1500"
  shows "\<exists>pk'. replace_opt82 (0x52 # of_nat (length d) # d) pk = Some (pk', 0, CODE_OK)
    \<and> holds_bytes pk' 240 (enc (os @ [Opt 0x52 d]) @ [0xFF]) \<and> (\<forall>x<240. pk' x = pk x)"
proof -
  have "opt_find pk 0x52 OPTION_FIELD 0 0 = Absent"
    by (rule opt_find_absent [OF assms(2) _ assms(1)]) (use assms(4) in simp_all)
  then have "dhcp_snp_check_opt82 pk 0x52 \<noteq> CODE_FOUND" by (simp add: dhcp_snp_check_opt82_def snp_codes)
  then show ?thesis using attach_options [OF assms(1) passed_ok [OF assms(2)] assms(3,4)]
    by (auto simp: replace_opt82_def)
qed

text \<open>The lengths of the frame.\<close>

abbreviation udp_len :: "packet \<Rightarrow> nat" where
  "udp_len fr \<equiv> unat (ntohs (pkt_bytes fr 38 2))"

abbreviation ip_len :: "packet \<Rightarrow> nat" where
  "ip_len fr \<equiv> unat (ntohs (pkt_bytes fr 16 2))"

lemma grow_lengths_grows:
  assumes "udp_len fr < 249 + e" and "udp_len fr + length d + 2 < 65000" and "e < 65000" and "length d < 128"
  shows "\<exists>fr'. grow_lengths (c # of_nat (length d) # d) 0 e fr n = (fr', n + of_nat (length d + 2))
    \<and> udp_len fr' = udp_len fr + length d + 2 \<and> ip_len fr' = udp_len fr + length d + 22
    \<and> (\<forall>x\<ge>40. fr' x = fr x)"
proof -
  define u where "u = udp_len fr"
  let ?l = "of_nat (u + length d + 2) :: u16"
  define fr' where "fr' = write_bytes (write_bytes fr 38 (htons ?l)) 16 (htons (?l + 20))"
  have u: "u < 249 + e" "u + length d + 2 < 65000" using assms(1,2) by (simp_all add: u_def)
  have o: "(ucast (ntohs (pkt_bytes fr 38 2)) :: u32) = of_nat u" by (simp add: u_def)
  have lt: "(248 + of_nat e + 1 :: u32) > of_nat u"
    using u assms(3) by (simp add: word_less_nat_alt unat_word_ariths unat_of_nat)
  have add: "of_int (char_val ((c # of_nat (length d) # d) ! 1)) + 2 = (of_nat (length d + 2) :: u32)"
    using char_len [OF assms(4)] by simp
  have trunc: "ucast (of_nat u + of_nat (length d + 2) :: u32) = ?l"
  proof -
    have "(of_nat u + of_nat (length d + 2) :: u32) = of_nat (u + length d + 2)" by simp
    then show ?thesis using u(2) by (simp only: unsigned_of_nat) (simp add: take_bit_nat_eq_self)
  qed
  have "grow_lengths (c # of_nat (length d) # d) 0 e fr n = (fr', n + of_nat (length d + 2))"
    using lt by (simp only: grow_lengths_def Let_def o add trunc if_True fr'_def diff_zero)
  moreover have "pkt_bytes fr' 38 2 = htons ?l" "pkt_bytes fr' 16 2 = htons (?l + 20)"
    by (simp_all add: fr'_def pkt_bytes_write pkt_bytes_write_other)
  moreover have "unat ?l = u + length d + 2" using u(2) by (simp only: unat_of_nat) simp
  moreover have "unat (?l + 20) = u + length d + 22"
  proof -
    have "?l + 20 = of_nat (u + length d + 22)" by simp
    then show ?thesis using u(2) by (simp only: unat_of_nat) simp
  qed
  moreover have "\<forall>x\<ge>40. fr' x = fr x" by (simp add: fr'_def write_bytes_other)
  ultimately show ?thesis by (intro exI [of _ fr']) (simp add: u_def)
qed

lemma msg_of_cong: "(\<And>x. 42 \<le> x \<Longrightarrow> fr' x = fr x) \<Longrightarrow> msg_of fr' = msg_of fr"
  by (simp add: msg_of_def)

lemma fix_checksums_keeps:
  "msg_of (fix_checksums fr) = msg_of fr" "udp_len (fix_checksums fr) = udp_len fr" "ip_len (fix_checksums fr) = ip_len fr"
proof -
  show "msg_of (fix_checksums fr) = msg_of fr" by (rule msg_of_cong) (simp add: fix_checksums_outside)
  have "pkt_bytes (fix_checksums fr) 38 2 = pkt_bytes fr 38 2" "pkt_bytes (fix_checksums fr) 16 2 = pkt_bytes fr 16 2"
    by (rule pkt_bytes_cong, simp add: fix_checksums_outside)+
  then show "udp_len (fix_checksums fr) = udp_len fr" "ip_len (fix_checksums fr) = ip_len fr" by simp_all
qed

lemma fix_checksums_valid:
  "dhcp_snp_checksum (fix_checksums fr) 14 20 = 0"
  "ntohs (pkt_bytes fr 40 2) \<noteq> 0 \<Longrightarrow> 8 \<le> udp_len fr \<Longrightarrow> udp_len fr < 32000
     \<Longrightarrow> dhcp_snp_checksum (pseudo_header (fix_checksums fr)) 14 (udp_len fr + 20) = 0"
  unfolding pseudo_of_fixed by (simp_all add: fix_checksums_def ip_checked_valid udp_checked_valid)


end
