(* ===== verification/SnpStatic.thy ===== *)
theory SnpStatic
  imports SnpOpt
begin

text \<open>
  Static bindings: the two D-Bus commands that enter and remove one
  (\<open>dhcp_snp_dbus_add_wan_bind_table\<close> and \<open>dhcp_snp_dbus_del_wan_bind_table\<close> of
  \<open>dhcp_snp_com.c\<close>) and the list of static bindings they keep beside the tables
  (\<open>dhcp_snp_static_table_head\<close> of \<open>dhcp_snp_tbl.c\<close>), here a HOL list, the most recent first.
  The arguments of a command are those of the D-Bus message; the hardware address is an array
  of bytes. Whether the interface has an index is the caller's, as \<open>if_nametoindex\<close> says.
\<close>

record dhcp_snp_static_table =
  s_ipaddr :: u32
  s_chaddr :: "u8 list"
  s_ifindex :: u32

definition CODE_ALREADY_SET :: u32 where "CODE_ALREADY_SET = 0x160002"
definition CODE_NOT_ENABLE_GBL :: u32 where "CODE_NOT_ENABLE_GBL = 0x160004"

definition zero_user :: user where
  "zero_user = \<lparr>u_bind_type = 0, u_state = 0, u_haddr_len = 0, u_chaddr = replicate 6 0, u_vlanId = 0,
     u_ip_addr = 0, u_lease_time = 0, u_sys_escape = 0, u_cur_expire = 0, u_ifindex = 0, u_flags = 0\<rparr>"

subsection \<open>The list of static bindings\<close>

definition dhcp_snp_add_static_bindtable ::
    "bool \<Rightarrow> dhcp_snp_static_table list \<Rightarrow> u32 \<Rightarrow> u8 list \<Rightarrow> u32 \<Rightarrow> dhcp_snp_static_table list \<times> u32" where
  "dhcp_snp_add_static_bindtable mem l ip mac ifi =
     (if ifi = 0 \<or> ip = 0 then (l, CODE_PARAM_NULL)
      else if \<not> mem then (l, CODE_ERROR)
      else (\<lparr>s_ipaddr = ip, s_chaddr = take 6 mac, s_ifindex = ifi\<rparr> # l, CODE_OK))"

fun drop_static :: "u8 list \<Rightarrow> dhcp_snp_static_table list \<Rightarrow> dhcp_snp_static_table list" where
  "drop_static mac [] = []"
| "drop_static mac (t # ts) = (if memcmp 6 (s_chaddr t) mac = 0 then ts else t # drop_static mac ts)"

definition dhcp_snp_del_static_bindtable ::
    "dhcp_snp_static_table list \<Rightarrow> u32 \<Rightarrow> u8 list \<Rightarrow> u32 \<Rightarrow> dhcp_snp_static_table list \<times> u32" where
  "dhcp_snp_del_static_bindtable l ip mac ifi =
     (if ifi = 0 \<or> ip = 0 then (l, CODE_PARAM_NULL)
      else if l = [] then (l, CODE_ERROR)
      else (drop_static mac l, CODE_OK))"

subsection \<open>The commands\<close>

definition dhcp_snp_dbus_add_wan_bind_table ::
    "bool \<Rightarrow> bool \<Rightarrow> snp_env \<Rightarrow> snp \<Rightarrow> dhcp_snp_static_table list \<Rightarrow> u32 \<Rightarrow> packet \<Rightarrow> u32
      \<Rightarrow> (snp \<times> dhcp_snp_static_table list \<times> u32) option" where
  "dhcp_snp_dbus_add_wan_bind_table enabled mem env st l ip mac ifi =
     (let u = zero_user\<lparr>u_ip_addr := ip, u_chaddr := pkt_bytes mac 0 6, u_ifindex := ifi,
                u_bind_type := TYPE_STATIC, u_state := STATE_BOUND\<rparr> in
      if \<not> enabled then Some (st, l, CODE_NOT_ENABLE_GBL)
      else do {
        p \<leftarrow> dhcp_snp_tbl_item_find st u;
        q \<leftarrow> (if p \<noteq> NULL then Some p else dhcp_snp_tbl_item_find_by_ip st ip);
        if q \<noteq> NULL then Some (st, l, CODE_ALREADY_SET)
        else let (st, item) = dhcp_snp_tbl_item_insert env st u in
          if item = NULL then Some (st, l, CODE_ERROR)
          else do {
            (st, _) \<leftarrow> dhcp_snp_tbl_item_insert_ip_hash st item;
            Some (st, fst (dhcp_snp_add_static_bindtable mem l ip (u_chaddr u) ifi), CODE_OK)
          }
      })"

definition dhcp_snp_dbus_del_wan_bind_table ::
    "bool \<Rightarrow> snp_env \<Rightarrow> snp \<Rightarrow> dhcp_snp_static_table list \<Rightarrow> packet
      \<Rightarrow> (snp \<times> dhcp_snp_static_table list \<times> u32) option" where
  "dhcp_snp_dbus_del_wan_bind_table enabled env st l mac =
     (let u = (stack_user env)\<lparr>u_ifindex := 0, u_chaddr := pkt_bytes mac 0 6\<rparr> in
      if \<not> enabled then Some (st, l, CODE_NOT_ENABLE_GBL)
      else do {
        item \<leftarrow> dhcp_snp_tbl_item_find st u;
        if item = NULL then Some (st, l, CODE_NOT_FOUND)
        else do {
          it \<leftarrow> items st item;
          let l = fst (dhcp_snp_del_static_bindtable l (ip_addr it) (chaddr it) (ifindex it));
          st \<leftarrow> (if ip_addr it = 0 then Some st else map_option fst (dhcp_snp_tbl_item_delete_iphash st item));
          (st, ret) \<leftarrow> dhcp_snp_tbl_item_delete env st item;
          Some (st, l, ret)
        }
      })"

subsection \<open>The effect on the maps\<close>

definition static_entry :: "snp_env \<Rightarrow> u32 \<Rightarrow> packet \<Rightarrow> u32 \<Rightarrow> item" where
  "static_entry env ip mac ifi = entry (dhcp_snp_tbl_fill_item env
     (zero_user\<lparr>u_ip_addr := ip, u_chaddr := pkt_bytes mac 0 6, u_ifindex := ifi,
        u_bind_type := TYPE_STATIC, u_state := STATE_BOUND\<rparr>) zero_item)"

lemma static_entry_simps [simp]:
  "chaddr (static_entry env ip mac ifi) = pkt_bytes mac 0 6" "ip_addr (static_entry env ip mac ifi) = ip"
  "state (static_entry env ip mac ifi) = STATE_BOUND" "bind_type (static_entry env ip mac ifi) = TYPE_STATIC"
  "ifindex (static_entry env ip mac ifi) = ifi"
  by (simp_all add: static_entry_def dhcp_snp_tbl_fill_item_def)

lemma holder_find:
  assumes "tbl st ms ips"
  shows "\<exists>p. dhcp_snp_tbl_item_find_by_ip st ip = Some p \<and> (p = NULL \<longleftrightarrow> holder st ip = None)"
proof (cases rule: find_by_ip_cases [OF assms, of ip])
  case 1
  show ?thesis using 1(1) by (simp add: holder_def entry_at_def)
next
  case (2 x e)
  show ?thesis using 2(1,2,4) by (simp add: holder_def entry_at_def)
qed

lemma wan_add_maps:
  assumes ok: "tbl_ok st"
  obtains (refused) ret where "dhcp_snp_dbus_add_wan_bind_table enabled mem env st l ip mac ifi = Some (st, l, ret)"
      and "ret \<noteq> CODE_OK"
      and "\<not> enabled \<or> \<not> malloc_ok env \<or> binding st (pkt_bytes mac 0 6) \<noteq> None \<or> holder st ip \<noteq> None"
  | (added) st' where "dhcp_snp_dbus_add_wan_bind_table enabled mem env st l ip mac ifi =
        Some (st', fst (dhcp_snp_add_static_bindtable mem l ip (pkt_bytes mac 0 6) ifi), CODE_OK)"
      and "tbl_ok st'" and "binding st (pkt_bytes mac 0 6) = None" and "holder st ip = None"
      and "binding st' = (binding st)(pkt_bytes mac 0 6 \<mapsto> static_entry env ip mac ifi)"
      and "holder st' = (if ip = 0 then holder st else (holder st)(ip \<mapsto> pkt_bytes mac 0 6))"
proof -
  let ?u = "zero_user\<lparr>u_ip_addr := ip, u_chaddr := pkt_bytes mac 0 6, u_ifindex := ifi,
                u_bind_type := TYPE_STATIC, u_state := STATE_BOUND\<rparr>"
  obtain ms ips where t: "tbl st ms ips" using ok tbl_ok_def by blast
  have len: "length (u_chaddr ?u) = 6" by simp
  note def = dhcp_snp_dbus_add_wan_bind_table_def Let_def CODE_ALREADY_SET_def CODE_NOT_ENABLE_GBL_def snp_codes
  show ?thesis
  proof (cases rule: item_find_cases [OF t len])
    case (2 x e)
    show ?thesis using refused [of "if enabled then CODE_ALREADY_SET else CODE_NOT_ENABLE_GBL"] 2(1,2,6)
      by (simp add: def)
  next
    case 1
    show ?thesis
    proof (cases "enabled \<and> holder st ip = None \<and> malloc_ok env")
      case False
      obtain p where p: "dhcp_snp_tbl_item_find_by_ip st ip = Some p" "p = NULL \<longleftrightarrow> holder st ip = None"
        using holder_find [OF t] by blast
      have "\<exists>ret. dhcp_snp_dbus_add_wan_bind_table enabled mem env st l ip mac ifi = Some (st, l, ret) \<and> ret \<noteq> CODE_OK"
      proof (cases "enabled \<and> p = NULL")
        case True
        then have "\<not> malloc_ok env" using False p(2) by simp
        then show ?thesis using True 1(1) p(1) by (simp add: def dhcp_snp_tbl_item_insert_def)
      next
        case False
        then show ?thesis using 1(1) p(1) by (cases enabled) (simp_all add: def)
      qed
      then show ?thesis using refused False by blast
    next
      case True
      obtain st1 p where ins: "dhcp_snp_tbl_item_insert env st ?u = (st1, p)" by fastforce
      have st1: "tbl_ok st1" "p \<noteq> NULL" "dhcp_snp_tbl_item_find st1 ?u = Some p"
          "binding st1 = (binding st)(pkt_bytes mac 0 6 \<mapsto> static_entry env ip mac ifi)" "holder st1 = holder st"
        using item_insert_maps [OF ok len _ 1(2) ins] True by (simp_all add: static_entry_def)
      have ip: "dhcp_snp_tbl_item_find_by_ip st ip = Some NULL" using holder_find [OF t] True by fastforce
      obtain ms1 ips1 where t1: "tbl st1 ms1 ips1" using st1(1) tbl_ok_def by blast
      have p: "p \<in> set (ms1 (dhcp_snp_tbl_hash (u_chaddr ?u)))" "entries st1 p = Some (static_entry env ip mac ifi)"
        by (cases rule: item_find_cases [OF t1 len]; use st1(2-4) in simp)+
      obtain it where it: "items st1 p = Some it" "static_entry env ip mac ifi = entry it"
        using entries_item [OF p(2)] by blast
      then have ipit: "ip_addr it = ip" using static_entry_simps(2) [of env ip mac ifi] by simp
      have "\<exists>st' q. dhcp_snp_tbl_item_insert_ip_hash st1 p = Some (st', q) \<and> tbl_ok st' \<and> binding st' = binding st1
          \<and> holder st' = (if ip = 0 then holder st else (holder st)(ip \<mapsto> pkt_bytes mac 0 6))"
      proof (cases "ip = 0")
        case True
        then show ?thesis using it(1) ipit st1(1,2,5) by (simp add: dhcp_snp_tbl_item_insert_ip_hash_def)
      next
        case False
        have "ip_addr (static_entry env ip mac ifi) \<noteq> 0" using False by simp
        then obtain st' ips' where "dhcp_snp_tbl_item_insert_ip_hash st1 p = Some (st', p)" "tbl st' ms1 ips'"
            "binding st' = binding st1" "holder st' = (holder st1)(ip \<mapsto> pkt_bytes mac 0 6)"
          using insert_ip_hash_maps [OF t1 p] by auto
        then show ?thesis using st1(5) False tbl_ok_def by auto
      qed
      then obtain st' q where st': "dhcp_snp_tbl_item_insert_ip_hash st1 p = Some (st', q)" "tbl_ok st'"
          "binding st' = binding st1"
          "holder st' = (if ip = 0 then holder st else (holder st)(ip \<mapsto> pkt_bytes mac 0 6))" by blast
      have "dhcp_snp_dbus_add_wan_bind_table enabled mem env st l ip mac ifi =
          Some (st', fst (dhcp_snp_add_static_bindtable mem l ip (pkt_bytes mac 0 6) ifi), CODE_OK)"
        using 1(1) True ip ins st1(2) st'(1) by (simp add: dhcp_snp_dbus_add_wan_bind_table_def Let_def)
      then show ?thesis using added [of st'] st'(2-4) st1(4) 1(2) True by simp
    qed
  qed
qed

lemma wan_del_maps:
  assumes ok: "tbl_ok st"
  obtains (refused) ret where "dhcp_snp_dbus_del_wan_bind_table enabled env st l mac = Some (st, l, ret)"
      and "\<not> enabled \<or> binding st (pkt_bytes mac 0 6) = None"
  | (deleted) st' ret e where "enabled" and "binding st (pkt_bytes mac 0 6) = Some e"
      and "dhcp_snp_dbus_del_wan_bind_table enabled env st l mac =
        Some (st', fst (dhcp_snp_del_static_bindtable l (ip_addr e) (chaddr e) (ifindex e)), ret)"
      and "tbl_ok st'" and "binding st' = (binding st)(pkt_bytes mac 0 6 := None)"
      and "holder st' = (\<lambda>i. if holder st i = Some (pkt_bytes mac 0 6) then None else holder st i)"
proof -
  let ?u = "(stack_user env)\<lparr>u_ifindex := 0, u_chaddr := pkt_bytes mac 0 6\<rparr>"
  obtain ms ips where t: "tbl st ms ips" using ok tbl_ok_def by blast
  have len: "length (u_chaddr ?u) = 6" by simp
  note def = dhcp_snp_dbus_del_wan_bind_table_def Let_def
  show ?thesis
  proof (cases rule: item_find_cases [OF t len])
    case 1
    show ?thesis using refused [of "if enabled then CODE_NOT_FOUND else CODE_NOT_ENABLE_GBL"] 1(1,2) by (simp add: def)
  next
    case (2 x e)
    show ?thesis
    proof (cases enabled)
      case False
      then show ?thesis using refused [of CODE_NOT_ENABLE_GBL] by (simp add: def)
    next
      case True
      obtain it where it: "items st x = Some it" "e = entry it" using entries_item [OF 2(4)] by blast
      obtain st1 ips1 where st1: "(if ip_addr it = 0 then Some st else map_option fst (dhcp_snp_tbl_item_delete_iphash st x)) = Some st1"
          "tbl st1 ms ips1" "entries st1 = entries st" "binding st1 = binding st"
          "holder st1 = (\<lambda>i. if holder st i = Some (chaddr it) then None else holder st i)"
        using clear_iphash_maps [OF t 2(3) it(1)] by blast
      have e1: "entries st1 x = Some e" using st1(3) 2(4) by simp
      obtain st' ret where st': "dhcp_snp_tbl_item_delete env st1 x = Some (st', ret)"
          "tbl st' (ms(dhcp_snp_tbl_hash (u_chaddr ?u) := remove1 x (ms (dhcp_snp_tbl_hash (u_chaddr ?u))))) (\<lambda>j. remove1 x (ips1 j))"
          "binding st' = (binding st1)(chaddr e := None)"
          "holder st' = (\<lambda>ip. if holder st1 ip = Some (chaddr e) then None else holder st1 ip)"
        using item_delete_maps [OF st1(2) 2(3) e1, of env] by blast
      have mac: "chaddr it = pkt_bytes mac 0 6" "chaddr e = pkt_bytes mac 0 6" using 2(5) it(2) by simp_all
      have "dhcp_snp_dbus_del_wan_bind_table enabled env st l mac =
          Some (st', fst (dhcp_snp_del_static_bindtable l (ip_addr e) (chaddr e) (ifindex e)), ret)"
        using 2(1,2) True it st1(1) st'(1) by (simp add: def)
      moreover have "tbl_ok st'" using st'(2) tbl_ok_def by blast
      moreover have "holder st' = (\<lambda>i. if holder st i = Some (pkt_bytes mac 0 6) then None else holder st i)"
        unfolding st'(4) st1(5) mac by auto
      ultimately show ?thesis using deleted [of e st' ret] True 2(6) st'(3) st1(4) mac(2) by simp
    qed
  qed
qed

text \<open>C37: A static binding for a free address and a client without an entry
  is entered, found under both its addresses and never taken for a dynamic one; removing it
  again brings back both maps and the list of static bindings as they were.\<close>

theorem static_binding_roundtrip:
  assumes "tbl_ok st" and "malloc_ok env" and "ip \<noteq> 0" and "ifi \<noteq> 0"
    and "binding st (pkt_bytes mac 0 6) = None" and "holder st ip = None"
    and "\<And>i. holder st i \<noteq> Some (pkt_bytes mac 0 6)"
  shows "\<exists>st1 l1 st2 ret. dhcp_snp_dbus_add_wan_bind_table True True env st l ip mac ifi = Some (st1, l1, CODE_OK)
    \<and> holder st1 ip = Some (pkt_bytes mac 0 6)
    \<and> map_option bind_type (binding st1 (pkt_bytes mac 0 6)) = Some TYPE_STATIC
    \<and> dhcp_snp_dbus_del_wan_bind_table True env st1 l1 mac = Some (st2, l, ret)
    \<and> binding st2 = binding st \<and> holder st2 = holder st"
proof (cases rule: wan_add_maps [OF assms(1), of True True env l ip mac ifi])
  case (1 ret)
  then show ?thesis using assms(2,5,6) by simp
next
  case (2 st1)
  let ?m = "pkt_bytes mac 0 6" and ?l = "fst (dhcp_snp_add_static_bindtable True l ip (pkt_bytes mac 0 6) ifi)"
  have l: "?l = \<lparr>s_ipaddr = ip, s_chaddr = ?m, s_ifindex = ifi\<rparr> # l"
    using assms(3,4) by (simp add: dhcp_snp_add_static_bindtable_def)
  have b1: "binding st1 ?m = Some (static_entry env ip mac ifi)" using 2(5) by simp
  show ?thesis
  proof (cases rule: wan_del_maps [OF 2(2), of True env ?l mac])
    case (1 ret)
    then show ?thesis using b1 by simp
  next
    case (2 st2 ret e)
    note del = this and add = \<open>dhcp_snp_dbus_add_wan_bind_table True True env st l ip mac ifi = _\<close>
      \<open>binding st1 = _\<close> \<open>holder st1 = _\<close>
    have e: "e = static_entry env ip mac ifi" using del(2) b1 by simp
    have "fst (dhcp_snp_del_static_bindtable ?l (ip_addr e) (chaddr e) (ifindex e)) = l"
      unfolding l e using assms(3,4) by (simp add: dhcp_snp_del_static_bindtable_def)
    moreover have "binding st2 = binding st" unfolding del(5) add(2) using assms(5) by (auto simp: fun_eq_iff)
    moreover have "holder st2 = holder st" unfolding del(6) add(3) using assms(3,6,7) by (auto simp: fun_eq_iff)
    ultimately show ?thesis using add del(3) b1 assms(3) by auto
  qed
qed

end
