(* ===== verification/SnpAsd.thy ===== *)
theory SnpAsd
  imports SnpBind
begin

text \<open>
  The clients the access daemon is waiting for (\<open>struct unresolved_table\<close> of \<open>dhcp_snp_tbl.c\<close>):
  a hash table of requests by hardware address, entered when the access daemon asks, answered
  and removed when the client is bound, and aged after five minutes. The operations work on
  their own store; the messages sent are recorded.
\<close>

record unresolved_table =
  ut_next :: addr
  ut_bssindex :: u32
  ut_vrrpid :: u32
  ut_local_flag :: u32
  ut_ipaddr :: u32
  ut_ifindex :: u32
  ut_expired :: u32
  ut_chaddr :: "u8 list"

record asd =
  uts :: "addr \<rightharpoonup> unresolved_table"
  ut_tab :: "nat \<Rightarrow> addr"
  ut_brk :: addr
  ut_sent :: "unresolved_table list"

definition set_ut_next :: "addr \<Rightarrow> unresolved_table \<Rightarrow> unresolved_table" where
  "set_ut_next a n = n\<lparr>ut_next := a\<rparr>"

definition TBL_EXPIRED_TIME :: u32 where
  "TBL_EXPIRED_TIME = 300"

subsection \<open>Operations\<close>

definition dhcp_snp_find_from_unresolved_table :: "asd \<Rightarrow> u8 list \<Rightarrow> addr option" where
  "dhcp_snp_find_from_unresolved_table a mac =
     walk (uts a) ut_next (\<lambda>n. memcmp 6 (ut_chaddr n) mac = 0) (ut_tab a (dhcp_snp_tbl_hash mac))"

definition dhcp_snp_add_unresolved_node :: "snp_env \<Rightarrow> asd \<Rightarrow> unresolved_table \<Rightarrow> (asd \<times> int) option" where
  "dhcp_snp_add_unresolved_node env a t =
     do {
       tmp \<leftarrow> dhcp_snp_find_from_unresolved_table a (ut_chaddr t);
       if tmp \<noteq> NULL then do {
         n \<leftarrow> uts a tmp;
         Some (a\<lparr>uts := (uts a)(tmp \<mapsto> n\<lparr>ut_bssindex := ut_bssindex t, ut_ipaddr := ut_ipaddr t,
                   ut_vrrpid := ut_vrrpid t, ut_local_flag := ut_local_flag t,
                   ut_chaddr := take 6 (ut_chaddr t), ut_expired := uptime env + TBL_EXPIRED_TIME\<rparr>)\<rparr>, 0)
       }
       else if \<not> malloc_ok env then Some (a, - 1)
       else let p = ut_brk a; key = dhcp_snp_tbl_hash (ut_chaddr t) in
         Some (a\<lparr>ut_brk := Suc p,
                  uts := (uts a)(p \<mapsto> t\<lparr>ut_expired := uptime env + TBL_EXPIRED_TIME, ut_next := ut_tab a key\<rparr>),
                  ut_tab := (ut_tab a)(key := p)\<rparr>, 0)
     }"

definition dhcp_snp_del_unresolved_node :: "asd \<Rightarrow> u8 list \<Rightarrow> (asd \<times> int) option" where
  "dhcp_snp_del_unresolved_node a mac =
     (let key = dhcp_snp_tbl_hash mac; same = (\<lambda>n. memcmp 6 (ut_chaddr n) mac = 0) in
      if ut_tab a key = NULL then Some (a, 0)
      else do {
        n \<leftarrow> uts a (ut_tab a key);
        if same n
        then Some (a\<lparr>uts := (uts a)(ut_tab a key := None), ut_tab := (ut_tab a)(key := ut_next n)\<rparr>, 0)
        else do {
          tmp \<leftarrow> before_by (uts a) ut_next same (ut_tab a key);
          if tmp = NULL then Some (a, - 1)
          else do {
            n \<leftarrow> uts a tmp;
            d \<leftarrow> uts a (ut_next n);
            Some (a\<lparr>uts := (uts a)(tmp \<mapsto> n\<lparr>ut_next := ut_next d\<rparr>, ut_next n := None)\<rparr>, 0)
          }
        }
      })"

text \<open>The parameter \<open>sends\<close> says whether the message about a request reaches the access daemon's
  socket.\<close>

definition dhcp_snp_notify_asd :: "(unresolved_table \<Rightarrow> bool) \<Rightarrow> asd \<Rightarrow> addr \<Rightarrow> (asd \<times> int) option" where
  "dhcp_snp_notify_asd sends a p =
     (if p = NULL then Some (a, - 1)
      else do {
        n \<leftarrow> uts a p;
        if \<not> sends n then Some (a, - 1)
        else do {
          (a, _) \<leftarrow> dhcp_snp_del_unresolved_node (a\<lparr>ut_sent := ut_sent a @ [n]\<rparr>) (ut_chaddr n);
          Some (a, 0)
        }
      })"

definition dhcp_snp_initiative_notify_asd ::
    "(unresolved_table \<Rightarrow> bool) \<Rightarrow> asd \<Rightarrow> u8 list \<Rightarrow> u32 \<Rightarrow> asd option" where
  "dhcp_snp_initiative_notify_asd sends a haddr ip =
     do {
       p \<leftarrow> dhcp_snp_find_from_unresolved_table a haddr;
       if p = NULL then Some a
       else do {
         n \<leftarrow> uts a p;
         (a, _) \<leftarrow> dhcp_snp_notify_asd sends (a\<lparr>uts := (uts a)(p \<mapsto> n\<lparr>ut_ipaddr := ip\<rparr>)\<rparr>) p;
         Some a
       }
     }"

text \<open>Ageing one bucket: the expired requests at the front, then those behind one that stays.\<close>

partial_function (option) age_front ::
    "u32 \<Rightarrow> (addr \<rightharpoonup> unresolved_table) \<Rightarrow> addr \<Rightarrow> ((addr \<rightharpoonup> unresolved_table) \<times> addr) option" where
  "age_front cur h p =
     do {
       n \<leftarrow> h p;
       if ut_expired n < cur
       then let h = h(p := None) in
            if ut_next n = NULL then Some (h, NULL) else age_front cur h (ut_next n)
       else Some (h, p)
     }"

partial_function (option) age_rest ::
    "u32 \<Rightarrow> (addr \<rightharpoonup> unresolved_table) \<Rightarrow> addr \<Rightarrow> addr \<Rightarrow> (addr \<rightharpoonup> unresolved_table) option" where
  "age_rest cur h tmp nx =
     (if tmp = NULL \<or> nx = NULL then Some h
      else do {
        n \<leftarrow> h nx;
        t \<leftarrow> h tmp;
        if ut_expired n < cur
        then let h = h(tmp \<mapsto> t\<lparr>ut_next := ut_next n\<rparr>, nx := None) in
             do { t \<leftarrow> h tmp; age_rest cur h tmp (ut_next t) }
        else do { t' \<leftarrow> h (ut_next t); age_rest cur h (ut_next t) (ut_next t') }
      })"

definition asd_age_bucket ::
    "u32 \<Rightarrow> (addr \<rightharpoonup> unresolved_table) \<Rightarrow> addr \<Rightarrow> ((addr \<rightharpoonup> unresolved_table) \<times> addr) option" where
  "asd_age_bucket cur h p =
     (if p = NULL then Some (h, p)
      else do {
        (h, p) \<leftarrow> age_front cur h p;
        if p = NULL then Some (h, p)
        else do { n \<leftarrow> h p; h \<leftarrow> age_rest cur h p (ut_next n); Some (h, p) }
      })"

fun asd_age_buckets :: "u32 \<Rightarrow> nat list \<Rightarrow> asd \<Rightarrow> asd option" where
  "asd_age_buckets cur [] a = Some a"
| "asd_age_buckets cur (key # keys) a =
     do {
       (h, p) \<leftarrow> asd_age_bucket cur (uts a) (ut_tab a key);
       asd_age_buckets cur keys (a\<lparr>uts := h, ut_tab := (ut_tab a)(key := p)\<rparr>)
     }"

definition dhcp_snp_asd_table_aging_mechanism :: "snp_env \<Rightarrow> asd \<Rightarrow> asd option" where
  "dhcp_snp_asd_table_aging_mechanism env a = asd_age_buckets (uptime env) [0..<HASH_TABLE_SIZE] a"

subsection \<open>The shape of the table\<close>

interpretation ut_list: linked ut_next set_ut_next "\<lambda>n. n\<lparr>ut_next := NULL\<rparr>"
  by unfold_locales (simp_all add: set_ut_next_def)

text \<open>A request without its link.\<close>

definition request :: "unresolved_table \<Rightarrow> unresolved_table" where
  "request n = n\<lparr>ut_next := NULL\<rparr>"

definition requests :: "asd \<Rightarrow> addr \<rightharpoonup> unresolved_table" where
  "requests a x = map_option request (uts a x)"

definition reqs_ok :: "(addr \<rightharpoonup> unresolved_table) \<Rightarrow> (nat \<Rightarrow> addr list) \<Rightarrow> bool" where
  "reqs_ok d us \<longleftrightarrow>
     (\<forall>k. \<forall>x\<in>set (us k). \<exists>n. d x = Some n \<and> dhcp_snp_tbl_hash (ut_chaddr n) = k \<and> length (ut_chaddr n) = 6)
     \<and> (\<forall>k. \<forall>x\<in>set (us k). \<forall>y\<in>set (us k). ut_chaddr (the (d x)) = ut_chaddr (the (d y)) \<longrightarrow> x = y)"

definition asd_tbl :: "asd \<Rightarrow> (nat \<Rightarrow> addr list) \<Rightarrow> bool" where
  "asd_tbl a us \<longleftrightarrow>
     (\<forall>k. chain (uts a) ut_next (ut_tab a k) (us k)) \<and> reqs_ok (requests a) us
     \<and> NULL < ut_brk a \<and> (\<forall>x. ut_brk a \<le> x \<longrightarrow> uts a x = None)"

definition asd_ok :: "asd \<Rightarrow> bool" where
  "asd_ok a \<longleftrightarrow> (\<exists>us. asd_tbl a us)"

text \<open>The request waiting for a hardware address.\<close>

definition waiting :: "asd \<Rightarrow> u8 list \<Rightarrow> unresolved_table option" where
  "waiting a mac =
     (if length mac \<noteq> 6 then None
      else case dhcp_snp_find_from_unresolved_table a mac of None \<Rightarrow> None
         | Some p \<Rightarrow> if p = NULL then None else requests a p)"

lemma request_simps [simp]:
  "ut_chaddr (request n) = ut_chaddr n" "ut_expired (request n) = ut_expired n"
  "request (request n) = request n" "request (set_ut_next b n) = request n" "ut_next (set_ut_next b n) = b"
  by (simp_all add: request_def set_ut_next_def)

lemma requests_node: "requests a x = Some n \<Longrightarrow> \<exists>u. uts a x = Some u \<and> n = request u"
  by (auto simp: requests_def)

lemma asd_tblD:
  assumes "asd_tbl a us"
  shows "chain (uts a) ut_next (ut_tab a k) (us k)" "reqs_ok (requests a) us" "NULL < ut_brk a"
    "ut_brk a \<le> x \<Longrightarrow> uts a x = None"
  using assms by (simp_all add: asd_tbl_def)

lemma reqs_ok_some: "reqs_ok d us \<Longrightarrow> x \<in> set (us k) \<Longrightarrow> \<exists>n. d x = Some n"
  unfolding reqs_ok_def by blast

lemma reqs_ok_entry:
  "reqs_ok d us \<Longrightarrow> x \<in> set (us k) \<Longrightarrow> d x = Some n
     \<Longrightarrow> dhcp_snp_tbl_hash (ut_chaddr n) = k \<and> length (ut_chaddr n) = 6"
  unfolding reqs_ok_def by fastforce

lemma reqs_ok_eq:
  assumes "reqs_ok d us" and "x \<in> set (us k)" and "y \<in> set (us j)"
    and "d x = Some n" and "d y = Some m" and "ut_chaddr n = ut_chaddr m"
  shows "x = y"
proof -
  have "k = j" using reqs_ok_entry assms by metis
  then show ?thesis using assms unfolding reqs_ok_def by fastforce
qed

lemma reqs_disjoint: "asd_tbl a us \<Longrightarrow> x \<in> set (us k) \<Longrightarrow> x \<in> set (us j) \<Longrightarrow> j = k"
  using reqs_ok_entry reqs_ok_some asd_tblD(2) by metis

lemma same_mac:
  assumes "asd_tbl a us" and "x \<in> set (us k)" and "requests a x = Some n" and "length mac = 6"
  shows "memcmp 6 (ut_chaddr (the (uts a x))) mac = 0 \<longleftrightarrow> ut_chaddr n = mac"
  using reqs_ok_entry [OF asd_tblD(2) [OF assms(1)] assms(2,3)] requests_node [OF assms(3)] assms(4)
  by (auto simp: memcmp_zero_iff)

lemma unresolved_cases:
  assumes t: "asd_tbl a us" and len: "length mac = 6"
  obtains "dhcp_snp_find_from_unresolved_table a mac = Some NULL" and "waiting a mac = None"
      and "\<And>k x n. x \<in> set (us k) \<Longrightarrow> requests a x = Some n \<Longrightarrow> ut_chaddr n \<noteq> mac"
  | x n where "dhcp_snp_find_from_unresolved_table a mac = Some x" and "x \<noteq> NULL"
      and "x \<in> set (us (dhcp_snp_tbl_hash mac))" and "requests a x = Some n" and "ut_chaddr n = mac"
      and "waiting a mac = Some n"
proof -
  note c = asd_tblD(1) [OF t, of "dhcp_snp_tbl_hash mac"] and q = asd_tblD(2) [OF t]
  show ?thesis
  proof (cases rule: walk_cases [OF c, of "\<lambda>n. memcmp 6 (ut_chaddr n) mac = 0"])
    case 1
    show ?thesis
    proof (rule that(1))
      show f: "dhcp_snp_find_from_unresolved_table a mac = Some NULL"
        using 1(1) by (simp add: dhcp_snp_find_from_unresolved_table_def)
      then show "waiting a mac = None" by (simp add: waiting_def)
      show "ut_chaddr n \<noteq> mac" if "x \<in> set (us k)" "requests a x = Some n" for k x n
        using reqs_ok_entry [OF q that] same_mac [OF t that len] 1(2) [of x] that(1) by auto
    qed
  next
    case (2 x)
    obtain n where n: "requests a x = Some n" using reqs_ok_some [OF q 2(2)] by blast
    have "x \<noteq> NULL" using chain_member [OF c 2(2)] by simp
    moreover have "ut_chaddr n = mac" using same_mac [OF t 2(2) n len] 2(3) by simp
    ultimately show ?thesis
      using that(2) [of x n] 2 n len by (simp add: dhcp_snp_find_from_unresolved_table_def waiting_def)
  qed
qed

lemma waiting_iff:
  assumes t: "asd_tbl a us"
  shows "waiting a mac = Some n \<longleftrightarrow> (\<exists>k. \<exists>x\<in>set (us k). requests a x = Some n \<and> ut_chaddr n = mac)"
proof (cases "length mac = 6")
  case False
  then show ?thesis using reqs_ok_entry [OF asd_tblD(2) [OF t]] by (auto simp: waiting_def)
next
  case len: True
  show ?thesis
  proof (cases rule: unresolved_cases [OF t len])
    case 1
    then show ?thesis by auto
  next
    case (2 x m)
    have "requests a y = Some n \<and> ut_chaddr n = mac \<longrightarrow> y = x" if "y \<in> set (us k)" for y k
      using reqs_ok_eq [OF asd_tblD(2) [OF t] that 2(3) _ 2(4)] 2(5) by auto
    then show ?thesis using 2 by (metis option.inject)
  qed
qed

subsection \<open>Ageing\<close>

definition live :: "u32 \<Rightarrow> (addr \<rightharpoonup> unresolved_table) \<Rightarrow> addr \<Rightarrow> bool" where
  "live cur h x \<longleftrightarrow> \<not> ut_expired (the (h x)) < cur"

lemma age_front_chain:
  "chain h ut_next p (x # xs) \<Longrightarrow>
     \<exists>h' p'. age_front cur h p = Some (h', p')
       \<and> chain h' ut_next p' (dropWhile (\<lambda>y. \<not> live cur h y) (x # xs))
       \<and> (\<forall>y. h' y = (if y \<in> set (takeWhile (\<lambda>y. \<not> live cur h y) (x # xs)) then None else h y))"
proof (induction xs arbitrary: h p x)
  case Nil
  then show ?case by (subst age_front.simps) (auto simp: live_def Let_def split: option.splits)
next
  case (Cons z zs)
  then obtain n where n: "p = x" "x \<noteq> NULL" "h x = Some n" "chain h ut_next (ut_next n) (z # zs)"
    by (auto simp: chain_Cons_iff simp del: chain.simps(2))
  have d: "distinct (x # z # zs)" using chain_distinct [OF Cons.prems] by simp
  show ?case
  proof (cases "live cur h x")
    case True
    then show ?thesis using n Cons.prems by (subst age_front.simps) (auto simp: live_def)
  next
    case False
    let ?h = "h(x := None)"
    have "chain ?h ut_next (ut_next n) (z # zs)"
      by (rule iffD2 [OF chain_outside n(4)]) (use d in auto)
    then obtain h' p' where h': "age_front cur ?h (ut_next n) = Some (h', p')"
      "chain h' ut_next p' (dropWhile (\<lambda>y. \<not> live cur ?h y) (z # zs))"
      "\<And>y. h' y = (if y \<in> set (takeWhile (\<lambda>y. \<not> live cur ?h y) (z # zs)) then None else ?h y)"
      using Cons.IH [of ?h "ut_next n" z] by blast
    have l: "live cur ?h y = live cur h y" if "y \<in> set (z # zs)" for y
      using d that by (auto simp: live_def)
    have dw: "dropWhile (\<lambda>y. \<not> live cur ?h y) (z # zs) = dropWhile (\<lambda>y. \<not> live cur h y) (z # zs)"
      and tw: "takeWhile (\<lambda>y. \<not> live cur ?h y) (z # zs) = takeWhile (\<lambda>y. \<not> live cur h y) (z # zs)"
      by (rule dropWhile_cong takeWhile_cong; use l in blast)+
    have "ut_next n \<noteq> NULL" using n(4) by auto
    then have "age_front cur h p = Some (h', p')"
      using n False h'(1) by (subst age_front.simps) (simp add: live_def Let_def)
    then show ?thesis using h'(2,3) False unfolding dw tw by auto
  qed
qed

lemma age_rest_chain:
  "chain h ut_next tmp (tmp # xs) \<Longrightarrow>
     \<exists>h'. age_rest cur h tmp (case xs of [] \<Rightarrow> NULL | y # _ \<Rightarrow> y) = Some h'
       \<and> chain h' ut_next tmp (tmp # filter (live cur h) xs)
       \<and> (\<forall>y. map_option request (h' y) = (if y \<in> set xs \<and> \<not> live cur h y then None else map_option request (h y)))
       \<and> (\<forall>y. y \<notin> set (tmp # xs) \<longrightarrow> h' y = h y)"
proof (induction xs arbitrary: h tmp)
  case Nil
  then show ?case by (subst age_rest.simps) simp
next
  case (Cons x xs)
  then obtain t n where n: "tmp \<noteq> NULL" "h tmp = Some t" "ut_next t = x" "x \<noteq> NULL" "h x = Some n"
      "chain h ut_next (ut_next n) xs"
    by (auto simp: chain_Cons_iff simp del: chain.simps(2))
  have d: "distinct (tmp # x # xs)" using chain_distinct [OF Cons.prems] by simp
  have nx: "ut_next n = (case xs of [] \<Rightarrow> NULL | y # _ \<Rightarrow> y)" using n(6) by (cases xs) auto
  show ?case
  proof (cases "live cur h x")
    case False
    let ?h = "h(tmp \<mapsto> t\<lparr>ut_next := ut_next n\<rparr>, x := None)"
    have "chain ?h ut_next (ut_next n) xs"
      by (rule iffD2 [OF chain_cong n(6)]) (use d in auto)
    then have "chain ?h ut_next tmp (tmp # xs)" using n d by (simp add: fun_upd_def)
    then obtain h' where h': "age_rest cur ?h tmp (ut_next n) = Some h'"
      "chain h' ut_next tmp (tmp # filter (live cur ?h) xs)"
      "\<And>y. map_option request (h' y) = (if y \<in> set xs \<and> \<not> live cur ?h y then None else map_option request (?h y))"
      "\<And>y. y \<notin> set (tmp # xs) \<Longrightarrow> h' y = ?h y"
      using Cons.IH [of ?h tmp] unfolding nx by blast
    have l: "live cur ?h y = live cur h y" if "y \<in> set xs" for y using d that by (auto simp: live_def)
    then have f: "filter (live cur ?h) xs = filter (live cur h) xs" by (rule filter_cong [OF refl])
    have "age_rest cur h tmp x = Some h'"
      using n d False h'(1) by (subst age_rest.simps) (simp add: live_def Let_def)
    moreover have "map_option request (h' y) =
        (if y \<in> set (x # xs) \<and> \<not> live cur h y then None else map_option request (h y))" for y
      using h'(3) [of y] l [of y] d False n(2) by (auto simp: request_def)
    ultimately show ?thesis using h'(2,4) f False d by auto
  next
    case True
    have c: "chain h ut_next x (x # xs)" using n by simp
    obtain h' where h': "age_rest cur h x (ut_next n) = Some h'"
      "chain h' ut_next x (x # filter (live cur h) xs)"
      "\<And>y. map_option request (h' y) = (if y \<in> set xs \<and> \<not> live cur h y then None else map_option request (h y))"
      "\<And>y. y \<notin> set (x # xs) \<Longrightarrow> h' y = h y"
      using Cons.IH [OF c] unfolding nx by blast
    have "age_rest cur h tmp x = Some h'"
      using n True h'(1) by (subst age_rest.simps) (simp add: live_def)
    moreover have "chain h' ut_next tmp (tmp # x # filter (live cur h) xs)"
      using h'(2) h'(4) [of tmp] d n by auto
    ultimately show ?thesis using h'(3,4) True d by auto
  qed
qed

lemma live_cong: "map_option request (h' x) = map_option request (h x) \<Longrightarrow> h x \<noteq> None \<Longrightarrow> live cur h' x = live cur h x"
  by (cases "h x"; cases "h' x") (auto simp: live_def dest: arg_cong [where f = ut_expired])

lemma asd_age_bucket_chain:
  assumes c: "chain h ut_next p xs"
  shows "\<exists>h' p'. asd_age_bucket cur h p = Some (h', p') \<and> chain h' ut_next p' (filter (live cur h) xs)
    \<and> (\<forall>y. map_option request (h' y) = (if y \<in> set xs \<and> \<not> live cur h y then None else map_option request (h y)))
    \<and> (\<forall>y. y \<notin> set xs \<longrightarrow> h' y = h y)"
proof (cases xs)
  case Nil
  then show ?thesis using c by (simp add: asd_age_bucket_def)
next
  case (Cons x zs)
  let ?dead = "\<lambda>y. \<not> live cur h y"
  have "p \<noteq> NULL" using c Cons by auto
  obtain h1 p1 where h1: "age_front cur h p = Some (h1, p1)" "chain h1 ut_next p1 (dropWhile ?dead xs)"
    "\<And>y. h1 y = (if y \<in> set (takeWhile ?dead xs) then None else h y)"
    using age_front_chain [of h p x zs cur] c Cons by blast
  have xs: "xs = takeWhile ?dead xs @ dropWhile ?dead xs" by simp
  have d: "distinct xs" using chain_distinct [OF c] .
  have gone: "\<not> live cur h y" if "y \<in> set (takeWhile ?dead xs)" for y using that set_takeWhileD by metis
  then have f: "filter (live cur h) xs = filter (live cur h) (dropWhile ?dead xs)"
    by (subst xs) (simp only: filter_append filter_False, simp)
  show ?thesis
  proof (cases "dropWhile ?dead xs")
    case Nil
    then have tw: "takeWhile ?dead xs = xs" using xs by simp
    have "p1 = NULL" using h1(2) Nil by simp
    then show ?thesis
      using h1 f Nil \<open>p \<noteq> NULL\<close> gone unfolding tw by (auto simp: asd_age_bucket_def)
  next
    case dw: (Cons z ws)
    have apart: "y \<notin> set (takeWhile ?dead xs)" if "y \<in> set (z # ws)" for y
      using d xs that unfolding dw by (metis distinct_append disjoint_iff)
    have "live cur h z" using dw hd_dropWhile [of ?dead xs] by simp
    obtain n where n: "h1 z = Some n" "p1 = z" "z \<noteq> NULL" "ut_next n = (case ws of [] \<Rightarrow> NULL | y # _ \<Rightarrow> y)"
      using h1(2) unfolding dw by (cases ws) (auto split: option.splits)
    have c1: "chain h1 ut_next z (z # ws)" using h1(2) n(2) unfolding dw by simp
    obtain h2 where h2: "age_rest cur h1 z (ut_next n) = Some h2" "chain h2 ut_next z (z # filter (live cur h1) ws)"
      "\<And>y. map_option request (h2 y) = (if y \<in> set ws \<and> \<not> live cur h1 y then None else map_option request (h1 y))"
      "\<And>y. y \<notin> set (z # ws) \<Longrightarrow> h2 y = h1 y"
      using age_rest_chain [OF c1] unfolding n(4) by blast
    have l: "live cur h1 y = live cur h y" if "y \<in> set ws" for y
      using apart that h1(3) [of y] by (simp add: live_def)
    then have "filter (live cur h1) ws = filter (live cur h) ws" by (rule filter_cong [OF refl])
    then have "chain h2 ut_next z (filter (live cur h) xs)" using h2(2) f dw \<open>live cur h z\<close> by simp
    moreover have "asd_age_bucket cur h p = Some (h2, z)"
      using \<open>p \<noteq> NULL\<close> h1(1) n h2(1) by (simp add: asd_age_bucket_def)
    moreover have mem: "y \<in> set xs \<longleftrightarrow> y \<in> set (takeWhile ?dead xs) \<or> y = z \<or> y \<in> set ws" for y
      using xs dw by (metis Un_iff insert_iff list.simps(15) set_append)
    moreover have "map_option request (h2 y) = (if y \<in> set xs \<and> \<not> live cur h y then None else map_option request (h y))" for y
      using h2(3) [of y] h1(3) [of y] l [of y] mem [of y] gone [of y] apart [of y] \<open>live cur h z\<close> by auto
    moreover have "h2 y = h y" if "y \<notin> set xs" for y
      using that mem [of y] h2(4) [of y] h1(3) [of y] by simp
    ultimately show ?thesis by blast
  qed
qed

lemma asd_age_key:
  assumes t: "asd_tbl a us"
  shows "\<exists>h p. asd_age_bucket cur (uts a) (ut_tab a k) = Some (h, p)
    \<and> asd_tbl (a\<lparr>uts := h, ut_tab := (ut_tab a)(k := p)\<rparr>) (us(k := filter (live cur (uts a)) (us k)))
    \<and> (\<forall>y. map_option request (h y) = (if y \<in> set (us k) \<and> \<not> live cur (uts a) y then None else requests a y))"
proof -
  obtain h p where h: "asd_age_bucket cur (uts a) (ut_tab a k) = Some (h, p)"
    "chain h ut_next p (filter (live cur (uts a)) (us k))"
    "\<And>y. map_option request (h y) = (if y \<in> set (us k) \<and> \<not> live cur (uts a) y then None else map_option request (uts a y))"
    "\<And>y. y \<notin> set (us k) \<Longrightarrow> h y = uts a y"
    using asd_age_bucket_chain [OF asd_tblD(1) [OF t]] by blast
  let ?a = "a\<lparr>uts := h, ut_tab := (ut_tab a)(k := p)\<rparr>" and ?us = "us(k := filter (live cur (uts a)) (us k))"
  have r: "requests ?a y = (if y \<in> set (us k) \<and> \<not> live cur (uts a) y then None else requests a y)" for y
    using h(3) by (simp add: requests_def)
  have sub: "y \<in> set (us j) \<and> requests ?a y = requests a y" if "y \<in> set (?us j)" for y j
  proof (cases "j = k")
    case False
    then have "y \<notin> set (us k)" using that reqs_disjoint [OF t, of y j k] by auto
    then show ?thesis using that False r by simp
  qed (use that r in auto)
  have "chain h ut_next (((ut_tab a)(k := p)) j) (?us j)" for j
  proof (cases "j = k")
    case False
    have "h y = uts a y" if "y \<in> set (us j)" for y using that False h(4) reqs_disjoint [OF t] by blast
    then have "chain h ut_next q (us j) \<longleftrightarrow> chain (uts a) ut_next q (us j)" for q by (intro chain_cong) simp
    then show ?thesis using False asd_tblD(1) [OF t, of j] by simp
  qed (use h(2) in simp)
  moreover have "reqs_ok (requests ?a) ?us"
    using asd_tblD(2) [OF t] sub unfolding reqs_ok_def by metis
  moreover have "h y = None" if "ut_brk a \<le> y" for y
    using that h(3) [of y] asd_tblD(4) [OF t that] by (auto split: if_splits)
  ultimately have "asd_tbl ?a ?us" using asd_tblD(3) [OF t] unfolding asd_tbl_def by simp
  then show ?thesis using h(1,3) by (auto simp: requests_def)
qed

lemma asd_age_buckets_tbl:
  "asd_tbl a us \<Longrightarrow> distinct keys \<Longrightarrow>
     \<exists>a'. asd_age_buckets cur keys a = Some a' \<and> asd_ok a'
       \<and> (\<forall>m. waiting a' m = (case waiting a m of None \<Rightarrow> None
            | Some n \<Rightarrow> if dhcp_snp_tbl_hash m \<in> set keys \<and> ut_expired n < cur then None else Some n))"
proof (induction keys arbitrary: a us)
  case Nil
  then show ?case by (auto simp: asd_ok_def split: option.splits)
next
  case (Cons k keys)
  note t = Cons.prems(1)
  let ?us = "us(k := filter (live cur (uts a)) (us k))"
  obtain h p where h: "asd_age_bucket cur (uts a) (ut_tab a k) = Some (h, p)"
    "asd_tbl (a\<lparr>uts := h, ut_tab := (ut_tab a)(k := p)\<rparr>) ?us"
    "\<And>y. map_option request (h y) = (if y \<in> set (us k) \<and> \<not> live cur (uts a) y then None else requests a y)"
    using asd_age_key [OF t] by blast
  let ?a = "a\<lparr>uts := h, ut_tab := (ut_tab a)(k := p)\<rparr>"
  obtain a' where a': "asd_age_buckets cur keys ?a = Some a'" "asd_ok a'"
    "\<And>m. waiting a' m = (case waiting ?a m of None \<Rightarrow> None
            | Some n \<Rightarrow> if dhcp_snp_tbl_hash m \<in> set keys \<and> ut_expired n < cur then None else Some n)"
    using Cons.IH [OF h(2)] Cons.prems(2) by auto
  have one: "waiting ?a m = Some n \<longleftrightarrow> waiting a m = Some n \<and> \<not> (dhcp_snp_tbl_hash m = k \<and> ut_expired n < cur)" for m n
  proof -
    have l: "live cur (uts a) y \<longleftrightarrow> \<not> ut_expired n < cur" if "requests a y = Some n" for y
      using requests_node [OF that] by (auto simp: live_def)
    have key: "j = dhcp_snp_tbl_hash m" if "y \<in> set (us j)" "requests a y = Some n" "ut_chaddr n = m" for y j
      using reqs_ok_entry [OF asd_tblD(2) [OF t] that(1,2)] that(3) by simp
    have "(y \<in> set (?us j) \<and> requests ?a y = Some n \<and> ut_chaddr n = m) \<longleftrightarrow>
        y \<in> set (us j) \<and> requests a y = Some n \<and> ut_chaddr n = m \<and> \<not> (dhcp_snp_tbl_hash m = k \<and> ut_expired n < cur)" for j y
    proof (cases "y \<in> set (us k) \<and> \<not> live cur (uts a) y")
      case True
      then have "requests ?a y = None" using h(3) [of y] by (simp add: requests_def)
      then show ?thesis using key [of y k] l [of y] True by auto
    next
      case False
      have "requests ?a y = map_option request (h y)" by (simp add: requests_def)
      then have r: "requests ?a y = requests a y" unfolding h(3) using False by (simp only: if_not_P if_False)
      have m: "y \<in> set (?us j) \<longleftrightarrow> y \<in> set (us j)" using False by auto
      show ?thesis unfolding r m using key [of y j] l [of y] False by blast
    qed
    then show ?thesis unfolding waiting_iff [OF t] waiting_iff [OF h(2)] by blast
  qed
  have "waiting a' m = (case waiting a m of None \<Rightarrow> None
      | Some n \<Rightarrow> if dhcp_snp_tbl_hash m \<in> set (k # keys) \<and> ut_expired n < cur then None else Some n)" for m
  proof (cases "waiting ?a m")
    case None
    then have "waiting a m = Some n \<longrightarrow> dhcp_snp_tbl_hash m = k \<and> ut_expired n < cur" for n using one [of m n] by simp
    then show ?thesis using a'(3) [of m] None by (cases "waiting a m") auto
  next
    case (Some n)
    then show ?thesis using a'(3) [of m] one [of m n] by auto
  qed
  then show ?case using h(1) a'(1,2) by simp
qed

lemma asd_age_all:
  assumes "asd_ok a"
  shows "\<exists>a'. dhcp_snp_asd_table_aging_mechanism env a = Some a' \<and> asd_ok a'
    \<and> (\<forall>m. waiting a' m = (case waiting a m of None \<Rightarrow> None
        | Some n \<Rightarrow> if ut_expired n < uptime env then None else Some n))"
proof -
  obtain us where t: "asd_tbl a us" using assms asd_ok_def by blast
  have key: "dhcp_snp_tbl_hash m \<in> set [0..<HASH_TABLE_SIZE]" for m using hash_bounds(1) by simp
  show ?thesis
    using asd_age_buckets_tbl [OF t distinct_upt, of "uptime env" 0 HASH_TABLE_SIZE]
    unfolding dhcp_snp_asd_table_aging_mechanism_def by (simp only: key simp_thms)
qed

text \<open>C34: A pass over the waiting requests returns and removes exactly those whose
  expiry lies before the current uptime, wherever they stand in their bucket; the others stay
  as they were.\<close>

theorem asd_aging_exact:
  assumes "asd_ok a"
  shows "\<exists>a'. dhcp_snp_asd_table_aging_mechanism env a = Some a' \<and> asd_ok a'
    \<and> (\<forall>m. waiting a' m = (case waiting a m of None \<Rightarrow> None
        | Some n \<Rightarrow> if ut_expired n < uptime env then None else Some n))"
  using assms by (rule asd_age_all)

subsection \<open>Entering, removing and answering\<close>

lemma ut_tab_triv: "ut_tab a k = p \<Longrightarrow> a\<lparr>uts := h, ut_tab := (ut_tab a)(k := p)\<rparr> = a\<lparr>uts := h\<rparr>"
  by (cases a) auto

lemma del_unlink:
  assumes t: "asd_tbl a us" and x: "x \<in> set (us (dhcp_snp_tbl_hash mac))" and n: "requests a x = Some n"
    and m: "ut_chaddr n = mac" and len: "length mac = 6"
    and u: "unlink (uts a) ut_next set_ut_next (ut_tab a (dhcp_snp_tbl_hash mac)) x = Some (h, p, b)"
  shows "dhcp_snp_del_unresolved_node a mac
    = Some (a\<lparr>uts := h(x := None), ut_tab := (ut_tab a)(dhcp_snp_tbl_hash mac := p)\<rparr>, 0)"
proof -
  let ?k = "dhcp_snp_tbl_hash mac" and ?same = "\<lambda>n. memcmp 6 (ut_chaddr n) mac = 0"
  note c = asd_tblD(1) [OF t, of ?k]
  obtain i where i: "uts a x = Some i" using n requests_node by blast
  have s: "?same (the (uts a x))" using same_mac [OF t x n len] m by simp
  have only: "y = x" if y: "y \<in> set (us ?k)" "?same (the (uts a y))" for y
  proof -
    obtain w where w: "requests a y = Some w" using reqs_ok_some [OF asd_tblD(2) [OF t] y(1)] by blast
    then have "ut_chaddr w = mac" using same_mac [OF t y(1) w len] y(2) by simp
    then show ?thesis using reqs_ok_eq [OF asd_tblD(2) [OF t] y(1) x w n] m by simp
  qed
  show ?thesis
  proof (cases "ut_tab a ?k = x")
    case True
    have "x \<noteq> NULL" using chain_member [OF c x] by simp
    then show ?thesis using True i s u by (simp add: dhcp_snp_del_unresolved_node_def unlink_def Let_def)
  next
    case False
    obtain y v where y: "before_by (uts a) ut_next ?same (ut_tab a ?k) = Some y"
      "before (uts a) ut_next x (ut_tab a ?k) = Some y" "y \<noteq> NULL" "uts a y = Some v" "ut_next v = x"
      using before_by_before [OF c x False, of ?same] s only by blast
    obtain g where g: "uts a (ut_tab a ?k) = Some g" "ut_tab a ?k \<in> set (us ?k)" "ut_tab a ?k \<noteq> NULL"
      using c x by (cases "us ?k") (auto split: option.splits)
    have "\<not> ?same g" using only [OF g(2)] g(1) False by auto
    moreover have "ut_tab a ?k = p" using u False i y by (simp add: unlink_def)
    ultimately show ?thesis using u False i g(1,3) y
      by (simp add: ut_tab_triv dhcp_snp_del_unresolved_node_def unlink_def Let_def set_ut_next_def)
  qed
qed

lemma asd_tbl_remove:
  assumes t: "asd_tbl a us" and x: "x \<in> set (us k)"
    and c: "chain h ut_next p (remove1 x (us k))" and r: "\<And>y. map_option request (h y) = requests a y"
    and o: "\<And>y. y \<notin> set (us k) \<Longrightarrow> h y = uts a y"
  defines "a' \<equiv> a\<lparr>uts := h(x := None), ut_tab := (ut_tab a)(k := p)\<rparr>"
  shows "asd_tbl a' (us(k := remove1 x (us k)))" and "requests a' = (requests a)(x := None)"
proof -
  let ?us = "us(k := remove1 x (us k))"
  show q: "requests a' = (requests a)(x := None)" using r by (auto simp: requests_def a'_def)
  have d: "distinct (us k)" using chain_distinct [OF asd_tblD(1) [OF t]] .
  have sub: "y \<in> set (us j) \<and> y \<noteq> x" if "y \<in> set (?us j)" for y j
  proof (cases "j = k")
    case False
    then show ?thesis using that x reqs_disjoint [OF t, of x k j] by auto
  qed (use that d in simp)
  have "chain (h(x := None)) ut_next (((ut_tab a)(k := p)) j) (?us j)" for j
  proof (cases "j = k")
    case True
    then show ?thesis using c d by (simp add: chain_outside)
  next
    case False
    have "(h(x := None)) y = uts a y" if "y \<in> set (us j)" for y
      using that False o reqs_disjoint [OF t] x by (metis fun_upd_apply)
    then have "chain (h(x := None)) ut_next q (us j) \<longleftrightarrow> chain (uts a) ut_next q (us j)" for q
      by (intro chain_cong) simp
    then show ?thesis using False asd_tblD(1) [OF t, of j] by simp
  qed
  moreover have "reqs_ok (requests a') ?us"
  proof -
    have "requests a' y = requests a y" if "y \<in> set (?us j)" for y j using sub [OF that] q by simp
    then show ?thesis using asd_tblD(2) [OF t] sub unfolding reqs_ok_def by metis
  qed
  moreover have "(h(x := None)) y = None" if "ut_brk a \<le> y" for y
    using r [of y] asd_tblD(4) [OF t that] by (simp add: requests_def)
  ultimately show "asd_tbl a' ?us" using asd_tblD(3) [OF t] unfolding asd_tbl_def a'_def by simp
qed

lemma asd_del_tbl:
  assumes t: "asd_tbl a us" and len: "length mac = 6"
  shows "\<exists>a' r us'. dhcp_snp_del_unresolved_node a mac = Some (a', r) \<and> asd_tbl a' us'
    \<and> waiting a' = (waiting a)(mac := None) \<and> ut_sent a' = ut_sent a"
proof (cases rule: unresolved_cases [OF t len])
  case 1
  let ?same = "\<lambda>n. memcmp 6 (ut_chaddr n) mac = 0"
  note c = asd_tblD(1) [OF t, of "dhcp_snp_tbl_hash mac"]
  have no: "\<not> ?same (the (uts a y))" if "y \<in> set (us (dhcp_snp_tbl_hash mac))" for y
    using 1(3) [OF that] same_mac [OF t that _ len] reqs_ok_some [OF asd_tblD(2) [OF t] that] by blast
  have "before_by (uts a) ut_next ?same (ut_tab a (dhcp_snp_tbl_hash mac)) = Some NULL"
    using before_by_missing [OF c, of ?same] no by blast
  moreover have "\<exists>n. uts a (ut_tab a (dhcp_snp_tbl_hash mac)) = Some n \<and> \<not> ?same n"
    if "ut_tab a (dhcp_snp_tbl_hash mac) \<noteq> NULL"
    using c that no [of "ut_tab a (dhcp_snp_tbl_hash mac)"]
    by (cases "us (dhcp_snp_tbl_hash mac)") (auto split: option.splits)
  ultimately have "\<exists>r. dhcp_snp_del_unresolved_node a mac = Some (a, r)"
    by (auto simp: dhcp_snp_del_unresolved_node_def Let_def)
  then show ?thesis using t 1(2) by (metis fun_upd_triv)
next
  case (2 x n)
  let ?k = "dhcp_snp_tbl_hash mac"
  obtain h p where u: "unlink (uts a) ut_next set_ut_next (ut_tab a ?k) x = Some (h, p, True)"
    "chain h ut_next p (remove1 x (us ?k))" "\<And>y. map_option (\<lambda>n. n\<lparr>ut_next := NULL\<rparr>) (h y) = map_option (\<lambda>n. n\<lparr>ut_next := NULL\<rparr>) (uts a y)"
    "\<And>y. y \<notin> set (us ?k) \<Longrightarrow> h y = uts a y"
    using ut_list.unlink_chain [OF asd_tblD(1) [OF t] 2(3)] by blast
  have r: "map_option request (h y) = requests a y" for y
    using u(3) [of y] by (simp add: requests_def request_def [abs_def])
  let ?a = "a\<lparr>uts := h(x := None), ut_tab := (ut_tab a)(?k := p)\<rparr>" and ?us = "us(?k := remove1 x (us ?k))"
  have rm: "asd_tbl ?a ?us" "requests ?a = (requests a)(x := None)"
    using asd_tbl_remove [where x = x and k = ?k, OF t 2(3) u(2) r u(4)] by blast+
  have "waiting ?a m = ((waiting a)(mac := None)) m" for m
  proof -
    have "waiting ?a m = Some w \<longleftrightarrow> waiting a m = Some w \<and> m \<noteq> mac" for w
    proof -
      have "(y \<in> set (?us j) \<and> requests ?a y = Some w \<and> ut_chaddr w = m) \<longleftrightarrow>
          y \<in> set (us j) \<and> requests a y = Some w \<and> ut_chaddr w = m \<and> m \<noteq> mac" for y j
      proof (cases "y = x")
        case True
        then show ?thesis using rm(2) 2(4,5) by auto
      next
        case False
        have "m \<noteq> mac" if "y \<in> set (us j)" "requests a y = Some w" "ut_chaddr w = m"
          using reqs_ok_eq [OF asd_tblD(2) [OF t] that(1) 2(3) that(2) 2(4)] 2(5) that(3) False by auto
        then show ?thesis using rm(2) False by auto
      qed
      then show ?thesis unfolding waiting_iff [OF t] waiting_iff [OF rm(1)] by blast
    qed
    then show ?thesis by (cases "waiting a m"; cases "waiting ?a m") (auto simp: fun_upd_def)
  qed
  then have "waiting ?a = (waiting a)(mac := None)" by blast
  then show ?thesis using del_unlink [OF t 2(3,4,5) len u(1)] rm(1) by auto
qed

text \<open>A table whose requests change at one address, the new request being for a client that has no
  other: the map of waiting requests changes for that client only.\<close>

lemma waiting_upd:
  assumes t: "asd_tbl a us" and t': "asd_tbl a' us'"
    and r: "requests a' = (requests a)(x \<mapsto> n)" and x: "x \<in> set (us' k)"
    and us: "\<And>j. set (us' j) - {x} = set (us j) - {x}"
    and own: "\<And>j v. x \<in> set (us j) \<Longrightarrow> requests a x = Some v \<Longrightarrow> ut_chaddr v = ut_chaddr n"
  shows "waiting a' = (waiting a)(ut_chaddr n \<mapsto> n)"
proof
  fix m
  have here: "waiting a' (ut_chaddr n) = Some n" using waiting_iff [OF t'] x r by auto
  have "waiting a' m = Some w \<longleftrightarrow> waiting a m = Some w" if m: "m \<noteq> ut_chaddr n" for w
  proof -
    have "(y \<in> set (us' j) \<and> requests a' y = Some w \<and> ut_chaddr w = m)
        \<longleftrightarrow> (y \<in> set (us j) \<and> requests a y = Some w \<and> ut_chaddr w = m)" for y j
    proof (cases "y = x")
      case True
      then show ?thesis using own [of j w] r m by auto
    next
      case False
      then have "y \<in> set (us' j) \<longleftrightarrow> y \<in> set (us j)" using us [of j] by blast
      then show ?thesis using False r by simp
    qed
    then show ?thesis unfolding waiting_iff [OF t] waiting_iff [OF t'] by blast
  qed
  then have "m \<noteq> ut_chaddr n \<Longrightarrow> waiting a' m = waiting a m" by (cases "waiting a m"; cases "waiting a' m") auto
  then show "waiting a' m = ((waiting a)(ut_chaddr n \<mapsto> n)) m" using here by simp
qed

lemma asd_tbl_write:
  assumes t: "asd_tbl a us" and x: "x \<in> set (us k)" and u: "uts a x = Some u" and s: "ut_next u' = ut_next u"
    "ut_chaddr u' = ut_chaddr u"
  defines "a' \<equiv> a\<lparr>uts := (uts a)(x \<mapsto> u')\<rparr>"
  shows "asd_tbl a' us" and "waiting a' = (waiting a)(ut_chaddr u \<mapsto> request u')"
proof -
  have r: "requests a' = (requests a)(x \<mapsto> request u')" by (auto simp: requests_def a'_def)
  have ux: "requests a x = Some (request u)" using u by (simp add: requests_def)
  have c: "chain (uts a') ut_next p xs \<longleftrightarrow> chain (uts a) ut_next p xs" for p xs
    using u s(1) by (intro chain_cong) (simp add: a'_def)
  have same: "map_option ut_chaddr (requests a' y) = map_option ut_chaddr (requests a y)" for y
    using ux s(2) r by simp
  have some: "requests a y = Some v \<Longrightarrow> \<exists>w. requests a' y = Some w \<and> ut_chaddr w = ut_chaddr v" for y v
    using same [of y] by (cases "requests a' y") auto
  have q: "reqs_ok (requests a) us" using asd_tblD(2) [OF t] .
  have "reqs_ok (requests a') us"
    unfolding reqs_ok_def
  proof (intro conjI allI ballI impI)
    fix k y assume y: "y \<in> set (us k)"
    obtain v where "requests a y = Some v" using reqs_ok_some [OF q y] by blast
    then show "\<exists>n. requests a' y = Some n \<and> dhcp_snp_tbl_hash (ut_chaddr n) = k \<and> length (ut_chaddr n) = 6"
      using some reqs_ok_entry [OF q y] by metis
  next
    fix k y z assume y: "y \<in> set (us k)" and z: "z \<in> set (us k)"
      and eq: "ut_chaddr (the (requests a' y)) = ut_chaddr (the (requests a' z))"
    obtain v w where "requests a y = Some v" "requests a z = Some w" using reqs_ok_some [OF q] y z by metis
    then show "y = z" using some eq reqs_ok_eq [OF q y z] by (metis option.sel)
  qed
  moreover have "uts a' y = None" if "ut_brk a \<le> y" for y
    using asd_tblD(4) [OF t that] u by (auto simp: a'_def)
  ultimately show t': "asd_tbl a' us" using t c unfolding asd_tbl_def by (simp add: a'_def)
  have "waiting a' = (waiting a)(ut_chaddr (request u') \<mapsto> request u')"
    by (rule waiting_upd [OF t t' r x]) (use ux s(2) in auto)
  then show "waiting a' = (waiting a)(ut_chaddr u \<mapsto> request u')" using s(2) by simp
qed

lemma asd_tbl_new:
  assumes t: "asd_tbl a us" and len: "length (ut_chaddr u) = 6" and no: "waiting a (ut_chaddr u) = None"
  defines "k \<equiv> dhcp_snp_tbl_hash (ut_chaddr u)"
  defines "a' \<equiv> a\<lparr>ut_brk := Suc (ut_brk a), uts := (uts a)(ut_brk a \<mapsto> u\<lparr>ut_next := ut_tab a k\<rparr>),
                   ut_tab := (ut_tab a)(k := ut_brk a)\<rparr>"
  shows "asd_tbl a' (us(k := ut_brk a # us k))" and "waiting a' = (waiting a)(ut_chaddr u \<mapsto> request u)"
proof -
  let ?p = "ut_brk a" and ?us = "us(k := ut_brk a # us k)"
  note q = asd_tblD(2) [OF t]
  have r: "requests a' = (requests a)(?p \<mapsto> request u)" by (auto simp: requests_def request_def a'_def)
  have fresh: "?p \<notin> set (us j)" for j
    using chain_member [OF asd_tblD(1) [OF t]] asd_tblD(4) [OF t, of ?p] by fastforce
  have c: "chain (uts a') ut_next q (us j) \<longleftrightarrow> chain (uts a) ut_next q (us j)" for q j
    using fresh by (simp add: a'_def chain_outside)
  have ch: "chain (uts a') ut_next (ut_tab a' j) (?us j)" for j
    using c asd_tblD(1) [OF t] asd_tblD(3) [OF t] by (simp add: a'_def)
  have apart: "ut_chaddr v \<noteq> ut_chaddr u" if "y \<in> set (us j)" "requests a y = Some v" for y j v
    using that no waiting_iff [OF t, of "ut_chaddr v" v] by auto
  have old: "y \<in> set (us j) \<Longrightarrow> requests a' y = requests a y" for y j using r fresh [of j] by auto
  have "reqs_ok (requests a') ?us"
    unfolding reqs_ok_def
  proof (intro conjI allI ballI impI)
    fix j y assume y: "y \<in> set (?us j)"
    show "\<exists>n. requests a' y = Some n \<and> dhcp_snp_tbl_hash (ut_chaddr n) = j \<and> length (ut_chaddr n) = 6"
    proof (cases "y = ?p")
      case True
      then have "j = k" using y fresh by (auto split: if_splits)
      then show ?thesis using r len True by (simp add: k_def)
    next
      case False
      then have m: "y \<in> set (us j)" using y by (auto split: if_splits)
      then show ?thesis using old [OF m] reqs_ok_some [OF q m] reqs_ok_entry [OF q m] by auto
    qed
  next
    fix j y z assume y: "y \<in> set (?us j)" and z: "z \<in> set (?us j)"
      and eq: "ut_chaddr (the (requests a' y)) = ut_chaddr (the (requests a' z))"
    have m: "w = ?p \<or> w \<in> set (us j)" if "w \<in> set (?us j)" for w using that by (auto split: if_splits)
    have np: "ut_chaddr (the (requests a' w)) \<noteq> ut_chaddr u" if "w \<in> set (us j)" for w
      using old [OF that] apart [OF that] reqs_ok_some [OF q that] by auto
    have pp: "ut_chaddr (the (requests a' ?p)) = ut_chaddr u" using r by simp
    show "y = z" using m [OF y] m [OF z] np pp eq old reqs_ok_some [OF q] reqs_ok_eq [OF q]
      by (metis option.sel)
  qed
  moreover have "uts a' y = None" if "Suc ?p \<le> y" for y using asd_tblD(4) [OF t, of y] that by (simp add: a'_def)
  ultimately show t': "asd_tbl a' ?us" using ch unfolding asd_tbl_def by (simp add: a'_def)
  have "waiting a' = (waiting a)(ut_chaddr (request u) \<mapsto> request u)"
    by (rule waiting_upd [OF t t' r, of k]) (use fresh in auto)
  then show "waiting a' = (waiting a)(ut_chaddr u \<mapsto> request u)" by simp
qed

lemma asd_add_tbl:
  assumes t: "asd_tbl a us" and len: "length (ut_chaddr q) = 6"
  shows "\<exists>a' r us'. dhcp_snp_add_unresolved_node env a q = Some (a', r) \<and> asd_tbl a' us' \<and> ut_sent a' = ut_sent a
    \<and> (r = 0 \<and> (\<exists>n. waiting a' = (waiting a)(ut_chaddr q \<mapsto> n) \<and> ut_ipaddr n = ut_ipaddr q
             \<and> ut_bssindex n = ut_bssindex q \<and> ut_expired n = uptime env + TBL_EXPIRED_TIME)
       \<or> r = - 1 \<and> \<not> malloc_ok env \<and> waiting a (ut_chaddr q) = None \<and> a' = a)"
proof (cases rule: unresolved_cases [OF t len])
  case 1
  let ?u = "q\<lparr>ut_expired := uptime env + TBL_EXPIRED_TIME\<rparr>"
  show ?thesis
  proof (cases "malloc_ok env")
    case True
    have "length (ut_chaddr ?u) = 6" "waiting a (ut_chaddr ?u) = None" using len 1(2) by simp_all
    note new = asd_tbl_new [OF t this]
    show ?thesis using 1(1) True new by (fastforce simp: dhcp_snp_add_unresolved_node_def Let_def request_def)
  qed (use 1 t in \<open>auto simp: dhcp_snp_add_unresolved_node_def\<close>)
next
  case (2 x n)
  obtain u where u: "uts a x = Some u" "n = request u" using requests_node [OF 2(4)] by blast
  let ?u = "u\<lparr>ut_bssindex := ut_bssindex q, ut_ipaddr := ut_ipaddr q, ut_vrrpid := ut_vrrpid q,
      ut_local_flag := ut_local_flag q, ut_chaddr := take 6 (ut_chaddr q),
      ut_expired := uptime env + TBL_EXPIRED_TIME\<rparr>"
  have "ut_next ?u = ut_next u" "ut_chaddr ?u = ut_chaddr u" using 2(5) u(2) len by simp_all
  note w = asd_tbl_write [OF t 2(3) u(1) this]
  have "ut_chaddr u = ut_chaddr q" using 2(5) u(2) by simp
  then show ?thesis using 2(1,2) u(1) w
    by (fastforce simp: dhcp_snp_add_unresolved_node_def request_def)
qed

lemma initiative_notify_tbl:
  assumes "asd_ok a" and "length mac = 6"
  shows "\<exists>a'. dhcp_snp_initiative_notify_asd sends a mac ip = Some a' \<and> asd_ok a'
    \<and> (case waiting a mac of None \<Rightarrow> a' = a
       | Some n \<Rightarrow> \<exists>u. request u = n\<lparr>ut_ipaddr := ip\<rparr>
           \<and> (if sends u then ut_sent a' = ut_sent a @ [u] \<and> waiting a' = (waiting a)(mac := None)
              else ut_sent a' = ut_sent a \<and> waiting a' = (waiting a)(mac \<mapsto> n\<lparr>ut_ipaddr := ip\<rparr>)))"
proof -
  obtain us where t: "asd_tbl a us" using assms(1) asd_ok_def by blast
  show ?thesis
  proof (cases rule: unresolved_cases [OF t assms(2)])
    case 1
    then show ?thesis using assms(1) by (simp add: dhcp_snp_initiative_notify_asd_def)
  next
    case (2 x n)
    obtain v where v: "uts a x = Some v" "n = request v" using requests_node [OF 2(4)] by blast
    let ?u = "v\<lparr>ut_ipaddr := ip\<rparr>"
    let ?a = "a\<lparr>uts := (uts a)(x \<mapsto> ?u)\<rparr>"
    have "ut_next ?u = ut_next v" "ut_chaddr ?u = ut_chaddr v" by simp_all
    note w = asd_tbl_write [OF t 2(3) v(1) this]
    have m: "ut_chaddr v = mac" using 2(5) v(2) by simp
    have n: "request ?u = n\<lparr>ut_ipaddr := ip\<rparr>" using v(2) by (simp add: request_def)
    show ?thesis
    proof (cases "sends ?u")
      case True
      let ?b = "?a\<lparr>ut_sent := ut_sent a @ [?u]\<rparr>"
      have t': "asd_tbl ?b us" using w(1) by (simp add: asd_tbl_def requests_def [abs_def])
      have r: "requests ?b = requests ?a" by (simp add: fun_eq_iff requests_def)
      have "waiting ?b = waiting ?a"
        by (rule ext) (simp add: waiting_def dhcp_snp_find_from_unresolved_table_def r [simplified] split: option.splits)
      then obtain a' r us' where a': "dhcp_snp_del_unresolved_node ?b mac = Some (a', r)" "asd_tbl a' us'"
        "waiting a' = (waiting a)(mac := None)" "ut_sent a' = ut_sent a @ [?u]"
        using asd_del_tbl [OF t' assms(2)] w(2) m by fastforce
      then have "dhcp_snp_initiative_notify_asd sends a mac ip = Some a'"
        using 2(1,2) v(1) True m by (simp add: dhcp_snp_initiative_notify_asd_def dhcp_snp_notify_asd_def)
      then show ?thesis using a' 2(6) n True asd_ok_def by fastforce
    next
      case False
      then have "dhcp_snp_initiative_notify_asd sends a mac ip = Some ?a"
        using 2(1,2) v(1) by (simp add: dhcp_snp_initiative_notify_asd_def dhcp_snp_notify_asd_def)
      moreover have "asd_ok ?a" using w(1) asd_ok_def by blast
      ultimately show ?thesis using w(2) 2(6) n False m by (auto intro!: exI [of _ ?u])
    qed
  qed
qed

text \<open>C33: A client the access daemon asked about is answered with the address it is
  bound to: when the message gets out, the daemon is told that address once and the request is
  taken off; when it does not, the request stays, with the address, until it is aged. A client
  nobody asked about changes nothing.\<close>

theorem asd_request_answered:
  assumes "asd_ok a" and "length mac = 6"
  shows "\<exists>a'. dhcp_snp_initiative_notify_asd sends a mac ip = Some a' \<and> asd_ok a'
    \<and> (case waiting a mac of None \<Rightarrow> a' = a
       | Some n \<Rightarrow> \<exists>u. request u = n\<lparr>ut_ipaddr := ip\<rparr>
           \<and> (if sends u then ut_sent a' = ut_sent a @ [u] \<and> waiting a' = (waiting a)(mac := None)
              else ut_sent a' = ut_sent a \<and> waiting a' = (waiting a)(mac \<mapsto> n\<lparr>ut_ipaddr := ip\<rparr>)))"
  using assms by (rule initiative_notify_tbl)

end
