(* ===== verification/SnpPkt.thy ===== *)
theory SnpPkt
  imports SnpHdr SnpStatic SnpAge SnpAsd
begin

text \<open>
  What the daemon does with the frames it listens to (\<open>dhcp_snp_pkt.c\<close>, the switch of
  \<open>dhcp_snp_packet_rx_process\<close> in \<open>dhcp_snp_com.c\<close>, the classification of frames in
  \<open>dhcp_snp_listener.c\<close>), with the passes of the ageing thread and the requests of the access
  daemon and the D-Bus commands for static bindings. The threads take the mutex of the tables
  around each of these operations, so a run of the daemon is a sequence of them.

  Fields of a frame are compared without conversion in the code, which is right on the
  big-endian targets only: there a field read as an integer is \<open>ntohs\<close> or \<open>ntohl\<close> of its
  bytes. The IPv6 tables are not part of the model; they share no state with the tables modelled here.
\<close>

subsection \<open>State\<close>

record snpd =
  d_bind :: snp
  d_asd :: asd
  d_static :: "dhcp_snp_static_table list"

text \<open>The settings of the daemon.\<close>

record snp_cfg =
  snp_status :: bool
  notify_portal_enable :: bool
  arp_proxy_enable :: bool
  opt82_enable :: bool

text \<open>The comparison runs over the length byte of the packet, which may exceed the six bytes of
  the hardware addresses: \<open>after_mac\<close> says whether the memory behind them agrees.\<close>

definition dhcp_snp_tbl_identity_item :: "snp_env \<Rightarrow> item \<Rightarrow> user \<Rightarrow> u32" where
  "dhcp_snp_tbl_identity_item env it u =
     (if vlanId it \<noteq> u_vlanId u \<or> haddr_len it \<noteq> u_haddr_len u then CODE_ERROR
      else if u_ifindex u \<noteq> 0 \<and> ifindex it \<noteq> u_ifindex u then CODE_ERROR
      else if memcmp (unat (haddr_len it)) (chaddr it) (u_chaddr u) \<noteq> 0
              \<or> unat (haddr_len it) > 6 \<and> \<not> after_mac env it u then CODE_ERROR
      else CODE_OK)"

subsection \<open>The handlers of the messages\<close>

definition dhcp_snp_discovery_process :: "snp_env \<Rightarrow> snp \<Rightarrow> u16 \<Rightarrow> u32 \<Rightarrow> packet \<Rightarrow> (snp \<times> u32) option" where
  "dhcp_snp_discovery_process env st vlanid ifi pk =
     (let (u, ret) = dhcp_snp_get_item_from_pkt vlanid ifi DISCOVER pk zero_user in
      if ret \<noteq> CODE_OK then Some (st, ret)
      else do {
        p \<leftarrow> dhcp_snp_tbl_item_find st u;
        if p = NULL
        then let (st, q) = dhcp_snp_tbl_item_insert env st (u\<lparr>u_state := STATE_REQUEST\<rparr>) in
             Some (st, if q = NULL then CODE_ERROR else CODE_OK)
        else Some (st, CODE_OK)
      })"

definition dhcp_snp_request_process :: "snp_env \<Rightarrow> snp \<Rightarrow> u16 \<Rightarrow> u32 \<Rightarrow> packet \<Rightarrow> (snp \<times> u32) option" where
  "dhcp_snp_request_process env st vlanid ifi pk =
     (let (u, ret) = dhcp_snp_get_item_from_pkt vlanid ifi REQUEST pk zero_user in
      if ret \<noteq> CODE_OK then Some (st, ret)
      else do {
        p \<leftarrow> dhcp_snp_tbl_item_find st u;
        if p = NULL
        then let (st, q) = dhcp_snp_tbl_item_insert env st (u\<lparr>u_state := STATE_REQUEST\<rparr>) in
             Some (st, if q = NULL then CODE_ERROR else CODE_OK)
        else Some (st, CODE_OK)
      })"

definition dhcp_snp_offer_process :: "snp \<Rightarrow> (snp \<times> u32) option" where
  "dhcp_snp_offer_process st = Some (st, CODE_OK)"

definition dhcp_snp_notify_to_protal :: "u32 \<Rightarrow> u8 list \<Rightarrow> snp \<Rightarrow> snp" where
  "dhcp_snp_notify_to_protal userip usermac st = snp_emit (Notify_portal userip usermac) st"

definition dhcp_snp_ack_process ::
    "snp_cfg \<Rightarrow> snp_env \<Rightarrow> (unresolved_table \<Rightarrow> bool) \<Rightarrow> dhcp_snp_listener \<Rightarrow> snpd \<Rightarrow> u16 \<Rightarrow> u32 \<Rightarrow> packet
      \<Rightarrow> (snpd \<times> u32) option" where
  "dhcp_snp_ack_process cfg env sends node d vlanid ifi pk =
     (let (u, ret) = dhcp_snp_get_item_from_pkt vlanid ifi ACK pk zero_user in
      if ret \<noteq> CODE_OK then Some (d, ret)
      else do {
        p \<leftarrow> dhcp_snp_tbl_item_find (d_bind d) u;
        if p = NULL then Some (d, CODE_OK)
        else do {
          it \<leftarrow> items (d_bind d) p;
          if bind_type it = TYPE_STATIC then Some (d, CODE_OK)
          else do {
            (st, ret) \<leftarrow> dhcp_snp_tbl_refresh_bind env node (d_bind d) (u\<lparr>u_state := STATE_BOUND\<rparr>) p;
            if ret \<noteq> CODE_OK then Some (d\<lparr>d_bind := st\<rparr>, CODE_ERROR)
            else do {
              it \<leftarrow> items st p;
              a \<leftarrow> dhcp_snp_initiative_notify_asd sends (d_asd d) (chaddr it) (ip_addr it);
              let st = (if notify_portal_enable cfg then dhcp_snp_notify_to_protal (ip_addr it) (chaddr it) st else st);
              Some (d\<lparr>d_bind := st, d_asd := a\<rparr>, CODE_OK)
            }
          }
        }
      })"

definition dhcp_snp_nack_process :: "snp_env \<Rightarrow> snp \<Rightarrow> u16 \<Rightarrow> u32 \<Rightarrow> packet \<Rightarrow> (snp \<times> u32) option" where
  "dhcp_snp_nack_process env st vlanid ifi pk =
     (let (u, ret) = dhcp_snp_get_item_from_pkt vlanid ifi NAK pk (stack_user env) in
      if ret \<noteq> CODE_OK then Some (st, ret)
      else do {
        p \<leftarrow> dhcp_snp_tbl_item_find st u;
        if p = NULL then Some (st, CODE_OK)
        else do {
          it \<leftarrow> items st p;
          if bind_type it = TYPE_STATIC then Some (st, CODE_OK)
          else if dhcp_snp_tbl_identity_item env it u \<noteq> CODE_OK then Some (st, CODE_OK)
          else if bind_type it = TYPE_DYNAMIC then do {
            (st, ret) \<leftarrow> dhcp_snp_tbl_item_delete env st p;
            Some (st, if ret \<noteq> CODE_OK then CODE_ERROR else CODE_OK)
          }
          else Some (st, CODE_OK)
        }
      })"

text \<open>On a release the neighbour of the entry goes whatever the netlink call answers.\<close>

definition release_neigh :: "dhcp_snp_listener \<Rightarrow> item \<Rightarrow> snp \<Rightarrow> snp" where
  "release_neigh node it st =
     (if no_arp node \<and> host_bound it
      then snp_emit (Ebtables IPNEIGH_DEL (chaddr it) (ip_addr it))
             (snp_emit (Ipneigh IPNEIGH_DEL (ifindex it) (ip_addr it) (chaddr it)) st)
      else st)"

definition dhcp_snp_release_process ::
    "snp_env \<Rightarrow> dhcp_snp_listener \<Rightarrow> snp \<Rightarrow> u16 \<Rightarrow> u32 \<Rightarrow> packet \<Rightarrow> (snp \<times> u32) option" where
  "dhcp_snp_release_process env node st vlanid ifi pk =
     (let (u, ret) = dhcp_snp_get_item_from_pkt vlanid ifi RELEASE pk (stack_user env) in
      if ret \<noteq> CODE_OK then Some (st, ret)
      else do {
        p \<leftarrow> dhcp_snp_tbl_item_find st u;
        if p = NULL then Some (st, CODE_OK)
        else do {
          it \<leftarrow> items st p;
          if bind_type it = TYPE_STATIC then Some (st, CODE_OK)
          else if dhcp_snp_tbl_identity_item env it u \<noteq> CODE_OK then Some (st, CODE_OK)
          else if bind_type it = TYPE_DYNAMIC then
            case host_route ROUTE_DEL env node it (release_neigh node it st) of
              Inl r \<Rightarrow> Some r
            | Inr st \<Rightarrow> do {
                (st, ret) \<leftarrow> dhcp_snp_tbl_item_delete env st p;
                Some (st, if ret \<noteq> CODE_OK then CODE_ERROR else CODE_OK)
              }
          else Some (st, CODE_OK)
        }
      })"

definition dhcp_snp_inform_process ::
    "snp_env \<Rightarrow> dhcp_snp_listener \<Rightarrow> snp \<Rightarrow> u16 \<Rightarrow> u32 \<Rightarrow> packet \<Rightarrow> (snp \<times> u32) option" where
  "dhcp_snp_inform_process env node st vlanid ifi pk =
     (let (u, ret) = dhcp_snp_get_item_from_pkt vlanid ifi INFORM pk zero_user in
      if ret \<noteq> CODE_OK then Some (st, ret)
      else do {
        p \<leftarrow> dhcp_snp_tbl_item_find st u;
        if p = NULL then Some (st, CODE_OK)
        else do {
          it \<leftarrow> items st p;
          if bind_type it = TYPE_STATIC then Some (st, CODE_OK)
          else if bind_type it = TYPE_DYNAMIC \<and> state it = STATE_BOUND then Some (st, CODE_OK)
          else do {
            (st, ret) \<leftarrow> dhcp_snp_tbl_refresh_bind env node st (u\<lparr>u_state := STATE_BOUND\<rparr>) p;
            Some (st, if ret \<noteq> CODE_OK then CODE_ERROR else CODE_OK)
          }
        }
      })"

subsection \<open>The switch\<close>

fun packet_type :: "u8 \<Rightarrow> dhcp_packet_type option" where
  "packet_type b =
     (if b = 1 then Some DISCOVER else if b = 2 then Some OFFER else if b = 3 then Some REQUEST
      else if b = 4 then Some DECLINE else if b = 5 then Some ACK else if b = 6 then Some NAK
      else if b = 7 then Some RELEASE else if b = 8 then Some INFORM else None)"

text \<open>Reply messages would be dropped on an interface that is not trusted, but
  \<open>dhcp_snp_is_trusted\<close> trusts every interface.\<close>

datatype trust_mode = MODE_NOTRUST | MODE_NOBIND | MODE_TRUST | MODE_INVALID

definition dhcp_snp_is_trusted :: "u16 \<Rightarrow> u32 \<Rightarrow> trust_mode \<times> u32" where
  "dhcp_snp_is_trusted vlanid ifi = (MODE_TRUST, CODE_OK)"

text \<open>A handler's state and result, in the state of the daemon; any error makes the result of the
  switch \<open>CODE_PKT_DROP\<close>.\<close>

definition on_bind :: "snpd \<Rightarrow> (snp \<times> u32) option \<Rightarrow> (snpd \<times> u32) option" where
  "on_bind d r = map_option (\<lambda>(st, ret). (d\<lparr>d_bind := st\<rparr>, ret)) r"

definition or_drop :: "(snpd \<times> u32) option \<Rightarrow> (snpd \<times> u32) option" where
  "or_drop r = map_option (\<lambda>(d, ret). (d, if ret \<noteq> CODE_OK then CODE_PKT_DROP else CODE_OK)) r"

definition rx_bindings ::
    "snp_cfg \<Rightarrow> snp_env \<Rightarrow> (unresolved_table \<Rightarrow> bool) \<Rightarrow> dhcp_snp_listener \<Rightarrow> snpd \<Rightarrow> u16 \<Rightarrow> u32 \<Rightarrow> packet
      \<Rightarrow> (snpd \<times> u32) option" where
  "rx_bindings cfg env sends node d vid ifi pk =
     (if \<not> snp_status cfg then Some (d, CODE_OK)
      else let message = dhcp_snp_get_option pk MESSAGE_TYPE; st = d_bind d in
      if message = 0 then Some (d, CODE_PKT_DROP)
      else if pkt_op pk = BOOTREPLY
           \<and> (case dhcp_snp_is_trusted vid ifi of (trust, ret) \<Rightarrow> ret \<noteq> CODE_OK \<or> trust = MODE_NOTRUST)
      then Some (d, CODE_PKT_DROP)
      else or_drop (case packet_type (pk message) of
          Some DISCOVER \<Rightarrow> on_bind d (dhcp_snp_discovery_process env st vid ifi pk)
        | Some OFFER \<Rightarrow> on_bind d (dhcp_snp_offer_process st)
        | Some REQUEST \<Rightarrow> on_bind d (dhcp_snp_request_process env st vid ifi pk)
        | Some ACK \<Rightarrow> dhcp_snp_ack_process cfg env sends node d vid ifi pk
        | Some NAK \<Rightarrow> on_bind d (dhcp_snp_nack_process env st vid ifi pk)
        | Some RELEASE \<Rightarrow> on_bind d (dhcp_snp_release_process env node st vid ifi pk)
        | Some INFORM \<Rightarrow> on_bind d (dhcp_snp_inform_process env node st vid ifi pk)
        | _ \<Rightarrow> Some (d, CODE_OK)))"

text \<open>The option 82 step: it is attached to the messages of clients and taken off the replies.\<close>

definition opt82_step :: "u8 \<Rightarrow> packet \<Rightarrow> u32 \<Rightarrow> (packet \<times> u32 \<times> u32) option" where
  "opt82_step message fr bufflen =
     do {
       (fr, bufflen, ret) \<leftarrow>
         (if packet_type message \<in> {Some DISCOVER, Some REQUEST}
          then dhcp_snp_attach_opt82 dhcp_snp_get_opt82_port_strategy dhcp_snp_get_opt82_port_circuitid
                 dhcp_snp_get_opt82_port_remoteid fr bufflen
          else Some (fr, bufflen, CODE_OK));
       if ret \<noteq> CODE_OK then Some (fr, bufflen, CODE_PKT_DROP)
       else if pkt_op (msg_of fr) = BOOTREPLY
       then do {
         endposition \<leftarrow> dhcp_snp_end_option (msg_of fr) 240;
         let (pk, del_len, ret) = dhcp_snp_remove_opt82 (msg_of fr) 0x52 (of_nat endposition);
         Some (if ret \<noteq> CODE_OK then (with_msg fr pk, bufflen, CODE_PKT_DROP)
               else (with_msg fr pk, bufflen - (case del_len of None \<Rightarrow> 0 | Some l \<Rightarrow> l), CODE_OK))
       }
       else Some (fr, bufflen, CODE_OK)
     }"

text \<open>The whole function: the state, the frame, its length and the result.\<close>

definition dhcp_snp_packet_rx_process ::
    "snp_cfg \<Rightarrow> snp_env \<Rightarrow> (unresolved_table \<Rightarrow> bool) \<Rightarrow> dhcp_snp_listener \<Rightarrow> snpd \<Rightarrow> u16 \<Rightarrow> u32 \<Rightarrow> packet \<Rightarrow> u32
      \<Rightarrow> (snpd \<times> packet \<times> u32 \<times> u32) option" where
  "dhcp_snp_packet_rx_process cfg env sends node d vid ifi fr bufflen =
     do {
       (d, ret) \<leftarrow> rx_bindings cfg env sends node d vid ifi (msg_of fr);
       if \<not> snp_status cfg \<or> ret \<noteq> CODE_OK \<or> \<not> opt82_enable cfg then Some (d, fr, bufflen, ret)
       else do {
         r \<leftarrow> opt82_step (msg_of fr (dhcp_snp_get_option (msg_of fr) MESSAGE_TYPE)) fr bufflen;
         Some (d, r)
       }
     }"

subsection \<open>ARP frames\<close>

definition dhcp_snp_gratuitous_arp_process ::
    "snp_env \<Rightarrow> dhcp_snp_listener \<Rightarrow> snp \<Rightarrow> u16 \<Rightarrow> u32 \<Rightarrow> packet \<Rightarrow> (snp \<times> u32) option" where
  "dhcp_snp_gratuitous_arp_process env node st vlanid ifi fr =
     (let u = zero_user\<lparr>u_ifindex := ifi, u_vlanId := vlanid, u_haddr_len := fr 18,
                u_chaddr := pkt_bytes fr 22 6, u_ip_addr := ntohl (pkt_bytes fr 28 4),
                u_lease_time := NPD_DHCP_SNP_REQUEST_TIMEOUT\<rparr> in
      if dhcp_snp_u32ip_check (u_ip_addr u) \<noteq> 0 then Some (st, CODE_OK)
      else do {
        p \<leftarrow> dhcp_snp_tbl_item_find st u;
        if p = NULL then Some (st, CODE_OK)
        else do {
          it \<leftarrow> items st p;
          if bind_type it = TYPE_STATIC then Some (st, CODE_OK)
          else if bind_type it = TYPE_DYNAMIC \<and> state it = STATE_BOUND then Some (st, CODE_OK)
          else if ip_addr it \<noteq> u_ip_addr u then Some (st, CODE_OK)
          else do {
            (st, ret) \<leftarrow> dhcp_snp_tbl_refresh_bind env node st (u\<lparr>u_state := STATE_BOUND\<rparr>) p;
            Some (st, if ret \<noteq> CODE_OK then CODE_ERROR else CODE_OK)
          }
        }
      })"

text \<open>The reply of the ARP proxy, if one is written, and the result.\<close>

definition arp_reply :: "packet \<Rightarrow> u32 \<Rightarrow> u8 list \<Rightarrow> u8 list" where
  "arp_reply fr ip mac =
     pkt_bytes fr 22 6 @ mac @ htons 0x0806 @ htons 0x1 @ htons 0x0800 @ [0x6, 0x4] @ htons 0x2
     @ mac @ htonl ip @ pkt_bytes fr 22 6 @ pkt_bytes fr 28 4"

definition dhcp_snp_arp_request_process :: "snp_cfg \<Rightarrow> snp_env \<Rightarrow> snp \<Rightarrow> packet \<Rightarrow> (u8 list option \<times> u32) option" where
  "dhcp_snp_arp_request_process cfg env st fr =
     (if \<not> arp_proxy_enable cfg then Some (None, 0)
      else let ip = ntohl (pkt_bytes fr 38 4) in do {
        p \<leftarrow> dhcp_snp_tbl_item_find_by_ip st ip;
        if p = NULL then Some (None, CODE_OK)
        else if \<not> malloc_ok env then Some (None, CODE_ERROR)
        else do {
          it \<leftarrow> items st p;
          Some (Some (arp_reply fr ip (chaddr it)), CODE_OK)
        }
      })"

subsection \<open>Classification of frames\<close>

definition broadcast :: "packet \<Rightarrow> bool" where
  "broadcast fr \<longleftrightarrow> fr 0 AND fr 1 AND fr 2 AND fr 3 AND fr 4 AND fr 5 = 0xFF"

definition dhcp_snp_listener_gratuitous_arp_check :: "packet \<Rightarrow> bool" where
  "dhcp_snp_listener_gratuitous_arp_check fr \<longleftrightarrow>
     broadcast fr \<and> fr 6 AND 1 = 0 \<and> ntohs (pkt_bytes fr 12 2) = 0x0806 \<and> ntohs (pkt_bytes fr 20 2) = 1
     \<and> memcmp 4 (pkt_bytes fr 28 4) (pkt_bytes fr 38 4) = 0"

definition dhcp_snp_listener_arp_request_check :: "packet \<Rightarrow> bool" where
  "dhcp_snp_listener_arp_request_check fr \<longleftrightarrow>
     broadcast fr \<and> ntohs (pkt_bytes fr 12 2) = 0x0806 \<and> ntohs (pkt_bytes fr 20 2) = 1"

definition dhcp_snp_listener_dhcpv6_packet_check :: "packet \<Rightarrow> bool" where
  "dhcp_snp_listener_dhcpv6_packet_check fr \<longleftrightarrow>
     ntohs (pkt_bytes fr 12 2) = 0x86dd \<and> drop_bit 4 (fr 14) = 6 \<and> fr 20 = 0x11
     \<and> (let source = ntohs (pkt_bytes fr 54 2); dest = ntohs (pkt_bytes fr 56 2) in
          dest = 0x0223 \<and> source = 0x0222 \<or> source = 0x0223 \<and> dest = 0x0222)"

definition dhcp_snp_listener_type_check :: "packet \<Rightarrow> bool" where
  "dhcp_snp_listener_type_check fr \<longleftrightarrow>
     (let l4 = 14 + 4 * unat (fr 14 AND 0xF); source = ntohs (pkt_bytes fr l4 2); dest = ntohs (pkt_bytes fr (l4 + 2) 2) in
      ntohs (pkt_bytes fr 12 2) = 0x0800 \<and> drop_bit 4 (fr 14) = 4 \<and> fr 23 = 0x11
      \<and> (dest = 0x43 \<and> source = 0x44 \<or> source = 0x43 \<and> dest = 0x44))"

text \<open>One frame of a listener, as the loop of \<open>dhcp_snp_listener_read_sock\<close> handles it. The DHCP
  message is taken to start behind an IP header of 20 bytes. A DHCPv6 frame is handled on the
  IPv6 tables, which are not modelled.\<close>

definition read_frame ::
    "snp_cfg \<Rightarrow> snp_env \<Rightarrow> (unresolved_table \<Rightarrow> bool) \<Rightarrow> dhcp_snp_listener \<Rightarrow> u32 \<Rightarrow> packet \<Rightarrow> u32 \<Rightarrow> snpd \<Rightarrow> snpd option" where
  "read_frame cfg env sends node ifi fr len d =
     (let vid = 0xFFFF in
      if dhcp_snp_listener_gratuitous_arp_check fr
      then map_option fst (on_bind d (dhcp_snp_gratuitous_arp_process env node (d_bind d) vid ifi fr))
      else if dhcp_snp_listener_arp_request_check fr
      then do { _ \<leftarrow> dhcp_snp_arp_request_process cfg env (d_bind d) fr; Some d }
      else if dhcp_snp_listener_dhcpv6_packet_check fr then Some d
      else if \<not> dhcp_snp_listener_type_check fr then Some d
      else map_option fst (dhcp_snp_packet_rx_process cfg env sends node d vid ifi fr len))"

subsection \<open>The other threads\<close>

text \<open>One round of \<open>dhcp_snp_tbl_thread_aging\<close>.\<close>

definition aging_round :: "snp_env \<Rightarrow> snpd \<Rightarrow> snpd option" where
  "aging_round env d =
     do {
       (st, _) \<leftarrow> dhcp_snp_aging_mechanism env (d_bind d);
       a \<leftarrow> dhcp_snp_asd_table_aging_mechanism env (d_asd d);
       Some (d\<lparr>d_bind := st, d_asd := a\<rparr>)
     }"

text \<open>A station message of the access daemon.\<close>

record sta_msg =
  BSSIndex :: u32
  vrrid :: u32
  local_hansi :: u32
  STAMAC :: packet

definition check_msg :: "sta_msg \<Rightarrow> int" where
  "check_msg msg = (if vrrid msg > 16 then - 1 else 0)"

definition fill_unresolved_table_from_tableMsg :: "sta_msg \<Rightarrow> unresolved_table" where
  "fill_unresolved_table_from_tableMsg msg =
     \<lparr>ut_next = NULL, ut_bssindex = BSSIndex msg, ut_vrrpid = vrrid msg, ut_local_flag = local_hansi msg,
      ut_ipaddr = 0, ut_ifindex = 0, ut_expired = 0, ut_chaddr = pkt_bytes (STAMAC msg) 0 6\<rparr>"

definition dhcp_snp_process_asd_interactive :: "snp_env \<Rightarrow> asd \<Rightarrow> unresolved_table \<Rightarrow> asd option" where
  "dhcp_snp_process_asd_interactive env a t = map_option fst (dhcp_snp_add_unresolved_node env a t)"

definition asd_message :: "snp_cfg \<Rightarrow> snp_env \<Rightarrow> sta_msg \<Rightarrow> snpd \<Rightarrow> snpd option" where
  "asd_message cfg env msg d =
     (if check_msg msg \<noteq> 0 then Some d
      else if \<not> snp_status cfg then Some d
      else do {
        a \<leftarrow> dhcp_snp_process_asd_interactive env (d_asd d) (fill_unresolved_table_from_tableMsg msg);
        Some (d\<lparr>d_asd := a\<rparr>)
      })"

subsection \<open>Runs of the daemon\<close>

datatype snp_event =
    Frame snp_cfg snp_env "unresolved_table \<Rightarrow> bool" dhcp_snp_listener u32 packet u32
  | Aging_tick snp_env
  | Asd_request snp_cfg snp_env sta_msg
  | Add_wan snp_cfg bool snp_env u32 packet u32
  | Del_wan snp_cfg snp_env packet

fun snp_exec1 :: "snp_event \<Rightarrow> snpd \<Rightarrow> snpd option" where
  "snp_exec1 (Frame cfg env sends node ifi fr len) d = read_frame cfg env sends node ifi fr len d"
| "snp_exec1 (Aging_tick env) d = aging_round env d"
| "snp_exec1 (Asd_request cfg env msg) d = asd_message cfg env msg d"
| "snp_exec1 (Add_wan cfg mem env ip mac ifi) d =
     map_option (\<lambda>(st, l, ret). d\<lparr>d_bind := st, d_static := l\<rparr>)
       (dhcp_snp_dbus_add_wan_bind_table (snp_status cfg) mem env (d_bind d) (d_static d) ip mac ifi)"
| "snp_exec1 (Del_wan cfg env mac) d =
     map_option (\<lambda>(st, l, ret). d\<lparr>d_bind := st, d_static := l\<rparr>)
       (dhcp_snp_dbus_del_wan_bind_table (snp_status cfg) env (d_bind d) (d_static d) mac)"

fun exec_all :: "('e \<Rightarrow> 's \<Rightarrow> 's option) \<Rightarrow> 'e list \<Rightarrow> 's \<Rightarrow> 's option" where
  "exec_all step [] s = Some s"
| "exec_all step (e # es) s = do { s \<leftarrow> step e s; exec_all step es s }"

text \<open>The tables as the daemon starts: empty (\<open>dhcp_snp_tbl_initialize\<close>).\<close>

definition dhcp_snp_tbl_initialize :: snp where
  "dhcp_snp_tbl_initialize = \<lparr>items = (\<lambda>_. None), mac_tab = (\<lambda>_. NULL), ip_tab = (\<lambda>_. NULL), brk = 1, calls = []\<rparr>"

definition snp_start :: snpd where
  "snp_start = \<lparr>d_bind = dhcp_snp_tbl_initialize,
     d_asd = \<lparr>uts = (\<lambda>_. None), ut_tab = (\<lambda>_. NULL), ut_brk = 1, ut_sent = []\<rparr>, d_static = []\<rparr>"

end
