(* ===== verification/SnpRun.thy ===== *)
theory SnpRun
  imports SnpPkt
begin

text \<open>
  Runs of the DHCP snooping daemon. The locale \<open>event_loop\<close> is the contract of an operation
  that is called over and over: from a good state it returns a good state. It is interpreted
  on the events of the daemon, with the invariant that the tables are well
  formed and that bound entries and the address index agree.
\<close>

subsection \<open>The contract of an event\<close>

locale event_loop =
  fixes step :: "'e \<Rightarrow> 's \<Rightarrow> 's option" and good :: "'s \<Rightarrow> bool" and may :: "'e \<Rightarrow> bool"
  assumes keeps: "good s \<Longrightarrow> may e \<Longrightarrow> \<exists>s'. step e s = Some s' \<and> good s'"
begin

lemma run_keeps: "good s \<Longrightarrow> list_all may es \<Longrightarrow> \<exists>s'. exec_all step es s = Some s' \<and> good s'"
proof (induction es arbitrary: s)
  case (Cons e es)
  then obtain s' where "step e s = Some s'" "good s'" using keeps [of s e] by auto
  then show ?case using Cons.IH Cons.prems by simp
qed simp

end

subsection \<open>Bound entries and the address index agree\<close>

definition agree :: "(u8 list \<rightharpoonup> item) \<Rightarrow> (u32 \<rightharpoonup> u8 list) \<Rightarrow> bool" where
  "agree B H \<longleftrightarrow> (\<forall>m e. B m = Some e \<longrightarrow> state e = STATE_BOUND \<longrightarrow> ip_addr e \<noteq> 0 \<longrightarrow> H (ip_addr e) = Some m)"

definition snp_inv :: "snp \<Rightarrow> bool" where
  "snp_inv st \<longleftrightarrow> tbl_ok st \<and> agree (binding st) (holder st)"

definition snpd_inv :: "snpd \<Rightarrow> bool" where
  "snpd_inv d \<longleftrightarrow> snp_inv (d_bind d) \<and> asd_ok (d_asd d)"

lemma agree_remove:
  "agree B H \<Longrightarrow> (\<And>m. B' m = (if m \<in> D then None else B m))
     \<Longrightarrow> (\<And>i. H' i = (case H i of None \<Rightarrow> None | Some m \<Rightarrow> if m \<in> D then None else Some m)) \<Longrightarrow> agree B' H'"
  by (auto simp: agree_def)

lemma agree_bound:
  assumes "agree (binding st) (holder st)" and b: "bound_maps env u e st st'" and s: "u_state u = STATE_BOUND"
  shows "agree (binding st') (holder st')"
proof -
  have "holder st' (ip_addr f) = Some m" if "binding st' m = Some f" "state f = STATE_BOUND" "ip_addr f \<noteq> 0" for m f
  proof (cases "m = u_chaddr u")
    case True
    then show ?thesis using b that by (auto simp: bound_maps_def)
  next
    case False
    then have "binding st m = Some f" "holder st (u_ip_addr u) \<noteq> Some m"
      using b that(1) by (auto simp: bound_maps_def split: if_splits)
    moreover from this have "holder st (ip_addr f) = Some m" using assms(1) that(2,3) by (simp add: agree_def)
    ultimately show ?thesis using b False by (auto simp: bound_maps_def)
  qed
  then show ?thesis by (simp add: agree_def)
qed

lemma snp_inv_same: "same_tbl st st' \<Longrightarrow> snp_inv st \<Longrightarrow> snp_inv st'"
  using same_tblD [of st st'] by (simp add: snp_inv_def)

lemma holder_binding:
  assumes "tbl_ok st" and "holder st ip = Some m"
  shows "\<exists>e. binding st m = Some e \<and> ip_addr e = ip"
proof -
  obtain ms ips where t: "tbl st ms ips" using assms(1) tbl_ok_def by blast
  obtain k x e where x: "x \<in> set (ips k)" "entries st x = Some e" "ip_addr e = ip" "chaddr e = m"
    using assms(2) unfolding holder_iff [OF t] by blast
  then show ?thesis
    using binding_iff [OF t, of m e] ip_ok_entry [OF tblD(4) [OF t] x(1,2)] by blast
qed

subsection \<open>The operations of the table keep the invariant\<close>

lemma find_state [simp]: "dhcp_snp_tbl_item_find st (u\<lparr>u_state := s\<rparr>) = dhcp_snp_tbl_item_find st u"
  by (simp add: dhcp_snp_tbl_item_find_def)

lemma find_cases:
  assumes "tbl_ok st" and "length (u_chaddr u) = 6"
  obtains (missing) "dhcp_snp_tbl_item_find st u = Some NULL" and "binding st (u_chaddr u) = None"
  | (found) p it where "dhcp_snp_tbl_item_find st u = Some p" and "p \<noteq> NULL" and "items st p = Some it"
      and "binding st (u_chaddr u) = Some (entry it)" and "chaddr it = u_chaddr u"
proof -
  obtain ms ips where t: "tbl st ms ips" using assms(1) tbl_ok_def by blast
  show ?thesis
  proof (cases rule: item_find_cases [OF t assms(2)])
    case 1
    then show ?thesis using missing by simp
  next
    case (2 x e)
    then show ?thesis using found [of x] entries_item [OF 2(4)] by auto
  qed
qed

lemma insert_keeps:
  assumes i: "snp_inv st" and len: "length (u_chaddr u) = 6" and new: "binding st (u_chaddr u) = None"
    and s: "u_state u \<noteq> STATE_BOUND"
  shows "snp_inv (fst (dhcp_snp_tbl_item_insert env st u))"
proof (cases "malloc_ok env")
  case False
  then show ?thesis using i by (simp add: dhcp_snp_tbl_item_insert_def)
next
  case True
  obtain st' p where r: "dhcp_snp_tbl_item_insert env st u = (st', p)" by fastforce
  have t: "tbl_ok st" "agree (binding st) (holder st)" using i by (simp_all add: snp_inv_def)
  have "tbl_ok st'" "binding st' = (binding st)(u_chaddr u \<mapsto> entry (dhcp_snp_tbl_fill_item env u zero_item))"
    "holder st' = holder st"
    using item_insert_maps [OF t(1) len True new r] by simp_all
  then show ?thesis using r t(2) s by (simp add: snp_inv_def agree_def dhcp_snp_tbl_fill_item_def)
qed

lemma delete_keeps:
  assumes i: "snp_inv st" and len: "length (u_chaddr u) = 6"
    and f: "dhcp_snp_tbl_item_find st u = Some p" "p \<noteq> NULL"
  obtains st' ret where "dhcp_snp_tbl_item_delete env st p = Some (st', ret)" and "snp_inv st'"
    and "binding st' = (binding st)(u_chaddr u := None)"
    and "ret = (if db_delete env (the (items st p)) = CODE_OK then CODE_OK else CODE_ERROR)"
proof -
  obtain ms ips where t: "tbl st ms ips" using i by (auto simp: snp_inv_def tbl_ok_def)
  obtain e where e: "p \<in> set (ms (dhcp_snp_tbl_hash (u_chaddr u)))" "entries st p = Some e" "chaddr e = u_chaddr u"
    by (cases rule: item_find_cases [OF t len]) (use f in auto)
  obtain st' ret where st': "dhcp_snp_tbl_item_delete env st p = Some (st', ret)"
    "tbl st' (ms(dhcp_snp_tbl_hash (u_chaddr u) := remove1 p (ms (dhcp_snp_tbl_hash (u_chaddr u))))) (\<lambda>j. remove1 p (ips j))"
    "ret = (if db_delete env (the (items st p)) = CODE_OK then CODE_OK else CODE_ERROR)"
    "binding st' = (binding st)(u_chaddr u := None)"
    "holder st' = (\<lambda>ip. if holder st ip = Some (u_chaddr u) then None else holder st ip)"
    using item_delete_maps [OF t e(1,2), of env] unfolding e(3) by blast
  have "tbl_ok st'" using st'(2) tbl_ok_def by blast
  moreover have "agree (binding st') (holder st')"
    by (rule agree_remove [where D = "{u_chaddr u}" and B = "binding st" and H = "holder st"])
      (use i st'(4,5) in \<open>auto simp: snp_inv_def split: option.splits\<close>)
  ultimately show ?thesis using that [OF st'(1) _ st'(4,3)] by (simp add: snp_inv_def)
qed

lemma refresh_keeps:
  assumes i: "snp_inv st" and len: "length (u_chaddr u) = 6" and s: "u_state u = STATE_BOUND"
    and f: "dhcp_snp_tbl_item_find st u = Some p" "p \<noteq> NULL" and b: "binding st (u_chaddr u) = Some e"
  obtains (refused) st' ret where "dhcp_snp_tbl_refresh_bind env node st u p = Some (st', ret)"
      and "snp_inv st'" and "ret \<noteq> CODE_OK" and "dhcp_snp_u32ip_check (u_ip_addr u) \<noteq> 0 \<or> \<not> answers env"
  | (bound) st' ret it where "dhcp_snp_tbl_refresh_bind env node st u p = Some (st', ret)"
      and "snp_inv st'" and "bound_maps env u e st st'" and "ret = CODE_OK \<or> \<not> answers env"
      and "items st' p = Some it" and "chaddr it = u_chaddr u" and "ip_addr it = u_ip_addr u"
proof -
  obtain ms ips where t: "tbl st ms ips" using i by (auto simp: snp_inv_def tbl_ok_def)
  have p: "p \<in> set (ms (dhcp_snp_tbl_hash (u_chaddr u)))" "entries st p = Some e" "chaddr e = u_chaddr u"
    by (cases rule: item_find_cases [OF t len]; use f b in simp)+
  show ?thesis
  proof (cases rule: refresh_bind_cases [OF t len p, of env node])
    case (1 st' ret)
    then show ?thesis using refused [of st' ret] snp_inv_same i by blast
  next
    case (2 st' ret)
    obtain it where it: "items st' p = Some it" "dhcp_snp_tbl_fill_bind env u e = entry it"
      using entries_item [OF 2(5)] by blast
    have "chaddr it = chaddr (dhcp_snp_tbl_fill_bind env u e)" "ip_addr it = ip_addr (dhcp_snp_tbl_fill_bind env u e)"
      using it(2) by simp_all
    moreover have "snp_inv st'" using 2(3,4) agree_bound [OF _ 2(4) s] i by (simp add: snp_inv_def)
    ultimately show ?thesis using bound [of st' ret it] 2(1,4,6) it(1) p(3) by simp
  qed
qed

lemma aging_keeps:
  assumes "snp_inv st"
  shows "\<exists>st' ret. dhcp_snp_aging_mechanism env st = Some (st', ret) \<and> snp_inv st'"
proof -
  obtain r where r: "age_buckets env [0..<HASH_TABLE_SIZE] st = Some r" "aged_keys env st [0..<HASH_TABLE_SIZE] r"
    using age_buckets_tbl [OF _ distinct_upt, of st] assms unfolding snp_inv_def by blast
  define out where "out = (case r of Inl x \<Rightarrow> x | Inr st \<Rightarrow> (st, 0))"
  have "tbl_ok (fst out) \<and> (\<exists>D. removed D st (fst out))"
  proof (cases r)
    case (Inl x)
    show ?thesis using r(2) unfolding aged_keys_def out_def Inl sum.case by blast
  qed (use r(2) in \<open>auto simp: aged_keys_def out_def\<close>)
  then obtain D where d: "tbl_ok (fst out)" "removed D st (fst out)" by blast
  have "agree (binding (fst out)) (holder (fst out))"
    by (rule agree_remove [where D = D and B = "binding st" and H = "holder st"])
      (use assms d(2) in \<open>simp_all add: snp_inv_def removed_def\<close>)
  then have "snp_inv (fst out)" using d(1) by (simp add: snp_inv_def)
  then show ?thesis using r(1) by (cases out) (auto simp: dhcp_snp_aging_mechanism_def out_def)
qed

subsection \<open>The handlers keep the invariant\<close>

lemma get_item_len [simp]: "length (u_chaddr (fst (dhcp_snp_get_item_from_pkt v i t pk u))) = 6"
  using get_item_length [of v i t pk u] by (metis prod.collapse)

text \<open>A handler that returns a good state.\<close>

definition good_return :: "(snp \<times> u32) option \<Rightarrow> bool" where
  "good_return r \<longleftrightarrow> (\<exists>st ret. r = Some (st, ret) \<and> snp_inv st)"

lemma good_return_Some [simp]: "good_return (Some (st, ret)) \<longleftrightarrow> snp_inv st"
  by (simp add: good_return_def)

lemma good_delete:
  assumes "snp_inv st" and "length (u_chaddr u) = 6" and "dhcp_snp_tbl_item_find st u = Some p" and "p \<noteq> NULL"
  shows "good_return (do { (st, ret) \<leftarrow> dhcp_snp_tbl_item_delete env st p;
           Some (st, if ret \<noteq> CODE_OK then CODE_ERROR else CODE_OK) })"
  using delete_keeps [OF assms, of env] by fastforce

lemma good_refresh:
  assumes "snp_inv st" and "length (u_chaddr u) = 6" and "dhcp_snp_tbl_item_find st u = Some p" and "p \<noteq> NULL"
  shows "good_return (do { (st, ret) \<leftarrow> dhcp_snp_tbl_refresh_bind env node st (u\<lparr>u_state := STATE_BOUND\<rparr>) p;
           Some (st, if ret \<noteq> CODE_OK then CODE_ERROR else CODE_OK) })"
proof -
  let ?u = "u\<lparr>u_state := STATE_BOUND\<rparr>"
  have "tbl_ok st" using assms(1) by (simp add: snp_inv_def)
  then obtain e where b: "binding st (u_chaddr ?u) = Some e"
    by (cases rule: find_cases [of st u]) (use assms in auto)
  have f: "dhcp_snp_tbl_item_find st ?u = Some p" and l: "length (u_chaddr ?u) = 6" using assms by simp_all
  show ?thesis
    by (cases rule: refresh_keeps [OF assms(1) l _ f assms(4) b, of env node]) auto
qed

lemma good_insert:
  assumes "snp_inv st" and "length (u_chaddr u) = 6" and "dhcp_snp_tbl_item_find st u = Some NULL"
  shows "good_return (let (st, q) = dhcp_snp_tbl_item_insert env st (u\<lparr>u_state := STATE_REQUEST\<rparr>) in
           Some (st, if q = NULL then CODE_ERROR else CODE_OK))"
proof -
  let ?u = "u\<lparr>u_state := STATE_REQUEST\<rparr>"
  have "tbl_ok st" using assms(1) by (simp add: snp_inv_def)
  then have "binding st (u_chaddr ?u) = None"
    by (cases rule: find_cases [of st u]) (use assms in auto)
  then have "snp_inv (fst (dhcp_snp_tbl_item_insert env st ?u))"
    using insert_keeps [of st ?u env] assms by (simp add: snp_codes)
  then show ?thesis by (simp add: split_beta)
qed

text \<open>The shape the handlers share: a lookup, then one of the operations on what it found.\<close>

lemma good_lookup:
  assumes i: "snp_inv st" and len: "length (u_chaddr u) = 6"
    and none: "dhcp_snp_tbl_item_find st u = Some NULL \<Longrightarrow> good_return r"
    and some: "\<And>p it. dhcp_snp_tbl_item_find st u = Some p \<Longrightarrow> p \<noteq> NULL \<Longrightarrow> items st p = Some it \<Longrightarrow> good_return (f p it)"
  shows "good_return (do { p \<leftarrow> dhcp_snp_tbl_item_find st u;
            if p = NULL then r else do { it \<leftarrow> items st p; f p it } })"
proof -
  have t: "tbl_ok st" using i by (simp add: snp_inv_def)
  show ?thesis
  proof (cases rule: find_cases [OF t len])
    case 1
    show ?thesis using none [OF 1(1)] 1(1) by simp
  next
    case (2 p it)
    show ?thesis using some [OF 2(1-3)] 2(1-3) by simp
  qed
qed

lemma good_if: "(c \<Longrightarrow> good_return a) \<Longrightarrow> (\<not> c \<Longrightarrow> good_return b) \<Longrightarrow> good_return (if c then a else b)"
  by simp

lemma good_search:
  assumes "snp_inv st" and "length (u_chaddr u) = 6" and "dhcp_snp_tbl_item_find st u = Some NULL \<Longrightarrow> good_return r"
    and "good_return r'"
  shows "good_return (do { p \<leftarrow> dhcp_snp_tbl_item_find st u; if p = NULL then r else r' })"
proof -
  have t: "tbl_ok st" using assms(1) by (simp add: snp_inv_def)
  show ?thesis
  proof (cases rule: find_cases [OF t assms(2)])
    case 1
    show ?thesis using assms(3) [OF 1(1)] 1(1) by simp
  qed (use assms(4) in simp)
qed

lemmas good_operation =
  good_if good_search good_lookup good_delete [unfolded split_beta] good_refresh [unfolded split_beta]
  good_insert [unfolded split_beta Let_def]

lemma good_discovery: "snp_inv st \<Longrightarrow> good_return (dhcp_snp_discovery_process env st v i pk)"
  unfolding dhcp_snp_discovery_process_def split_beta Let_def by (intro good_operation) simp_all

lemma good_request: "snp_inv st \<Longrightarrow> good_return (dhcp_snp_request_process env st v i pk)"
  unfolding dhcp_snp_request_process_def split_beta Let_def by (intro good_operation) simp_all

lemma good_nack: "snp_inv st \<Longrightarrow> good_return (dhcp_snp_nack_process env st v i pk)"
  unfolding dhcp_snp_nack_process_def split_beta Let_def by (intro good_operation) simp_all

lemma good_inform: "snp_inv st \<Longrightarrow> good_return (dhcp_snp_inform_process env node st v i pk)"
  unfolding dhcp_snp_inform_process_def split_beta Let_def by (intro good_operation) simp_all

lemma good_gratuitous: "snp_inv st \<Longrightarrow> good_return (dhcp_snp_gratuitous_arp_process env node st v i fr)"
  unfolding dhcp_snp_gratuitous_arp_process_def split_beta Let_def by (intro good_operation) simp_all

text \<open>A release makes calls first, which leave the tables and so the lookup as they were.\<close>

lemma release_calls:
  "only_calls env st (host_route ROUTE_DEL env node it (release_neigh node it st))"
proof -
  have "same_tbl st (release_neigh node it st)" by (simp add: release_neigh_def)
  then show ?thesis
    using host_route_only_calls [of env "release_neigh node it st" ROUTE_DEL node it] same_tbl_trans
    by (auto simp: only_calls_def split: sum.splits)
qed

lemma find_same: "same_tbl st st' \<Longrightarrow> dhcp_snp_tbl_item_find st' u = dhcp_snp_tbl_item_find st u"
  by (simp add: same_tbl_def dhcp_snp_tbl_item_find_def)

lemma good_release: "snp_inv st \<Longrightarrow> good_return (dhcp_snp_release_process env node st v i pk)"
  unfolding dhcp_snp_release_process_def split_beta Let_def
proof (intro good_operation)
  fix p it
  let ?u = "fst (dhcp_snp_get_item_from_pkt v i RELEASE pk (stack_user env))"
  let ?r = "host_route ROUTE_DEL env node it (release_neigh node it st)"
  assume s: "snp_inv st" and f: "dhcp_snp_tbl_item_find st ?u = Some p" "p \<noteq> NULL"
  note calls = release_calls [of env st node it]
  show "good_return (case ?r of Inl r \<Rightarrow> Some r
     | Inr st \<Rightarrow> dhcp_snp_tbl_item_delete env st p \<bind>
         (\<lambda>x. Some (fst x, if snd x \<noteq> CODE_OK then CODE_ERROR else CODE_OK)))"
  proof (cases ?r)
    case (Inl r)
    then show ?thesis using calls snp_inv_same [of st "fst r"] s by (cases r) (simp add: only_calls_def)
  next
    case (Inr st')
    then have "same_tbl st st'" using calls by (simp add: only_calls_def)
    then show ?thesis
      using good_delete [unfolded split_beta, OF snp_inv_same [OF _ s], of st' ?u p env] f find_same [of st st' ?u] Inr
      by simp
  qed
qed simp_all

lemma good_ack:
  assumes "snpd_inv d"
  shows "\<exists>d' ret. dhcp_snp_ack_process cfg env sends node d v i pk = Some (d', ret) \<and> snpd_inv d'"
proof -
  obtain u ret where u: "dhcp_snp_get_item_from_pkt v i ACK pk zero_user = (u, ret)" by fastforce
  have len: "length (u_chaddr u) = 6" using u get_item_length by blast
  have s: "snp_inv (d_bind d)" "tbl_ok (d_bind d)" "asd_ok (d_asd d)" using assms by (simp_all add: snpd_inv_def snp_inv_def)
  note def = dhcp_snp_ack_process_def u prod.case
  show ?thesis
  proof (cases rule: find_cases [OF s(2) len])
    case 1
    then show ?thesis using assms by (simp add: def)
  next
    case (2 p it)
    let ?u = "u\<lparr>u_state := STATE_BOUND\<rparr>"
    have f: "length (u_chaddr ?u) = 6" "u_state ?u = STATE_BOUND" "dhcp_snp_tbl_item_find (d_bind d) ?u = Some p"
      "binding (d_bind d) (u_chaddr ?u) = Some (entry it)" using 2 len by simp_all
    show ?thesis
    proof (cases rule: refresh_keeps [OF s(1) f(1-3) 2(2) f(4), of env node])
      case (1 st' ret')
      then show ?thesis using 2(1-3) assms by (auto simp: def snpd_inv_def)
    next
      case (2 st' ret' it')
      obtain a' where a': "dhcp_snp_initiative_notify_asd sends (d_asd d) (chaddr it') (ip_addr it') = Some a'" "asd_ok a'"
        using initiative_notify_tbl [OF s(3), of "chaddr it'"] len \<open>chaddr it' = u_chaddr ?u\<close> by fastforce
      have "snp_inv (if notify_portal_enable cfg then dhcp_snp_notify_to_protal (ip_addr it') (chaddr it') st' else st')"
        using \<open>snp_inv st'\<close> snp_inv_same [of st'] by (simp add: dhcp_snp_notify_to_protal_def)
      then show ?thesis
        using 2(1,2,5) \<open>dhcp_snp_tbl_item_find (d_bind d) u = Some p\<close> \<open>p \<noteq> NULL\<close> \<open>items (d_bind d) p = Some it\<close> a' assms
        by (auto simp: def snpd_inv_def Let_def)
    qed
  qed
qed

subsection \<open>Every event keeps the invariant\<close>

lemma good_on_bind: "snpd_inv d \<Longrightarrow> good_return r \<Longrightarrow> \<exists>d' ret. on_bind d r = Some (d', ret) \<and> snpd_inv d'"
  by (auto simp: good_return_def on_bind_def snpd_inv_def)

lemma rx_keeps:
  assumes "snpd_inv d"
  shows "\<exists>d' ret. rx_bindings cfg env sends node d vid ifi pk = Some (d', ret) \<and> snpd_inv d'"
proof -
  have s: "snp_inv (d_bind d)" using assms by (simp add: snpd_inv_def)
  have drop: "\<exists>d' ret. or_drop r = Some (d', ret) \<and> snpd_inv d'"
    if "\<exists>d' ret. r = Some (d', ret) \<and> snpd_inv d'" for r
    using that by (auto simp: or_drop_def)
  note on = good_on_bind [OF assms]
  have h: "\<exists>d' ret. (case t of
          Some DISCOVER \<Rightarrow> on_bind d (dhcp_snp_discovery_process env (d_bind d) vid ifi pk)
        | Some OFFER \<Rightarrow> on_bind d (dhcp_snp_offer_process (d_bind d))
        | Some REQUEST \<Rightarrow> on_bind d (dhcp_snp_request_process env (d_bind d) vid ifi pk)
        | Some ACK \<Rightarrow> dhcp_snp_ack_process cfg env sends node d vid ifi pk
        | Some NAK \<Rightarrow> on_bind d (dhcp_snp_nack_process env (d_bind d) vid ifi pk)
        | Some RELEASE \<Rightarrow> on_bind d (dhcp_snp_release_process env node (d_bind d) vid ifi pk)
        | Some INFORM \<Rightarrow> on_bind d (dhcp_snp_inform_process env node (d_bind d) vid ifi pk)
        | _ \<Rightarrow> Some (d, CODE_OK)) = Some (d', ret) \<and> snpd_inv d'" for t
    using on [OF good_discovery [OF s]] on [OF good_request [OF s]] on [OF good_nack [OF s]]
      on [OF good_release [OF s]] on [OF good_inform [OF s]] good_ack [OF assms]
      on [of "Some (d_bind d, CODE_OK)"] s assms
    by (auto simp: dhcp_snp_offer_process_def split: option.splits dhcp_packet_type.splits)
  show ?thesis
    unfolding rx_bindings_def Let_def using assms drop [OF h] by (auto simp del: packet_type.simps)
qed

lemma find_by_ip_returns:
  assumes "tbl_ok st"
  obtains "dhcp_snp_tbl_item_find_by_ip st ip = Some NULL" and "holder st ip = None"
  | p it where "dhcp_snp_tbl_item_find_by_ip st ip = Some p" and "p \<noteq> NULL" and "items st p = Some it"
      and "holder st ip = Some (chaddr it)"
proof -
  obtain ms ips where t: "tbl st ms ips" using assms tbl_ok_def by blast
  show ?thesis
  proof (cases rule: find_by_ip_cases [OF t, of ip])
    case 1
    then show ?thesis using that(1) by (simp add: holder_def entry_at_def)
  next
    case (2 x e)
    obtain it where it: "items st x = Some it" "e = entry it" using entries_item [OF 2(4)] by blast
    have "holder st ip = Some (chaddr it)" using 2(1,2,4) it(2) by (simp add: holder_def entry_at_def)
    then show ?thesis using that(2) [OF 2(1,2) it(1)] by simp
  qed
qed

text \<open>The search for the end of the options has no bound, so with option 82 enabled a reply has to
  have one.\<close>

definition ends :: "snp_cfg \<Rightarrow> packet \<Rightarrow> bool" where
  "ends cfg fr \<longleftrightarrow> opt82_enable cfg \<longrightarrow> dhcp_snp_end_option (msg_of fr) 240 \<noteq> None"

lemma attach_standalone:
  "dhcp_snp_attach_opt82 dhcp_snp_get_opt82_port_strategy ci ri fr n = Some (fr, n, CODE_ERROR)"
  by (simp add: dhcp_snp_attach_opt82_def dhcp_snp_get_opt82_port_strategy_def CODE_VLAN_PORT_NO_EXIST_def snp_codes)

lemma opt82_step_returns:
  "dhcp_snp_end_option (msg_of fr) 240 \<noteq> None \<Longrightarrow> \<exists>r. opt82_step message fr n = Some r"
  by (auto simp: opt82_step_def attach_standalone split: prod.splits)

lemma rx_process_keeps:
  assumes "snpd_inv d" and "ends cfg fr"
  shows "\<exists>d' r. dhcp_snp_packet_rx_process cfg env sends node d vid ifi fr n = Some (d', r) \<and> snpd_inv d'"
proof -
  obtain d' ret where r: "rx_bindings cfg env sends node d vid ifi (msg_of fr) = Some (d', ret)" "snpd_inv d'"
    using rx_keeps [OF assms(1)] by blast
  show ?thesis
  proof (cases "\<not> snp_status cfg \<or> ret \<noteq> CODE_OK \<or> \<not> opt82_enable cfg")
    case True
    then show ?thesis using r by (auto simp: dhcp_snp_packet_rx_process_def)
  next
    case False
    then have "dhcp_snp_end_option (msg_of fr) 240 \<noteq> None" using assms(2) by (simp add: ends_def)
    then obtain x where "opt82_step (msg_of fr (dhcp_snp_get_option (msg_of fr) MESSAGE_TYPE)) fr n = Some x"
      using opt82_step_returns by blast
    then show ?thesis using r False by (cases x) (simp add: dhcp_snp_packet_rx_process_def)
  qed
qed

text \<open>The stand-alone daemon has no option 82 configuration of its ports: with option 82 enabled, every
  discover and request is reported as one to be dropped.\<close>

lemma opt82_enabled_drops:
  assumes "packet_type message \<in> {Some DISCOVER, Some REQUEST}"
  shows "opt82_step message fr n = Some (fr, n, CODE_PKT_DROP)"
  using assms by (auto simp: opt82_step_def attach_standalone snp_codes)

lemma frame_keeps:
  assumes "snpd_inv d" and "ends cfg fr"
  shows "\<exists>d'. read_frame cfg env sends node ifi fr len d = Some d' \<and> snpd_inv d'"
proof -
  have s: "snp_inv (d_bind d)" "tbl_ok (d_bind d)" using assms(1) by (simp_all add: snpd_inv_def snp_inv_def)
  have g: "\<exists>d' ret. on_bind d (dhcp_snp_gratuitous_arp_process env node (d_bind d) 0xFFFF ifi fr) = Some (d', ret) \<and> snpd_inv d'"
    by (rule good_on_bind [OF assms(1) good_gratuitous [OF s(1)]])
  have a: "\<exists>r. dhcp_snp_arp_request_process cfg env (d_bind d) fr = Some r"
    by (cases rule: find_by_ip_returns [OF s(2), of "ntohl (pkt_bytes fr 38 4)"])
      (simp_all add: dhcp_snp_arp_request_process_def Let_def)
  have r: "\<exists>d'. map_option fst (dhcp_snp_packet_rx_process cfg env sends node d 0xFFFF ifi fr len) = Some d' \<and> snpd_inv d'"
    using rx_process_keeps [OF assms] by fastforce
  have fst: "\<exists>d'. map_option fst x = Some d' \<and> snpd_inv d'" if "\<exists>d' ret. x = Some (d', ret) \<and> snpd_inv d'" for x :: "(snpd \<times> u32) option"
    using that by auto
  have "\<exists>d'. (do { _ \<leftarrow> dhcp_snp_arp_request_process cfg env (d_bind d) fr; Some d }) = Some d' \<and> snpd_inv d'"
    using a assms(1) by auto
  moreover have cond: "\<exists>d'. (if c then x else y) = Some d' \<and> snpd_inv d'"
    if "\<exists>d'. x = Some d' \<and> snpd_inv d'" "\<exists>d'. y = Some d' \<and> snpd_inv d'" for c x y
    using that by simp
  ultimately show ?thesis
    unfolding read_frame_def Let_def using assms(1) fst [OF g] r by (intro cond) auto
qed

lemma aging_round_keeps:
  assumes "snpd_inv d"
  shows "\<exists>d'. aging_round env d = Some d' \<and> snpd_inv d'"
proof -
  have s: "snp_inv (d_bind d)" "asd_ok (d_asd d)" using assms by (simp_all add: snpd_inv_def)
  show ?thesis using aging_keeps [OF s(1), of env] asd_age_all [OF s(2), of env]
    by (auto simp: aging_round_def snpd_inv_def)
qed

lemma asd_message_keeps:
  assumes "snpd_inv d"
  shows "\<exists>d'. asd_message cfg env msg d = Some d' \<and> snpd_inv d'"
proof -
  obtain us where t: "asd_tbl (d_asd d) us" using assms by (auto simp: snpd_inv_def asd_ok_def)
  have "length (ut_chaddr (fill_unresolved_table_from_tableMsg msg)) = 6"
    by (simp add: fill_unresolved_table_from_tableMsg_def)
  then obtain a' r us' where
    "dhcp_snp_add_unresolved_node env (d_asd d) (fill_unresolved_table_from_tableMsg msg) = Some (a', r)" "asd_tbl a' us'"
    using asd_add_tbl [OF t] by blast
  then show ?thesis
    using assms by (auto simp: asd_message_def dhcp_snp_process_asd_interactive_def snpd_inv_def asd_ok_def)
qed

lemma wan_add_keeps:
  assumes "snpd_inv d"
  shows "\<exists>d'. snp_exec1 (Add_wan cfg mem env ip mac ifi) d = Some d' \<and> snpd_inv d'"
proof -
  have s: "tbl_ok (d_bind d)" "agree (binding (d_bind d)) (holder (d_bind d))"
    using assms by (simp_all add: snpd_inv_def snp_inv_def)
  show ?thesis
  proof (cases rule: wan_add_maps [OF s(1), of "snp_status cfg" mem env "d_static d" ip mac ifi])
    case (1 ret)
    then show ?thesis using assms by (simp add: snpd_inv_def)
  next
    case (2 st')
    have "ip_addr f \<noteq> ip" if "binding (d_bind d) m = Some f" "state f = STATE_BOUND" "ip_addr f \<noteq> 0" for m f
      using s(2) that 2(4) unfolding agree_def by force
    then have "agree (binding st') (holder st')"
      using s(2) unfolding 2(5,6) agree_def by auto
    then show ?thesis using assms 2(1,2) by (simp add: snpd_inv_def snp_inv_def)
  qed
qed

lemma wan_del_keeps:
  assumes "snpd_inv d"
  shows "\<exists>d'. snp_exec1 (Del_wan cfg env mac) d = Some d' \<and> snpd_inv d'"
proof -
  have s: "tbl_ok (d_bind d)" "agree (binding (d_bind d)) (holder (d_bind d))"
    using assms by (simp_all add: snpd_inv_def snp_inv_def)
  show ?thesis
  proof (cases rule: wan_del_maps [OF s(1), of "snp_status cfg" env "d_static d" mac])
    case (1 ret)
    then show ?thesis using assms by (simp add: snpd_inv_def)
  next
    case (2 st' ret e)
    have "agree (binding st') (holder st')"
      by (rule agree_remove [where D = "{pkt_bytes mac 0 6}", OF s(2)]) (simp_all add: 2(5,6) split: option.splits)
    then show ?thesis using assms 2(3,4) by (simp add: snpd_inv_def snp_inv_def)
  qed
qed

fun ends_ok :: "snp_event \<Rightarrow> bool" where
  "ends_ok (Frame cfg env sends node ifi fr len) \<longleftrightarrow> ends cfg fr"
| "ends_ok _ \<longleftrightarrow> True"

interpretation daemon: event_loop snp_exec1 snpd_inv ends_ok
proof
  fix d e
  show "snpd_inv d \<Longrightarrow> ends_ok e \<Longrightarrow> \<exists>d'. snp_exec1 e d = Some d' \<and> snpd_inv d'"
    by (cases e) (simp_all add: frame_keeps aging_round_keeps asd_message_keeps wan_add_keeps wan_del_keeps
        del: snp_exec1.simps(4,5))
qed

lemma start_inv: "snpd_inv snp_start"
proof -
  have "tbl dhcp_snp_tbl_initialize (\<lambda>_. []) (\<lambda>_. [])"
    by (simp add: tbl_def dhcp_snp_tbl_initialize_def macs_ok_def ip_ok_def)
  then have t: "tbl_ok dhcp_snp_tbl_initialize" unfolding tbl_ok_def by blast
  have "binding dhcp_snp_tbl_initialize = (\<lambda>_. None)"
    by (auto simp: binding_def entry_at_def dhcp_snp_tbl_initialize_def walk.simps)
  moreover have "asd_tbl (d_asd snp_start) (\<lambda>_. [])" by (simp add: asd_tbl_def snp_start_def reqs_ok_def)
  ultimately show ?thesis using t by (auto simp: snpd_inv_def snp_inv_def agree_def asd_ok_def snp_start_def)
qed

text \<open>The clients whose entry is bound to an address.\<close>

definition bound_clients :: "snp \<Rightarrow> u32 \<Rightarrow> u8 list set" where
  "bound_clients st ip = {m. \<exists>e. binding st m = Some e \<and> state e = STATE_BOUND \<and> ip_addr e = ip \<and> ip \<noteq> 0}"

text \<open>C3: Whatever frames are received, however often the ageing thread runs,
  whatever the access daemon asks and whichever static bindings are entered and removed, in
  any order and with any answers of the kernel, the database and the allocator, every operation returns, without a read through a dangling
  pointer and without an endless loop; and at the end every client bound to an address is the
  one the address index names, so no two clients are bound to the same address, and whoever
  the index names has an entry with that address. The one condition is that, while option 82 is
  enabled, the options of a message have an end, since the search for it has no bound.\<close>

theorem daemon_run_agrees:
  assumes "list_all ends_ok events"
  shows "\<exists>d. exec_all snp_exec1 events snp_start = Some d
     \<and> (\<forall>ip. bound_clients (d_bind d) ip \<subseteq> set_option (holder (d_bind d) ip))
     \<and> (\<forall>ip. set_option (holder (d_bind d) ip) \<subseteq> {m. \<exists>e. binding (d_bind d) m = Some e \<and> ip_addr e = ip})"
proof -
  obtain d where d: "exec_all snp_exec1 events snp_start = Some d" "snpd_inv d"
    using daemon.run_keeps [OF start_inv assms] by blast
  then have "tbl_ok (d_bind d)" "agree (binding (d_bind d)) (holder (d_bind d))"
    by (simp_all add: snpd_inv_def snp_inv_def)
  then show ?thesis using d(1) holder_binding by (auto simp: bound_clients_def agree_def)
qed

subsection \<open>What the messages do\<close>


text \<open>C35: A message for a client without an entry changes nothing, unless it
  is the client's own discover or request: an acknowledgement nobody asked for, a refusal, a
  release or an inform from elsewhere is dropped or passed without a trace in either table.\<close>

theorem unknown_client_ignored:
  assumes "snpd_inv d" and "binding (d_bind d) (take 6 (pkt_chaddr pk)) = None"
    and "packet_type (pk (dhcp_snp_get_option pk MESSAGE_TYPE)) \<notin> {Some DISCOVER, Some REQUEST}"
  shows "\<exists>ret. rx_bindings cfg env sends node d vid ifi pk = Some (d, ret)"
proof -
  have t: "tbl_ok (d_bind d)" using assms(1) by (simp add: snpd_inv_def snp_inv_def)
  have none: "dhcp_snp_tbl_item_find (d_bind d) (fst (dhcp_snp_get_item_from_pkt vid ifi ty pk u)) = Some NULL" for ty u
  proof -
    let ?u = "fst (dhcp_snp_get_item_from_pkt vid ifi ty pk u)"
    have mac: "u_chaddr ?u = take 6 (pkt_chaddr pk)"
      by (simp add: dhcp_snp_get_item_from_pkt_def Let_def)
    show ?thesis by (cases rule: find_cases [OF t get_item_len]) (use assms(2) mac in auto)
  qed
  have d: "d\<lparr>d_bind := d_bind d\<rparr> = d" by simp
  have id: "\<exists>ret. or_drop (on_bind d r) = Some (d, ret)" if "\<exists>ret. r = Some (d_bind d, ret)" for r
    using that by (auto simp: or_drop_def on_bind_def)
  have "\<exists>ret. dhcp_snp_nack_process env (d_bind d) vid ifi pk = Some (d_bind d, ret)"
    "\<exists>ret. dhcp_snp_release_process env node (d_bind d) vid ifi pk = Some (d_bind d, ret)"
    "\<exists>ret. dhcp_snp_inform_process env node (d_bind d) vid ifi pk = Some (d_bind d, ret)"
    "\<exists>ret. dhcp_snp_offer_process (d_bind d) = Some (d_bind d, ret)"
    using none by (simp_all add: dhcp_snp_nack_process_def dhcp_snp_release_process_def
        dhcp_snp_inform_process_def dhcp_snp_offer_process_def split_beta Let_def)
  note h = this [THEN id]
  have a: "\<exists>ret. or_drop (dhcp_snp_ack_process cfg env sends node d vid ifi pk) = Some (d, ret)"
    using none by (simp add: dhcp_snp_ack_process_def split_beta Let_def or_drop_def)
  have "\<exists>ret. or_drop (Some (d, CODE_OK)) = Some (d, ret)" by (simp add: or_drop_def)
  then show ?thesis
    using h a assms(3) unfolding rx_bindings_def Let_def
    by (auto simp del: packet_type.simps split: option.splits dhcp_packet_type.splits)
qed


text \<open>The ARP proxy answers a request for an address exactly when some client
  holds it, and then with that client's hardware address, to the sender of the request.\<close>

theorem arp_proxy_answers:
  assumes "tbl_ok st" and "arp_proxy_enable cfg" and "malloc_ok env"
  shows "dhcp_snp_arp_request_process cfg env st fr =
    Some (map_option (arp_reply fr (ntohl (pkt_bytes fr 38 4))) (holder st (ntohl (pkt_bytes fr 38 4))), CODE_OK)"
  by (cases rule: find_by_ip_returns [OF assms(1), of "ntohl (pkt_bytes fr 38 4)"])
    (simp_all add: dhcp_snp_arp_request_process_def Let_def assms(2,3))

end
