(* ===== verification/SnpScenes.thy ===== *)
theory SnpScenes
  imports SnpRun
begin

text \<open>
  Concrete states and messages of the DHCP snooping daemon, at which the hypotheses of its
  theorems hold: a client that has sent its request, a host entry whose lease has run out, an
  acknowledgement and a release, a frame for the ARP proxy.
\<close>

subsection \<open>A table with one client\<close>

text \<open>Everything enabled, and an interface with neighbours and host routes.\<close>

definition cfg1 :: snp_cfg where
  "cfg1 = \<lparr>snp_status = True, notify_portal_enable = True, arp_proxy_enable = True, opt82_enable = True\<rparr>"

definition node1 :: dhcp_snp_listener where
  "node1 = \<lparr>no_arp = True, add_router = True\<rparr>"

definition mac1 :: "u8 list" where "mac1 = [0x00, 0x1f, 0x64, 0x01, 0x02, 0x03]"

definition env1 :: snp_env where
  "env1 = \<lparr>time0 = 1000, uptime = 50, malloc_ok = True, db_delete = (\<lambda>_. CODE_OK), if_indextoname = (\<lambda>_. True),
     do_ipneigh = (\<lambda>_ _ _ _. CODE_OK), after_mac = (\<lambda>_ _. True), stack_user = zero_user\<rparr>"

text \<open>Later, after the interfaces have gone.\<close>

definition env2 :: snp_env where
  "env2 = env1\<lparr>uptime := 5000, if_indextoname := (\<lambda>_. False)\<rparr>"

definition user1 :: user where
  "user1 = zero_user\<lparr>u_chaddr := mac1, u_haddr_len := 6, u_vlanId := 0xFFFF, u_ifindex := 3, u_lease_time := 60\<rparr>"

definition user2 :: user where
  "user2 = user1\<lparr>u_state := STATE_BOUND, u_ip_addr := 0x0A000005\<rparr>"

definition one_client :: "user \<Rightarrow> snp" where
  "one_client u = fst (dhcp_snp_tbl_item_insert env1 dhcp_snp_tbl_initialize u)"

lemma snp_scene_simps [simp]:
  "length mac1 = 6" "u_chaddr user1 = mac1" "u_chaddr user2 = mac1" "malloc_ok env1" "answers env1"
  "take 6 mac1 = mac1"
  by (simp_all add: mac1_def user1_def user2_def env1_def answers_def)

lemma start_tbl: "tbl_ok dhcp_snp_tbl_initialize" "snp_inv dhcp_snp_tbl_initialize" "asd_ok (d_asd snp_start)"
  using start_inv by (simp_all add: snpd_inv_def snp_inv_def snp_start_def)

lemma start_maps [simp]:
  "binding dhcp_snp_tbl_initialize = (\<lambda>_. None)" "holder dhcp_snp_tbl_initialize = (\<lambda>_. None)"
  by (auto simp: binding_def holder_def entry_at_def dhcp_snp_tbl_item_find_by_ip_def dhcp_snp_tbl_initialize_def walk.simps)

lemma insert_start: "dhcp_snp_tbl_item_insert env1 dhcp_snp_tbl_initialize u = (one_client u, 1)"
  by (simp add: one_client_def dhcp_snp_tbl_item_insert_def Let_def dhcp_snp_tbl_initialize_def)

lemma one_client_maps:
  assumes "u_chaddr u = mac1"
  shows "tbl_ok (one_client u)" "dhcp_snp_tbl_item_find (one_client u) u = Some 1"
    "binding (one_client u) = [mac1 \<mapsto> entry (dhcp_snp_tbl_fill_item env1 u zero_item)]"
    "holder (one_client u) = (\<lambda>_. None)"
  using item_insert_maps [OF start_tbl(1) _ _ _ insert_start, of u] assms by simp_all

lemma one_client_inv: "u_chaddr u = mac1 \<Longrightarrow> u_state u \<noteq> STATE_BOUND \<Longrightarrow> snp_inv (one_client u)"
  using insert_keeps [OF start_tbl(2), of u env1] by (simp add: one_client_def)

subsection \<open>Table operations\<close>

theorem item_insert_refines_witness:
  "tbl_ok (one_client user1) \<and> binding (one_client user1) mac1 \<noteq> None"
  using item_insert_refines [OF start_tbl(1) _ _ _ insert_start, of user1] by simp

theorem item_delete_refines_witness:
  "\<exists>st ret. dhcp_snp_tbl_item_delete env1 (one_client user1) 1 = Some (st, ret) \<and> binding st mac1 = None"
  using item_delete_refines [OF one_client_maps(1) [OF snp_scene_simps(2)], of user1 1 env1]
    one_client_maps(2) [OF snp_scene_simps(2)] by auto

lemma valid_address: "dhcp_snp_u32ip_check 0x0A000005 = 0"
  by (simp add: dhcp_snp_u32ip_check_def in_net_iff)

lemma find_mac: "u_chaddr u = u_chaddr v \<Longrightarrow> dhcp_snp_tbl_item_find st u = dhcp_snp_tbl_item_find st v"
  by (simp add: dhcp_snp_tbl_item_find_def)

theorem refresh_bind_refines_witness:
  "\<exists>st. dhcp_snp_tbl_refresh_bind env1 node1 (one_client user1) user2 1 = Some (st, CODE_OK)
     \<and> holder st 0x0A000005 = Some mac1"
proof -
  note m = one_client_maps [of user1, simplified]
  have f: "dhcp_snp_tbl_item_find (one_client user1) user2 = Some 1" using m(2) find_mac [of user2 user1] by simp
  have b: "binding (one_client user1) (u_chaddr user2) = Some (entry (dhcp_snp_tbl_fill_item env1 user1 zero_item))"
    using m(3) by simp
  show ?thesis
    using refresh_bind_refines [OF m(1) _ f _ b, of env1 node1] valid_address
    by (auto simp: bound_maps_def user2_def)
qed

subsection \<open>Ageing\<close>

lemma host_entry:
  "expired env2 (entry (dhcp_snp_tbl_fill_item env1 u zero_item)) \<longleftrightarrow> u_bind_type u = TYPE_DYNAMIC \<and> 50 + u_lease_time u < 5000"
  by (simp add: expired_def dhcp_snp_tbl_fill_item_def env1_def env2_def)

theorem aging_removes_expired_witness:
  "\<exists>st. dhcp_snp_aging_mechanism env2 (one_client user1) = Some (st, 0) \<and> binding st mac1 = None"
proof -
  note m = one_client_maps [of user1, simplified]
  have "\<not> stuck env2 e" if "binding (one_client user1) k = Some e" for k e
    using that m(3) by (auto simp: stuck_def user1_def zero_user_def dhcp_snp_tbl_fill_item_def split: if_splits)
  then show ?thesis
    using aging_removes_expired [OF m(1), of env2] m(3) host_entry [of user1]
    by (auto simp: user1_def zero_user_def snp_codes)
qed

theorem aging_blocked_witness:
  "\<exists>st. dhcp_snp_aging_mechanism env2 (one_client user2) = Some (st, CODE_ERROR) \<and> binding st mac1 \<noteq> None"
proof -
  note m = one_client_maps [of user2, simplified]
  let ?e = "entry (dhcp_snp_tbl_fill_item env1 user2 zero_item)"
  have "stuck env2 ?e"
    unfolding stuck_def host_entry
    by (simp add: user2_def user1_def zero_user_def snp_codes host_bound_def dhcp_snp_tbl_fill_item_def env2_def)
  then show ?thesis using aging_blocked [OF m(1), of mac1 ?e env2] m(3) by auto
qed

subsection \<open>Waiting requests\<close>

definition sta1 :: sta_msg where
  "sta1 = \<lparr>BSSIndex = 7, vrrid = 1, local_hansi = 1, STAMAC = (\<lambda>i. mac1 ! i)\<rparr>"

definition asked :: asd where
  "asked = fst (the (dhcp_snp_add_unresolved_node env1 (d_asd snp_start) (fill_unresolved_table_from_tableMsg sta1)))"

lemma sta1_mac [simp]: "ut_chaddr (fill_unresolved_table_from_tableMsg sta1) = mac1"
  by (simp add: fill_unresolved_table_from_tableMsg_def sta1_def pkt_bytes_def mac1_def upt_rec)

lemma asked_maps: "asd_ok asked" "\<exists>n. waiting asked mac1 = Some n \<and> ut_expired n = 350"
proof -
  obtain us where t: "asd_tbl (d_asd snp_start) us" using start_tbl(3) asd_ok_def by blast
  have "asd_ok asked \<and> (\<exists>n. waiting asked mac1 = Some n \<and> ut_expired n = 350)"
    using asd_add_tbl [OF t, of "fill_unresolved_table_from_tableMsg sta1" env1]
    by (auto simp: asked_def asd_ok_def env1_def TBL_EXPIRED_TIME_def)
  then show "asd_ok asked" "\<exists>n. waiting asked mac1 = Some n \<and> ut_expired n = 350" by simp_all
qed

theorem asd_aging_exact_witness:
  "\<exists>a. dhcp_snp_asd_table_aging_mechanism env2 asked = Some a \<and> waiting a mac1 = None"
proof -
  obtain n where n: "waiting asked mac1 = Some n" "ut_expired n = 350" using asked_maps(2) by blast
  show ?thesis using asd_aging_exact [OF asked_maps(1), of env2] n by (auto simp: env2_def)
qed

theorem asd_request_answered_witness:
  "\<exists>a u. dhcp_snp_initiative_notify_asd (\<lambda>_. True) asked mac1 0x0A000005 = Some a
     \<and> ut_sent a = ut_sent asked @ [u] \<and> ut_ipaddr u = 0x0A000005 \<and> waiting a mac1 = None"
proof -
  obtain n where n: "waiting asked mac1 = Some n" using asked_maps(2) by blast
  have "ut_ipaddr u = ip" if "request u = n\<lparr>ut_ipaddr := ip\<rparr>" for u ip
    using arg_cong [OF that, of ut_ipaddr] by (simp add: request_def)
  then show ?thesis
    using asd_request_answered [OF asked_maps(1), of mac1 "\<lambda>_. True" "0x0A000005"] n by auto
qed

subsection \<open>Messages\<close>

text \<open>The options of a message, in a message of the client: a server's reply or the client's.\<close>

definition message :: "u8 \<Rightarrow> opt list \<Rightarrow> packet" where
  "message op os = write_bytes (write_bytes (write_bytes (write_bytes (\<lambda>_. 0) 0 [op, 1, 6]) 16 [10, 0, 0, 5]) 28 mac1)
     240 (enc os @ [0xFF])"

definition ack_opts :: "opt list" where
  "ack_opts = [Opt 0x35 [5], Opt 0x33 [0, 0, 0x0e, 0x10]]"

lemma message_fields [simp]:
  "pkt_op (message op os) = op" "pkt_hlen (message op os) = 6" "pkt_yiaddr (message op os) = [10, 0, 0, 5]"
  "take 6 (pkt_chaddr (message op os)) = mac1" "holds_bytes (message op os) 240 (enc os @ [0xFF])"
  by (simp_all add: message_def write_bytes_def pkt_op_def pkt_hlen_def pkt_yiaddr_def pkt_chaddr_def pkt_bytes_def
      upt_rec mac1_def holds_bytes_iff del: holds_bytes_append holds_bytes_Cons)

lemma option_value:
  assumes "list_all (passed code) os" and "length d < 256" and "length (enc os) + 1 + length d < 1500"
  shows "dhcp_snp_get_option (message op (os @ Opt code d # os')) code = 240 + length (enc os) + 2"
    and "holds_bytes (message op (os @ Opt code d # os')) (240 + length (enc os) + 2) d"
proof -
  let ?m = "message op (os @ Opt code d # os')"
  have h: "holds_bytes ?m 240 (enc (os @ Opt code d # os') @ [0xFF])" by (rule message_fields(5))
  then show "holds_bytes ?m (240 + length (enc os) + 2) d" by simp
  have "opt_find ?m code OPTION_FIELD 0 0 = At OPTION_FIELD (length (enc os))"
    using opt_find_enc [OF assms(1,2), where pk = ?m and i = 0 and over = 0] h assms(3) by simp
  then show "dhcp_snp_get_option ?m code = 240 + length (enc os) + 2"
    using opt_scan_find [of ?m code OPTION_FIELD 0 0] by (simp add: dhcp_snp_get_option_def same_hit_def)
qed

lemma four: "Suc (Suc (Suc (Suc 0))) = 4"
  by simp

lemma ack_lease:
  "dhcp_snp_get_option (message 2 ack_opts) LEASE_TIME = 245" "pkt_bytes (message 2 ack_opts) 245 4 = [0, 0, 0x0e, 0x10]"
proof -
  note v = option_value [of LEASE_TIME "[Opt 0x35 [5]]" "[0, 0, 0x0e, 0x10]" 2 "[]", folded ack_opts_def]
  have *: "Opt LEASE_TIME [0, 0, 0x0e, 0x10] = Opt 0x33 [0, 0, 0x0e, 0x10]" by (simp add: LEASE_TIME_def)
  show "dhcp_snp_get_option (message 2 ack_opts) LEASE_TIME = 245" "pkt_bytes (message 2 ack_opts) 245 4 = [0, 0, 0x0e, 0x10]"
    using v unfolding ack_opts_def * by (simp_all add: LEASE_TIME_def holds_bytes_def four)
qed

definition ack_user :: user where
  "ack_user = zero_user\<lparr>u_vlanId := 0xFFFF, u_haddr_len := 6, u_chaddr := mac1, u_ifindex := 3,
     u_ip_addr := 0x0A000005, u_lease_time := 3600\<rparr>"

lemma ack_item: "dhcp_snp_get_item_from_pkt 0xFFFF 3 ACK (message 2 ack_opts) zero_user = (ack_user, CODE_OK)"
proof -
  have "ntohl [10, 0, 0, 5] = 0x0A000005" "ntohl [0, 0, 0x0e, 0x10] = 3600"
    by (simp_all add: ntohl_def be32_def be16_def)
  then show ?thesis
    by (simp add: dhcp_snp_get_item_from_pkt_def ack_lease BOOTREPLY_def Let_def ack_user_def)
qed

text \<open>The client has sent its request, and the access daemon has asked for it.\<close>

definition requested :: snpd where
  "requested = \<lparr>d_bind = one_client user1, d_asd = asked, d_static = []\<rparr>"

lemma requested_inv: "snpd_inv requested"
  using one_client_inv [of user1] asked_maps(1)
  by (simp add: requested_def snpd_inv_def user1_def zero_user_def snp_codes)

lemma requested_binding: "binding (d_bind requested) mac1 = Some (entry (dhcp_snp_tbl_fill_item env1 user1 zero_item))"
  using one_client_maps(3) [of user1] by (simp add: requested_def)


theorem unknown_client_ignored_witness:
  "\<exists>ret. rx_bindings cfg1 env1 (\<lambda>_. True)
       node1 snp_start 0xFFFF 3 (message 2 ack_opts) = Some (snp_start, ret)"
proof -
  have "dhcp_snp_get_option (message 2 ack_opts) MESSAGE_TYPE = 242" "message 2 ack_opts 242 = 5"
    using option_value [of MESSAGE_TYPE "[]" "[5]" 2 "[Opt 0x33 [0, 0, 0x0e, 0x10]]"]
    by (simp_all add: ack_opts_def MESSAGE_TYPE_def)
  then show ?thesis
    by (intro unknown_client_ignored [OF start_inv]) (simp_all add: snp_start_def)
qed


theorem arp_proxy_answers_witness:
  "dhcp_snp_arp_request_process cfg1 env1
     dhcp_snp_tbl_initialize (\<lambda>_. 9) = Some (None, CODE_OK)"
  using arp_proxy_answers [OF start_tbl(1), of cfg1 env1 "\<lambda>_. 9"]
  by (simp add: cfg1_def)

theorem get_option_in_field_witness:
  "pkt_bytes (message 2 ack_opts) 243 2 = [0x33, 4] \<and> 245 + 4 \<le> area_base OPTION_FIELD + area_len OPTION_FIELD
     \<and> (\<exists>b. area_base b + 2 \<le> 245 \<and> message 2 ack_opts (245 - 2) = LEASE_TIME
          \<and> 245 + unat (message 2 ack_opts (245 - 1)) \<le> area_base b + area_len b)"
proof -
  have "holds_bytes (message 2 ack_opts) 240 (enc ack_opts @ [0xFF])" by (rule message_fields(5))
  then have "pkt_bytes (message 2 ack_opts) 243 2 = [0x33, 4]" by (simp add: ack_opts_def pkt_bytes_def upt_rec)
  then show ?thesis using get_option_in_field [OF ack_lease(1)] by simp
qed

subsection \<open>Static bindings and option 82\<close>

theorem static_binding_roundtrip_witness:
  "\<exists>st1 l1 st2 ret. dhcp_snp_dbus_add_wan_bind_table True True env1 dhcp_snp_tbl_initialize [] 0x0A000005 (\<lambda>i. of_nat i) 3
       = Some (st1, l1, CODE_OK) \<and> dhcp_snp_dbus_del_wan_bind_table True env1 st1 l1 (\<lambda>i. of_nat i) = Some (st2, [], ret)"
  using static_binding_roundtrip [OF start_tbl(1), of env1 "0x0A000005" 3 "\<lambda>i. of_nat i" "[]"] by auto

theorem attach_opt82_found_witness:
  "\<exists>pk. dhcp_snp_attach_opt82_string (message 1 [Opt 0x35 [1]]) [0x52, 3, 1, 1, 9] = Some (pk, CODE_OK)
     \<and> holds_bytes pk (dhcp_snp_get_option pk 0x52) [1, 1, 9]"
proof -
  have h: "holds_bytes (message 1 [Opt 0x35 [1]]) 240 (enc [Opt 0x35 [1]] @ [0xFF])" by (rule message_fields(5))
  show ?thesis using attach_opt82_found [OF h, of "[1, 1, 9]"] by auto
qed

theorem remove_opt82_wrong_length_witness:
  "\<exists>pk. dhcp_snp_remove_opt82 (message 1 [Opt 0x35 [1], Opt 0x52 [1, 1, 9]]) 0x52 8 = (pk, Some 3, CODE_OK)"
proof -
  have h: "holds_bytes (message 1 [Opt 0x35 [1], Opt 0x52 [1, 1, 9]]) 240 (enc (Opt 0x35 [1] # [] @ [Opt 0x52 [1, 1, 9]] @ []) @ [0xFF])"
    using message_fields(5) [of 1 "[Opt 0x35 [1], Opt 0x52 [1, 1, 9]]"] by (simp del: message_fields(5))
  show ?thesis using remove_opt82_wrong_length [OF h, of 8] by simp
qed

text \<open>A frame with such a message, with a UDP checksum.\<close>

definition frame :: "u8 \<Rightarrow> opt list \<Rightarrow> packet" where
  "frame op os = with_msg (write_bytes (write_bytes (write_bytes (\<lambda>_. 0) 12 [0x08, 0x00, 0x45]) 23 [17])
     34 ([0, 0x44, 0, 0x43] @ htons (of_nat (249 + length (enc os))) @ [0x12, 0x34])) (message op os)"

lemma frame_fields [simp]:
  "msg_of (frame op os) = message op os"
  "pkt_bytes (frame op os) 38 2 = htons (of_nat (249 + length (enc os)))" "pkt_bytes (frame op os) 40 2 = [0x12, 0x34]"
  by (simp_all add: frame_def msg_of_def with_msg_def write_bytes_def pkt_bytes_def upt_rec htons_def)


text \<open>The client asks, the server acknowledges, and the table is aged.\<close>

definition events1 :: "snp_event list" where
  "events1 = [Frame cfg1 env1 (\<lambda>_. True) node1 3 (frame 1 [Opt 0x35 [3]]) 295,
     Frame cfg1 env1 (\<lambda>_. True) node1 3 (frame 2 ack_opts) 301, Aging_tick env1]"

theorem daemon_run_agrees_witness:
  "\<exists>d. exec_all snp_exec1 events1 snp_start = Some d
     \<and> (\<forall>ip. bound_clients (d_bind d) ip \<subseteq> set_option (holder (d_bind d) ip))"
proof -
  have e: "dhcp_snp_end_option (message op os) 240 = Some (length (enc os))" if "list_all opt_ok os" for op os
    by (rule end_option_enc [OF message_fields(5) that])
  have "list_all ends_ok events1" by (simp add: events1_def ends_def e ack_opts_def)
  then show ?thesis using daemon_run_agrees by blast
qed

end
