(* ===== verification/Spec2Isabelle.thy ===== *)
theory Spec2Isabelle
  imports Prelude StpMigrate StpEdge StpP2p StpPcost StpSttrans StpRoletrns StpTopoch StpRolesel
    StpPortinfo StpReceive StpTransmit StpRoundtrip StpPort StpStpm StpShape StpMd5 StpMgmt StpVlan
    StpDelete StpIn StpParam StpSave StpReset StpScenes StpMgmtScenes StpParamScenes
    SnpHeap SnpTbl SnpBind SnpAge SnpOpt SnpOpt82 SnpHdr SnpStatic SnpAsd SnpPkt SnpRun SnpScenes
begin

text \<open>
  \<^bold>\<open>The program.\<close> The repository holds the daemons of a network access controller and switch
  family. Two of them are verified here. \<open>src/stpsuit/src\<close> is the Multiple Spanning Tree daemon: it takes
  BPDUs from the switch ports, runs the state machines of IEEE 802.1w/802.1s for every port of
  every spanning tree instance, tells the switch chip which ports discard, learn and forward, and
  sends BPDUs. Instance 0 is the CIST, instances 1 to 64 are MSTIs. \<open>src/dhcp-snooping/src/lib\<close> is the DHCP
  snooping daemon: it watches the DHCP messages that pass, keeps a table of which client (hardware
  address) is bound to which IP address, and tells the kernel and the access daemon about it.

  \<^bold>\<open>How the parts of the spanning tree daemon interact.\<close> A frame enters through \<open>stp_port_rx_bpdu\<close> (header check, then the frame
  becomes the current BPDU), and \<open>stp_stpm_mst_update\<close> runs the Port Receive machine, then the machines
  of all instances until none wants to move, then the Port Transmit machines. The clock enters
  through \<open>stp_stpm_one_second\<close>, which lowers the timers and runs the same update. Management enters
  through \<open>stp_in.c\<close>: it validates and stores the configuration, adds ports to instances, and moves VLANs
  between instances, which \<open>stp_mgmt.c\<close> creates and deletes on the way; the digest of the VLAN table, which
  two bridges compare to find out whether they are in one region, comes from \<open>stp_md5.c\<close>.

  \<^bold>\<open>How the parts of the snooping daemon interact.\<close> The listener thread reads a frame, finds out whether it is
  gratuitous ARP, an ARP request or DHCP (\<open>dhcp_snp_listener.c\<close>), and calls the handler
  (\<open>dhcp_snp_packet_rx_process\<close> of \<open>dhcp_snp_com.c\<close>, which reads the message type with the option scanner and
  switches to the handlers of \<open>dhcp_snp_pkt.c\<close>). The handlers work on the binding table of \<open>dhcp_snp_tbl.c\<close>: a discover
  or request enters a client, an acknowledgement binds its address, a refusal or release removes it.
  When an address is bound the access daemon, which asks for the addresses of its stations through a
  thread of its own, is told. The ageing thread sweeps the bindings and the waiting requests, and
  D-Bus commands enter and remove static bindings. All of them hold the mutex of the table while they work,
  so the daemon is a sequence of events.

  \<^bold>\<open>The theories of the spanning tree daemon.\<close>
  \<^item> \<open>Prelude\<close>: bytes, words, network byte order, \<open>memcmp\<close>.
  \<^item> \<open>StpBpdu\<close> (\<open>stp_bpdu.h\<close>): the packed structs, as records with their byte layout, and the views of a
    byte sequence the code takes by casting.
  \<^item> \<open>StpVector\<close> (\<open>stp_vector.c\<close>, \<open>stp_times.c\<close>): priority vectors and timer values; the comparisons are
    instances of the locales \<open>priority_order\<close> and \<open>keyed_compare\<close>, which give the lexicographic order.
  \<^item> \<open>StpBitmap\<close> (\<open>stp_bitmap.c\<close>): port bitmaps and their product-dependent positions.
  \<^item> \<open>StpStatmch\<close> (\<open>stp_statmch.c\<close>): the engine. The loop \<open>stp_statmch_change_state\<close> may run for ever, so it is
    a \<open>partial_function\<close> whose value \<open>None\<close> is not returning; the locale \<open>progressing_machine\<close> says what a
    machine has to provide (an invariant and a decreasing rank) for it to return.
  \<^item> \<open>StpWorld\<close> (\<open>stp_port.h\<close>, \<open>stp_stpm.h\<close>, lookup functions): \<open>PORT_T\<close>, \<open>STPM_T\<close> and the record \<open>world\<close> of heaps,
    globals and the trace \<open>out\<close> of what leaves the daemon. A null pointer that the code follows sets
    \<open>fault\<close>.
  \<^item> \<open>StpTo\<close> (\<open>stp_to.c\<close>): link state, speed, duplex mode, defaults, sending.
  \<^item> \<open>StpMigrate\<close>, \<open>StpEdge\<close>, \<open>StpP2p\<close>, \<open>StpPcost\<close>, \<open>StpSttrans\<close>, \<open>StpRoletrns\<close>, \<open>StpTopoch\<close>, \<open>StpRolesel\<close>, \<open>StpPortinfo\<close>: one
    machine each, with the file of the same name; each interprets \<open>progressing_machine\<close> on the model of its
    enter and check functions, so each returns, with the stated exceptions.
  \<^item> \<open>StpReceive\<close> (\<open>stp_receive.c\<close>, the reception entry of \<open>stp_portinfo.c\<close>, the header check of \<open>stp_in.c\<close>) and
    \<open>StpTransmit\<close> (\<open>stp_transmit.c\<close>): the machines at the wire.
  \<^item> \<open>StpRoundtrip\<close>: what a bridge of the same region decodes from a frame is what the sender encoded.
  \<^item> \<open>StpPort\<close> (\<open>stp_port.c\<close>): port objects; the locale \<open>port_store\<close> is the contract of adding and finding ports.
  \<^item> \<open>StpStpm\<close> (\<open>stp_stpm.c\<close>): instances, the update loops and the clock; the locale \<open>quiet_machine\<close> says that a
    machine that does not move changes nothing but the trace, and every machine is an interpretation.
  \<^item> \<open>StpShape\<close>: what the machines never touch (lists, tables, VLAN maps, configuration) as the projection
    \<open>shape\<close>; the locale \<open>shape_machine\<close> asks it of the enter and check functions of one machine, every machine
    is an interpretation, and the update loops and the clock inherit it.
  \<^item> \<open>StpMd5\<close> (\<open>stp_md5.c\<close>): the digest code, shown equal to a reference definition of MD5 over whole messages.
  \<^item> \<open>StpMgmt\<close> (\<open>stp_mgmt.c\<close>): VLAN maps, instances, the configuration digest, the reports. \<open>StpVlan\<close> has the invariant
    of the VLAN mapping and shows that moving a VLAN refines an update of the mapping; \<open>StpDelete\<close> treats the
    functions that delete everything.
  \<^item> \<open>StpIn\<close> (\<open>stp_in.c\<close>): the entry points and the validation of configurations.
  \<^item> \<open>StpParam\<close> (\<open>stp_param.c\<close>): the setters behind the commands of the user; \<open>StpSave\<close>: the text of the running
    configuration, whose lines reproduce the VLAN mapping, and its size against the buffer; \<open>StpReset\<close>: what a
    setter does to the CIST and what the reset to the defaults achieves. \<open>qsort\<close> is a parameter, since the code calls
    it with a comparison that is no order; the theorems ask only that it permutes.
  \<^item> \<open>StpScenes\<close>, \<open>StpMgmtScenes\<close>, \<open>StpParamScenes\<close>: concrete bridges to which the properties are applied.

  \<^bold>\<open>The theories of the snooping daemon.\<close>
  \<^item> \<open>SnpHeap\<close>: linked lists in a heap of C objects; the locale \<open>linked\<close> is the contract of a link field, interpreted for
    both links of an entry and for that of a waiting request.
  \<^item> \<open>SnpTbl\<close> (\<open>dhcp_snp_tbl.c\<close>): the entries and the two hash tables; \<open>tbl_ok\<close> is the invariant that relates the
    chains, and the table refines two maps, \<open>binding\<close> from hardware addresses to entries and \<open>holder\<close> from IP addresses to
    hardware addresses.
  \<^item> \<open>SnpBind\<close> (\<open>dhcp_snp_tbl_refresh_bind\<close>): binding an address, shown to refine an update of the two maps.
  \<^item> \<open>SnpAge\<close> (\<open>dhcp_snp_aging_mechanism\<close>): what an ageing pass removes, and what makes it stop for ever.
  \<^item> \<open>SnpOpt\<close>, \<open>SnpOpt82\<close> (\<open>dhcp_snp_get_option\<close>, \<open>dhcp_snp_get_item_from_pkt\<close>, \<open>dhcp_snp_options.c\<close>): the option scanner ends and
    stays in its field, appending and reading option 82. \<open>SnpHdr\<close> (\<open>dhcp_snp_attach_opt82\<close>, \<open>dhcp_snp_checksum\<close>): option 82
    in a frame, whose lengths and checksums are right afterwards.
  \<^item> \<open>SnpStatic\<close>: static bindings; \<open>SnpAsd\<close>: the waiting requests of the access daemon, a map from hardware
    addresses to requests.
  \<^item> \<open>SnpPkt\<close>: the frame checks, the handlers, the threads, and the events of the daemon; \<open>SnpRun\<close>: the locale \<open>event_loop\<close>
    (an invariant that every event keeps holds after every run), interpreted for the daemon, and what the
    handlers do to the maps.
  \<^item> \<open>SnpScenes\<close>: concrete tables and messages to which the properties are applied.

  \<^bold>\<open>Conventions.\<close> A pointer to a port or an instance is a key of a heap; the linked lists are HOL lists of
  such keys. \<open>unsigned char\<close>, \<open>unsigned short\<close> and \<open>unsigned int\<close> (and \<open>long\<close>, the target being 32 bit) are
  words of 8, 16 and 32 bits with wrap-around; a difference stored in an \<open>int\<close> is \<open>sint\<close> of the word. An
  uninitialised local is a parameter (\<open>stack_byte\<close>, \<open>stack_int\<close>, \<open>stack_no\<close>, \<open>stack\<close>, \<open>ctx\<close>). What the operating system answers is the
  record \<open>os_env\<close>. Debug output (\<open>STP_DBG\<close> traces, \<open>stp_syslog_dbg\<close>) is left out. The build's options
  \<open>STRONGLY_SPEC_802_1W\<close> and \<open>STP_DBG\<close> are taken as set.

  In the snooping daemon pointers matter, since entries are on two lists at once, so its objects are in
  a heap: a partial map from addresses to records, from which \<open>free\<close> takes the object. Allocation gives a new address,
  or fails when the environment says so. A read through a dangling pointer and a loop that does not end are both
  \<open>None\<close>. What the operating system answers is the record \<open>snp_env\<close>: the clocks, whether memory is available, the
  results of the database and of netlink, whether an interface exists, and the contents of uninitialised or
  overrun memory; whether a message to the access daemon gets out is the parameter \<open>sends\<close>. Calls into the kernel and to
  the captive portal are appended to the trace \<open>calls\<close>. The host is taken to be big endian, as the frame checks of the code,
  which compare fields of the frame without conversion, require, and \<open>char\<close> to be signed, as on the MIPS target of the
  makefile. A message is the memory from its first byte
  on, so that the code may read past its end.

  \<^bold>\<open>Not modelled.\<close> The display functions of \<open>stp_mgmt.c\<close>; the command line, D-Bus,
  log and socket files of the spanning tree daemon (I/O). Of the snooping daemon: the IPv6 tables and
  the DHCPv6 handlers, which copy the IPv4 ones; the option 82 configuration of ports, which is compiled only
  into another daemon (the strategy and the identifiers of a port are arguments of the model); the D-Bus commands
  that show and configure; netlink, ebtables, the database and the log, whose calls are recorded or whose
  answers are parameters. The other daemons of the repository (VRRP, IGMP snooping, captive portal, wireless controller,
  hardware management), which are programs of their own and mostly D-Bus, socket and database glue, and its vendored third-party
  packages.
\<close>

end
